(* ===== verification/Prelude.thy ===== *)
theory Prelude
  imports Main "HOL-Library.Char_ord" "HOL-Library.List_Lexorder" "HOL-Library.Product_Lexorder"
    "HOL-Library.Word" "HOL-Library.AList" "HOL-Library.Sublist"
begin

text \<open>
  Shared vocabulary of the Tintwire development.

  \<^item> Error values: the sentinel errors of the Go packages as constructors of one datatype.
  \<^item> The database session: every store operation is a function on a world that holds the
    database and a schedule of engine faults.  Each SQL statement, each \<open>BeginTx\<close> and each
    \<open>Commit\<close> consumes one entry of the schedule; an entry \<open>True\<close> makes that call return an error,
    an empty schedule is a healthy engine.  A transaction that does not commit leaves the database
    as it found it.  \<open>sat\<close> is the proof interface: a postcondition that holds for every schedule.
  \<^item> SQL statements on tables, which are lists of row records.
  \<^item> The functions of the Go standard library that the sources use on strings and time.
\<close>

section \<open>Collections of facts\<close>

named_theorems sat_intro \<open>rules that compute a postcondition over every fault schedule\<close>
named_theorems keeps_intro \<open>rules that show an invariant of the database is kept\<close>
named_theorems sql_simps \<open>equations of the statements and of a healthy run\<close>

section \<open>Errors\<close>

datatype constraint = UniqueViolation | ForeignKeyViolation | CheckViolation

datatype err =
    ErrWebhookNotFound
  | ErrWebhookChannelDenied
  | ErrChannelNotFound
  | ErrNotificationNotFound
  | ErrInvalidCredentials
  | ErrImportConflict
  | ErrForbidden
  | ErrInvalidTransition
  | ErrAlreadyExists
  | ErrOIDCDesktopCancelled
  | ErrMessageNotFound
  | ErrAgentNotFound
  | ErrRunNotFound
  | ErrReplicationGap
  | ErrReplicationQuarantined
  | ErrNoRows
  | ErrConstraint constraint
  | ErrDatabase
  | ErrText string
  | ErrWrap err string

text \<open>\<open>fmt.Errorf("%w: text", err)\<close> wraps an error; \<open>errors.Is\<close> looks through the wrapping.\<close>

fun errorsIs :: "err \<Rightarrow> err \<Rightarrow> bool" where
  "errorsIs target (ErrWrap e text) \<longleftrightarrow> target = ErrWrap e text \<or> errorsIs target e"
| "errorsIs target e \<longleftrightarrow> target = e"

abbreviation import_conflict :: "string \<Rightarrow> err" where
  "import_conflict text \<equiv> ErrWrap ErrImportConflict text"

section \<open>Database sessions with engine faults\<close>

record 'd world =
  wdb :: 'd
  faults :: "bool list"

type_synonym ('d, 'a) sql = "'d world \<Rightarrow> (err + 'a) \<times> 'd world"

text \<open>A session with a healthy engine.\<close>

abbreviation up :: "'d \<Rightarrow> 'd world" where
  "up d \<equiv> \<lparr>wdb = d, faults = []\<rparr>"

definition returnM :: "'a \<Rightarrow> ('d, 'a) sql" where
  "returnM a w = (Inr a, w)"

definition failM :: "err \<Rightarrow> ('d, 'a) sql" where
  "failM e w = (Inl e, w)"

definition bindM :: "('d, 'a) sql \<Rightarrow> ('a \<Rightarrow> ('d, 'b) sql) \<Rightarrow> ('d, 'b) sql" where
  "bindM m f w = (case m w of (Inl e, w') \<Rightarrow> (Inl e, w') | (Inr a, w') \<Rightarrow> f a w')"

text \<open>Code that inspects the error of a call: both outcomes continue.\<close>

definition tryM :: "('d, 'a) sql \<Rightarrow> (err + 'a \<Rightarrow> ('d, 'b) sql) \<Rightarrow> ('d, 'b) sql" where
  "tryM m f w = (case m w of (r, w') \<Rightarrow> f r w')"

definition whenM :: "bool \<Rightarrow> ('d, unit) sql \<Rightarrow> ('d, unit) sql" where
  "whenM b m = (if b then m else returnM ())"

definition stmt :: "('d \<Rightarrow> err + 'a \<times> 'd) \<Rightarrow> ('d, 'a) sql" where
  "stmt f w =
     (if faults w \<noteq> [] \<and> hd (faults w) then (Inl ErrDatabase, w\<lparr>faults := tl (faults w)\<rparr>)
      else case f (wdb w) of
             Inl e \<Rightarrow> (Inl e, w\<lparr>faults := tl (faults w)\<rparr>)
           | Inr (a, d) \<Rightarrow> (Inr a, \<lparr>wdb = d, faults = tl (faults w)\<rparr>))"

text \<open>How the body of a transaction ends: \<open>tx.Commit()\<close> and a result, a result without a commit
  (the deferred \<open>tx.Rollback()\<close> then undoes the writes), or a commit followed by an error.\<close>

datatype 'a fin = Commit 'a | Rollback 'a | CommitErr err

fun fin_value :: "'a fin \<Rightarrow> err + 'a" where
  "fin_value (Commit a) = Inr a"
| "fin_value (Rollback a) = Inr a"
| "fin_value (CommitErr e) = Inl e"

fun fin_commits :: "'a fin \<Rightarrow> bool" where
  "fin_commits (Commit a) = True"
| "fin_commits (Rollback a) = False"
| "fin_commits (CommitErr e) = True"

definition begin_tx :: "('d, unit) sql" where
  "begin_tx = stmt (\<lambda>d. Inr ((), d))"

definition tx :: "('d, 'a fin) sql \<Rightarrow> ('d, 'a) sql" where
  "tx m w =
     (case begin_tx w of
        (Inl e, w1) \<Rightarrow> (Inl e, w1)
      | (Inr _, w1) \<Rightarrow>
          (case m w1 of
             (Inl e, w2) \<Rightarrow> (Inl e, w2\<lparr>wdb := wdb w1\<rparr>)
           | (Inr r, w2) \<Rightarrow>
               (if fin_commits r
                then (case begin_tx w2 of
                        (Inl e, w3) \<Rightarrow> (Inl e, w3\<lparr>wdb := wdb w1\<rparr>)
                      | (Inr _, w3) \<Rightarrow> (fin_value r, w3))
                else (fin_value r, w2\<lparr>wdb := wdb w1\<rparr>))))"

text \<open>A loop over a slice, each iteration in the session left by the one before.\<close>

fun foldM :: "('a \<Rightarrow> 'b \<Rightarrow> ('d, 'b) sql) \<Rightarrow> 'a list \<Rightarrow> 'b \<Rightarrow> ('d, 'b) sql" where
  "foldM f [] b = returnM b"
| "foldM f (x # xs) b = bindM (f x b) (foldM f xs)"

text \<open>\<open>QueryRow(\<dots>).Scan\<close> whose \<open>sql.ErrNoRows\<close> the code turns into another error.\<close>

fun rowM :: "err \<Rightarrow> 'a option \<Rightarrow> ('d, 'a) sql" where
  "rowM e None = failM e"
| "rowM e (Some a) = returnM a"

text \<open>A guard with an early return of an error.\<close>

definition requireM :: "bool \<Rightarrow> err \<Rightarrow> ('d, unit) sql" where
  "requireM b e = (if b then returnM () else failM e)"

text \<open>A call whose result is not used.\<close>

definition ignoreM :: "('d, 'a) sql \<Rightarrow> ('d, unit) sql" where
  "ignoreM m = bindM m (\<lambda>_. returnM ())"

section \<open>Statements on tables\<close>

text \<open>\<open>ORDER BY key LIMIT 1\<close>.\<close>

definition first_by :: "('r \<Rightarrow> 'k :: linorder) \<Rightarrow> 'r list \<Rightarrow> 'r option" where
  "first_by key xs = (case sort_key key xs of [] \<Rightarrow> None | x # _ \<Rightarrow> Some x)"

definition upd_where :: "('r \<Rightarrow> bool) \<Rightarrow> ('r \<Rightarrow> 'r) \<Rightarrow> 'r list \<Rightarrow> 'r list" where
  "upd_where P f = map (\<lambda>r. if P r then f r else r)"

definition del_where :: "('r \<Rightarrow> bool) \<Rightarrow> 'r list \<Rightarrow> 'r list" where
  "del_where P = filter (\<lambda>r. \<not> P r)"

definition count_where :: "('r \<Rightarrow> bool) \<Rightarrow> 'r list \<Rightarrow> nat" where
  "count_where P xs = length (filter P xs)"

definition exists_where :: "('r \<Rightarrow> bool) \<Rightarrow> 'r list \<Rightarrow> bool" where
  "exists_where P xs = list_ex P xs"

definition query :: "('d \<Rightarrow> 'a) \<Rightarrow> ('d, 'a) sql" where
  "query f = stmt (\<lambda>d. Inr (f d, d))"

text \<open>\<open>UPDATE t SET f WHERE P\<close>; the result is the number of rows affected.\<close>

definition sql_update :: "('d \<Rightarrow> 'r list) \<Rightarrow> (('r list \<Rightarrow> 'r list) \<Rightarrow> 'd \<Rightarrow> 'd) \<Rightarrow>
    ('d \<Rightarrow> 'r \<Rightarrow> bool) \<Rightarrow> ('r \<Rightarrow> 'r) \<Rightarrow> ('d, nat) sql" where
  "sql_update get upd P f =
     stmt (\<lambda>d. Inr (count_where (P d) (get d), upd (upd_where (P d) f) d))"

definition sql_delete :: "('d \<Rightarrow> 'r list) \<Rightarrow> (('r list \<Rightarrow> 'r list) \<Rightarrow> 'd \<Rightarrow> 'd) \<Rightarrow>
    ('d \<Rightarrow> 'r \<Rightarrow> bool) \<Rightarrow> ('d, nat) sql" where
  "sql_delete get upd P =
     stmt (\<lambda>d. Inr (count_where (P d) (get d), upd (del_where (P d)) d))"

text \<open>\<open>INSERT INTO t VALUES r\<close>; \<open>chk\<close> is the table's constraint check.\<close>

definition sql_insert :: "(('r list \<Rightarrow> 'r list) \<Rightarrow> 'd \<Rightarrow> 'd) \<Rightarrow> ('d \<Rightarrow> 'r \<Rightarrow> constraint option) \<Rightarrow>
    'r \<Rightarrow> ('d, nat) sql" where
  "sql_insert upd chk r =
     stmt (\<lambda>d. case chk d r of Some c \<Rightarrow> Inl (ErrConstraint c)
                | None \<Rightarrow> Inr (1, upd (\<lambda>xs. xs @ [r]) d))"

text \<open>\<open>INSERT \<dots> ON CONFLICT(key) DO NOTHING\<close> and \<open>\<dots> DO UPDATE SET f\<close>.\<close>

definition sql_insert_ignore :: "('d \<Rightarrow> 'r list) \<Rightarrow> (('r list \<Rightarrow> 'r list) \<Rightarrow> 'd \<Rightarrow> 'd) \<Rightarrow>
    ('d \<Rightarrow> 'r \<Rightarrow> constraint option) \<Rightarrow> ('r \<Rightarrow> 'k) \<Rightarrow> 'r \<Rightarrow> ('d, nat) sql" where
  "sql_insert_ignore get upd chk key r =
     stmt (\<lambda>d. if exists_where (\<lambda>x. key x = key r) (get d) then Inr (0, d)
                else case chk d r of Some c \<Rightarrow> Inl (ErrConstraint c)
                     | None \<Rightarrow> Inr (1, upd (\<lambda>xs. xs @ [r]) d))"

definition sql_upsert :: "('d \<Rightarrow> 'r list) \<Rightarrow> (('r list \<Rightarrow> 'r list) \<Rightarrow> 'd \<Rightarrow> 'd) \<Rightarrow>
    ('d \<Rightarrow> 'r \<Rightarrow> constraint option) \<Rightarrow> ('r \<Rightarrow> 'k) \<Rightarrow> 'r \<Rightarrow> ('r \<Rightarrow> 'r) \<Rightarrow> ('d, nat) sql" where
  "sql_upsert get upd chk key r f =
     stmt (\<lambda>d. if exists_where (\<lambda>x. key x = key r) (get d)
                then Inr (1, upd (upd_where (\<lambda>x. key x = key r) f) d)
                else case chk d r of Some c \<Rightarrow> Inl (ErrConstraint c)
                     | None \<Rightarrow> Inr (1, upd (\<lambda>xs. xs @ [r]) d))"

text \<open>\<open>INSERT INTO t SELECT \<dots>\<close>: the rows a query yields, inserted when none violates a constraint.\<close>

definition sql_insert_select :: "(('r list \<Rightarrow> 'r list) \<Rightarrow> 'd \<Rightarrow> 'd) \<Rightarrow>
    ('d \<Rightarrow> 'r \<Rightarrow> constraint option) \<Rightarrow> ('d \<Rightarrow> 'r option) \<Rightarrow> ('d, nat) sql" where
  "sql_insert_select upd chk sel =
     stmt (\<lambda>d. case sel d of None \<Rightarrow> Inr (0, d)
                | Some r \<Rightarrow> (case chk d r of Some c \<Rightarrow> Inl (ErrConstraint c)
                               | None \<Rightarrow> Inr (1, upd (\<lambda>xs. xs @ [r]) d)))"

text \<open>\<open>DELETE \<dots> RETURNING\<close> scanned with \<open>QueryRow\<close>: the first deleted row, if any.\<close>

definition sql_delete_returning :: "('d \<Rightarrow> 'r list) \<Rightarrow> (('r list \<Rightarrow> 'r list) \<Rightarrow> 'd \<Rightarrow> 'd) \<Rightarrow>
    ('d \<Rightarrow> 'r \<Rightarrow> bool) \<Rightarrow> ('d, 'r option) sql" where
  "sql_delete_returning get upd P =
     stmt (\<lambda>d. Inr (List.find (P d) (get d), upd (del_where (P d)) d))"

text \<open>\<open>INSERT \<dots> SELECT \<dots> ON CONFLICT(key) DO UPDATE SET f\<close>; a row that fails a CHECK is refused before
  the conflict is looked at.\<close>

definition sql_upsert_select :: "('d \<Rightarrow> 'r list) \<Rightarrow> (('r list \<Rightarrow> 'r list) \<Rightarrow> 'd \<Rightarrow> 'd) \<Rightarrow> ('r \<Rightarrow> bool) \<Rightarrow>
    ('d \<Rightarrow> 'r \<Rightarrow> constraint option) \<Rightarrow> ('r \<Rightarrow> 'k) \<Rightarrow> ('d \<Rightarrow> 'r option) \<Rightarrow> ('r \<Rightarrow> 'r \<Rightarrow> 'r) \<Rightarrow> ('d, nat) sql" where
  "sql_upsert_select get upd ok chk key sel f =
     stmt (\<lambda>d. case sel d of None \<Rightarrow> Inr (0, d)
                | Some r \<Rightarrow> (if \<not> ok r then Inl (ErrConstraint CheckViolation)
                     else if exists_where (\<lambda>x. key x = key r) (get d)
                     then Inr (1, upd (upd_where (\<lambda>x. key x = key r) (f r)) d)
                     else case chk d r of Some c \<Rightarrow> Inl (ErrConstraint c)
                          | None \<Rightarrow> Inr (1, upd (\<lambda>xs. xs @ [r]) d)))"

section \<open>Postconditions over every fault schedule\<close>

definition sat :: "('d, 'a) sql \<Rightarrow> 'd \<Rightarrow> (err + 'a \<Rightarrow> 'd \<Rightarrow> bool) \<Rightarrow> bool" where
  "sat m d Q \<longleftrightarrow> (\<forall>w. wdb w = d \<longrightarrow> Q (fst (m w)) (wdb (snd (m w))))"

lemma satD: "sat m (wdb w) Q \<Longrightarrow> m w = (r, w') \<Longrightarrow> Q r (wdb w')"
  by (auto simp: sat_def dest!: spec [of _ w])

lemma sat_mono: "sat m d Q \<Longrightarrow> (\<And>r d'. Q r d' \<Longrightarrow> R r d') \<Longrightarrow> sat m d R"
  by (auto simp: sat_def)

lemma sat_conj: "sat m d Q \<Longrightarrow> sat m d R \<Longrightarrow> sat m d (\<lambda>r d'. Q r d' \<and> R r d')"
  by (auto simp: sat_def)

lemma sat_true: "sat m d (\<lambda>r d'. True)"
  by (simp add: sat_def)

lemma sat_return [sat_intro]: "Q (Inr a) d \<Longrightarrow> sat (returnM a) d Q"
  by (auto simp: sat_def returnM_def)

lemma sat_fail [sat_intro]: "Q (Inl e) d \<Longrightarrow> sat (failM e) d Q"
  by (auto simp: sat_def failM_def)

lemma sat_stmt [sat_intro]:
  assumes "Q (Inl ErrDatabase) d"
    and "\<And>e. f d = Inl e \<Longrightarrow> Q (Inl e) d"
    and "\<And>a d'. f d = Inr (a, d') \<Longrightarrow> Q (Inr a) d'"
  shows "sat (stmt f) d Q"
  using assms by (auto simp: sat_def stmt_def split: sum.splits)

lemma sat_bind [sat_intro]:
  fixes m :: "('d, 'a) sql"
  assumes "sat m d (\<lambda>r d'. case r of Inl e \<Rightarrow> Q (Inl e) d' | Inr a \<Rightarrow> sat (f a) d' Q)"
  shows "sat (bindM m f) d Q"
  unfolding sat_def
proof (intro allI impI)
  fix w :: "'d world"
  assume w: "wdb w = d"
  obtain r w' where m: "m w = (r, w')" by (cases "m w")
  from assms w m
  have "case r of Inl e \<Rightarrow> Q (Inl e) (wdb w') | Inr a \<Rightarrow> sat (f a) (wdb w') Q"
    by (blast dest: satD)
  then show "Q (fst (bindM m f w)) (wdb (snd (bindM m f w)))"
    by (auto simp: bindM_def m sat_def split: sum.splits)
qed

text \<open>Sequencing through an intermediate condition.\<close>

lemma sat_seq:
  assumes "sat m d (\<lambda>r d'. case r of Inl e \<Rightarrow> Q (Inl e) d' | Inr a \<Rightarrow> R a d')"
    and "\<And>a d'. R a d' \<Longrightarrow> sat (f a) d' Q"
  shows "sat (bindM m f) d Q"
  using assms by (intro sat_bind) (auto elim!: sat_mono split: sum.splits)

lemma sat_ignoreM [sat_intro]:
  "sat m d (\<lambda>r d'. case r of Inl e \<Rightarrow> Q (Inl e) d' | Inr a \<Rightarrow> Q (Inr ()) d') \<Longrightarrow> sat (ignoreM m) d Q"
  unfolding ignoreM_def by (rule sat_bind) (auto elim!: sat_mono intro!: sat_intro split: sum.splits)

lemma sat_try [sat_intro]:
  fixes m :: "('d, 'a) sql"
  assumes "sat m d (\<lambda>r d'. sat (f r) d' Q)"
  shows "sat (tryM m f) d Q"
  unfolding sat_def
proof (intro allI impI)
  fix w :: "'d world"
  assume w: "wdb w = d"
  obtain r w' where m: "m w = (r, w')" by (cases "m w")
  from assms w m have "sat (f r) (wdb w') Q" by (blast dest: satD)
  then show "Q (fst (tryM m f w)) (wdb (snd (tryM m f w)))"
    by (auto simp: tryM_def m sat_def)
qed

lemma sat_when [sat_intro]:
  "(b \<Longrightarrow> sat m d Q) \<Longrightarrow> (\<not> b \<Longrightarrow> Q (Inr ()) d) \<Longrightarrow> sat (whenM b m) d Q"
  by (auto simp: whenM_def intro: sat_return)

lemma sat_row [sat_intro]:
  "(a = None \<Longrightarrow> Q (Inl e) d) \<Longrightarrow> (\<And>x. a = Some x \<Longrightarrow> Q (Inr x) d) \<Longrightarrow> sat (rowM e a) d Q"
  by (cases a) (auto intro: sat_return sat_fail)

lemma sat_require [sat_intro]:
  "(b \<Longrightarrow> Q (Inr ()) d) \<Longrightarrow> (\<not> b \<Longrightarrow> Q (Inl e) d) \<Longrightarrow> sat (requireM b e) d Q"
  by (auto simp: requireM_def intro: sat_return sat_fail)

lemma sat_if [sat_intro]:
  "(b \<Longrightarrow> sat m d Q) \<Longrightarrow> (\<not> b \<Longrightarrow> sat n d Q) \<Longrightarrow> sat (if b then m else n) d Q"
  by simp

lemma sat_case_option [sat_intro]:
  "(a = None \<Longrightarrow> sat m d Q) \<Longrightarrow> (\<And>x. a = Some x \<Longrightarrow> sat (f x) d Q) \<Longrightarrow>
   sat (case a of None \<Rightarrow> m | Some x \<Rightarrow> f x) d Q"
  by (cases a) auto

lemma sat_case_triple [sat_intro]:
  "(\<And>a b c. t = (a, b, c) \<Longrightarrow> sat (f a b c) d Q) \<Longrightarrow> sat (case t of (a, b, c) \<Rightarrow> f a b c) d Q"
  by (cases t) simp

lemma sat_case_pair [sat_intro]: "(\<And>a b. t = (a, b) \<Longrightarrow> sat (f a b) d Q) \<Longrightarrow> sat (case t of (a, b) \<Rightarrow> f a b) d Q"
  by (cases t) simp

lemma sat_query [sat_intro]:
  "Q (Inl ErrDatabase) d \<Longrightarrow> Q (Inr (f d)) d \<Longrightarrow> sat (query f) d Q"
  unfolding query_def by (auto intro: sat_stmt)

lemma sat_update [sat_intro]:
  "Q (Inl ErrDatabase) d \<Longrightarrow>
   Q (Inr (count_where (P d) (get d))) (upd (upd_where (P d) f) d) \<Longrightarrow>
   sat (sql_update get upd P f) d Q"
  unfolding sql_update_def by (auto intro: sat_stmt)

lemma sat_delete [sat_intro]:
  "Q (Inl ErrDatabase) d \<Longrightarrow>
   Q (Inr (count_where (P d) (get d))) (upd (del_where (P d)) d) \<Longrightarrow>
   sat (sql_delete get upd P) d Q"
  unfolding sql_delete_def by (auto intro: sat_stmt)

lemma sat_insert [sat_intro]:
  "Q (Inl ErrDatabase) d \<Longrightarrow>
   (\<And>c. chk d r = Some c \<Longrightarrow> Q (Inl (ErrConstraint c)) d) \<Longrightarrow>
   (chk d r = None \<Longrightarrow> Q (Inr 1) (upd (\<lambda>xs. xs @ [r]) d)) \<Longrightarrow>
   sat (sql_insert upd chk r) d Q"
  unfolding sql_insert_def by (auto intro!: sat_stmt split: option.splits)

lemma sat_insert_ignore [sat_intro]:
  "Q (Inl ErrDatabase) d \<Longrightarrow>
   (exists_where (\<lambda>x. key x = key r) (get d) \<Longrightarrow> Q (Inr 0) d) \<Longrightarrow>
   (\<And>c. \<not> exists_where (\<lambda>x. key x = key r) (get d) \<Longrightarrow> chk d r = Some c \<Longrightarrow>
      Q (Inl (ErrConstraint c)) d) \<Longrightarrow>
   (\<not> exists_where (\<lambda>x. key x = key r) (get d) \<Longrightarrow> chk d r = None \<Longrightarrow>
      Q (Inr 1) (upd (\<lambda>xs. xs @ [r]) d)) \<Longrightarrow>
   sat (sql_insert_ignore get upd chk key r) d Q"
  unfolding sql_insert_ignore_def by (auto intro!: sat_stmt split: option.splits if_splits)

lemma sat_upsert [sat_intro]:
  "Q (Inl ErrDatabase) d \<Longrightarrow>
   (exists_where (\<lambda>x. key x = key r) (get d) \<Longrightarrow>
      Q (Inr 1) (upd (upd_where (\<lambda>x. key x = key r) f) d)) \<Longrightarrow>
   (\<And>c. \<not> exists_where (\<lambda>x. key x = key r) (get d) \<Longrightarrow> chk d r = Some c \<Longrightarrow>
      Q (Inl (ErrConstraint c)) d) \<Longrightarrow>
   (\<not> exists_where (\<lambda>x. key x = key r) (get d) \<Longrightarrow> chk d r = None \<Longrightarrow>
      Q (Inr 1) (upd (\<lambda>xs. xs @ [r]) d)) \<Longrightarrow>
   sat (sql_upsert get upd chk key r f) d Q"
  unfolding sql_upsert_def by (auto intro!: sat_stmt split: option.splits if_splits)

lemma sat_insert_select [sat_intro]:
  "Q (Inl ErrDatabase) d \<Longrightarrow>
   (sel d = None \<Longrightarrow> Q (Inr 0) d) \<Longrightarrow>
   (\<And>r c. sel d = Some r \<Longrightarrow> chk d r = Some c \<Longrightarrow> Q (Inl (ErrConstraint c)) d) \<Longrightarrow>
   (\<And>r. sel d = Some r \<Longrightarrow> chk d r = None \<Longrightarrow> Q (Inr 1) (upd (\<lambda>xs. xs @ [r]) d)) \<Longrightarrow>
   sat (sql_insert_select upd chk sel) d Q"
  unfolding sql_insert_select_def by (auto intro!: sat_stmt split: option.splits if_splits)

lemma sat_delete_returning [sat_intro]:
  "Q (Inl ErrDatabase) d \<Longrightarrow> Q (Inr (List.find (P d) (get d))) (upd (del_where (P d)) d) \<Longrightarrow>
   sat (sql_delete_returning get upd P) d Q"
  unfolding sql_delete_returning_def by (auto intro: sat_stmt)

lemma sat_upsert_select [sat_intro]:
  "Q (Inl ErrDatabase) d \<Longrightarrow>
   (sel d = None \<Longrightarrow> Q (Inr 0) d) \<Longrightarrow>
   (\<And>c. Q (Inl (ErrConstraint c)) d) \<Longrightarrow>
   (\<And>r. sel d = Some r \<Longrightarrow> ok r \<Longrightarrow> exists_where (\<lambda>x. key x = key r) (get d) \<Longrightarrow>
      Q (Inr 1) (upd (upd_where (\<lambda>x. key x = key r) (f r)) d)) \<Longrightarrow>
   (\<And>r. sel d = Some r \<Longrightarrow> ok r \<Longrightarrow> \<not> exists_where (\<lambda>x. key x = key r) (get d) \<Longrightarrow> chk d r = None \<Longrightarrow>
      Q (Inr 1) (upd (\<lambda>xs. xs @ [r]) d)) \<Longrightarrow>
   sat (sql_upsert_select get upd ok chk key sel f) d Q"
  unfolding sql_upsert_select_def by (auto intro!: sat_stmt split: option.splits if_splits)

lemma begin_tx_wdb: "begin_tx w = (r, w') \<Longrightarrow> wdb w' = wdb w"
  by (auto simp: begin_tx_def stmt_def split: if_splits)

lemma begin_tx_err: "begin_tx w = (Inl e, w') \<Longrightarrow> e = ErrDatabase"
  by (auto simp: begin_tx_def stmt_def split: if_splits)

lemma sat_tx [sat_intro]:
  fixes m :: "('d, 'a fin) sql"
  assumes db: "Q (Inl ErrDatabase) d"
    and body: "sat m d (\<lambda>r d'. case r of Inl e \<Rightarrow> Q (Inl e) d
                 | Inr f \<Rightarrow> Q (fin_value f) (if fin_commits f then d' else d))"
  shows "sat (tx m) d Q"
  unfolding sat_def
proof (intro allI impI)
  fix w :: "'d world"
  assume w: "wdb w = d"
  obtain b w1 where b: "begin_tx w = (b, w1)" by (cases "begin_tx w")
  from b w have w1: "wdb w1 = d" by (simp add: begin_tx_wdb)
  obtain r w2 where m: "m w1 = (r, w2)" by (cases "m w1")
  from body w1 m
  have r: "case r of Inl e \<Rightarrow> Q (Inl e) d
             | Inr f \<Rightarrow> Q (fin_value f) (if fin_commits f then wdb w2 else d)"
    by (blast dest: satD)
  obtain c w3 where c: "begin_tx w2 = (c, w3)" by (cases "begin_tx w2")
  have be: "\<And>e. b = Inl e \<Longrightarrow> e = ErrDatabase" and ce: "\<And>e. c = Inl e \<Longrightarrow> e = ErrDatabase"
    using b c by (auto dest: begin_tx_err)
  show "Q (fst (tx m w)) (wdb (snd (tx m w)))"
    using db r w1 begin_tx_wdb [OF c]
    by (auto simp: tx_def b m c split: sum.splits dest!: be ce)
qed

lemma sat_foldM:
  assumes step: "\<And>x b d. x \<in> set xs \<Longrightarrow> I b d \<Longrightarrow>
      sat (f x b) d (\<lambda>r d'. case r of Inl e \<Rightarrow> E e d' | Inr b' \<Rightarrow> I b' d')"
    and init: "I b d"
  shows "sat (foldM f xs b) d (\<lambda>r d'. case r of Inl e \<Rightarrow> E e d' | Inr b' \<Rightarrow> I b' d')"
  using assms
proof (induction xs arbitrary: b d)
  case Nil
  then show ?case by (auto intro: sat_return)
next
  case (Cons x xs)
  let ?Q = "\<lambda>r d'. case r of Inl e \<Rightarrow> E e d' | Inr b' \<Rightarrow> I b' d'"
  have tail: "sat (foldM f xs b') d' ?Q" if "I b' d'" for b' d'
    using that by (intro Cons.IH Cons.prems(1)) auto
  have "sat (f x b) d ?Q" using Cons.prems by simp
  then have "sat (f x b) d (\<lambda>r d'. case r of Inl e \<Rightarrow> ?Q (Inl e) d' | Inr b' \<Rightarrow> sat (foldM f xs b') d' ?Q)"
  proof (rule sat_mono)
    fix r d'
    assume "?Q r d'"
    then show "case r of Inl e \<Rightarrow> ?Q (Inl e) d' | Inr b' \<Rightarrow> sat (foldM f xs b') d' ?Q"
      by (cases r) (simp_all add: tail)
  qed
  then show ?case unfolding foldM.simps by (rule sat_bind)
qed

text \<open>A postcondition that holds of every outcome holds of every run.\<close>

lemma sat_run: "sat m (wdb w) Q \<Longrightarrow> Q (fst (m w)) (wdb (snd (m w)))"
  by (simp add: sat_def)

text \<open>A run that is known to succeed, with a view of its result.\<close>

lemma run_Inr: "map_sum id f (fst p) = Inr b \<Longrightarrow> \<exists>a. p = (Inr a, snd p) \<and> f a = b"
  by (cases p; cases "fst p") auto

lemma run_projr: "map_sum id f (fst p) = Inr b \<Longrightarrow> p = (Inr (projr (fst p)), snd p)"
  by (cases p; cases "fst p") auto

text \<open>An operation keeps a condition on the database, whatever it returns and whichever statement fails.\<close>

definition keeps :: "('d \<Rightarrow> bool) \<Rightarrow> ('d, 'a) sql \<Rightarrow> bool" where
  "keeps I m \<longleftrightarrow> (\<forall>d. I d \<longrightarrow> sat m d (\<lambda>r d'. I d'))"

lemma keepsI: "(\<And>d. I d \<Longrightarrow> sat m d (\<lambda>r d'. I d')) \<Longrightarrow> keeps I m"
  by (simp add: keeps_def)

lemma keeps_sat: "keeps I m \<Longrightarrow> I d \<Longrightarrow> sat m d (\<lambda>r d'. I d')"
  by (simp add: keeps_def)

lemma keeps_run: "keeps I m \<Longrightarrow> I (wdb w) \<Longrightarrow> I (wdb (snd (m w)))"
  by (auto simp: keeps_def sat_def)

lemma keeps_return [keeps_intro]: "keeps I (returnM a)"
  by (auto intro: keepsI sat_return)

lemma keeps_fail [keeps_intro]: "keeps I (failM e)"
  by (auto intro: keepsI sat_fail)

lemma keeps_row [keeps_intro]: "keeps I (rowM e a)"
  by (auto intro: keepsI sat_row)

lemma keeps_require [keeps_intro]: "keeps I (requireM b e)"
  by (auto intro: keepsI sat_require)

lemma keeps_query [keeps_intro]: "keeps I (query f)"
  by (auto intro: keepsI sat_query)

lemma keeps_bind [keeps_intro]: "keeps I m \<Longrightarrow> (\<And>a. keeps I (f a)) \<Longrightarrow> keeps I (bindM m f)"
  by (rule keepsI, rule sat_seq [where R = "\<lambda>_. I"]) (auto simp: keeps_def elim!: sat_mono split: sum.splits)

lemma sat_keeps_bind:
  assumes "keeps I m" and "I d" and "\<And>e d'. Q (Inl e) d'" and "\<And>a d'. I d' \<Longrightarrow> sat (f a) d' Q"
  shows "sat (bindM m f) d Q"
  using assms by (intro sat_seq [where R = "\<lambda>_. I"]) (auto simp: keeps_def elim!: sat_mono split: sum.splits)

lemma keeps_try [keeps_intro]: "keeps I m \<Longrightarrow> (\<And>r. keeps I (f r)) \<Longrightarrow> keeps I (tryM m f)"
  by (rule keepsI, rule sat_try) (auto simp: keeps_def elim!: sat_mono)

lemma keeps_when [keeps_intro]: "(b \<Longrightarrow> keeps I m) \<Longrightarrow> keeps I (whenM b m)"
  by (auto simp: whenM_def intro: keeps_return)

lemma keeps_if [keeps_intro]: "(b \<Longrightarrow> keeps I m) \<Longrightarrow> (\<not> b \<Longrightarrow> keeps I n) \<Longrightarrow> keeps I (if b then m else n)"
  by simp

lemma keeps_case_option [keeps_intro]:
  "keeps I m \<Longrightarrow> (\<And>x. keeps I (f x)) \<Longrightarrow> keeps I (case a of None \<Rightarrow> m | Some x \<Rightarrow> f x)"
  by (cases a) auto

lemma keeps_case_sum [keeps_intro]:
  "(\<And>x. keeps I (f x)) \<Longrightarrow> (\<And>y. keeps I (g y)) \<Longrightarrow> keeps I (case a of Inl x \<Rightarrow> f x | Inr y \<Rightarrow> g y)"
  by (cases a) auto

lemma keeps_case_prod [keeps_intro]: "(\<And>x y. keeps I (f x y)) \<Longrightarrow> keeps I (case a of (x, y) \<Rightarrow> f x y)"
  by (cases a) auto

lemma keeps_tx [keeps_intro]: "keeps I m \<Longrightarrow> keeps I (tx m)"
  by (rule keepsI, rule sat_tx) (auto simp: keeps_def elim!: sat_mono split: sum.splits)

lemma keeps_foldM [keeps_intro]: "(\<And>x b. keeps I (f x b)) \<Longrightarrow> keeps I (foldM f xs b)"
  by (induction xs arbitrary: b) (auto intro: keeps_intro)

lemma keeps_ignoreM [keeps_intro]: "keeps I m \<Longrightarrow> keeps I (ignoreM m)"
  unfolding ignoreM_def by (rule keeps_bind [OF _ keeps_return])

lemma keeps_update [keeps_intro]:
  "(\<And>d. I d \<Longrightarrow> I (upd (upd_where (P d) f) d)) \<Longrightarrow> keeps I (sql_update get upd P f)"
  by (auto intro: keepsI sat_update)

lemma keeps_delete [keeps_intro]:
  "(\<And>d. I d \<Longrightarrow> I (upd (del_where (P d)) d)) \<Longrightarrow> keeps I (sql_delete get upd P)"
  by (auto intro: keepsI sat_delete)

lemma keeps_insert [keeps_intro]:
  "(\<And>d. I d \<Longrightarrow> chk d r = None \<Longrightarrow> I (upd (\<lambda>xs. xs @ [r]) d)) \<Longrightarrow> keeps I (sql_insert upd chk r)"
  by (auto intro: keepsI sat_insert)

lemma keeps_insert_ignore [keeps_intro]:
  "(\<And>d. I d \<Longrightarrow> chk d r = None \<Longrightarrow> I (upd (\<lambda>xs. xs @ [r]) d)) \<Longrightarrow> keeps I (sql_insert_ignore get upd chk key r)"
  by (auto intro: keepsI sat_insert_ignore)

lemma keeps_upsert [keeps_intro]:
  "(\<And>d. I d \<Longrightarrow> chk d r = None \<Longrightarrow> I (upd (\<lambda>xs. xs @ [r]) d)) \<Longrightarrow>
   (\<And>d. I d \<Longrightarrow> I (upd (upd_where (\<lambda>x. key x = key r) f) d)) \<Longrightarrow> keeps I (sql_upsert get upd chk key r f)"
  by (auto intro: keepsI sat_upsert)

lemma keeps_insert_select [keeps_intro]:
  "(\<And>d r. I d \<Longrightarrow> sel d = Some r \<Longrightarrow> chk d r = None \<Longrightarrow> I (upd (\<lambda>xs. xs @ [r]) d)) \<Longrightarrow>
   keeps I (sql_insert_select upd chk sel)"
  by (auto intro: keepsI sat_insert_select)

lemma keeps_delete_returning [keeps_intro]:
  "(\<And>d. I d \<Longrightarrow> I (upd (del_where (P d)) d)) \<Longrightarrow> keeps I (sql_delete_returning get upd P)"
  by (auto intro: keepsI sat_delete_returning)

lemma keeps_upsert_select [keeps_intro]:
  "(\<And>d r. I d \<Longrightarrow> sel d = Some r \<Longrightarrow> ok r \<Longrightarrow> I (upd (upd_where (\<lambda>x. key x = key r) (f r)) d)) \<Longrightarrow>
   (\<And>d r. I d \<Longrightarrow> sel d = Some r \<Longrightarrow> ok r \<Longrightarrow> chk d r = None \<Longrightarrow> I (upd (\<lambda>xs. xs @ [r]) d)) \<Longrightarrow>
   keeps I (sql_upsert_select get upd ok chk key sel f)"
  by (rule keepsI, rule sat_upsert_select) auto

lemmas [sql_simps] = sql_delete_returning_def sql_upsert_select_def requireM_def bindM_def tryM_def returnM_def failM_def whenM_def tx_def begin_tx_def
  query_def sql_update_def sql_delete_def sql_insert_def sql_insert_ignore_def sql_upsert_def
  sql_insert_select_def

lemma stmt_up [sql_simps]:
  "stmt f (up d) = (case f d of Inl e \<Rightarrow> (Inl e, up d) | Inr (a, d') \<Rightarrow> (Inr a, up d'))"
  by (auto simp: stmt_def split: sum.splits)

text \<open>On a healthy engine an operation does not report an engine fault.\<close>

definition honest :: "('d, 'a) sql \<Rightarrow> bool" where
  "honest m \<longleftrightarrow> (\<forall>d. \<exists>r d'. m (up d) = (r, up d') \<and> r \<noteq> Inl ErrDatabase)"

lemma honest_return: "honest (returnM a)"
  by (simp add: honest_def returnM_def)

lemma honest_stmt: "(\<And>d. f d \<noteq> Inl ErrDatabase) \<Longrightarrow> honest (stmt f)"
  by (auto simp: honest_def stmt_up split: sum.splits)

lemma honest_query: "honest (query f)"
  unfolding query_def by (rule honest_stmt) simp

lemma honest_bind:
  assumes "honest m" and "\<And>a. honest (f a)"
  shows "honest (bindM m f)"
  unfolding honest_def
proof
  fix d
  from assms(1) obtain r d1 where m: "m (up d) = (r, up d1)" "r \<noteq> Inl ErrDatabase" unfolding honest_def by blast
  show "\<exists>r' d'. bindM m f (up d) = (r', up d') \<and> r' \<noteq> Inl ErrDatabase"
  proof (cases r)
    case (Inl e)
    with m show ?thesis by (simp add: bindM_def)
  next
    case (Inr a)
    with m assms(2) show ?thesis by (simp add: bindM_def honest_def)
  qed
qed

lemma honest_when: "honest m \<Longrightarrow> honest (whenM b m)"
  by (simp add: whenM_def honest_return)

lemma honest_foldM: "(\<And>x b. honest (f x b)) \<Longrightarrow> honest (foldM f xs b)"
  by (induction xs arbitrary: b) (auto intro: honest_return honest_bind)

lemma honest_tx:
  assumes "honest m" and "\<And>w w'. m w \<noteq> (Inr (CommitErr ErrDatabase), w')"
  shows "honest (tx m)"
  unfolding honest_def
proof
  fix d
  have bt: "begin_tx (up x) = (Inr (), up x)" for x :: 'a by (simp add: begin_tx_def stmt_up)
  from assms(1) obtain r d1 where m: "m (up d) = (r, up d1)" "r \<noteq> Inl ErrDatabase" unfolding honest_def by blast
  show "\<exists>r' d'. tx m (up d) = (r', up d') \<and> r' \<noteq> Inl ErrDatabase"
  proof (cases r)
    case (Inl e)
    with m show ?thesis by (simp add: tx_def bt)
  next
    case (Inr f)
    with m assms(2) [of "up d" "up d1"] show ?thesis by (cases f) (simp_all add: tx_def bt)
  qed
qed

text \<open>An operation whose only failure is an engine fault succeeds on a healthy engine.\<close>

lemma honest_success:
  assumes "honest m" and "sat m d (\<lambda>r d'. case r of Inl e \<Rightarrow> e = ErrDatabase | Inr a \<Rightarrow> Q a d')"
  shows "\<exists>a d'. m (up d) = (Inr a, up d') \<and> Q a d'"
proof -
  from assms(1) obtain r d' where m: "m (up d) = (r, up d')" "r \<noteq> Inl ErrDatabase" unfolding honest_def by blast
  have "case r of Inl e \<Rightarrow> e = ErrDatabase | Inr a \<Rightarrow> Q a d'"
    using satD [of m "up d" "\<lambda>r d'. case r of Inl e \<Rightarrow> e = ErrDatabase | Inr a \<Rightarrow> Q a d'" r "up d'"] m(1) assms(2)
    by (cases r) simp_all
  with m show ?thesis by (cases r) auto
qed

section \<open>Facts about tables\<close>

lemma set_upd_where: "set (upd_where P f xs) = (\<lambda>r. if P r then f r else r) ` set xs"
  by (simp add: upd_where_def)

lemma bex_upd_where: "(\<exists>y \<in> set (upd_where P f xs). Q y) \<longleftrightarrow> (\<exists>x \<in> set xs. Q (if P x then f x else x))"
  unfolding set_upd_where by blast

lemma ball_upd_where: "(\<forall>y \<in> set (upd_where P f xs). Q y) \<longleftrightarrow> (\<forall>x \<in> set xs. Q (if P x then f x else x))"
  unfolding set_upd_where by blast

lemma length_upd_where [simp]: "length (upd_where P f xs) = length xs"
  by (simp add: upd_where_def)

lemma upd_where_Nil [simp]: "upd_where P f [] = []"
  by (simp add: upd_where_def)

lemma upd_where_Cons [simp]:
  "upd_where P f (x # xs) = (if P x then f x else x) # upd_where P f xs"
  by (simp add: upd_where_def)

lemma set_del_where [simp]: "set (del_where P xs) = {r \<in> set xs. \<not> P r}"
  by (simp add: del_where_def)

lemma del_where_Nil [simp]: "del_where P [] = []"
  by (simp add: del_where_def)

lemma del_where_Cons [simp]:
  "del_where P (x # xs) = (if P x then del_where P xs else x # del_where P xs)"
  by (simp add: del_where_def)

lemma exists_where_iff [simp]: "exists_where P xs \<longleftrightarrow> (\<exists>x \<in> set xs. P x)"
  by (simp add: exists_where_def list_ex_iff)

lemma count_where_0 [simp]: "count_where P xs = 0 \<longleftrightarrow> (\<forall>x \<in> set xs. \<not> P x)"
  by (auto simp: count_where_def filter_empty_conv)

lemma count_where_pos: "0 < count_where P xs \<longleftrightarrow> (\<exists>x \<in> set xs. P x)"
  using count_where_0 [of P xs] by (metis neq0_conv)

lemma map_upd_where:
  "(\<And>r. r \<in> set xs \<Longrightarrow> P r \<Longrightarrow> g (f r) = g r) \<Longrightarrow> map g (upd_where P f xs) = map g xs"
  by (simp add: upd_where_def)

lemma upd_where_none: "(\<And>r. r \<in> set xs \<Longrightarrow> \<not> P r) \<Longrightarrow> upd_where P f xs = xs"
  by (simp add: upd_where_def map_idI)

lemma le_fold_max: "(x :: 'a :: linorder) \<le> fold max xs m \<longleftrightarrow> x \<le> m \<or> (\<exists>y \<in> set xs. x \<le> y)"
proof (induction xs arbitrary: m)
  case (Cons a xs)
  then show ?case by (simp add: le_max_iff_disj) blast
qed simp

lemma fold_max_le: "(\<And>y. y \<in> set xs \<Longrightarrow> y \<le> b) \<Longrightarrow> m \<le> b \<Longrightarrow> fold max xs m \<le> (b :: 'a :: linorder)"
  by (induction xs arbitrary: m) auto

lemma first_by_SomeD:
  assumes "first_by key xs = Some x"
  shows "x \<in> set xs \<and> (\<forall>y \<in> set xs. key x \<le> key y)"
proof -
  from assms obtain ys where s: "sort_key key xs = x # ys"
    by (auto simp: first_by_def split: list.splits)
  have "sorted (map key (sort_key key xs))" by simp
  moreover have "set (sort_key key xs) = set xs" by simp
  ultimately show ?thesis unfolding s by (metis list.set_intros(1) list.simps(9) list.set_map
        image_eqI set_ConsD sorted_simps(2) order_refl)
qed

lemma first_by_None [simp]: "first_by key xs = None \<longleftrightarrow> xs = []"
  by (auto simp: first_by_def split: list.splits) (metis length_0_conv length_sort)

definition keyed :: "('r \<Rightarrow> 'k) \<Rightarrow> 'r list \<Rightarrow> bool" where
  "keyed key xs \<longleftrightarrow> distinct (map key xs)"

lemma keyed_Nil [simp]: "keyed key []"
  by (simp add: keyed_def)

lemma keyed_unique: "keyed key xs \<Longrightarrow> x \<in> set xs \<Longrightarrow> y \<in> set xs \<Longrightarrow> key x = key y \<Longrightarrow> x = y"
  by (auto simp: keyed_def distinct_map dest: inj_onD)

lemma keyed_upd_where:
  "(\<And>r. r \<in> set xs \<Longrightarrow> P r \<Longrightarrow> key (f r) = key r) \<Longrightarrow> keyed key xs \<Longrightarrow> keyed key (upd_where P f xs)"
  by (simp add: keyed_def map_upd_where)

lemma keyed_del_where: "keyed key xs \<Longrightarrow> keyed key (del_where P xs)"
  by (simp add: keyed_def del_where_def distinct_map_filter)

lemma keyed_snoc:
  "keyed key (xs @ [r]) \<longleftrightarrow> keyed key xs \<and> (\<forall>x \<in> set xs. key x \<noteq> key r)"
proof -
  have "key r \<in> key ` set xs \<longleftrightarrow> (\<exists>x \<in> set xs. key x = key r)" by (metis image_iff)
  then show ?thesis by (auto simp: keyed_def)
qed

lemma keyed_count_le: "keyed key xs \<Longrightarrow> count_where (\<lambda>x. key x = k \<and> P x) xs \<le> 1"
proof (induction xs)
  case Nil
  then show ?case by (simp add: count_where_def)
next
  case (Cons x xs)
  show ?case
  proof (cases "key x = k \<and> P x")
    case True
    with Cons.prems have "\<forall>y \<in> set xs. \<not> (key y = k \<and> P y)"
      by (metis distinct.simps(2) image_eqI keyed_def list.set_map list.simps(9))
    then have "count_where (\<lambda>x. key x = k \<and> P x) xs = 0" by simp
    with True show ?thesis by (simp add: count_where_def)
  next
    case False
    with Cons show ?thesis by (auto simp: keyed_def count_where_def)
  qed
qed

lemma keyed_count_one:
  assumes "keyed key xs" and "count_where (\<lambda>x. key x = k \<and> P x) xs = 1"
  obtains r where "r \<in> set xs" "key r = k" "P r"
  using assms count_where_pos [of "\<lambda>x. key x = k \<and> P x" xs] by auto

lemma find_SomeD: "List.find P xs = Some x \<Longrightarrow> x \<in> set xs \<and> P x"
  by (auto simp: find_Some_iff in_set_conv_nth)

lemma find_NoneD: "List.find P xs = None \<Longrightarrow> x \<in> set xs \<Longrightarrow> \<not> P x"
  by (auto simp: find_None_iff)

lemma find_append: "List.find P (xs @ ys) = (case List.find P xs of None \<Rightarrow> List.find P ys | Some x \<Rightarrow> Some x)"
  by (induction xs) auto

lemma keyed_find:
  "keyed key xs \<Longrightarrow> r \<in> set xs \<Longrightarrow> key r = k \<Longrightarrow> List.find (\<lambda>x. key x = k) xs = Some r"
  by (induction xs) (auto simp: keyed_def)

section \<open>Histories of operations\<close>

text \<open>A history executes operations one after the other; each may fail, and the next one goes on with what it left.\<close>

fun history :: "('op \<Rightarrow> ('d, unit) sql) \<Rightarrow> 'op list \<Rightarrow> 'd world \<Rightarrow> 'd world" where
  "history exec [] w = w"
| "history exec (op # ops) w = history exec ops (snd (exec op w))"

text \<open>The contract between the operations of a component and a condition on the database: operations that are allowed keep it.  Then it
  lasts through every history of allowed operations.\<close>

locale lasting =
  fixes exec :: "'op \<Rightarrow> ('d, unit) sql"
    and ok :: "'op \<Rightarrow> bool"
    and I :: "'d \<Rightarrow> bool"
  assumes kept: "ok op \<Longrightarrow> keeps I (exec op)"
begin

lemma lasts: "list_all ok ops \<Longrightarrow> I (wdb w) \<Longrightarrow> I (wdb (history exec ops w))"
  by (induction ops arbitrary: w) (simp_all add: keeps_run [OF kept])

end

text \<open>A condition that every operation keeps.\<close>

locale lasting_always =
  fixes exec :: "'op \<Rightarrow> ('d, unit) sql"
    and I :: "'d \<Rightarrow> bool"
  assumes always: "keeps I (exec op)"

sublocale lasting_always \<subseteq> lasting exec "\<lambda>_. True" I
  by unfold_locales (rule always)

context lasting_always
begin

lemma lasts_always: "I (wdb w) \<Longrightarrow> I (wdb (history exec ops w))"
  by (rule lasts) (simp_all add: list_all_iff)

end

text \<open>The interface a component has to one of its tables: a getter and an updater of the database
  record, and the primary key.  Statements on the table act on the list of rows only, and keep the
  key unique.\<close>

locale sql_table =
  fixes get :: "'d \<Rightarrow> 'r list"
    and upd :: "('r list \<Rightarrow> 'r list) \<Rightarrow> 'd \<Rightarrow> 'd"
    and key :: "'r \<Rightarrow> 'k"
  assumes get_upd: "get (upd f d) = f (get d)"
begin

lemma update_rows: "get (upd (upd_where P f) d) = upd_where P f (get d)"
  by (rule get_upd)

lemma update_keyed:
  "keyed key (get d) \<Longrightarrow> (\<And>r. key (f r) = key r) \<Longrightarrow> keyed key (get (upd (upd_where P f) d))"
  by (simp add: get_upd keyed_upd_where)

lemma delete_keyed: "keyed key (get d) \<Longrightarrow> keyed key (get (upd (del_where P) d))"
  by (simp add: get_upd keyed_del_where)

lemma insert_keyed:
  "keyed key (get d) \<Longrightarrow> \<forall>x \<in> set (get d). key x \<noteq> key r \<Longrightarrow>
   keyed key (get (upd (\<lambda>xs. xs @ [r]) d))"
  by (simp add: get_upd keyed_snoc)

lemma found_unique:
  assumes "keyed key (get d)" and "List.find (\<lambda>x. key x = k) (get d) = Some r"
    and "x \<in> set (get d)" and "key x = k"
  shows "x = r"
proof -
  from assms(2) have "r \<in> set (get d) \<and> key r = k" by (auto dest: find_SomeD)
  with assms show ?thesis by (auto intro: keyed_unique)
qed

end

section \<open>Strings, numbers and time of the Go standard library\<close>

text \<open>A Go string is a sequence of bytes; \<open>char\<close> is a byte.  \<open>strings.TrimSpace\<close> removes the Unicode
  white space characters, each given here by its UTF-8 encoding.\<close>

definition space_runes :: "string list" where
  "space_runes =
     [[CHR 0x09], [CHR 0x0A], [CHR 0x0B], [CHR 0x0C], [CHR 0x0D], [CHR 0x20],
      [CHR 0xC2, CHR 0x85], [CHR 0xC2, CHR 0xA0], [CHR 0xE1, CHR 0x9A, CHR 0x80]] @
     map (\<lambda>c. [CHR 0xE2, CHR 0x80, c])
       [CHR 0x80, CHR 0x81, CHR 0x82, CHR 0x83, CHR 0x84, CHR 0x85, CHR 0x86, CHR 0x87, CHR 0x88, CHR 0x89, CHR 0x8A] @
     [[CHR 0xE2, CHR 0x80, CHR 0xA8], [CHR 0xE2, CHR 0x80, CHR 0xA9], [CHR 0xE2, CHR 0x80, CHR 0xAF],
      [CHR 0xE2, CHR 0x81, CHR 0x9F], [CHR 0xE3, CHR 0x80, CHR 0x80]]"

text \<open>\<open>len\<close> has type \<open>int\<close>.\<close>

definition len :: "'a list \<Rightarrow> int" where
  "len xs = int (length xs)"

fun strip_prefixes :: "nat \<Rightarrow> string list \<Rightarrow> string \<Rightarrow> string" where
  "strip_prefixes 0 ps s = s"
| "strip_prefixes (Suc n) ps s =
     (case List.find (\<lambda>p. prefix p s) ps of
        None \<Rightarrow> s
      | Some p \<Rightarrow> strip_prefixes n ps (drop (length p) s))"

definition TrimLeftSpace :: "string \<Rightarrow> string" where
  "TrimLeftSpace s = strip_prefixes (length s) space_runes s"

definition TrimSpace :: "string \<Rightarrow> string" where
  "TrimSpace s =
     (let t = TrimLeftSpace s in rev (strip_prefixes (length t) (map rev space_runes) (rev t)))"

definition TrimPrefix :: "string \<Rightarrow> string \<Rightarrow> string" where
  "TrimPrefix s p = (if prefix p s then drop (length p) s else s)"

text \<open>The verb \<open>%d\<close> on a natural number.\<close>

fun show_nat :: "nat \<Rightarrow> string" where
  "show_nat n = (if n < 10 then [char_of (48 + n)] else show_nat (n div 10) @ [char_of (48 + n mod 10)])"

declare show_nat.simps [simp del]

text \<open>Evaluation looks the digits up in a table.\<close>

lemma digit_table: "n < 10 \<Longrightarrow> char_of (48 + n) = ''0123456789'' ! n" for n :: nat
proof -
  assume n: "n < 10"
  have "map (\<lambda>n. char_of (48 + n)) [0..<10] = ''0123456789''" by code_simp
  from arg_cong [OF this, of "\<lambda>xs. xs ! n"] n show ?thesis by simp
qed

lemma show_nat_code [code]:
  "show_nat n = (if n < 10 then [''0123456789'' ! n] else show_nat (n div 10) @ [''0123456789'' ! (n mod 10)])"
  by (simp add: show_nat.simps [of n] digit_table)

text \<open>The number a decimal text denotes.\<close>

fun read_nat :: "string \<Rightarrow> nat" where
  "read_nat s = foldl (\<lambda>a c. 10 * a + (of_char c - 48)) 0 s"

lemma read_show_nat: "read_nat (show_nat n) = n"
proof (induction n rule: show_nat.induct)
  case (1 n)
  show ?case
  proof (cases "n < 10")
    case True
    then show ?thesis by (simp add: show_nat.simps [of n])
  next
    case False
    with 1 have "read_nat (show_nat (n div 10)) = n div 10" by simp
    with False show ?thesis by (simp add: show_nat.simps [of n])
  qed
qed

lemma show_nat_inj: "show_nat a = show_nat b \<Longrightarrow> a = b"
  by (metis read_show_nat)

lemma show_nat_digits: "c \<in> set (show_nat n) \<Longrightarrow> of_char c \<in> {48..57 :: nat}"
proof (induction n rule: show_nat.induct)
  case (1 n)
  then show ?case
    by (cases "n < 10") (auto simp: show_nat.simps [of n])
qed

definition show_int :: "int \<Rightarrow> string" where
  "show_int i = (if i < 0 then ''-'' @ show_nat (nat (- i)) else show_nat (nat i))"

text \<open>Ranging over a string decodes UTF-8: the code points, with the replacement character for a byte that
  does not start a valid sequence.\<close>

definition cont :: "nat \<Rightarrow> bool" where
  "cont b \<longleftrightarrow> 128 \<le> b \<and> b < 192"

fun decode_rune :: "nat list \<Rightarrow> nat \<times> nat" where
  "decode_rune [] = (65533, 1)"
| "decode_rune (a # bs) =
     (if a < 128 then (a, 1)
      else if 194 \<le> a \<and> a < 224 then
        (case bs of b # _ \<Rightarrow> if cont b then ((a - 192) * 64 + (b - 128), 2) else (65533, 1) | [] \<Rightarrow> (65533, 1))
      else if 224 \<le> a \<and> a < 240 then
        (case bs of b # c # _ \<Rightarrow>
           if cont b \<and> cont c \<and> (a = 224 \<longrightarrow> 160 \<le> b) \<and> (a = 237 \<longrightarrow> b < 160)
           then ((a - 224) * 4096 + (b - 128) * 64 + (c - 128), 3) else (65533, 1) | _ \<Rightarrow> (65533, 1))
      else if 240 \<le> a \<and> a < 245 then
        (case bs of b # c # d # _ \<Rightarrow>
           if cont b \<and> cont c \<and> cont d \<and> (a = 240 \<longrightarrow> 144 \<le> b) \<and> (a = 244 \<longrightarrow> b < 144)
           then ((a - 240) * 262144 + (b - 128) * 4096 + (c - 128) * 64 + (d - 128), 4) else (65533, 1) | _ \<Rightarrow> (65533, 1))
      else (65533, 1))"

fun runes_of :: "nat \<Rightarrow> nat list \<Rightarrow> nat list" where
  "runes_of 0 bs = []"
| "runes_of (Suc n) bs =
     (if bs = [] then [] else let (r, k) = decode_rune bs in r # runes_of n (drop k bs))"

definition runes :: "string \<Rightarrow> nat list" where
  "runes s = runes_of (length s) (map of_char s)"

text \<open>\<open>unicode.ToLower\<close> as far as it can yield an ASCII character: the capital letters, the Kelvin sign and
  the capital I with a dot; every other code point outside ASCII stays outside ASCII.\<close>

definition ToLowerRune :: "nat \<Rightarrow> nat" where
  "ToLowerRune r = (if 65 \<le> r \<and> r \<le> 90 then r + 32 else if r = 8490 then 107 else if r = 304 then 105 else r)"

text \<open>\<open>strings.Trim\<close> with a set of ASCII characters.\<close>

definition Trim :: "string \<Rightarrow> string \<Rightarrow> string" where
  "Trim s cs = rev (dropWhile (\<lambda>c. c \<in> set cs) (rev (dropWhile (\<lambda>c. c \<in> set cs) s)))"

text \<open>A time is its distance from the Unix epoch in nanoseconds.\<close>

type_synonym gotime = int

definition UnixMilli :: "gotime \<Rightarrow> int" where
  "UnixMilli t = t div 1000000"

definition OfUnixMilli :: "int \<Rightarrow> gotime" where
  "OfUnixMilli ms = ms * 1000000"

lemma UnixMilli_OfUnixMilli [simp]: "UnixMilli (OfUnixMilli ms) = ms"
  by (simp add: UnixMilli_def OfUnixMilli_def)

lemma UnixMilli_mono: "t \<le> u \<Longrightarrow> UnixMilli t \<le> UnixMilli u"
  by (simp add: UnixMilli_def zdiv_mono1)

definition Second :: gotime where
  "Second = 1000000000"

definition Minute :: gotime where
  "Minute = 60 * Second"

definition Hour :: gotime where
  "Hour = 60 * Minute"

text \<open>Hexadecimal text of a 64-bit value, most significant digit first.\<close>

definition hex_digit :: "nat \<Rightarrow> char" where
  "hex_digit n = ''0123456789abcdef'' ! (n mod 16)"

lemma of_char_hex_digit: "n < 16 \<Longrightarrow> of_char (hex_digit n) = (if n < 10 then 48 + n else 87 + n)" for n :: nat
proof -
  assume n: "n < 16"
  have "map (\<lambda>n. of_char (hex_digit n)) [0..<16] = map (\<lambda>n. if n < 10 then 48 + n else 87 + n :: nat) [0..<16]" by code_simp
  from arg_cong [OF this, of "\<lambda>xs. xs ! n"] n show ?thesis by simp
qed

text \<open>The character of a byte, by its bits.\<close>

definition byte_char :: "nat \<Rightarrow> char" where
  "byte_char n = char_of n"

lemma byte_char_code [code]:
  "byte_char n = Char (odd n) (odd (n div 2)) (odd (n div 4)) (odd (n div 8)) (odd (n div 16)) (odd (n div 32)) (odd (n div 64)) (odd (n div 128))"
  by (simp add: byte_char_def char_of_def bit_iff_odd numeral_2_eq_2 [symmetric])

definition hex64 :: "64 word \<Rightarrow> string" where
  "hex64 v = map (\<lambda>i. hex_digit (nat (uint v div 16 ^ (15 - i) mod 16))) [0..<16]"

definition hex_bytes :: "string \<Rightarrow> string" where
  "hex_bytes s = concat (map (\<lambda>c. [hex_digit (of_char c div 16), hex_digit (of_char c mod 16)]) s)"

end
