(* ===== verification/ReplicationModel.thy ===== *)
theory ReplicationModel
  imports Prelude
begin

text \<open>
  The deterministic convergence model of \<open>internal/replication/model.go\<close>: a node records the
  operations it has applied, keyed by the operation's identifier, and the highest lifecycle state
  it has seen for each notification.  Go maps are association lists here; their iteration order
  does not matter, because \<open>Snapshot\<close> sorts what it reads.
\<close>

section \<open>Data\<close>

definition Received :: "8 word" where "Received = 0"

definition Firing :: "8 word" where "Firing = 1"

definition Acknowledged :: "8 word" where "Acknowledged = 2"

definition Resolved :: "8 word" where "Resolved = 3"

record Operation =
  Origin :: string
  Sequence :: "64 word"
  NotificationID :: string
  OpState :: "8 word"

definition OperationID :: "string \<Rightarrow> 64 word \<Rightarrow> string" where
  "OperationID origin sequence = origin @ '':'' @ show_nat (unat sequence)"

definition ID :: "Operation \<Rightarrow> string" where
  "ID o' = OperationID (Origin o') (Sequence o')"

record Node =
  states :: "(string \<times> 8 word) list"
  applied :: "(string \<times> Operation) list"

definition NewNode :: Node where
  "NewNode = \<lparr>states = [], applied = []\<rparr>"

section \<open>Operations\<close>

definition State :: "Node \<Rightarrow> string \<Rightarrow> 8 word" where
  "State n nid = (case map_of (states n) nid of None \<Rightarrow> 0 | Some s \<Rightarrow> s)"

definition valid_operation :: "Operation \<Rightarrow> bool" where
  "valid_operation operation \<longleftrightarrow>
     \<not> (Origin operation = '''' \<or> Sequence operation = 0 \<or> NotificationID operation = '''' \<or>
        OpState operation > Resolved)"

definition Apply :: "Node \<Rightarrow> Operation \<Rightarrow> err option \<times> Node" where
  "Apply n operation =
     (if \<not> valid_operation operation then (Some (ErrText ''invalid operation''), n)
      else case map_of (applied n) (ID operation) of
        Some existing \<Rightarrow>
          (if existing \<noteq> operation then (Some (ErrText ''operation ID collision''), n) else (None, n))
      | None \<Rightarrow>
          (let n1 = n\<lparr>applied := AList.update (ID operation) operation (applied n)\<rparr>
           in if OpState operation > State n1 (NotificationID operation)
              then (None, n1\<lparr>states :=
                      AList.update (NotificationID operation) (OpState operation) (states n1)\<rparr>)
              else (None, n1)))"

text \<open>The loop of \<open>Cursor\<close>: the counter is a 64-bit unsigned integer and wraps.  Fuel stands for the
  number of iterations; \<open>cursor_enough\<close> below shows that one more than the number of applied
  operations is enough.\<close>

fun cursor_loop :: "nat \<Rightarrow> Node \<Rightarrow> string \<Rightarrow> 64 word \<Rightarrow> 64 word option" where
  "cursor_loop 0 n origin cursor = None"
| "cursor_loop (Suc fuel) n origin cursor =
     (let next' = cursor + 1
      in case map_of (applied n) (OperationID origin next') of
           None \<Rightarrow> Some cursor
         | Some _ \<Rightarrow> cursor_loop fuel n origin next')"

definition Cursor :: "Node \<Rightarrow> string \<Rightarrow> 64 word option" where
  "Cursor n origin = cursor_loop (Suc (length (applied n))) n origin 0"

definition Snapshot :: "Node \<Rightarrow> Operation list" where
  "Snapshot n = sort_key (\<lambda>o'. (Origin o', Sequence o')) (map snd (applied n))"

fun Merge :: "Node \<Rightarrow> Operation list \<Rightarrow> err option \<times> Node" where
  "Merge n [] = (None, n)"
| "Merge n (operation # operations) =
     (case Apply n operation of
        (Some e, n') \<Rightarrow> (Some e, n')
      | (None, n') \<Rightarrow> Merge n' operations)"

section \<open>Operation identifiers\<close>

lemma colon_notin_show_nat: "CHR '':'' \<notin> set (show_nat n)"
  using show_nat_digits by fastforce

lemma last_separator_unique:
  assumes "xs @ c # ys = xs' @ c # ys'" and "c \<notin> set ys" and "c \<notin> set ys'"
  shows "xs = xs' \<and> ys = ys'"
proof -
  have cut: "takeWhile (\<lambda>x. x \<noteq> c) (rev zs @ c # ws) = rev zs" if "c \<notin> set zs" for zs ws
    using that by (simp add: takeWhile_append)
  from assms(1) have "rev ys @ c # rev xs = rev ys' @ c # rev xs'"
    by (metis append.assoc append_Cons append_Nil rev.simps(2) rev_append)
  with cut [OF assms(2), of "rev xs"] cut [OF assms(3), of "rev xs'"]
  have "ys = ys'" by simp
  with assms(1) show ?thesis by simp
qed

lemma OperationID_inj: "OperationID a s = OperationID b t \<longleftrightarrow> a = b \<and> s = t"
proof
  assume "OperationID a s = OperationID b t"
  then have "a @ CHR '':'' # show_nat (unat s) = b @ CHR '':'' # show_nat (unat t)"
    by (simp add: OperationID_def)
  from last_separator_unique [OF this colon_notin_show_nat colon_notin_show_nat]
  show "a = b \<and> s = t" by (auto dest: show_nat_inj simp: word_unat_eq_iff)
qed simp

lemma ID_eq: "ID a = ID b \<longleftrightarrow> Origin a = Origin b \<and> Sequence a = Sequence b"
  by (simp add: ID_def OperationID_inj)

section \<open>The node invariant\<close>

definition ops :: "Node \<Rightarrow> Operation set" where
  "ops n = snd ` set (applied n)"

text \<open>Every applied operation is filed under its own identifier and is valid; the state of a
  notification is the highest one an applied operation carries (\<open>Received\<close> when there is none).\<close>

definition node_wf :: "Node \<Rightarrow> bool" where
  "node_wf n \<longleftrightarrow>
     distinct (map fst (applied n)) \<and>
     (\<forall>(k, o') \<in> set (applied n). k = ID o' \<and> valid_operation o') \<and>
     (\<forall>o' \<in> ops n. OpState o' \<le> State n (NotificationID o')) \<and>
     (\<forall>nid. State n nid \<noteq> 0 \<longrightarrow> (\<exists>o' \<in> ops n. NotificationID o' = nid \<and> OpState o' = State n nid))"

lemma node_wf_NewNode: "node_wf NewNode"
  by (simp add: node_wf_def NewNode_def State_def ops_def)

lemma ops_NewNode [simp]: "ops NewNode = {}"
  by (simp add: NewNode_def ops_def)

lemma finite_ops [simp]: "finite (ops n)"
  by (simp add: ops_def)

lemma node_wfD:
  assumes "node_wf n" and "o' \<in> ops n"
  shows "valid_operation o'" "Sequence o' \<noteq> 0" "OpState o' \<le> State n (NotificationID o')"
  using assms by (auto simp: node_wf_def ops_def valid_operation_def)

lemma ops_snoc: "applied n' = applied n @ [(k, o')] \<Longrightarrow> ops n' = insert o' (ops n)"
  by (auto simp: ops_def)

lemma applied_lookup:
  assumes "node_wf n"
  shows "map_of (applied n) k = Some o' \<longleftrightarrow> o' \<in> ops n \<and> k = ID o'"
proof -
  from assms have d: "distinct (map fst (applied n))"
    and k: "\<And>k o'. (k, o') \<in> set (applied n) \<Longrightarrow> k = ID o'"
    by (auto simp: node_wf_def)
  show ?thesis
    using d k by (force simp: map_of_eq_Some_iff ops_def)
qed

lemma State_update:
  "State (n\<lparr>applied := a, states := AList.update k v (states n)\<rparr>) nid =
     (if nid = k then v else State n nid)"
  by (simp add: State_def update_conv)

lemma State_applied [simp]: "State (n\<lparr>applied := a\<rparr>) nid = State n nid"
  by (simp add: State_def)

lemma Apply_cases:
  assumes "node_wf n"
  obtains (invalid) "\<not> valid_operation o'" "Apply n o' = (Some (ErrText ''invalid operation''), n)"
  | (collision) x where "valid_operation o'" "x \<in> ops n" "ID x = ID o'" "x \<noteq> o'"
      "Apply n o' = (Some (ErrText ''operation ID collision''), n)"
  | (known) "valid_operation o'" "o' \<in> ops n" "Apply n o' = (None, n)"
  | (fresh) n' where "valid_operation o'" "\<forall>x \<in> ops n. ID x \<noteq> ID o'" "Apply n o' = (None, n')"
      "applied n' = applied n @ [(ID o', o')]"
      "\<And>nid. State n' nid = (if nid = NotificationID o' then max (State n nid) (OpState o') else State n nid)"
proof (cases "valid_operation o'")
  case False
  then show ?thesis by (intro invalid) (simp_all add: Apply_def)
next
  case valid: True
  show ?thesis
  proof (cases "map_of (applied n) (ID o')")
    case (Some x)
    then have x: "x \<in> ops n" "ID x = ID o'" using assms by (auto simp: applied_lookup)
    with Some valid collision known show ?thesis
      by (cases "x = o'") (auto simp: Apply_def)
  next
    case None
    then have new: "\<forall>x \<in> ops n. ID x \<noteq> ID o'"
      using assms applied_lookup by (metis option.distinct(1))
    have snoc: "AList.update (ID o') o' (applied n) = applied n @ [(ID o', o')]"
    proof -
      have "AList.update k v xs = xs @ [(k, v)]" if "map_of xs k = None" for k v and xs :: "(string \<times> Operation) list"
        using that by (induction xs) (auto split: if_splits)
      with None show ?thesis by blast
    qed
    have "Apply n o' = (None, snd (Apply n o'))"
      "applied (snd (Apply n o')) = applied n @ [(ID o', o')]"
      using valid None by (simp_all add: Apply_def snoc Let_def)
    moreover have "State (snd (Apply n o')) nid =
        (if nid = NotificationID o' then max (State n nid) (OpState o') else State n nid)" for nid
      using valid None by (auto simp: Apply_def snoc Let_def State_def update_conv max_def)
    ultimately show ?thesis using valid new by (intro fresh)
  qed
qed

lemma Apply_wf:
  assumes "node_wf n" and "Apply n o' = (None, n')"
  shows "node_wf n' \<and> ops n' = insert o' (ops n) \<and> valid_operation o'"
  using assms(1)
proof (cases rule: Apply_cases [where o' = o'])
  case (fresh n1)
  with assms(2) have n1: "n1 = n'" by simp
  have keys: "distinct (map fst (applied n'))"
    using assms(1) fresh n1 by (force simp: node_wf_def ops_def)
  have filed: "\<forall>(k, o') \<in> set (applied n'). k = ID o' \<and> valid_operation o'"
    using assms(1) fresh n1 by (auto simp: node_wf_def)
  have upper: "\<forall>x \<in> ops n'. OpState x \<le> State n' (NotificationID x)"
    using assms(1) fresh(5) n1 ops_snoc [OF fresh(4)] by (auto simp: node_wf_def le_max_iff_disj)
  have attained: "\<forall>nid. State n' nid \<noteq> 0 \<longrightarrow> (\<exists>x \<in> ops n'. NotificationID x = nid \<and> OpState x = State n' nid)"
    using assms(1) fresh(5) n1 ops_snoc [OF fresh(4)] by (auto simp: node_wf_def max_def)
  show ?thesis
    using keys filed upper attained fresh n1 ops_snoc [OF fresh(4)] by (simp add: node_wf_def)
qed (use assms in auto)

lemma Merge_wf:
  assumes "node_wf n" and "Merge n xs = (None, n')"
  shows "node_wf n' \<and> ops n' = ops n \<union> set xs \<and> (\<forall>o' \<in> set xs. valid_operation o')"
  using assms
proof (induction xs arbitrary: n)
  case Nil
  then show ?case by simp
next
  case (Cons x xs)
  then obtain n1 where "Apply n x = (None, n1)" and rest: "Merge n1 xs = (None, n')"
    by (auto split: prod.splits option.splits)
  with Cons.prems Apply_wf have "node_wf n1" "ops n1 = insert x (ops n)" "valid_operation x"
    by blast+
  with Cons.IH [OF _ rest] show ?case by auto
qed

section \<open>What the applied operations determine\<close>

lemma applied_lookup_ID: "node_wf n \<Longrightarrow> x \<in> ops n \<Longrightarrow> map_of (applied n) (ID x) = Some x"
  by (simp add: applied_lookup)

lemma inj_on_ID: "node_wf n \<Longrightarrow> inj_on ID (ops n)"
  by (rule inj_onI) (metis applied_lookup_ID option.inject)

lemma inj_on_order_key: "node_wf n \<Longrightarrow> inj_on (\<lambda>o'. (Origin o', Sequence o')) (ops n)"
  using inj_on_ID [of n] by (auto simp: inj_on_def ID_eq)

lemma distinct_ops: "node_wf n \<Longrightarrow> distinct (map snd (applied n))"
proof -
  assume wf: "node_wf n"
  then have "map ID (map snd (applied n)) = map fst (applied n)"
    by (auto simp: node_wf_def)
  with wf have "distinct (map ID (map snd (applied n)))"
    unfolding node_wf_def by metis
  then show ?thesis by (simp only: distinct_map)
qed

lemma length_applied: "node_wf n \<Longrightarrow> length (applied n) = card (ops n)"
  by (metis distinct_card distinct_ops length_map ops_def set_map)

lemma State_determined:
  assumes "node_wf n" and "node_wf m" and "ops n \<subseteq> ops m"
  shows "State n nid \<le> State m nid"
proof (cases "State n nid = 0")
  case False
  with assms(1) obtain x where "x \<in> ops n" "NotificationID x = nid" "OpState x = State n nid"
    unfolding node_wf_def by blast
  moreover from this assms(3) have "x \<in> ops m" by blast
  with assms(2) have "OpState x \<le> State m (NotificationID x)"
    by (rule node_wfD)
  ultimately show ?thesis by simp
qed simp

lemma Snapshot_determined:
  assumes "node_wf n" and "node_wf m" and "ops n = ops m"
  shows "Snapshot n = Snapshot m"
proof -
  let ?k = "\<lambda>o'. (Origin o', Sequence o')"
  have "distinct (map ?k (Snapshot x)) \<and> sorted (map ?k (Snapshot x)) \<and> set (Snapshot x) = ops x"
    if "node_wf x" for x
    using that distinct_ops [OF that] inj_on_order_key [OF that]
    by (auto simp: Snapshot_def distinct_map ops_def)
  with assms have "map ?k (Snapshot n) = map ?k (Snapshot m)" "set (Snapshot n) = ops n" "set (Snapshot m) = ops n"
    by (simp_all add: sorted_distinct_set_unique)
  with inj_on_order_key [OF assms(1)] show ?thesis
    by (metis Un_absorb inj_on_map_eq_map)
qed

lemma set_Snapshot: "set (Snapshot n) = ops n"
  by (simp add: Snapshot_def ops_def)

section \<open>The cursor loop\<close>

definition applied_seqs :: "Node \<Rightarrow> string \<Rightarrow> nat set" where
  "applied_seqs n origin = {unat (Sequence o') | o'. o' \<in> ops n \<and> Origin o' = origin}"

lemma lookup_applied_seqs:
  assumes "node_wf n"
  shows "map_of (applied n) (OperationID origin s) = None \<longleftrightarrow> unat s \<notin> applied_seqs n origin"
proof -
  have "map_of (applied n) (OperationID origin s) \<noteq> None \<longleftrightarrow>
      (\<exists>o' \<in> ops n. ID o' = OperationID origin s)"
    using applied_lookup [OF assms] by (metis not_None_eq)
  then show ?thesis
    by (auto simp: applied_seqs_def ID_def OperationID_inj word_unat_eq_iff)
qed

lemma applied_seqs_facts:
  assumes "node_wf n"
  shows "finite (applied_seqs n origin)" "card (applied_seqs n origin) \<le> length (applied n)"
    "0 \<notin> applied_seqs n origin"
proof -
  have eq: "applied_seqs n origin = (\<lambda>o'. unat (Sequence o')) ` {o' \<in> ops n. Origin o' = origin}"
    by (auto simp: applied_seqs_def)
  then show "finite (applied_seqs n origin)" by simp
  have "card (applied_seqs n origin) \<le> card {o' \<in> ops n. Origin o' = origin}"
    unfolding eq by (rule card_image_le) simp
  also have "\<dots> \<le> card (ops n)" by (rule card_mono) auto
  finally show "card (applied_seqs n origin) \<le> length (applied n)"
    using length_applied [OF assms] by simp
  show "0 \<notin> applied_seqs n origin"
    using node_wfD(2) [OF assms] by (auto simp: applied_seqs_def unat_eq_0)
qed

lemma cursor_loop_result:
  assumes wf: "node_wf n" and "{1..unat c} \<subseteq> applied_seqs n origin"
    and "card (applied_seqs n origin) < fuel + unat c"
  shows "\<exists>r. cursor_loop fuel n origin c = Some r \<and> {1..unat r} \<subseteq> applied_seqs n origin \<and>
      unat (r + 1) \<notin> applied_seqs n origin"
  using assms(2,3)
proof (induction fuel arbitrary: c)
  case 0
  have "card {1..unat c} \<le> card (applied_seqs n origin)"
    using 0 applied_seqs_facts [OF wf] by (intro card_mono) auto
  with 0 show ?case by simp
next
  case (Suc fuel)
  show ?case
  proof (cases "unat (c + 1) \<in> applied_seqs n origin")
    case True
    then have "c + 1 \<noteq> 0" using applied_seqs_facts(3) [OF wf] by (metis unat_0)
    then have up: "unat (c + 1) = Suc (unat c)" by (metis add.commute unatSuc)
    then have "{1..unat (c + 1)} \<subseteq> applied_seqs n origin"
      using Suc.prems(1) True by (auto simp: atLeastAtMostSuc_conv)
    moreover have "map_of (applied n) (OperationID origin (c + 1)) \<noteq> None"
      using True lookup_applied_seqs [OF wf] by simp
    ultimately show ?thesis
      using Suc.IH [of "c + 1"] Suc.prems(2) up by (auto simp: Let_def)
  next
    case False
    then have "map_of (applied n) (OperationID origin (c + 1)) = None"
      using lookup_applied_seqs [OF wf] by simp
    with False Suc.prems(1) show ?thesis by (simp add: Let_def)
  qed
qed

lemma Cursor_wf:
  assumes "node_wf n"
  shows "\<exists>c. Cursor n origin = Some c \<and> {1..unat c} \<subseteq> applied_seqs n origin \<and>
      unat (c + 1) \<notin> applied_seqs n origin"
  unfolding Cursor_def
  by (rule cursor_loop_result [OF assms]) (use applied_seqs_facts(2) [OF assms, of origin] in simp_all)

lemma Cursor_determined:
  assumes "node_wf n" and "node_wf m" and "ops n = ops m"
  shows "Cursor n origin = Cursor m origin"
proof -
  have "map_of (applied n) k = Some v \<longleftrightarrow> map_of (applied m) k = Some v" for k v
    using assms by (simp add: applied_lookup)
  then have "map_of (applied n) = map_of (applied m)"
    by (intro ext) (metis not_None_eq)
  then have "cursor_loop f n origin c = cursor_loop f m origin c" for f c
    by (induction f arbitrary: c) (auto simp: Let_def split: option.splits)
  with assms show ?thesis by (simp add: Cursor_def length_applied)
qed

section \<open>When a merge is accepted\<close>

lemma Apply_accepts:
  assumes "node_wf n"
  shows "fst (Apply n x) = None \<longleftrightarrow> valid_operation x \<and> (\<forall>y \<in> ops n. ID y = ID x \<longrightarrow> y = x)"
  using assms
proof (cases rule: Apply_cases [where o' = x])
  case known
  then show ?thesis using inj_on_ID [OF assms] by (auto dest: inj_onD)
qed auto

lemma Merge_accepts:
  assumes "node_wf n"
  shows "fst (Merge n xs) = None \<longleftrightarrow>
         (\<forall>x \<in> set xs. valid_operation x) \<and> inj_on ID (ops n \<union> set xs)"
  using assms
proof (induction xs arbitrary: n)
  case Nil
  then show ?case by (simp add: inj_on_ID)
next
  case (Cons x xs)
  obtain e n1 where ap: "Apply n x = (e, n1)" by (cases "Apply n x")
  show ?case
  proof (cases e)
    case None
    with ap Cons.prems Apply_wf have wf: "node_wf n1" "ops n1 = insert x (ops n)" "valid_operation x"
      by blast+
    with None ap Cons.IH [OF wf(1)] show ?thesis by simp
  next
    case (Some e')
    with ap have "\<not> (valid_operation x \<and> (\<forall>y \<in> ops n. ID y = ID x \<longrightarrow> y = x))"
      using Apply_accepts [OF Cons.prems, of x] by simp
    then have "\<not> ((\<forall>x \<in> set (x # xs). valid_operation x) \<and> inj_on ID (ops n \<union> set (x # xs)))"
      by (auto simp: inj_on_def)
    with Some ap show ?thesis by simp
  qed
qed

lemma Merge_new:
  assumes "fst (Merge NewNode xs) = None"
  shows "node_wf (snd (Merge NewNode xs))" "ops (snd (Merge NewNode xs)) = set xs"
  using Merge_wf [OF node_wf_NewNode, of xs "snd (Merge NewNode xs)"] assms
  by (simp_all add: prod_eq_iff)

section \<open>Properties\<close>

text \<open>C1: replicas converge.  Two fresh nodes that accept the same set of operations, in any order and
  with any repetition, agree on the state of every notification, on the sorted snapshot and on the
  contiguous cursor of every origin.\<close>

theorem merge_convergence:
  assumes "fst (Merge NewNode xs) = None" and "fst (Merge NewNode ys) = None" and "set xs = set ys"
  shows "State (snd (Merge NewNode xs)) nid = State (snd (Merge NewNode ys)) nid \<and>
         Snapshot (snd (Merge NewNode xs)) = Snapshot (snd (Merge NewNode ys)) \<and>
         Cursor (snd (Merge NewNode xs)) origin = Cursor (snd (Merge NewNode ys)) origin"
  using assms
  by (auto simp: Merge_new intro!: antisym State_determined Snapshot_determined Cursor_determined)

theorem merge_convergence_witness:
  "(let a = \<lparr>Origin = ''n1'', Sequence = 1, NotificationID = ''x'', OpState = 1\<rparr>;
        b = \<lparr>Origin = ''n2'', Sequence = 1, NotificationID = ''x'', OpState = 3\<rparr>
    in State (snd (Merge NewNode [a, b])) ''x'' = State (snd (Merge NewNode [b, a, b])) ''x'' \<and>
       State (snd (Merge NewNode [a, b])) ''x'' = Resolved)"
proof -
  let ?a = "\<lparr>Origin = ''n1'', Sequence = 1, NotificationID = ''x'', OpState = 1\<rparr> :: Operation"
  let ?b = "\<lparr>Origin = ''n2'', Sequence = 1, NotificationID = ''x'', OpState = 3\<rparr> :: Operation"
  have "fst (Merge NewNode [?a, ?b]) = None" "fst (Merge NewNode [?b, ?a, ?b]) = None"
    by code_simp+
  from merge_convergence [OF this, of "''x''" "''n1''"]
  have "State (snd (Merge NewNode [?a, ?b])) ''x'' = State (snd (Merge NewNode [?b, ?a, ?b])) ''x''"
    by auto
  moreover have "State (snd (Merge NewNode [?a, ?b])) ''x'' = Resolved" by code_simp
  ultimately show ?thesis by (simp add: Let_def)
qed

text \<open>C3: a merge is accepted exactly when every operation is valid and no identifier is used for two
  different operations, among those already applied and those merged.  A fresh node therefore
  accepts the snapshot of another one, and reports a collision rather than overwriting.\<close>

theorem merge_accepted_iff:
  "fst (Merge NewNode (xs @ ys)) = None \<longleftrightarrow>
     (\<forall>x \<in> set xs \<union> set ys. valid_operation x) \<and>
     (\<forall>x \<in> set xs \<union> set ys. \<forall>y \<in> set xs \<union> set ys.
        Origin x = Origin y \<and> Sequence x = Sequence y \<longrightarrow> x = y)"
  by (simp add: Merge_accepts [OF node_wf_NewNode] inj_on_def ID_eq)

theorem merge_accepted_iff_witness:
  "(let a = \<lparr>Origin = ''n1'', Sequence = 1, NotificationID = ''x'', OpState = 1\<rparr>;
        b = \<lparr>Origin = ''n1'', Sequence = 1, NotificationID = ''x'', OpState = 2\<rparr>
    in fst (Merge NewNode ([a] @ [a])) = None \<and> fst (Merge NewNode ([a] @ [b])) \<noteq> None)"
  unfolding Let_def merge_accepted_iff by (simp add: valid_operation_def Resolved_def)

text \<open>C2: exchanging snapshots synchronises two replicas.  When each of two nodes accepts the other's
  snapshot, both end with the operations of either of them and no others, with the higher of the two
  states for every notification, and with the same snapshot and the same cursor for every origin.\<close>

theorem snapshot_exchange:
  assumes "Merge NewNode xs = (None, n)" and "Merge NewNode ys = (None, m)"
    and "fst (Merge n (Snapshot m)) = None"
  shows "fst (Merge m (Snapshot n)) = None \<and>
         State (snd (Merge n (Snapshot m))) nid = max (State n nid) (State m nid) \<and>
         State (snd (Merge m (Snapshot n))) nid = max (State n nid) (State m nid) \<and>
         set (Snapshot (snd (Merge n (Snapshot m)))) = set (Snapshot n) \<union> set (Snapshot m) \<and>
         Snapshot (snd (Merge n (Snapshot m))) = Snapshot (snd (Merge m (Snapshot n))) \<and>
         Cursor (snd (Merge n (Snapshot m))) origin = Cursor (snd (Merge m (Snapshot n))) origin"
proof -
  have wf: "node_wf n" "node_wf m" using assms Merge_wf node_wf_NewNode by blast+
  have reverse: "fst (Merge m (Snapshot n)) = None"
    using assms(3) wf node_wfD(1) [OF wf(1)] by (simp add: Merge_accepts set_Snapshot Un_commute)
  obtain n' where n': "Merge n (Snapshot m) = (None, n')" using assms(3) by (metis prod.collapse)
  obtain m' where m': "Merge m (Snapshot n) = (None, m')" using reverse by (metis prod.collapse)
  have wn: "node_wf n'" "ops n' = ops n \<union> ops m"
    using Merge_wf [OF wf(1) n'] by (simp_all add: set_Snapshot)
  have wm: "node_wf m'" "ops m' = ops n \<union> ops m"
    using Merge_wf [OF wf(2) m'] by (auto simp: set_Snapshot)
  have join: "State k nid = max (State n nid) (State m nid)" if "node_wf k" "ops k = ops n \<union> ops m" for k
  proof (rule antisym)
    show "max (State n nid) (State m nid) \<le> State k nid"
      using that wf by (simp add: State_determined)
    show "State k nid \<le> max (State n nid) (State m nid)"
    proof (cases "State k nid = 0")
      case False
      with that(1) obtain x where x: "x \<in> ops k" "NotificationID x = nid" "OpState x = State k nid"
        unfolding node_wf_def by blast
      with that(2) wf show ?thesis
        by (auto simp: le_max_iff_disj dest: node_wfD(3))
    qed simp
  qed
  show ?thesis
    using reverse n' m' wn wm wf join Snapshot_determined [OF wn(1) wm(1)] Cursor_determined [OF wn(1) wm(1)]
    by (simp add: set_Snapshot)
qed

theorem snapshot_exchange_witness:
  "(let a = \<lparr>Origin = ''n1'', Sequence = 1, NotificationID = ''x'', OpState = 1\<rparr>;
        b = \<lparr>Origin = ''n2'', Sequence = 1, NotificationID = ''x'', OpState = 3\<rparr>;
        n = snd (Merge NewNode [a]); m = snd (Merge NewNode [b])
    in State (snd (Merge n (Snapshot m))) ''x'' = max (State n ''x'') (State m ''x'') \<and>
       State (snd (Merge m (Snapshot n))) ''x'' = Resolved \<and>
       Cursor (snd (Merge n (Snapshot m))) ''n2'' = Cursor (snd (Merge m (Snapshot n))) ''n2'')"
proof -
  let ?a = "\<lparr>Origin = ''n1'', Sequence = 1, NotificationID = ''x'', OpState = 1\<rparr> :: Operation"
  let ?b = "\<lparr>Origin = ''n2'', Sequence = 1, NotificationID = ''x'', OpState = 3\<rparr> :: Operation"
  let ?n = "snd (Merge NewNode [?a])" and ?m = "snd (Merge NewNode [?b])"
  have "Merge NewNode [?a] = (None, ?n)" "Merge NewNode [?b] = (None, ?m)"
    "fst (Merge ?n (Snapshot ?m)) = None"
    by code_simp+
  from snapshot_exchange [OF this, of "''x''" "''n2''"]
  have "State (snd (Merge ?n (Snapshot ?m))) ''x'' = max (State ?n ''x'') (State ?m ''x'')"
    and "State (snd (Merge ?m (Snapshot ?n))) ''x'' = max (State ?n ''x'') (State ?m ''x'')"
    and "Cursor (snd (Merge ?n (Snapshot ?m))) ''n2'' = Cursor (snd (Merge ?m (Snapshot ?n))) ''n2''" by blast+
  moreover have "max (State ?n ''x'') (State ?m ''x'') = Resolved" by code_simp
  ultimately show ?thesis by (simp add: Let_def)
qed

text \<open>The cursor loop returns, and what it returns is the length of the contiguous range of sequence
  numbers of that origin that have been applied: every number from 1 to it is present, the next
  one (modulo the width of the counter) is not.\<close>

theorem cursor_contiguous:
  assumes "fst (Merge NewNode xs) = None"
  shows "\<exists>c. Cursor (snd (Merge NewNode xs)) origin = Some c \<and>
     (\<forall>k. 1 \<le> k \<and> k \<le> unat c \<longrightarrow> (\<exists>x \<in> set xs. Origin x = origin \<and> unat (Sequence x) = k)) \<and>
     (\<forall>x \<in> set xs. Origin x = origin \<longrightarrow> Sequence x \<noteq> c + 1)"
proof -
  let ?n = "snd (Merge NewNode xs)"
  have seqs: "applied_seqs ?n origin = {unat (Sequence x) | x. x \<in> set xs \<and> Origin x = origin}"
    using assms by (simp add: applied_seqs_def Merge_new)
  obtain c where "Cursor ?n origin = Some c" "{1..unat c} \<subseteq> applied_seqs ?n origin"
      "unat (c + 1) \<notin> applied_seqs ?n origin"
    using Cursor_wf [of ?n origin] assms by (auto simp: Merge_new)
  then show ?thesis unfolding seqs by (intro exI [of _ c]) fastforce
qed

theorem cursor_contiguous_witness:
  "(let a = \<lparr>Origin = ''n1'', Sequence = 1, NotificationID = ''x'', OpState = 1\<rparr>;
        b = \<lparr>Origin = ''n1'', Sequence = 2, NotificationID = ''y'', OpState = 3\<rparr>;
        c = \<lparr>Origin = ''n1'', Sequence = 4, NotificationID = ''y'', OpState = 3\<rparr>
    in (\<exists>r. Cursor (snd (Merge NewNode [a, c, b])) ''n1'' = Some r) \<and>
       Cursor (snd (Merge NewNode [a, c, b])) ''n1'' = Some 2)"
proof -
  let ?xs = "[\<lparr>Origin = ''n1'', Sequence = 1, NotificationID = ''x'', OpState = 1\<rparr>,
    \<lparr>Origin = ''n1'', Sequence = 4, NotificationID = ''y'', OpState = 3\<rparr>,
    \<lparr>Origin = ''n1'', Sequence = 2, NotificationID = ''y'', OpState = 3\<rparr>] :: Operation list"
  have "fst (Merge NewNode ?xs) = None" by code_simp
  from cursor_contiguous [OF this, of "''n1''"]
  have "\<exists>r. Cursor (snd (Merge NewNode ?xs)) ''n1'' = Some r" by blast
  moreover have "Cursor (snd (Merge NewNode ?xs)) ''n1'' = Some 2" by code_simp
  ultimately show ?thesis by (simp add: Let_def)
qed

end
