(* ===== verification/PostgresSql.thy ===== *)
theory PostgresSql
  imports Prelude
begin

text \<open>
  The translation of statements for PostgreSQL, in \<open>internal/store/postgres_driver.go\<close>: the store writes the SQL of SQLite, and the driver
  rewrites its parameters, its two scalar functions and a few expressions.  A query is its sequence of bytes.
\<close>

section \<open>Parameters\<close>

fun intString :: "nat \<Rightarrow> string" where
  "intString value = (if value < 10 then [char_of (48 + value)] else intString (value div 10) @ intString (value mod 10))"

declare intString.simps [simp del]

definition next_is :: "char \<Rightarrow> string \<Rightarrow> bool" where
  "next_is c r \<longleftrightarrow> r \<noteq> [] \<and> hd r = c"

lemma next_is_simps [simp]: "\<not> next_is c []" "next_is c (x # r) \<longleftrightarrow> x = c"
  by (simp_all add: next_is_def)

text \<open>The state of the scanner is its four flags and the number of the next parameter.\<close>

fun parameters_loop :: "bool \<Rightarrow> bool \<Rightarrow> bool \<Rightarrow> bool \<Rightarrow> nat \<Rightarrow> string \<Rightarrow> string" where
  "parameters_loop inSingle inDouble inLineComment inBlockComment parameter [] = []"
| "parameters_loop inSingle inDouble inLineComment inBlockComment parameter (current # rest) =
     (if inLineComment then
        current # parameters_loop inSingle inDouble (current \<noteq> CHR 0x0A) inBlockComment parameter rest
      else if inBlockComment then
        (if current = CHR ''*'' \<and> next_is (CHR ''/'') rest
         then current # CHR ''/'' # parameters_loop inSingle inDouble inLineComment False parameter (tl rest)
         else current # parameters_loop inSingle inDouble inLineComment inBlockComment parameter rest)
      else if \<not> inSingle \<and> \<not> inDouble \<and> current = CHR ''-'' \<and> next_is (CHR ''-'') rest then
        ''--'' @ parameters_loop inSingle inDouble True inBlockComment parameter (tl rest)
      else if \<not> inSingle \<and> \<not> inDouble \<and> current = CHR ''/'' \<and> next_is (CHR ''*'') rest then
        ''/*'' @ parameters_loop inSingle inDouble inLineComment True parameter (tl rest)
      else if current = CHR 0x27 \<and> \<not> inDouble then
        (if inSingle \<and> next_is (CHR 0x27) rest
         then current # hd rest # parameters_loop inSingle inDouble inLineComment inBlockComment parameter (tl rest)
         else current # parameters_loop (\<not> inSingle) inDouble inLineComment inBlockComment parameter rest)
      else if current = CHR 0x22 \<and> \<not> inSingle then
        current # parameters_loop inSingle (\<not> inDouble) inLineComment inBlockComment parameter rest
      else if current = CHR ''?'' \<and> \<not> inSingle \<and> \<not> inDouble then
        ''$'' @ intString parameter @ parameters_loop inSingle inDouble inLineComment inBlockComment (parameter + 1) rest
      else current # parameters_loop inSingle inDouble inLineComment inBlockComment parameter rest)"

definition postgresParameters :: "string \<Rightarrow> string" where
  "postgresParameters sql = parameters_loop False False False False 1 sql"



section \<open>Scalar functions\<close>

text \<open>A text between single quotes.\<close>

definition quoted :: "string \<Rightarrow> string" where
  "quoted s = CHR 0x27 # s @ [CHR 0x27]"

text \<open>\<open>strings.Index\<close> and \<open>strings.ReplaceAll\<close> for a text that is not empty.\<close>

fun Index :: "string \<Rightarrow> string \<Rightarrow> nat option" where
  "Index s sub =
     (if prefix sub s then Some 0 else case s of [] \<Rightarrow> None | c # r \<Rightarrow> map_option Suc (Index r sub))"

declare Index.simps [simp del]

function ReplaceAll :: "string \<Rightarrow> string \<Rightarrow> string \<Rightarrow> string" where
  "ReplaceAll s old new =
     (if old \<noteq> [] \<and> prefix old s then new @ ReplaceAll (drop (length old) s) old new
      else case s of [] \<Rightarrow> [] | c # r \<Rightarrow> c # ReplaceAll r old new)"
  by pat_completeness auto
termination
  by (relation "measure (\<lambda>(s, old, new). length s)") (auto simp: prefix_def)

declare ReplaceAll.simps [simp del]

text \<open>The inner loop of \<open>postgresScalarFunctions\<close>: from the opening parenthesis, the position of the parenthesis that closes it and whether a
  comma separates arguments of the call itself.  The result counts from the first position.\<close>

fun call_end :: "int \<Rightarrow> bool \<Rightarrow> string \<Rightarrow> bool \<times> nat option" where
  "call_end depth comma [] = (comma, None)"
| "call_end depth comma (c # r) =
     (if c = CHR '')'' \<and> depth = 1 then (comma, Some 0)
      else map_prod id (map_option Suc)
        (call_end (if c = CHR ''('' then depth + 1 else if c = CHR '')'' then depth - 1 else depth)
           (comma \<or> c = CHR '','' \<and> depth = 1) r))"

function scalar_loop :: "string \<Rightarrow> string \<Rightarrow> string \<Rightarrow> nat \<Rightarrow> string" where
  "scalar_loop fn replacement sql searchFrom =
     (case Index (drop searchFrom sql) (fn @ ''('') of
        None \<Rightarrow> sql
      | Some index0 \<Rightarrow>
          let index = index0 + searchFrom in
          case call_end 0 False (drop (index + length fn) sql) of
            (True, Some end0) \<Rightarrow>
              scalar_loop fn replacement (take index sql @ replacement @ drop (index + length fn) sql)
                (index + length fn + end0 + length replacement - length fn + 1)
          | _ \<Rightarrow> scalar_loop fn replacement sql (index + length fn + 1))"
  by pat_completeness auto

lemma Index_SomeD: "Index s sub = Some i \<Longrightarrow> i + length sub \<le> length s \<and> take (length sub) (drop i s) = sub"
proof (induction s arbitrary: i)
  case Nil
  then show ?case by (simp add: Index.simps split: if_splits)
next
  case (Cons c s)
  show ?case
  proof (cases "prefix sub (c # s)")
    case True
    with Cons.prems have "i = 0" by (simp add: Index.simps [of "c # s"])
    with True show ?thesis using prefix_length_le [OF True] by (auto simp: prefix_def)
  next
    case False
    with Cons.prems obtain j where "Index s sub = Some j" "i = Suc j" by (auto simp: Index.simps [of "c # s"])
    with Cons.IH show ?thesis by simp
  qed
qed

lemma call_end_bound: "call_end depth comma s = (b, Some e) \<Longrightarrow> e < length s"
proof (induction depth comma s arbitrary: b e rule: call_end.induct)
  case (2 depth comma c r)
  then show ?case by (fastforce split: if_splits simp: map_prod_def split: prod.splits)
qed simp

lemma Index_bound: "Index (drop n s) sub = Some i \<Longrightarrow> i + n + length sub \<le> length s \<or> sub = []"
  using Index_SomeD [of "drop n s" sub i] by (cases sub) auto

termination scalar_loop
  by (relation "measure (\<lambda>(f, r, q, n). length q - n)") (auto dest!: Index_bound)

declare scalar_loop.simps [simp del]

definition postgresScalarFunctions :: "string \<Rightarrow> string" where
  "postgresScalarFunctions sql = scalar_loop ''MIN'' ''LEAST'' (scalar_loop ''MAX'' ''GREATEST'' sql 0) 0"

section \<open>The translation\<close>

definition postgresQuery :: "string \<Rightarrow> string" where
  "postgresQuery sql0 =
     (let sql1 = ReplaceAll sql0 '' COLLATE NOCASE'' '''';
          sql2 = ReplaceAll sql1 '' LIKE '' '' ILIKE '';
          sql3 = ReplaceAll sql2 (''X'' @ [CHR 0x27, CHR 0x27]) (''decode('' @ [CHR 0x27, CHR 0x27] @ '', '' @ quoted ''hex'' @ '')'');
          sql4 = ReplaceAll sql3 '' AS BLOB)'' '' AS BYTEA)'';
          sql5 = ReplaceAll sql4 ''LOWER(HEX(w.token_hash))'' (''LOWER(ENCODE(w.token_hash, '' @ quoted ''hex'' @ ''))'');
          sql6 = ReplaceAll sql5
            (''json_extract(CASE WHEN json_valid(CAST(n.card_json AS TEXT)) THEN CAST(n.card_json AS TEXT) ELSE '' @ quoted ''{}'' @ '' END, '' @ quoted ''$.severity'' @ '')'')
            (''(CASE WHEN octet_length(n.card_json) > 0 THEN convert_from(n.card_json, '' @ quoted ''UTF8'' @ '')::jsonb->>'' @ quoted ''severity'' @ '' ELSE NULL END)'');
          sql7 = ReplaceAll sql6
            (''json_valid(n.card_json) AND json_extract(n.card_json, '' @ quoted ''$.severity'' @ '') = '' @ quoted ''critical'')
            (''octet_length(n.card_json) > 0 AND convert_from(n.card_json, '' @ quoted ''UTF8'' @ '')::jsonb->>'' @ quoted ''severity'' @ '' = '' @ quoted ''critical'');
          sql8 = ReplaceAll sql7 ''CAST(n.card_json AS TEXT)'' (''convert_from(n.card_json, '' @ quoted ''UTF8'' @ '')'');
          sql9 = ReplaceAll sql8 ''CAST(n.attachments_json AS TEXT)'' (''convert_from(n.attachments_json, '' @ quoted ''UTF8'' @ '')'');
          sql10 = postgresScalarFunctions sql9;
          sql11 = (if Index sql10 ''INSERT INTO channel_read_state'' \<noteq> None
            then ReplaceAll (ReplaceAll sql10 ''GREATEST(read_at, excluded.read_at)'' ''GREATEST(channel_read_state.read_at, excluded.read_at)'')
                   ''GREATEST(read_at,excluded.read_at)'' ''GREATEST(channel_read_state.read_at,excluded.read_at)''
            else sql10);
          sql12 = (if Index sql11 ''INSERT INTO notification_user_state'' \<noteq> None
            then ReplaceAll (ReplaceAll sql11 ''GREATEST(read_at, excluded.read_at)'' ''GREATEST(notification_user_state.read_at, excluded.read_at)'')
                   ''GREATEST(read_at,excluded.read_at)'' ''GREATEST(notification_user_state.read_at,excluded.read_at)''
            else sql11) in
      postgresParameters sql12)"

section \<open>What the translation does\<close>

lemma intString_show: "intString n = show_nat n"
proof (induction n rule: intString.induct)
  case (1 n)
  have digit: "intString (n mod 10) = [char_of (48 + n mod 10)]" by (simp add: intString.simps [of "n mod 10"])
  show ?case
  proof (cases "n < 10")
    case True
    then show ?thesis by (simp add: intString.simps [of n] show_nat.simps [of n])
  next
    case False
    with 1 digit show ?thesis by (simp add: intString.simps [of n] show_nat.simps [of n])
  qed
qed

text \<open>The lexical structure of a statement: characters, parameters, literals with doubled quotes, quoted names, and the two kinds of comments; a line
  comment may also end with the statement.\<close>

datatype part = Chr char | Param | Single string | Double string | Line string | Block string | LastLine string

definition doubled :: "string \<Rightarrow> string" where
  "doubled s = concat (map (\<lambda>c. if c = CHR 0x27 then [c, c] else [c]) s)"

fun part_text :: "part \<Rightarrow> string" where
  "part_text (Chr c) = [c]"
| "part_text Param = ''?''"
| "part_text (Single s) = quoted (doubled s)"
| "part_text (Double s) = CHR 0x22 # s @ [CHR 0x22]"
| "part_text (Line s) = ''--'' @ s @ [CHR 0x0A]"
| "part_text (Block s) = ''/*'' @ s @ ''*/''"
| "part_text (LastLine s) = ''--'' @ s"

definition parts_text :: "part list \<Rightarrow> string" where
  "parts_text ps = concat (map part_text ps)"

text \<open>The same statement with numbered parameters.\<close>

fun numbered :: "nat \<Rightarrow> part list \<Rightarrow> string" where
  "numbered n [] = []"
| "numbered n (Param # ps) = ''$'' @ show_nat n @ numbered (n + 1) ps"
| "numbered n (p # ps) = part_text p @ numbered n ps"

text \<open>The texts a part may have, and what may follow it so that the parts are those a reader of SQL sees.\<close>

fun part_ok :: "part \<Rightarrow> string \<Rightarrow> bool" where
  "part_ok (Chr c) r \<longleftrightarrow> c \<notin> {CHR 0x27, CHR 0x22, CHR ''?''} \<and> \<not> (c = CHR ''-'' \<and> next_is (CHR ''-'') r) \<and> \<not> (c = CHR ''/'' \<and> next_is (CHR ''*'') r)"
| "part_ok Param r \<longleftrightarrow> True"
| "part_ok (Single s) r \<longleftrightarrow> \<not> next_is (CHR 0x27) r"
| "part_ok (Double s) r \<longleftrightarrow> CHR 0x22 \<notin> set s"
| "part_ok (Line s) r \<longleftrightarrow> CHR 0x0A \<notin> set s"
| "part_ok (Block s) r \<longleftrightarrow> \<not> sublist ''*/'' s"
| "part_ok (LastLine s) r \<longleftrightarrow> r = [] \<and> CHR 0x0A \<notin> set s"

fun parts_ok :: "part list \<Rightarrow> bool" where
  "parts_ok [] \<longleftrightarrow> True"
| "parts_ok (p # ps) \<longleftrightarrow> part_ok p (parts_text ps) \<and> parts_ok ps"

lemma parts_text_simps [simp]: "parts_text [] = []" "parts_text (p # ps) = part_text p @ parts_text ps"
  by (simp_all add: parts_text_def)

lemma doubled_simps [simp]: "doubled [] = []" "doubled (c # s) = (if c = CHR 0x27 then [c, c] else [c]) @ doubled s"
  by (simp_all add: doubled_def)

lemma loop_single: "\<not> next_is (CHR 0x27) r \<Longrightarrow>
    parameters_loop True False False False n (doubled s @ CHR 0x27 # r) = doubled s @ CHR 0x27 # parameters_loop False False False False n r"
  by (induction s) simp_all

lemma loop_double: "CHR 0x22 \<notin> set s \<Longrightarrow>
    parameters_loop False True False False n (s @ CHR 0x22 # r) = s @ CHR 0x22 # parameters_loop False False False False n r"
  by (induction s) auto

lemma loop_line: "CHR 0x0A \<notin> set s \<Longrightarrow>
    parameters_loop False False True False n (s @ CHR 0x0A # r) = s @ CHR 0x0A # parameters_loop False False False False n r"
  by (induction s) auto

lemma loop_last_line: "CHR 0x0A \<notin> set s \<Longrightarrow> parameters_loop False False True False n s = s"
  by (induction s) auto

lemma block_step: "\<not> sublist ''*/'' (c # s) \<Longrightarrow> \<not> (c = CHR ''*'' \<and> next_is (CHR ''/'') (s @ CHR ''*'' # r))"
  by (cases s) (auto simp: sublist_Cons_right)

lemma loop_block: "\<not> sublist ''*/'' s \<Longrightarrow>
    parameters_loop False False False True n (s @ ''*/'' @ r) = s @ ''*/'' @ parameters_loop False False False False n r"
proof (induction s)
  case (Cons c s)
  have "\<not> sublist ''*/'' s" using Cons.prems by (auto simp: sublist_Cons_right)
  with block_step [OF Cons.prems, of "CHR ''/'' # r"] Cons.IH show ?case by auto
qed simp

lemma loop_numbered: "parts_ok ps \<Longrightarrow> parameters_loop False False False False n (parts_text ps) = numbered n ps"
proof (induction ps arbitrary: n)
  case (Cons p ps)
  then have ok: "part_ok p (parts_text ps)" and IH: "\<And>n. parameters_loop False False False False n (parts_text ps) = numbered n ps" by auto
  show ?case
  proof (cases p)
    case (Chr c)
    with ok IH show ?thesis by auto
  next
    case (Single s)
    with ok IH loop_single [of "parts_text ps" n s] show ?thesis by (simp add: quoted_def)
  next
    case (Double s)
    with ok IH loop_double [of s n "parts_text ps"] show ?thesis by simp
  next
    case (Line s)
    with ok IH loop_line [of s n "parts_text ps"] show ?thesis by simp
  next
    case (Block s)
    with ok IH loop_block [of s n "parts_text ps"] show ?thesis by simp
  next
    case (LastLine s)
    then have "parts_text ps = []" "CHR 0x0A \<notin> set s" using ok by simp_all
    moreover have "numbered n ps = []" using IH [of n] calculation(1) by simp
    ultimately show ?thesis using LastLine loop_last_line [of s n] by simp
  qed (simp add: IH intString_show)
qed simp

text \<open>C40: the parameters of a statement become \<open>$1\<close>, \<open>$2\<close> and so on in their order, and nothing else of it changes: a question mark in a
  literal, a quoted name or a comment stays.\<close>

theorem parameters_numbered: "parts_ok ps \<Longrightarrow> postgresParameters (parts_text ps) = numbered 1 ps"
  by (simp add: postgresParameters_def loop_numbered)

theorem parameters_numbered_witness:
  "parts_ok [Chr (CHR ''a''), Param, Single [CHR ''?'', CHR 0x27], Line ''?'', Block ''?*'', Double ''?'', Param, LastLine ''?''] \<and>
   postgresParameters (parts_text [Chr (CHR ''a''), Param, Single [CHR ''?'', CHR 0x27], Line ''?'', Block ''?*'', Double ''?'', Param, LastLine ''?'']) =
     numbered 1 [Chr (CHR ''a''), Param, Single [CHR ''?'', CHR 0x27], Line ''?'', Block ''?*'', Double ''?'', Param, LastLine ''?'']"
  using parameters_numbered [of "[Chr (CHR ''a''), Param, Single [CHR ''?'', CHR 0x27], Line ''?'', Block ''?*'', Double ''?'', Param, LastLine ''?'']"]
  by (simp add: quoted_def sublist_Cons_right)

text \<open>The loop with positions, as a recursion on what is left of the text: a call with several arguments is renamed and skipped as a whole, of a
  call with one argument only the name is skipped.\<close>

function calls_renamed :: "string \<Rightarrow> string \<Rightarrow> string \<Rightarrow> string" where
  "calls_renamed fn new s =
     (case Index s (fn @ ''('') of
        None \<Rightarrow> s
      | Some i \<Rightarrow>
          (case call_end 0 False (drop (i + length fn) s) of
             (True, Some e) \<Rightarrow> take i s @ new @ take (e + 1) (drop (i + length fn) s) @ calls_renamed fn new (drop (i + length fn + e + 1) s)
           | _ \<Rightarrow> take (i + length fn + 1) s @ calls_renamed fn new (drop (i + length fn + 1) s)))"
  by pat_completeness auto
termination
  by (relation "measure (\<lambda>(f, r, s). length s)") (auto dest!: Index_SomeD)

declare calls_renamed.simps [simp del]

lemma scalar_loop_step:
  assumes "Index (drop n s) (fn @ ''('') = Some i" and "call_end 0 False (drop (n + i + length fn) s) = (b, e)"
  shows "scalar_loop fn new s n =
    (if b \<and> e \<noteq> None
     then scalar_loop fn new (take (n + i) s @ new @ drop (n + i + length fn) s) (n + i + the e + length new + 1)
     else scalar_loop fn new s (n + i + length fn + 1))"
  using assms by (cases b; cases e) (simp_all add: scalar_loop.simps [of fn new s n] ac_simps)

lemma calls_renamed_step:
  assumes "Index s (fn @ ''('') = Some i" and "call_end 0 False (drop (i + length fn) s) = (b, e)"
  shows "calls_renamed fn new s =
    (if b \<and> e \<noteq> None
     then take i s @ new @ take (the e + 1) (drop (i + length fn) s) @ calls_renamed fn new (drop (i + length fn + the e + 1) s)
     else take (i + length fn + 1) s @ calls_renamed fn new (drop (i + length fn + 1) s))"
  using assms by (cases b; cases e) (simp_all add: calls_renamed.simps [of fn new s])

lemma scalar_loop_renames: "n \<le> length s \<Longrightarrow> scalar_loop fn new s n = take n s @ calls_renamed fn new (drop n s)"
proof (induction "length s - n" arbitrary: s n rule: less_induct)
  case less
  show ?case
  proof (cases "Index (drop n s) (fn @ ''('')")
    case None
    then show ?thesis by (simp add: scalar_loop.simps [of fn new s n] calls_renamed.simps [of fn new "drop n s"])
  next
    case (Some i)
    define k where "k = n + i + length fn"
    have k: "k + 1 \<le> length s" using Index_bound [OF Some] by (simp add: k_def)
    obtain b e where ce: "call_end 0 False (drop k s) = (b, e)" by fastforce
    have ce': "call_end 0 False (drop (i + length fn) (drop n s)) = (b, e)" using ce by (simp add: k_def ac_simps)
    note steps = scalar_loop_step [OF Some ce [unfolded k_def], of new] calls_renamed_step [OF Some ce', of new]
    show ?thesis
    proof (cases "b \<and> e \<noteq> None")
      case True
      then obtain e0 where e: "e = Some e0" and b: "b" by auto
      have bound: "k + e0 < length s" using call_end_bound [OF ce [unfolded e]] by simp
      have "scalar_loop fn new s n = take (n + i) s @ new @ take (e0 + 1) (drop k s) @ calls_renamed fn new (drop (k + e0 + 1) s)"
        using less.hyps [of "take (n + i) s @ new @ drop k s" "n + i + e0 + length new + 1"] steps(1) True bound k
        by (simp add: e k_def ac_simps)
      with steps(2) True take_add [of n i s] show ?thesis by (simp add: e k_def ac_simps)
    next
      case False
      then have "scalar_loop fn new s n = scalar_loop fn new s (k + 1)" using steps(1) by (auto simp: k_def)
      also have "\<dots> = take (k + 1) s @ calls_renamed fn new (drop (k + 1) s)" using less.hyps [of s "k + 1"] k by (simp add: k_def)
      finally show ?thesis using steps(2) False take_add [of n "i + length fn + 1" s] by (auto simp: k_def ac_simps)
    qed
  qed
qed

text \<open>The statement that marks the channels of a user as read: the outer call gets the name PostgreSQL has for it, the aggregates inside it keep
  theirs, and the column of the conflicting row is qualified.\<close>

lemma read_mark_statement:
  "postgresQuery ''INSERT INTO channel_read_state(user_id, channel_id, read_at) SELECT ?, id, MAX(?, (SELECT MAX(updated_at) FROM n)) DO UPDATE SET read_at = MAX(read_at, excluded.read_at)'' =
   ''INSERT INTO channel_read_state(user_id, channel_id, read_at) SELECT $1, id, GREATEST($2, (SELECT MAX(updated_at) FROM n)) DO UPDATE SET read_at = GREATEST(channel_read_state.read_at, excluded.read_at)''"
  by code_simp

end
