(* ===== verification/Migration.thy ===== *)
theory Migration
  imports Prelude
begin

text \<open>
  Opening the SQLite database: \<open>Open\<close> and \<open>migrate\<close> of internal/store/store.go.  The schema is a record of
  the stored version, the tables with their columns and the indexes; each DDL statement is a
  transition that fails the way SQLite does (a table, column or index that exists already, a table or
  column that does not exist).  Each version step 1 to 28 is one transaction, steps 29 and 30 run
  outside a transaction statement by statement.  The theorems show that an interrupted start can be
  repeated: whatever statements, begins and commits fail and however often, the next start on a healthy
  engine ends with the complete schema, and a start that reports success has the complete schema.

  Statements that change rows only (\<open>UPDATE\<close> in steps 1 and 7) do not change the schema; the
  insertion of the local inbox user is kept as a flag.
\<close>

section \<open>Schemas and statements\<close>

record schema =
  user_version :: int
  tables :: "(string \<times> string list) list"
  indexes :: "string list"
  local_inbox :: bool

datatype ddl =
    CreateTable string "string list"
  | EnsureTable string "string list"
  | AddColumn string string
  | CreateIndex string string "string list"
  | EnsureIndex string string "string list"
  | Backfill string
  | EnsureLocalInbox
  | Pragma
  | SetVersion int

definition add_index :: "string \<Rightarrow> string \<Rightarrow> string list \<Rightarrow> schema \<Rightarrow> err + schema" where
  "add_index name t cols s =
     (case map_of (tables s) t of
        None \<Rightarrow> Inl (ErrText ''no such table'')
      | Some cs \<Rightarrow> (if list_all (\<lambda>c. List.member cs c) cols then Inr (s\<lparr>indexes := name # indexes s\<rparr>)
                    else Inl (ErrText ''no such column'')))"

fun exec_ddl :: "ddl \<Rightarrow> schema \<Rightarrow> err + schema" where
  "exec_ddl (CreateTable t cols) s =
     (case map_of (tables s) t of Some _ \<Rightarrow> Inl (ErrText ''table already exists'')
        | None \<Rightarrow> Inr (s\<lparr>tables := (t, cols) # tables s\<rparr>))"
| "exec_ddl (EnsureTable t cols) s =
     (case map_of (tables s) t of Some _ \<Rightarrow> Inr s | None \<Rightarrow> Inr (s\<lparr>tables := (t, cols) # tables s\<rparr>))"
| "exec_ddl (AddColumn t c) s =
     (case map_of (tables s) t of None \<Rightarrow> Inl (ErrText ''no such table'')
        | Some cs \<Rightarrow> (if List.member cs c then Inl (ErrText ''duplicate column name'')
                     else Inr (s\<lparr>tables := AList.update t (cs @ [c]) (tables s)\<rparr>)))"
| "exec_ddl (CreateIndex n t cols) s =
     (if List.member (indexes s) n then Inl (ErrText ''index already exists'') else add_index n t cols s)"
| "exec_ddl (EnsureIndex n t cols) s = (if List.member (indexes s) n then Inr s else add_index n t cols s)"
| "exec_ddl (Backfill t) s = (case map_of (tables s) t of None \<Rightarrow> Inl (ErrText ''no such table'') | Some _ \<Rightarrow> Inr s)"
| "exec_ddl EnsureLocalInbox s =
     (case map_of (tables s) ''users'' of None \<Rightarrow> Inl (ErrText ''no such table'') | Some _ \<Rightarrow> Inr (s\<lparr>local_inbox := True\<rparr>))"
| "exec_ddl Pragma s = Inr s"
| "exec_ddl (SetVersion v) s = Inr (s\<lparr>user_version := v\<rparr>)"

section \<open>The scripts\<close>

definition open_script :: "ddl list" where
  "open_script =
     [Pragma,
      Pragma,
      Pragma,
      EnsureTable ''channels'' [''id'', ''name'', ''created_at''],
      EnsureTable ''webhooks'' [''id'', ''token_hash'', ''channel_id'', ''created_at''],
      EnsureTable ''notifications'' [''id'', ''channel_id'', ''webhook_id'', ''text'', ''username'', ''icon_url'', ''attachments_json'', ''raw_payload_json'', ''created_at''],
      EnsureIndex ''notifications_created_at_idx'' ''notifications'' [''created_at'', ''id'']]"

definition migration_1 :: "ddl list" where
  "migration_1 =
     [AddColumn ''notifications'' ''external_key'',
      AddColumn ''notifications'' ''state'',
      AddColumn ''notifications'' ''updated_at'',
      Backfill ''notifications'',
      CreateIndex ''notification_external_key_idx'' ''notifications'' [''webhook_id'', ''external_key''],
      CreateTable ''notification_events'' [''id'', ''notification_id'', ''state'', ''raw_payload_json'', ''created_at''],
      CreateIndex ''notification_events_notification_idx'' ''notification_events'' [''notification_id'', ''created_at'', ''id''],
      SetVersion 1]"

definition migration_2 :: "ddl list" where
  "migration_2 =
     [CreateTable ''app_settings'' [''key'', ''value''],
      CreateTable ''push_subscriptions'' [''endpoint'', ''p256dh'', ''auth'', ''created_at''],
      SetVersion 2]"

definition migration_3 :: "ddl list" where
  "migration_3 =
     [AddColumn ''notifications'' ''card_json'',
      SetVersion 3]"

definition migration_4 :: "ddl list" where
  "migration_4 =
     [CreateTable ''users'' [''id'', ''username'', ''password_hash'', ''created_at''],
      CreateTable ''sessions'' [''token_hash'', ''user_id'', ''created_at'', ''expires_at''],
      CreateIndex ''sessions_expiry_idx'' ''sessions'' [''expires_at''],
      SetVersion 4]"

definition migration_5 :: "ddl list" where
  "migration_5 =
     [AddColumn ''push_subscriptions'' ''user_id'',
      CreateIndex ''push_subscriptions_user_idx'' ''push_subscriptions'' [''user_id''],
      SetVersion 5]"

definition migration_6 :: "ddl list" where
  "migration_6 =
     [CreateTable ''channel_read_state'' [''user_id'', ''channel_id'', ''read_at''],
      SetVersion 6]"

definition migration_7 :: "ddl list" where
  "migration_7 =
     [AddColumn ''channels'' ''display_name'',
      AddColumn ''channels'' ''description'',
      AddColumn ''channels'' ''accent_color'',
      Backfill ''channels'',
      SetVersion 7]"

definition migration_8 :: "ddl list" where
  "migration_8 =
     [AddColumn ''users'' ''is_admin'',
      AddColumn ''channels'' ''visibility'',
      CreateTable ''channel_memberships'' [''user_id'', ''channel_id'', ''role'', ''created_at''],
      SetVersion 8]"

definition migration_9 :: "ddl list" where
  "migration_9 =
     [AddColumn ''notification_events'' ''actor_user_id'',
      SetVersion 9]"

definition migration_10 :: "ddl list" where
  "migration_10 =
     [CreateTable ''action_targets'' [''id'', ''name'', ''url'', ''auth_cipher'', ''allow_private'', ''created_at''],
      CreateTable ''action_executions'' [''operation_key'', ''notification_id'', ''action_index'', ''user_id'', ''status'', ''response_text'', ''created_at'', ''completed_at''],
      SetVersion 10]"

definition migration_11 :: "ddl list" where
  "migration_11 =
     [CreateTable ''mattermost_bot_tokens'' [''token_hash'', ''user_id'', ''channel_id'', ''team_name'', ''created_at''],
      CreateTable ''mattermost_channel_aliases'' [''team_name'', ''channel_name'', ''channel_id''],
      CreateTable ''mattermost_posts'' [''id'', ''channel_id'', ''user_id'', ''message'', ''root_id'', ''notification_id'', ''props_json'', ''created_at''],
      CreateIndex ''mattermost_posts_channel_time_idx'' ''mattermost_posts'' [''channel_id'', ''created_at'', ''id''],
      SetVersion 11]"

definition migration_12 :: "ddl list" where
  "migration_12 =
     [CreateTable ''mattermost_reactions'' [''post_id'', ''user_id'', ''emoji_name'', ''created_at''],
      SetVersion 12]"

definition migration_13 :: "ddl list" where
  "migration_13 =
     [CreateTable ''slash_commands'' [''id'', ''team_name'', ''trigger_word'', ''display_name'', ''description'', ''creator'', ''method'', ''url'', ''token_cipher'', ''token_hash'', ''allow_private'', ''autocomplete'', ''autocomplete_hint'', ''autocomplete_description'', ''username'', ''icon_url'', ''created_at''],
      CreateTable ''slash_command_executions'' [''id'', ''command_id'', ''channel_id'', ''user_id'', ''text'', ''response_token_hash'', ''request_key'', ''expires_at'', ''response_count'', ''created_at''],
      CreateTable ''slash_command_responses'' [''id'', ''execution_id'', ''user_id'', ''response_type'', ''text'', ''payload_json'', ''created_at''],
      CreateIndex ''slash_command_responses_execution_idx'' ''slash_command_responses'' [''execution_id'', ''created_at'', ''id''],
      SetVersion 13]"

definition migration_14 :: "ddl list" where
  "migration_14 =
     [CreateTable ''notification_user_state'' [''user_id'', ''notification_id'', ''read_at'', ''unread'', ''dismissed_at''],
      CreateIndex ''notification_user_state_dismissed_idx'' ''notification_user_state'' [''user_id'', ''dismissed_at''],
      EnsureLocalInbox,
      SetVersion 14]"

definition migration_15 :: "ddl list" where
  "migration_15 =
     [CreateTable ''agents'' [''id'', ''name'', ''display_name'', ''description'', ''owner_user_id'', ''user_id'', ''enabled'', ''created_at'', ''revoked_at''],
      CreateTable ''agent_credentials'' [''id'', ''agent_id'', ''token_hash'', ''created_at'', ''last_used_at'', ''revoked_at''],
      CreateTable ''agent_runs'' [''id'', ''agent_id'', ''initiator_user_id'', ''purpose'', ''state'', ''created_at'', ''updated_at''],
      CreateIndex ''agent_runs_agent_idx'' ''agent_runs'' [''agent_id'', ''created_at'', ''id''],
      CreateTable ''agent_run_events'' [''id'', ''run_id'', ''tool'', ''summary'', ''notification_id'', ''created_at''],
      CreateIndex ''agent_run_events_run_idx'' ''agent_run_events'' [''run_id'', ''created_at'', ''id''],
      AddColumn ''webhooks'' ''kind'',
      AddColumn ''notifications'' ''agent_id'',
      AddColumn ''notifications'' ''agent_run_id'',
      SetVersion 15]"

definition migration_16 :: "ddl list" where
  "migration_16 =
     [CreateTable ''agent_tool_invocations'' [''agent_id'', ''idempotency_key'', ''tool'', ''request_fingerprint'', ''status'', ''result_json'', ''created_at''],
      SetVersion 16]"

definition migration_17 :: "ddl list" where
  "migration_17 =
     [CreateTable ''channel_notification_preferences'' [''user_id'', ''channel_id'', ''level'', ''updated_at''],
      SetVersion 17]"

definition migration_18 :: "ddl list" where
  "migration_18 =
     [AddColumn ''agents'' ''oauth_subject'',
      CreateIndex ''agents_oauth_subject_idx'' ''agents'' [''oauth_subject''],
      SetVersion 18]"

definition migration_19 :: "ddl list" where
  "migration_19 =
     [CreateTable ''replication_operations'' [''cluster_id'', ''origin'', ''sequence'', ''physical_ms'', ''logical'', ''kind'', ''channel_id'', ''actor_type'', ''actor_id'', ''payload_json'', ''created_at''],
      CreateIndex ''replication_operations_created_idx'' ''replication_operations'' [''created_at'', ''origin'', ''sequence''],
      SetVersion 19]"

definition migration_20 :: "ddl list" where
  "migration_20 =
     [CreateTable ''replication_cursors'' [''origin'', ''sequence''],
      CreateTable ''replication_quarantine'' [''origin'', ''sequence'', ''reason'', ''envelope_json'', ''created_at''],
      SetVersion 20]"

definition migration_21 :: "ddl list" where
  "migration_21 =
     [CreateTable ''replication_peer_status'' [''peer'', ''node_id'', ''last_attempt_at'', ''last_success_at'', ''consecutive_failures'', ''last_error''],
      SetVersion 21]"

definition migration_22 :: "ddl list" where
  "migration_22 =
     [CreateTable ''replication_snapshot_status'' [''source'', ''last_applied_at'', ''application_count'', ''notification_count''],
      SetVersion 22]"

definition migration_23 :: "ddl list" where
  "migration_23 =
     [AddColumn ''users'' ''oidc_subject'',
      CreateIndex ''users_oidc_subject_idx'' ''users'' [''oidc_subject''],
      CreateTable ''oidc_login_states'' [''state_hash'', ''verifier'', ''nonce'', ''expires_at''],
      CreateIndex ''oidc_login_states_expiry_idx'' ''oidc_login_states'' [''expires_at''],
      SetVersion 23]"

definition migration_24 :: "ddl list" where
  "migration_24 =
     [AddColumn ''webhooks'' ''revoked_at'',
      SetVersion 24]"

definition migration_25 :: "ddl list" where
  "migration_25 =
     [AddColumn ''users'' ''disabled_at'',
      CreateTable ''admin_audit_events'' [''id'', ''actor_user_id'', ''target_user_id'', ''action'', ''detail'', ''created_at''],
      CreateIndex ''admin_audit_events_created_idx'' ''admin_audit_events'' [''created_at'', ''id''],
      SetVersion 25]"

definition migration_26 :: "ddl list" where
  "migration_26 =
     [CreateTable ''channel_messages'' [''id'', ''channel_id'', ''author_user_id'', ''parent_id'', ''root_id'', ''text'', ''idempotency_key'', ''created_at'', ''updated_at'', ''deleted_at''],
      CreateIndex ''channel_messages_channel_idx'' ''channel_messages'' [''channel_id'', ''created_at'', ''id''],
      CreateIndex ''channel_messages_root_idx'' ''channel_messages'' [''root_id'', ''created_at'', ''id''],
      CreateIndex ''channel_messages_idempotency_idx'' ''channel_messages'' [''channel_id'', ''author_user_id'', ''idempotency_key''],
      SetVersion 26]"

definition migration_27 :: "ddl list" where
  "migration_27 =
     [CreateTable ''saved_views'' [''id'', ''user_id'', ''name'', ''definition_json'', ''created_at'', ''updated_at''],
      SetVersion 27]"

definition migration_28 :: "ddl list" where
  "migration_28 =
     [CreateTable ''oidc_desktop_confirmations'' [''handoff_hash'', ''confirmation_hash'', ''user_id'', ''verification_code'', ''status'', ''expires_at''],
      CreateIndex ''oidc_desktop_confirmations_expiry_idx'' ''oidc_desktop_confirmations'' [''expires_at''],
      SetVersion 28]"

definition agentPresenceSchema :: "ddl list" where
  "agentPresenceSchema =
     [EnsureTable ''agent_presence'' [''agent_id'', ''channel_id'', ''state'', ''updated_at'']]"

definition workflowSchema :: "ddl list" where
  "workflowSchema =
     [EnsureIndex ''notifications_updated_idx'' ''notifications'' [''updated_at'', ''id''],
      EnsureIndex ''channel_messages_created_idx'' ''channel_messages'' [''created_at'', ''id''],
      EnsureTable ''attention_alerts'' [''id'', ''user_id'', ''target'', ''kind'', ''title'', ''body'', ''created_at''],
      EnsureTable ''attention_preferences'' [''user_id'', ''timezone'', ''quiet_start'', ''quiet_end'', ''critical_bypass''],
      EnsureTable ''notification_snoozes'' [''user_id'', ''notification_id'', ''until_at''],
      EnsureTable ''workflow_schedules'' [''id'', ''user_id'', ''kind'', ''target'', ''config'', ''due_at'', ''lease_until'', ''lease_token''],
      EnsureIndex ''workflow_schedules_due_idx'' ''workflow_schedules'' [''due_at'', ''lease_until''],
      EnsureTable ''delivery_events'' [''id'', ''notification_id'', ''user_id'', ''device'', ''outcome'', ''attempt'', ''created_at''],
      EnsureIndex ''delivery_events_notification_idx'' ''delivery_events'' [''notification_id'', ''user_id'', ''created_at''],
      EnsureTable ''digest_history'' [''id'', ''user_id'', ''view_id'', ''title'', ''count'', ''created_at''],
      EnsureTable ''producer_monitors'' [''id'', ''channel_id'', ''name'', ''source'', ''period_seconds'', ''grace_seconds'', ''daily_json'', ''last_seen'', ''state'', ''notification_id''],
      EnsureTable ''agent_bindings'' [''channel_id'', ''agent_id'', ''created_at''],
      EnsureTable ''agent_commands'' [''id'', ''channel_id'', ''agent_id'', ''message_id'', ''author_id'', ''state'', ''lease_owner'', ''lease_until'', ''turn_id'', ''result'', ''cancel_requested'', ''created_at'', ''updated_at''],
      EnsureIndex ''agent_commands_queue_idx'' ''agent_commands'' [''channel_id'', ''state'', ''created_at'', ''id'']]"

definition incidentSchema :: "ddl list" where
  "incidentSchema =
     [EnsureTable ''notification_incidents'' [''notification_id'', ''incident_key''],
      EnsureIndex ''notification_incidents_key_idx'' ''notification_incidents'' [''incident_key'']]"

definition script_29 :: "ddl list" where
  "script_29 = agentPresenceSchema @ [SetVersion 29]"

definition script_30 :: "ddl list" where
  "script_30 = workflowSchema @ incidentSchema @ [SetVersion 30]"

text \<open>The version steps in the order of the code; the flag says whether the step also sets the local
  variable \<open>version\<close>.\<close>

definition migrations :: "(int \<times> ddl list \<times> bool) list" where
  "migrations =
     [(1, migration_1, True), (2, migration_2, True), (3, migration_3, True), (4, migration_4, True),
      (5, migration_5, True), (6, migration_6, True), (7, migration_7, True), (8, migration_8, True),
      (9, migration_9, True), (10, migration_10, True), (11, migration_11, True), (12, migration_12, False),
      (13, migration_13, False), (14, migration_14, False), (15, migration_15, False), (16, migration_16, False),
      (17, migration_17, False), (18, migration_18, False), (19, migration_19, False), (20, migration_20, False),
      (21, migration_21, False), (22, migration_22, False), (23, migration_23, False), (24, migration_24, False),
      (25, migration_25, False), (26, migration_26, False), (27, migration_27, True), (28, migration_28, True)]"

section \<open>Opening\<close>

definition run_ddl :: "ddl \<Rightarrow> (schema, unit) sql" where
  "run_ddl c = stmt (\<lambda>s. case exec_ddl c s of Inl e \<Rightarrow> Inl e | Inr s' \<Rightarrow> Inr ((), s'))"

fun run_script :: "ddl list \<Rightarrow> (schema, unit) sql" where
  "run_script [] = returnM ()"
| "run_script (c # cs) = bindM (run_ddl c) (\<lambda>_. run_script cs)"

definition migration_step :: "int \<times> ddl list \<times> bool \<Rightarrow> int \<Rightarrow> (schema, int) sql" where
  "migration_step m version =
     (case m of (k, script, sets) \<Rightarrow>
        if version < k
        then bindM (tx (bindM (run_script script) (\<lambda>_. returnM (Commit ())))) (\<lambda>_. returnM (if sets then k else version))
        else returnM version)"

definition migrate :: "(schema, unit) sql" where
  "migrate =
     bindM (query user_version) (\<lambda>version0.
     bindM (foldM migration_step migrations version0) (\<lambda>version.
     bindM (whenM (version < 29) (run_script script_29)) (\<lambda>_.
     whenM (version < 30) (run_script script_30))))"

definition Open :: "(schema, unit) sql" where
  "Open = bindM (run_script open_script) (\<lambda>_. migrate)"

definition empty_schema :: schema where
  "empty_schema = \<lparr>user_version = 0, tables = [], indexes = [], local_inbox = False\<rparr>"

section \<open>Where a script can stop\<close>

fun exec_script :: "ddl list \<Rightarrow> schema \<Rightarrow> err + schema" where
  "exec_script [] s = Inr s"
| "exec_script (c # cs) s = (case exec_ddl c s of Inl e \<Rightarrow> Inl e | Inr s' \<Rightarrow> exec_script cs s')"

fun stops :: "ddl list \<Rightarrow> schema \<Rightarrow> schema list" where
  "stops [] s = [s]"
| "stops (c # cs) s = s # (case exec_ddl c s of Inl e \<Rightarrow> [] | Inr s' \<Rightarrow> stops cs s')"

lemma sat_run_ddl [sat_intro]:
  "Q (Inl ErrDatabase) s \<Longrightarrow> (\<And>e. exec_ddl c s = Inl e \<Longrightarrow> Q (Inl e) s) \<Longrightarrow>
   (\<And>s'. exec_ddl c s = Inr s' \<Longrightarrow> Q (Inr ()) s') \<Longrightarrow> sat (run_ddl c) s Q"
  unfolding run_ddl_def by (auto intro!: sat_stmt split: sum.splits)

definition script_result :: "ddl list \<Rightarrow> schema \<Rightarrow> err + unit \<Rightarrow> schema \<Rightarrow> bool" where
  "script_result cs s r s' \<longleftrightarrow> s' \<in> set (stops cs s) \<and>
     (case r of Inl e \<Rightarrow> e = ErrDatabase \<or> exec_script cs s = Inl e | Inr u \<Rightarrow> exec_script cs s = Inr s')"

lemma sat_run_script: "sat (run_script cs) s (script_result cs s)"
proof (induction cs arbitrary: s)
  case Nil
  then show ?case by (auto intro: sat_return simp: script_result_def)
next
  case (Cons c cs)
  have "sat (run_script cs) s' (script_result (c # cs) s)" if "exec_ddl c s = Inr s'" for s'
    by (rule sat_mono [OF Cons.IH]) (auto simp: that script_result_def split: sum.splits)
  then have "sat (run_ddl c) s (\<lambda>r d'. case r of Inl e \<Rightarrow> script_result (c # cs) s (Inl e) d'
      | Inr u \<Rightarrow> sat (run_script cs) d' (script_result (c # cs) s))"
    by (intro sat_run_ddl) (simp_all, simp_all add: script_result_def)
  then show ?case unfolding run_script.simps by (rule sat_bind)
qed

lemma sat_script_tx:
  assumes "exec_script cs s = Inr s'"
  shows "sat (tx (bindM (run_script cs) (\<lambda>_. returnM (Commit ())))) s
     (\<lambda>r t. (t = s \<or> t = s') \<and> (case r of Inl e \<Rightarrow> e = ErrDatabase | Inr u \<Rightarrow> t = s'))"
  by (intro sat_tx, simp, intro sat_bind sat_mono [OF sat_run_script])
    (auto intro!: sat_return simp: assms script_result_def split: sum.splits)

section \<open>The ladder of versions\<close>

text \<open>The schemas the version steps pass through, and a check that each step succeeds on the schema of
  the step before and raises the stored version by one.\<close>

fun ladder :: "(int \<times> ddl list \<times> bool) list \<Rightarrow> schema \<Rightarrow> schema option" where
  "ladder [] s = Some s"
| "ladder ((k, cs, sets) # ms) s =
     (if k = user_version s + 1
      then case exec_script cs s of Inl e \<Rightarrow> None | Inr s' \<Rightarrow> if user_version s' = k then ladder ms s' else None
      else None)"

fun rungs :: "(int \<times> ddl list \<times> bool) list \<Rightarrow> schema \<Rightarrow> schema list" where
  "rungs [] s = [s]"
| "rungs ((k, cs, sets) # ms) s = s # (case exec_script cs s of Inl e \<Rightarrow> [] | Inr s' \<Rightarrow> rungs ms s')"

lemma ladder_Cons:
  assumes "ladder ((k, cs, sets) # ms) s = Some t"
  obtains s' where "exec_script cs s = Inr s'" "user_version s' = k" "k = user_version s + 1" "ladder ms s' = Some t"
  using assms by (auto split: if_splits sum.splits)

lemma hd_rungs [simp]: "s \<in> set (rungs ms s)"
  by (cases "(ms, s)" rule: rungs.cases) auto

lemma rungs_version: "ladder ms s = Some t \<Longrightarrow> x \<in> set (rungs ms s) \<Longrightarrow> user_version s \<le> user_version x \<and> user_version x \<le> user_version t"
proof (induction ms arbitrary: s)
  case Nil
  then show ?case by simp
next
  case (Cons m ms)
  obtain k cs sets where m: "m = (k, cs, sets)" by (cases m)
  from Cons.prems(1)[unfolded m] obtain s' where s': "exec_script cs s = Inr s'" "user_version s' = k" "k = user_version s + 1"
    "ladder ms s' = Some t" by (rule ladder_Cons)
  have low: "user_version s' \<le> user_version t" using s'(4)
  proof (induction ms arbitrary: s')
    case (Cons m ms)
    then show ?case by (cases m) (force elim!: ladder_Cons)
  qed simp
  show ?case
  proof (cases "x = s")
    case True
    with low s' show ?thesis by simp
  next
    case False
    with Cons.prems(2) s'(1) have "x \<in> set (rungs ms s')" by (simp add: m)
    from Cons.IH [OF s'(4) this] s'(2,3) show ?thesis by simp
  qed
qed

definition climbs :: "(int \<times> ddl list \<times> bool) list \<Rightarrow> schema \<Rightarrow> schema \<Rightarrow> err + int \<Rightarrow> schema \<Rightarrow> bool" where
  "climbs ms s t r s' \<longleftrightarrow> s' \<in> set (rungs ms s) \<and> (case r of Inl e \<Rightarrow> e = ErrDatabase | Inr v \<Rightarrow> s' = t \<and> v \<le> user_version t)"

lemma sat_climb:
  "ladder ms s = Some t \<Longrightarrow> v \<le> user_version s \<Longrightarrow> sat (foldM migration_step ms v) s (climbs ms s t)"
proof (induction ms arbitrary: s v)
  case Nil
  then show ?case by (auto intro!: sat_return simp: climbs_def)
next
  case (Cons m ms)
  obtain k cs sets where m: "m = (k, cs, sets)" by (cases m)
  from Cons.prems(1)[unfolded m] obtain s' where s': "exec_script cs s = Inr s'" "user_version s' = k" "k = user_version s + 1"
    "ladder ms s' = Some t" by (rule ladder_Cons)
  have vk: "v < k" using Cons.prems(2) s' by simp
  have step: "sat (migration_step m v) s (\<lambda>r x. (x = s \<or> x = s') \<and> (case r of Inl e \<Rightarrow> e = ErrDatabase | Inr v' \<Rightarrow> x = s' \<and> v' \<le> k))"
    unfolding migration_step_def m prod.case if_P [OF vk]
    by (rule sat_bind, rule sat_mono [OF sat_script_tx [OF s'(1)]]) (use vk in \<open>auto intro!: sat_return split: sum.splits\<close>)
  show ?case unfolding foldM.simps
  proof (rule sat_seq [where R = "\<lambda>v' x. x = s' \<and> v' \<le> k"], goal_cases)
    case 1
    show ?case by (rule sat_mono [OF step]) (auto simp: climbs_def m s' split: sum.splits)
  next
    case (2 v' x)
    with s' have "sat (foldM migration_step ms v') s' (climbs ms s' t)" by (intro Cons.IH) auto
    then show ?case unfolding 2 [THEN conjunct1]
      by (rule sat_mono) (auto simp: climbs_def m s')
  qed
qed

lemma sat_climb_from:
  "ladder ms s = Some t \<Longrightarrow> x \<in> set (rungs ms s) \<Longrightarrow> sat (foldM migration_step ms (user_version x)) x (climbs ms s t)"
proof (induction ms arbitrary: s)
  case Nil
  then show ?case by (auto intro!: sat_return simp: climbs_def)
next
  case (Cons m ms)
  show ?case
  proof (cases "x = s")
    case True
    with Cons.prems(1) show ?thesis by (simp add: sat_climb del: foldM.simps)
  next
    case False
    obtain k cs sets where m: "m = (k, cs, sets)" by (cases m)
    from Cons.prems(1)[unfolded m] obtain s' where s': "exec_script cs s = Inr s'" "user_version s' = k" "k = user_version s + 1"
      "ladder ms s' = Some t" by (rule ladder_Cons)
    from False Cons.prems(2) s' have x: "x \<in> set (rungs ms s')" by (simp add: m)
    with rungs_version [OF s'(4) x] s' have "\<not> user_version x < k" by simp
    moreover have "sat (foldM migration_step ms (user_version x)) x (climbs (m # ms) s t)"
      by (rule sat_mono [OF Cons.IH [OF s'(4) x]]) (auto simp: climbs_def m s')
    moreover have "migration_step m (user_version x) = returnM (user_version x)" using calculation(1)
      by (simp add: migration_step_def m)
    ultimately show ?thesis by (auto intro!: sat_bind sat_return)
  qed
qed

lemma fold_at_top:
  assumes "ladder ms s = Some t" and "user_version t \<le> v"
  shows "foldM migration_step ms v = returnM v"
  using assms
proof (induction ms arbitrary: s)
  case Nil
  then show ?case by simp
next
  case (Cons m ms)
  obtain k cs sets where m: "m = (k, cs, sets)" by (cases m)
  from Cons.prems(1)[unfolded m] obtain s' where s': "exec_script cs s = Inr s'" "user_version s' = k" "k = user_version s + 1"
    "ladder ms s' = Some t" by (rule ladder_Cons)
  with rungs_version [OF s'(4) hd_rungs] Cons.prems(2) have "\<not> v < k" by simp
  then have "migration_step m v = returnM v" by (simp add: migration_step_def m)
  with Cons.IH [OF s'(4)] Cons.prems(2) show ?case by (simp add: fun_eq_iff bindM_def returnM_def)
qed

section \<open>Scripts that can be repeated\<close>

fun ensure :: "ddl \<Rightarrow> bool" where
  "ensure (EnsureTable t cols) = True"
| "ensure (EnsureIndex n t cols) = True"
| "ensure Pragma = True"
| "ensure _ = False"

lemma index_grows: "add_index n t cols s = Inr s' \<Longrightarrow> indexes s' = n # indexes s \<and> tables s' = tables s \<and> user_version s' = user_version s"
  by (auto simp: add_index_def split: option.splits if_splits)

lemma ddl_grows:
  assumes "exec_ddl c s = Inr s'"
  shows "map_of (tables s) t \<noteq> None \<Longrightarrow> map_of (tables s') t \<noteq> None" and "List.member (indexes s) n \<Longrightarrow> List.member (indexes s') n"
  using assms by (cases c; auto simp: update_conv' List.member_iff split: option.splits if_splits dest!: index_grows)+

fun ensured :: "ddl \<Rightarrow> schema \<Rightarrow> bool" where
  "ensured (EnsureTable t cols) s = (map_of (tables s) t \<noteq> None)"
| "ensured (EnsureIndex n t cols) s = List.member (indexes s) n"
| "ensured _ s = True"

lemma ensured_noop: "ensure c \<Longrightarrow> ensured c s \<Longrightarrow> exec_ddl c s = Inr s"
  by (cases c) auto

lemma ensured_after: "ensure c \<Longrightarrow> exec_ddl c s = Inr s' \<Longrightarrow> ensured c s'"
  by (cases c) (auto simp: List.member_iff split: option.splits if_splits dest!: index_grows)

lemma ensured_stable: "ensured c s \<Longrightarrow> exec_ddl c' s = Inr s' \<Longrightarrow> ensured c s'"
  by (cases c) (auto dest: ddl_grows)

lemma ensured_script: "ensured c s \<Longrightarrow> exec_script cs s = Inr s' \<Longrightarrow> ensured c s'"
  by (induction cs arbitrary: s) (auto split: sum.splits dest: ensured_stable)

lemma script_ensured: "list_all ensure cs \<Longrightarrow> exec_script cs s = Inr s' \<Longrightarrow> list_all (\<lambda>c. ensured c s') cs"
  by (induction cs arbitrary: s) (auto split: sum.splits dest: ensured_after ensured_script)

lemma script_noop: "list_all ensure cs \<Longrightarrow> list_all (\<lambda>c. ensured c s) cs \<Longrightarrow> exec_script cs s = Inr s \<and> set (stops cs s) = {s}"
  by (induction cs) (auto simp: ensured_noop)

lemma exec_script_append:
  "exec_script (cs @ ds) s = (case exec_script cs s of Inl e \<Rightarrow> Inl e | Inr s' \<Rightarrow> exec_script ds s')"
  by (induction cs arbitrary: s) (auto split: sum.splits)

lemma set_stops_append:
  "exec_script cs s = Inr s' \<Longrightarrow> set (stops (cs @ ds) s) = set (stops cs s) \<union> set (stops ds s')"
proof (induction cs arbitrary: s)
  case Nil
  then show ?case by (cases ds) auto
next
  case (Cons c cs)
  then show ?case by (auto split: sum.splits)
qed

lemma hd_stops: "s \<in> set (stops cs s)"
  by (cases cs) auto

lemma stops_split:
  "x \<in> set (stops cs s) \<Longrightarrow> \<exists>pre rest. cs = pre @ rest \<and> exec_script pre s = Inr x"
proof (induction cs arbitrary: s)
  case Nil
  then show ?case by simp
next
  case (Cons c cs)
  show ?case
  proof (cases "x = s")
    case True
    then show ?thesis by (intro exI [of _ "[]"] exI [of _ "c # cs"]) simp
  next
    case False
    with Cons.prems obtain s' where s': "exec_ddl c s = Inr s'" "x \<in> set (stops cs s')" by (cases "exec_ddl c s") auto
    from Cons.IH [OF s'(2)] obtain pre rest where "cs = pre @ rest" "exec_script pre s' = Inr x" by blast
    with s'(1) show ?thesis by (intro exI [of _ "c # pre"] exI [of _ rest]) simp
  qed
qed

text \<open>A script of \<open>IF NOT EXISTS\<close> statements can be run again from wherever it stopped: it ends in the same
  schema and stops nowhere else.\<close>

lemma script_repeat:
  assumes ens: "list_all ensure cs" and x: "x \<in> set (stops cs s)"
  shows "exec_script (cs @ ds) x = exec_script (cs @ ds) s" and "set (stops (cs @ ds) x) \<subseteq> set (stops (cs @ ds) s)"
proof -
  from stops_split [OF x] obtain pre rest where cs: "cs = pre @ rest" and pre: "exec_script pre s = Inr x" by blast
  have "list_all ensure pre" using ens cs by simp
  from script_noop [OF this script_ensured [OF this pre]]
  have noop: "exec_script pre x = Inr x" "set (stops pre x) = {x}" by simp_all
  show "exec_script (cs @ ds) x = exec_script (cs @ ds) s" by (simp add: cs exec_script_append pre noop)
  have x: "x \<in> set (stops (rest @ ds) x)" by (rule hd_stops)
  show "set (stops (cs @ ds) x) \<subseteq> set (stops (cs @ ds) s)"
    using noop x by (auto simp: cs set_stops_append [OF pre, of "rest @ ds"] set_stops_append [OF noop(1), of "rest @ ds"])
qed

lemma ensure_version: "list_all ensure cs \<Longrightarrow> x \<in> set (stops cs s) \<Longrightarrow> user_version x = user_version s"
proof (induction cs arbitrary: s)
  case (Cons c cs)
  have "user_version s' = user_version s" if "exec_ddl c s = Inr s'" for s'
    using that Cons.prems(1) by (cases c) (auto split: option.splits if_splits dest!: index_grows)
  with Cons show ?case by (auto split: sum.splits)
qed simp

section \<open>The schemas of this code\<close>

definition level0 :: schema where
  "level0 = projr (exec_script open_script empty_schema)"

definition level28 :: schema where
  "level28 = the (ladder migrations level0)"

definition level29 :: schema where
  "level29 = projr (exec_script script_29 level28)"

definition full_schema :: schema where
  "full_schema = projr (exec_script script_30 level29)"

definition all_levels :: bool where
  "all_levels = (case exec_script open_script empty_schema of Inl e \<Rightarrow> False
     | Inr s0 \<Rightarrow> (case ladder migrations s0 of None \<Rightarrow> False
     | Some s28 \<Rightarrow> (case exec_script script_29 s28 of Inl e \<Rightarrow> False
     | Inr s29 \<Rightarrow> (case exec_script script_30 s29 of Inl e \<Rightarrow> False | Inr s30 \<Rightarrow> True))))"

lemma all_levels: "all_levels"
  by code_simp

lemma open_ok: "exec_script open_script empty_schema = Inr level0"
  using all_levels by (auto simp: all_levels_def level0_def split: sum.splits)

lemma ladder_ok: "ladder migrations level0 = Some level28"
  using all_levels by (auto simp: all_levels_def open_ok level28_def split: option.splits)

lemma script_29_ok: "exec_script script_29 level28 = Inr level29"
  using all_levels by (cases "exec_script script_29 level28") (auto simp: all_levels_def open_ok ladder_ok level29_def)

lemma script_30_ok: "exec_script script_30 level29 = Inr full_schema"
  using all_levels by (cases "exec_script script_30 level29") (auto simp: all_levels_def open_ok ladder_ok script_29_ok full_schema_def)

lemma ladder_version: "ladder ms s = Some t \<Longrightarrow> user_version t = user_version s + int (length ms)"
  by (induction ms arbitrary: s) (auto elim!: ladder_Cons)

lemma ensure_scripts:
  "list_all ensure open_script" "list_all ensure agentPresenceSchema" "list_all ensure (workflowSchema @ incidentSchema)"
  by (simp_all add: open_script_def agentPresenceSchema_def workflowSchema_def incidentSchema_def)

lemma script_version: "exec_script (cs @ [SetVersion v]) s = Inr t \<Longrightarrow> user_version t = v"
  by (auto simp: exec_script_append split: sum.splits)

lemma level_versions: "user_version level0 = 0" "user_version level28 = 28" "user_version level29 = 29" "user_version full_schema = 30"
proof -
  have "level0 \<in> set (stops open_script empty_schema)"
    using set_stops_append [OF open_ok, of "[]"] by auto
  with ensure_version [OF ensure_scripts(1)] show v0: "user_version level0 = 0" by (simp add: empty_schema_def)
  show "user_version level28 = 28" using ladder_version [OF ladder_ok] v0 by (simp add: migrations_def)
  show "user_version level29 = 29" by (rule script_version [OF script_29_ok [unfolded script_29_def]])
  show "user_version full_schema = 30" by (rule script_version [OF script_30_ok [unfolded script_30_def append_assoc [symmetric]]])
qed

text \<open>The schemas an interrupted start can leave behind.\<close>

definition reached :: "schema \<Rightarrow> bool" where
  "reached s \<longleftrightarrow> s \<in> set (stops open_script empty_schema) \<union> set (rungs migrations level0) \<union>
     set (stops script_29 level28) \<union> set (stops script_30 level29)"

text \<open>After the tables of \<open>Open\<close> exist, running that script again changes nothing.\<close>

definition settled :: "schema \<Rightarrow> bool" where
  "settled s \<longleftrightarrow> list_all (\<lambda>c. ensured c s) open_script"

lemma settled_script: "settled s \<Longrightarrow> exec_script cs s = Inr s' \<Longrightarrow> settled s'"
  by (auto simp: settled_def list_all_iff intro: ensured_script)

lemma settled_stops: "settled s \<Longrightarrow> x \<in> set (stops cs s) \<Longrightarrow> settled x"
  using stops_split [of x cs s] by (auto dest: settled_script)

lemma settled_rungs: "ladder ms s = Some t \<Longrightarrow> settled s \<Longrightarrow> x \<in> set (rungs ms s) \<Longrightarrow> settled x"
proof (induction ms arbitrary: s)
  case (Cons m ms)
  obtain k cs sets where m: "m = (k, cs, sets)" by (cases m)
  from Cons.prems(1)[unfolded m] obtain s' where s': "exec_script cs s = Inr s'" "ladder ms s' = Some t" by (rule ladder_Cons)
  with Cons show ?case by (auto simp: m dest: settled_script)
qed simp

lemma ladder_top: "ladder ms s = Some t \<Longrightarrow> t \<in> set (rungs ms s)"
proof (induction ms arbitrary: s)
  case (Cons m ms)
  obtain k cs sets where m: "m = (k, cs, sets)" by (cases m)
  from Cons.prems(1)[unfolded m] obtain s' where s': "exec_script cs s = Inr s'" "ladder ms s' = Some t" by (rule ladder_Cons)
  with Cons.IH show ?case by (simp add: m)
qed simp

lemma settled_levels: "settled level0" "settled level28" "settled level29"
proof -
  show s0: "settled level0" using script_ensured [OF ensure_scripts(1) open_ok] by (simp add: settled_def)
  show s28: "settled level28" by (rule settled_rungs [OF ladder_ok s0 ladder_top [OF ladder_ok]])
  show "settled level29" by (rule settled_script [OF s28 script_29_ok])
qed

lemma open_settled: "settled s \<Longrightarrow> exec_script open_script s = Inr s \<and> set (stops open_script s) = {s}"
  by (rule script_noop) (simp_all add: ensure_scripts settled_def)

text \<open>What the first script does from every schema a start can leave: it ends either where it was or at
  the first version.\<close>

lemma open_from:
  assumes "reached s"
  shows "set (stops open_script s) \<subseteq> Collect reached" and
    "\<exists>s'. exec_script open_script s = Inr s' \<and> reached s' \<and> (s' = level0 \<or> s' = s) \<and> settled s'"
proof -
  have "set (stops open_script s) \<subseteq> Collect reached \<and>
    (\<exists>s'. exec_script open_script s = Inr s' \<and> reached s' \<and> (s' = level0 \<or> s' = s) \<and> settled s')"
  proof (cases "s \<in> set (stops open_script empty_schema)")
    case True
    from script_repeat [OF ensure_scripts(1) True, of "[]"] open_ok
    have "exec_script open_script s = Inr level0" "set (stops open_script s) \<subseteq> set (stops open_script empty_schema)" by simp_all
    moreover have "reached level0" by (simp add: reached_def)
    ultimately show ?thesis using settled_levels(1) by (auto simp: reached_def)
  next
    case False
    with assms consider "s \<in> set (rungs migrations level0)" | "s \<in> set (stops script_29 level28)" | "s \<in> set (stops script_30 level29)"
      unfolding reached_def by blast
    then have "settled s"
      by cases (rule settled_rungs [OF ladder_ok settled_levels(1)] settled_stops [OF settled_levels(2)]
          settled_stops [OF settled_levels(3)]; assumption)+
    with open_settled [OF this] assms show ?thesis by auto
  qed
  then show "set (stops open_script s) \<subseteq> Collect reached" and
    "\<exists>s'. exec_script open_script s = Inr s' \<and> reached s' \<and> (s' = level0 \<or> s' = s) \<and> settled s'" by blast+
qed

text \<open>The last two scripts: \<open>IF NOT EXISTS\<close> statements and then the version.\<close>

lemma final_stops:
  assumes "list_all ensure cs" and "exec_script (cs @ [SetVersion v]) s = Inr t"
  shows "set (stops (cs @ [SetVersion v]) s) = set (stops cs s) \<union> {t}"
proof -
  from assms(2) obtain p where p: "exec_script cs s = Inr p" "t = p\<lparr>user_version := v\<rparr>"
    by (auto simp: exec_script_append split: sum.splits)
  have "p \<in> set (stops cs s)" using set_stops_append [OF p(1), of "[]"] by auto
  then show ?thesis by (auto simp: set_stops_append [OF p(1)] p(2))
qed

lemma sat_final:
  assumes "list_all ensure cs" and "exec_script (cs @ [SetVersion v]) s = Inr t" and "x \<in> set (stops cs s)"
  shows "sat (run_script (cs @ [SetVersion v])) x (\<lambda>r s'. s' \<in> set (stops (cs @ [SetVersion v]) s) \<and>
     (case r of Inl e \<Rightarrow> e = ErrDatabase | Inr u \<Rightarrow> s' = t))"
  using script_repeat [OF assms(1,3), of "[SetVersion v]"] assms(2)
  by (intro sat_mono [OF sat_run_script]) (auto simp: script_result_def split: sum.splits)

lemma sat_script_29:
  "x \<in> set (stops agentPresenceSchema level28) \<Longrightarrow>
   sat (run_script script_29) x (\<lambda>r s'. reached s' \<and> (case r of Inl e \<Rightarrow> e = ErrDatabase | Inr u \<Rightarrow> s' = level29))"
  unfolding script_29_def
  by (rule sat_mono [OF sat_final [OF ensure_scripts(2) script_29_ok [unfolded script_29_def]]])
    (auto simp: reached_def script_29_def)

lemma sat_script_30:
  "x \<in> set (stops (workflowSchema @ incidentSchema) level29) \<Longrightarrow>
   sat (run_script script_30) x (\<lambda>r s'. reached s' \<and> (case r of Inl e \<Rightarrow> e = ErrDatabase | Inr u \<Rightarrow> s' = full_schema))"
  unfolding script_30_def append_assoc [symmetric]
  by (rule sat_mono [OF sat_final [OF ensure_scripts(3) script_30_ok [unfolded script_30_def append_assoc [symmetric]]]])
    (auto simp: reached_def script_30_def)

text \<open>Which schemas the two scripts pass through, by version.\<close>

lemma stops_29:
  "x \<in> set (stops script_29 level28) \<longleftrightarrow> x \<in> set (stops agentPresenceSchema level28) \<or> x = level29"
  unfolding script_29_def final_stops [OF ensure_scripts(2) script_29_ok [unfolded script_29_def]] by auto

lemma stops_30:
  "x \<in> set (stops script_30 level29) \<longleftrightarrow> x \<in> set (stops (workflowSchema @ incidentSchema) level29) \<or> x = full_schema"
  unfolding script_30_def append_assoc [symmetric]
    final_stops [OF ensure_scripts(3) script_30_ok [unfolded script_30_def append_assoc [symmetric]]] by auto

lemma stops_versions:
  "x \<in> set (stops agentPresenceSchema level28) \<Longrightarrow> user_version x = 28"
  "x \<in> set (stops (workflowSchema @ incidentSchema) level29) \<Longrightarrow> user_version x = 29"
  using ensure_version [OF ensure_scripts(2)] ensure_version [OF ensure_scripts(3)] by (auto simp: level_versions)

text \<open>After the version steps the local variable tells which of the two scripts is still to run.\<close>

definition after_steps :: "int \<Rightarrow> schema \<Rightarrow> bool" where
  "after_steps v s \<longleftrightarrow> (v \<le> 28 \<and> s \<in> set (stops agentPresenceSchema level28)) \<or>
     (v = 29 \<and> s \<in> set (stops (workflowSchema @ incidentSchema) level29)) \<or> (v = 30 \<and> s = full_schema)"

lemma sat_steps:
  assumes "reached s" and "s \<in> set (stops open_script empty_schema) \<Longrightarrow> s = level0"
  shows "sat (foldM migration_step migrations (user_version s)) s
     (\<lambda>r s'. reached s' \<and> (case r of Inl e \<Rightarrow> e = ErrDatabase | Inr v \<Rightarrow> after_steps v s'))"
proof -
  consider "s \<in> set (rungs migrations level0)" | "after_steps (user_version s) s" "28 \<le> user_version s"
    using assms hd_rungs [of level0 migrations] hd_stops [of level29] unfolding reached_def Un_iff stops_29 stops_30 after_steps_def
    by (metis stops_versions level_versions order_refl zle_diff1_eq numeral_le_iff semiring_norm(68,69,70,71,72,73,76))
  then show ?thesis
  proof cases
    case 1
    show ?thesis
      by (rule sat_mono [OF sat_climb_from [OF ladder_ok 1]])
        (auto simp: climbs_def reached_def after_steps_def level_versions hd_stops split: sum.splits)
  next
    case 2
    then have "foldM migration_step migrations (user_version s) = returnM (user_version s)"
      by (intro fold_at_top [OF ladder_ok]) (simp add: level_versions)
    with 2 assms(1) show ?thesis by (auto intro!: sat_return)
  qed
qed

lemma sat_migrate:
  assumes "reached s" and "s \<in> set (stops open_script empty_schema) \<Longrightarrow> s = level0"
  shows "sat migrate s (\<lambda>r s'. reached s' \<and> (case r of Inl e \<Rightarrow> e = ErrDatabase | Inr u \<Rightarrow> s' = full_schema))"
  unfolding migrate_def
proof (rule sat_bind, rule sat_query, goal_cases)
  case 1
  show ?case using assms(1) by simp
next
  case 2
  show ?case unfolding sum.case
  proof (rule sat_seq [where R = "\<lambda>v s'. reached s' \<and> after_steps v s'"], goal_cases)
    case 1
    show ?case by (rule sat_mono [OF sat_steps [OF assms]]) (auto split: sum.splits)
  next
    case (2 v x)
    have last: "sat (whenM (v < 30) (run_script script_30)) level29
       (\<lambda>r s'. reached s' \<and> (case r of Inl e \<Rightarrow> e = ErrDatabase | Inr u \<Rightarrow> s' = full_schema))" if "v < 30"
      using that by (simp add: whenM_def sat_script_30 hd_stops)
    from 2 consider "v \<le> 28" "x \<in> set (stops agentPresenceSchema level28)"
      | "v = 29" "x \<in> set (stops (workflowSchema @ incidentSchema) level29)" | "v = 30" "x = full_schema"
      unfolding after_steps_def by blast
    then show ?case
    proof cases
      case 1
      then have v: "v < 29" "v < 30" by simp_all
      show ?thesis unfolding whenM_def [of "v < 29"] if_P [OF v(1)]
        by (rule sat_seq [where R = "\<lambda>_ s'. s' = level29"], rule sat_mono [OF sat_script_29 [OF 1(2)]])
          (use last [OF v(2)] in \<open>auto split: sum.splits\<close>)
    next
      case 2
      then show ?thesis by (auto simp: whenM_def intro!: sat_bind sat_return sat_script_30)
    next
      case 3
      with \<open>reached x \<and> after_steps v x\<close> show ?thesis by (auto simp: whenM_def intro!: sat_bind sat_return)
    qed
  qed
qed

lemma sat_Open:
  assumes "reached s"
  shows "sat Open s (\<lambda>r s'. reached s' \<and> (case r of Inl e \<Rightarrow> e = ErrDatabase | Inr u \<Rightarrow> s' = full_schema))"
proof -
  from open_from [OF assms] obtain s' where
    s': "exec_script open_script s = Inr s'" "reached s'" "s' = level0 \<or> s' = s" "settled s'"
    and stop: "set (stops open_script s) \<subseteq> Collect reached" by blast
  have new: "s' = level0" if "s' \<in> set (stops open_script empty_schema)"
    using script_repeat(1) [OF ensure_scripts(1) that, of "[]"] open_ok open_settled [OF s'(4)] by simp
  show ?thesis unfolding Open_def
    by (rule sat_seq [where R = "\<lambda>_ x. x = s'"], rule sat_mono [OF sat_run_script])
      (use stop s' sat_migrate [OF s'(2) new] in \<open>auto simp: script_result_def split: sum.splits\<close>)
qed

lemma honest_Open: "honest Open"
proof -
  have "exec_ddl c s \<noteq> Inl ErrDatabase" for c s
    by (cases c) (auto simp: add_index_def split: option.splits if_splits)
  then have ddl: "honest (run_ddl c)" for c unfolding run_ddl_def by (intro honest_stmt) (auto split: sum.splits)
  have script: "honest (run_script cs)" for cs by (induction cs) (auto intro: honest_return honest_bind ddl)
  have step: "honest (migration_step m v)" for m v
    unfolding migration_step_def
    by (auto simp: bindM_def returnM_def intro!: honest_return honest_bind honest_tx script split: prod.splits sum.splits)
  show ?thesis unfolding Open_def migrate_def
    by (intro honest_bind honest_query honest_when honest_foldM step script)
qed

section \<open>Interrupted starts\<close>

text \<open>A database file after any number of starts, each cut short anywhere or completed.\<close>

inductive started :: "schema \<Rightarrow> bool" where
  fresh: "started empty_schema"
| again: "started (wdb w) \<Longrightarrow> started (wdb (snd (Open w)))"

lemma started_reached: "started s \<Longrightarrow> reached s"
proof (induction rule: started.induct)
  case fresh
  then show ?case by (simp add: reached_def hd_stops)
next
  case (again w)
  with sat_run [OF sat_Open] show ?case by blast
qed

lemma open_healthy:
  assumes "started s"
  shows "Open (up s) = (Inr (), up full_schema)"
proof -
  have "sat Open s (\<lambda>r s'. case r of Inl e \<Rightarrow> e = ErrDatabase | Inr u \<Rightarrow> s' = full_schema)"
    by (rule sat_mono [OF sat_Open [OF started_reached [OF assms]]]) simp
  from honest_success [OF honest_Open this] show ?thesis by auto
qed

text \<open>C9: a start can always be repeated.  However often and wherever earlier starts were interrupted by
  failing statements, begins or commits, the next start on a healthy engine succeeds and ends with the
  complete schema of version 30.\<close>

theorem open_resumes: "started s \<Longrightarrow> Open (up s) = (Inr (), up full_schema) \<and> user_version full_schema = 30"
  by (simp add: open_healthy level_versions)

theorem open_resumes_witness:
  "Open (up empty_schema) = (Inr (), up full_schema) \<and> user_version full_schema = 30"
  by (rule open_resumes [OF started.fresh])

text \<open>A start reports success only with the complete schema.  Whatever fails on the way, when \<open>Open\<close>
  returns without an error the database has the complete schema of version 30.\<close>

theorem open_complete:
  assumes "started (wdb w)" and "Open w = (Inr u, w')"
  shows "wdb w' = full_schema"
  using satD [OF sat_Open [OF started_reached [OF assms(1)]] assms(2)] by simp

theorem open_complete_witness: "wdb (snd (Open (up empty_schema))) = full_schema"
  by (rule open_complete [of "up empty_schema" "()"]) (simp_all add: open_healthy started.fresh)

end
