(* ===== verification/Schema.thy ===== *)
theory Schema
  imports Prelude
begin

text \<open>
  The database of the store package: one record per table row, one list of rows per table, and the
  constraints the schema of \<open>internal/store/store.go\<close> (function \<open>migrate\<close>), \<open>workflows.go\<close>,
  \<open>incidents.go\<close> and \<open>agent_presence.go\<close> declares.  A column that may be NULL is an option.
  Boolean columns stored as 0 and 1 are booleans, time columns are milliseconds.
\<close>

section \<open>Rows\<close>

record channel_row =
  c_id :: string
  c_name :: string
  c_display_name :: string
  c_description :: string
  c_accent_color :: string
  c_visibility :: string
  c_created_at :: int

record webhook_row =
  w_id :: string
  w_token_hash :: string
  w_channel_id :: string
  w_created_at :: int
  w_kind :: string
  w_revoked_at :: "int option"

record notification_row =
  n_id :: string
  n_channel_id :: string
  n_webhook_id :: string
  n_text :: string
  n_username :: string
  n_icon_url :: string
  n_attachments :: string
  n_raw_payload :: string
  n_created_at :: int
  n_external_key :: string
  n_state :: string
  n_updated_at :: int
  n_card :: string
  n_agent_id :: "string option"
  n_agent_run_id :: "string option"

record event_row =
  e_id :: string
  e_notification_id :: string
  e_state :: string
  e_raw_payload :: string
  e_created_at :: int
  e_actor_user_id :: "string option"

record user_row =
  u_id :: string
  u_username :: string
  u_password_hash :: string
  u_created_at :: int
  u_is_admin :: bool
  u_oidc_subject :: "string option"
  u_disabled_at :: "int option"

record session_row =
  s_token_hash :: string
  s_user_id :: string
  s_created_at :: int
  s_expires_at :: int

record oidc_state_row =
  os_state_hash :: string
  os_verifier :: string
  os_nonce :: string
  os_expires_at :: int

record oidc_desktop_row =
  od_handoff_hash :: string
  od_confirmation_hash :: string
  od_user_id :: string
  od_verification_code :: string
  od_status :: string
  od_expires_at :: int

record member_row =
  m_user_id :: string
  m_channel_id :: string
  m_role :: string
  m_created_at :: int

record audit_row =
  a_id :: string
  a_actor_user_id :: "string option"
  a_target_user_id :: "string option"
  a_action :: string
  a_detail :: string
  a_created_at :: int

record message_row =
  msg_id :: string
  msg_channel_id :: string
  msg_author_user_id :: string
  msg_parent_id :: "string option"
  msg_root_id :: string
  msg_text :: string
  msg_idempotency_key :: string
  msg_created_at :: int
  msg_updated_at :: int
  msg_deleted_at :: "int option"

record agent_row =
  ag_id :: string
  ag_name :: string
  ag_display_name :: string
  ag_description :: string
  ag_owner_user_id :: string
  ag_user_id :: string
  ag_enabled :: bool
  ag_created_at :: int
  ag_revoked_at :: "int option"
  ag_oauth_subject :: "string option"

record binding_row =
  b_channel_id :: string
  b_agent_id :: string
  b_created_at :: int

record command_row =
  q_id :: string
  q_channel_id :: string
  q_agent_id :: string
  q_message_id :: string
  q_author_id :: string
  q_state :: string
  q_lease_owner :: string
  q_lease_until :: int
  q_turn_id :: string
  q_result :: string
  q_cancel_requested :: bool
  q_created_at :: int
  q_updated_at :: int

record bot_token_row =
  bt_token_hash :: string
  bt_user_id :: string
  bt_channel_id :: string
  bt_team_name :: string
  bt_created_at :: int

record setting_row =
  st_key :: string
  st_value :: string

record read_row =
  r_user_id :: string
  r_channel_id :: string
  r_read_at :: int

record user_state_row =
  us_user_id :: string
  us_notification_id :: string
  us_read_at :: int
  us_unread :: bool
  us_dismissed_at :: "int option"

record pref_row =
  p_user_id :: string
  p_channel_id :: string
  p_level :: string
  p_updated_at :: int

record incident_row =
  i_notification_id :: string
  i_incident_key :: string

record attention_row =
  at_user_id :: string
  at_timezone :: string
  at_quiet_start :: string
  at_quiet_end :: string
  at_critical_bypass :: bool

record alert_row =
  al_id :: string
  al_user_id :: string
  al_target :: string
  al_kind :: string
  al_title :: string
  al_body :: string
  al_created_at :: int

record snooze_row =
  sn_user_id :: string
  sn_notification_id :: string
  sn_until_at :: int

record schedule_row =
  ws_id :: string
  ws_user_id :: string
  ws_kind :: string
  ws_target :: string
  ws_config :: string
  ws_due_at :: int
  ws_lease_until :: int
  ws_lease_token :: string

record monitor_row =
  pm_id :: string
  pm_channel_id :: string
  pm_name :: string
  pm_source :: string
  pm_period_seconds :: int
  pm_grace_seconds :: int
  pm_daily_json :: string
  pm_last_seen :: int
  pm_state :: string
  pm_notification_id :: string

record repl_op_row =
  ro_cluster_id :: string
  ro_origin :: string
  ro_sequence :: nat
  ro_physical_ms :: int
  ro_logical :: "32 word"
  ro_kind :: string
  ro_channel_id :: string
  ro_actor_type :: string
  ro_actor_id :: string
  ro_payload :: string
  ro_created_at :: int

record cursor_row =
  rc_origin :: string
  rc_sequence :: nat

record credential_row =
  cr_id :: string
  cr_agent_id :: string
  cr_token_hash :: string
  cr_created_at :: int
  cr_last_used_at :: "int option"
  cr_revoked_at :: "int option"

record run_row =
  run_id :: string
  run_agent_id :: string
  run_initiator_user_id :: "string option"
  run_purpose :: string
  run_state :: string
  run_created_at :: int
  run_updated_at :: int

record run_event_row =
  re_id :: string
  re_run_id :: string
  re_tool :: string
  re_summary :: string
  re_notification_id :: "string option"
  re_created_at :: int

record invocation_row =
  iv_agent_id :: string
  iv_idempotency_key :: string
  iv_tool :: string
  iv_request_fingerprint :: string
  iv_status :: string
  iv_result :: string
  iv_created_at :: int

record presence_row =
  ap_agent_id :: string
  ap_channel_id :: string
  ap_state :: string
  ap_updated_at :: int

record alias_row =
  ma_team_name :: string
  ma_channel_name :: string
  ma_channel_id :: string

record post_row =
  mp_id :: string
  mp_channel_id :: string
  mp_user_id :: string
  mp_message :: string
  mp_root_id :: string
  mp_notification_id :: string
  mp_props :: string
  mp_created_at :: int

record reaction_row =
  mr_post_id :: string
  mr_user_id :: string
  mr_emoji_name :: string
  mr_created_at :: int

record quarantine_row =
  rq_origin :: string
  rq_sequence :: nat
  rq_reason :: string
  rq_envelope :: string
  rq_created_at :: int

record snapshot_row =
  rs_source :: string
  rs_last_applied_at :: int
  rs_application_count :: nat
  rs_notification_count :: nat

record view_row =
  v_id :: string
  v_user_id :: string
  v_name :: string
  v_definition :: string
  v_created_at :: int
  v_updated_at :: int

record delivery_row =
  de_id :: string
  de_notification_id :: string
  de_user_id :: string
  de_device :: string
  de_outcome :: string
  de_attempt :: int
  de_created_at :: int

record digest_row =
  dg_id :: string
  dg_user_id :: string
  dg_view_id :: string
  dg_title :: string
  dg_count :: int
  dg_created_at :: int

record push_row =
  pu_endpoint :: string
  pu_p256dh :: string
  pu_auth :: string
  pu_created_at :: int
  pu_user_id :: "string option"

record target_row =
  tg_id :: string
  tg_name :: string
  tg_url :: string
  tg_auth_cipher :: string
  tg_allow_private :: bool
  tg_created_at :: int

record execution_row =
  ex_operation_key :: string
  ex_notification_id :: string
  ex_action_index :: int
  ex_user_id :: string
  ex_status :: string
  ex_response_text :: string
  ex_created_at :: int
  ex_completed_at :: "int option"

record slash_row =
  sc_id :: string
  sc_team_name :: string
  sc_trigger_word :: string
  sc_display_name :: string
  sc_description :: string
  sc_creator :: string
  sc_method :: string
  sc_url :: string
  sc_token_cipher :: string
  sc_token_hash :: string
  sc_allow_private :: bool
  sc_autocomplete :: bool
  sc_autocomplete_hint :: string
  sc_autocomplete_description :: string
  sc_username :: string
  sc_icon_url :: string
  sc_created_at :: int

record slash_exec_row =
  se_id :: string
  se_command_id :: string
  se_channel_id :: string
  se_user_id :: string
  se_text :: string
  se_response_token_hash :: string
  se_request_key :: string
  se_expires_at :: int
  se_response_count :: int
  se_created_at :: int

record slash_response_row =
  sr_id :: string
  sr_execution_id :: string
  sr_user_id :: string
  sr_response_type :: string
  sr_text :: string
  sr_payload :: string
  sr_created_at :: int

record peer_row =
  ps_peer :: string
  ps_node_id :: string
  ps_last_attempt_at :: int
  ps_last_success_at :: "int option"
  ps_consecutive_failures :: nat
  ps_last_error :: string

section \<open>The database\<close>

record db =
  t_channels :: "channel_row list"
  t_webhooks :: "webhook_row list"
  t_notifications :: "notification_row list"
  t_events :: "event_row list"
  t_users :: "user_row list"
  t_sessions :: "session_row list"
  t_oidc_states :: "oidc_state_row list"
  t_oidc_desktop :: "oidc_desktop_row list"
  t_members :: "member_row list"
  t_audit :: "audit_row list"
  t_messages :: "message_row list"
  t_agents :: "agent_row list"
  t_bindings :: "binding_row list"
  t_commands :: "command_row list"
  t_bot_tokens :: "bot_token_row list"
  t_settings :: "setting_row list"
  t_read :: "read_row list"
  t_user_state :: "user_state_row list"
  t_prefs :: "pref_row list"
  t_incidents :: "incident_row list"
  t_attention :: "attention_row list"
  t_alerts :: "alert_row list"
  t_snoozes :: "snooze_row list"
  t_schedules :: "schedule_row list"
  t_monitors :: "monitor_row list"
  t_repl_ops :: "repl_op_row list"
  t_repl_cursors :: "cursor_row list"
  t_credentials :: "credential_row list"
  t_runs :: "run_row list"
  t_run_events :: "run_event_row list"
  t_invocations :: "invocation_row list"
  t_presence :: "presence_row list"
  t_aliases :: "alias_row list"
  t_posts :: "post_row list"
  t_reactions :: "reaction_row list"
  t_quarantine :: "quarantine_row list"
  t_snapshots :: "snapshot_row list"
  t_views :: "view_row list"
  t_deliveries :: "delivery_row list"
  t_digests :: "digest_row list"
  t_push :: "push_row list"
  t_targets :: "target_row list"
  t_executions :: "execution_row list"
  t_slash :: "slash_row list"
  t_slash_execs :: "slash_exec_row list"
  t_slash_responses :: "slash_response_row list"
  t_peers :: "peer_row list"

type_synonym 'a store = "(db, 'a) sql"

definition empty_db :: db where
  "empty_db = \<lparr>t_channels = [], t_webhooks = [], t_notifications = [], t_events = [], t_users = [],
     t_sessions = [], t_oidc_states = [], t_oidc_desktop = [], t_members = [], t_audit = [],
     t_messages = [], t_agents = [], t_bindings = [], t_commands = [], t_bot_tokens = [],
     t_settings = [], t_read = [], t_user_state = [], t_prefs = [], t_incidents = [],
     t_attention = [], t_alerts = [], t_snoozes = [], t_schedules = [], t_monitors = [],
     t_repl_ops = [], t_repl_cursors = [],
     t_credentials = [], t_runs = [], t_run_events = [], t_invocations = [], t_presence = [], t_aliases = [], t_posts = [], t_reactions = [],
     t_quarantine = [], t_snapshots = [], t_views = [], t_deliveries = [], t_digests = [], t_push = [], t_targets = [], t_executions = [], t_slash = [], t_slash_execs = [], t_slash_responses = [], t_peers = []\<rparr>"

section \<open>Constraints\<close>

text \<open>The constraint an insert violates, if any.  A reference that may be NULL is checked only when it
  is set.  \<open>users.username\<close> compares without ASCII case.\<close>

definition violation :: "(bool \<times> constraint) list \<Rightarrow> constraint option" where
  "violation cs = map_option snd (List.find fst cs)"

lemma violation_None [simp]: "violation cs = None \<longleftrightarrow> (\<forall>c \<in> set cs. \<not> fst c)"
  by (auto simp: violation_def find_None_iff)

definition ref_ok :: "('k \<Rightarrow> bool) \<Rightarrow> 'k option \<Rightarrow> bool" where
  "ref_ok known r = (case r of None \<Rightarrow> True | Some k \<Rightarrow> known k)"

lemma ref_ok_simps [simp]: "ref_ok known None" "ref_ok known (Some k) = known k"
  by (simp_all add: ref_ok_def)

definition nocase :: "string \<Rightarrow> string" where
  "nocase = map (\<lambda>c. if of_char c \<in> {65..90 :: nat} then char_of (of_char c + 32 :: nat) else c)"

definition chk_channels :: "db \<Rightarrow> channel_row \<Rightarrow> constraint option" where
  "chk_channels d r = violation
     [(exists_where (\<lambda>x. c_id x = c_id r) (t_channels d), UniqueViolation),
      (exists_where (\<lambda>x. c_name x = c_name r) (t_channels d), UniqueViolation)]"

definition chk_webhooks :: "db \<Rightarrow> webhook_row \<Rightarrow> constraint option" where
  "chk_webhooks d r = violation
     [(exists_where (\<lambda>x. w_id x = w_id r) (t_webhooks d), UniqueViolation),
      (exists_where (\<lambda>x. w_token_hash x = w_token_hash r) (t_webhooks d), UniqueViolation),
      (\<not> exists_where (\<lambda>x. c_id x = w_channel_id r) (t_channels d), ForeignKeyViolation)]"

definition chk_notifications :: "db \<Rightarrow> notification_row \<Rightarrow> constraint option" where
  "chk_notifications d r = violation
     [(exists_where (\<lambda>x. n_id x = n_id r) (t_notifications d), UniqueViolation),
      (n_external_key r \<noteq> [] \<and> exists_where (\<lambda>x. n_webhook_id x = n_webhook_id r \<and> n_external_key x = n_external_key r) (t_notifications d), UniqueViolation),
      (\<not> exists_where (\<lambda>x. c_id x = n_channel_id r) (t_channels d), ForeignKeyViolation),
      (\<not> exists_where (\<lambda>x. w_id x = n_webhook_id r) (t_webhooks d), ForeignKeyViolation),
      (\<not> ref_ok (\<lambda>k. exists_where (\<lambda>x. ag_id x = k) (t_agents d)) (n_agent_id r), ForeignKeyViolation),
      (\<not> ref_ok (\<lambda>k. exists_where (\<lambda>x. run_id x = k) (t_runs d)) (n_agent_run_id r), ForeignKeyViolation)]"

definition chk_events :: "db \<Rightarrow> event_row \<Rightarrow> constraint option" where
  "chk_events d r = violation
     [(exists_where (\<lambda>x. e_id x = e_id r) (t_events d), UniqueViolation),
      (\<not> exists_where (\<lambda>x. n_id x = e_notification_id r) (t_notifications d), ForeignKeyViolation),
      (\<not> ref_ok (\<lambda>k. exists_where (\<lambda>x. u_id x = k) (t_users d)) (e_actor_user_id r), ForeignKeyViolation)]"

definition chk_users :: "db \<Rightarrow> user_row \<Rightarrow> constraint option" where
  "chk_users d r = violation
     [(exists_where (\<lambda>x. u_id x = u_id r) (t_users d), UniqueViolation),
      (exists_where (\<lambda>x. nocase (u_username x) = nocase (u_username r)) (t_users d), UniqueViolation),
      (u_oidc_subject r \<noteq> None \<and> exists_where (\<lambda>x. u_oidc_subject x = u_oidc_subject r) (t_users d), UniqueViolation)]"

definition chk_sessions :: "db \<Rightarrow> session_row \<Rightarrow> constraint option" where
  "chk_sessions d r = violation
     [(exists_where (\<lambda>x. s_token_hash x = s_token_hash r) (t_sessions d), UniqueViolation),
      (\<not> exists_where (\<lambda>x. u_id x = s_user_id r) (t_users d), ForeignKeyViolation)]"

definition chk_oidc_states :: "db \<Rightarrow> oidc_state_row \<Rightarrow> constraint option" where
  "chk_oidc_states d r = violation
     [(exists_where (\<lambda>x. os_state_hash x = os_state_hash r) (t_oidc_states d), UniqueViolation)]"

definition chk_oidc_desktop :: "db \<Rightarrow> oidc_desktop_row \<Rightarrow> constraint option" where
  "chk_oidc_desktop d r = violation
     [(exists_where (\<lambda>x. od_handoff_hash x = od_handoff_hash r) (t_oidc_desktop d), UniqueViolation),
      (exists_where (\<lambda>x. od_confirmation_hash x = od_confirmation_hash r) (t_oidc_desktop d), UniqueViolation),
      (\<not> exists_where (\<lambda>x. u_id x = od_user_id r) (t_users d), ForeignKeyViolation),
      (od_status r \<notin> {''pending'', ''approved'', ''cancelled''}, CheckViolation)]"

definition chk_members :: "db \<Rightarrow> member_row \<Rightarrow> constraint option" where
  "chk_members d r = violation
     [(exists_where (\<lambda>x. m_user_id x = m_user_id r \<and> m_channel_id x = m_channel_id r) (t_members d), UniqueViolation),
      (\<not> exists_where (\<lambda>x. u_id x = m_user_id r) (t_users d), ForeignKeyViolation),
      (\<not> exists_where (\<lambda>x. c_id x = m_channel_id r) (t_channels d), ForeignKeyViolation),
      (m_role r \<notin> {''viewer'', ''operator'', ''channel_admin''}, CheckViolation)]"

definition chk_audit :: "db \<Rightarrow> audit_row \<Rightarrow> constraint option" where
  "chk_audit d r = violation
     [(exists_where (\<lambda>x. a_id x = a_id r) (t_audit d), UniqueViolation),
      (\<not> ref_ok (\<lambda>k. exists_where (\<lambda>x. u_id x = k) (t_users d)) (a_actor_user_id r), ForeignKeyViolation),
      (\<not> ref_ok (\<lambda>k. exists_where (\<lambda>x. u_id x = k) (t_users d)) (a_target_user_id r), ForeignKeyViolation)]"

definition chk_messages :: "db \<Rightarrow> message_row \<Rightarrow> constraint option" where
  "chk_messages d r = violation
     [(exists_where (\<lambda>x. msg_id x = msg_id r) (t_messages d), UniqueViolation),
      (msg_idempotency_key r \<noteq> [] \<and> exists_where (\<lambda>x. msg_channel_id x = msg_channel_id r \<and> msg_author_user_id x = msg_author_user_id r \<and> msg_idempotency_key x = msg_idempotency_key r) (t_messages d), UniqueViolation),
      (\<not> exists_where (\<lambda>x. c_id x = msg_channel_id r) (t_channels d), ForeignKeyViolation),
      (\<not> exists_where (\<lambda>x. u_id x = msg_author_user_id r) (t_users d), ForeignKeyViolation),
      (\<not> ref_ok (\<lambda>k. exists_where (\<lambda>x. msg_id x = k) (t_messages d)) (msg_parent_id r), ForeignKeyViolation)]"

definition chk_agents :: "db \<Rightarrow> agent_row \<Rightarrow> constraint option" where
  "chk_agents d r = violation
     [(exists_where (\<lambda>x. ag_id x = ag_id r) (t_agents d), UniqueViolation),
      (exists_where (\<lambda>x. ag_name x = ag_name r) (t_agents d), UniqueViolation),
      (exists_where (\<lambda>x. ag_user_id x = ag_user_id r) (t_agents d), UniqueViolation),
      (ag_oauth_subject r \<noteq> None \<and> exists_where (\<lambda>x. ag_oauth_subject x = ag_oauth_subject r) (t_agents d), UniqueViolation),
      (\<not> exists_where (\<lambda>x. u_id x = ag_owner_user_id r) (t_users d), ForeignKeyViolation),
      (\<not> exists_where (\<lambda>x. u_id x = ag_user_id r) (t_users d), ForeignKeyViolation)]"

definition chk_bindings :: "db \<Rightarrow> binding_row \<Rightarrow> constraint option" where
  "chk_bindings d r = violation
     [(exists_where (\<lambda>x. b_channel_id x = b_channel_id r) (t_bindings d), UniqueViolation),
      (\<not> exists_where (\<lambda>x. c_id x = b_channel_id r) (t_channels d), ForeignKeyViolation),
      (\<not> exists_where (\<lambda>x. ag_id x = b_agent_id r) (t_agents d), ForeignKeyViolation)]"

definition chk_commands :: "db \<Rightarrow> command_row \<Rightarrow> constraint option" where
  "chk_commands d r = violation
     [(exists_where (\<lambda>x. q_id x = q_id r) (t_commands d), UniqueViolation),
      (exists_where (\<lambda>x. q_message_id x = q_message_id r) (t_commands d), UniqueViolation),
      (\<not> exists_where (\<lambda>x. c_id x = q_channel_id r) (t_channels d), ForeignKeyViolation),
      (\<not> exists_where (\<lambda>x. ag_id x = q_agent_id r) (t_agents d), ForeignKeyViolation),
      (\<not> exists_where (\<lambda>x. msg_id x = q_message_id r) (t_messages d), ForeignKeyViolation),
      (\<not> exists_where (\<lambda>x. u_id x = q_author_id r) (t_users d), ForeignKeyViolation)]"

definition chk_user_state :: "db \<Rightarrow> user_state_row \<Rightarrow> constraint option" where
  "chk_user_state d r = violation
     [(exists_where (\<lambda>x. us_user_id x = us_user_id r \<and> us_notification_id x = us_notification_id r) (t_user_state d), UniqueViolation),
      (\<not> exists_where (\<lambda>x. u_id x = us_user_id r) (t_users d), ForeignKeyViolation),
      (\<not> exists_where (\<lambda>x. n_id x = us_notification_id r) (t_notifications d), ForeignKeyViolation)]"

definition chk_read :: "db \<Rightarrow> read_row \<Rightarrow> constraint option" where
  "chk_read d r = violation
     [(exists_where (\<lambda>x. r_user_id x = r_user_id r \<and> r_channel_id x = r_channel_id r) (t_read d), UniqueViolation),
      (\<not> exists_where (\<lambda>x. u_id x = r_user_id r) (t_users d), ForeignKeyViolation),
      (\<not> exists_where (\<lambda>x. c_id x = r_channel_id r) (t_channels d), ForeignKeyViolation)]"

definition chk_prefs :: "db \<Rightarrow> pref_row \<Rightarrow> constraint option" where
  "chk_prefs d r = violation
     [(exists_where (\<lambda>x. p_user_id x = p_user_id r \<and> p_channel_id x = p_channel_id r) (t_prefs d), UniqueViolation),
      (\<not> exists_where (\<lambda>x. u_id x = p_user_id r) (t_users d), ForeignKeyViolation),
      (\<not> exists_where (\<lambda>x. c_id x = p_channel_id r) (t_channels d), ForeignKeyViolation),
      (p_level r \<notin> {''all'', ''critical'', ''muted''}, CheckViolation)]"

definition chk_settings :: "db \<Rightarrow> setting_row \<Rightarrow> constraint option" where
  "chk_settings d r = violation
     [(exists_where (\<lambda>x. st_key x = st_key r) (t_settings d), UniqueViolation)]"

definition chk_incidents :: "db \<Rightarrow> incident_row \<Rightarrow> constraint option" where
  "chk_incidents d r = violation
     [(exists_where (\<lambda>x. i_notification_id x = i_notification_id r) (t_incidents d), UniqueViolation),
      (\<not> exists_where (\<lambda>x. n_id x = i_notification_id r) (t_notifications d), ForeignKeyViolation)]"

definition chk_snoozes :: "db \<Rightarrow> snooze_row \<Rightarrow> constraint option" where
  "chk_snoozes d r = violation
     [(exists_where (\<lambda>x. sn_user_id x = sn_user_id r \<and> sn_notification_id x = sn_notification_id r) (t_snoozes d), UniqueViolation),
      (\<not> exists_where (\<lambda>x. u_id x = sn_user_id r) (t_users d), ForeignKeyViolation),
      (\<not> exists_where (\<lambda>x. n_id x = sn_notification_id r) (t_notifications d), ForeignKeyViolation)]"

definition chk_schedules :: "db \<Rightarrow> schedule_row \<Rightarrow> constraint option" where
  "chk_schedules d r = violation
     [(exists_where (\<lambda>x. ws_id x = ws_id r) (t_schedules d), UniqueViolation),
      (exists_where (\<lambda>x. ws_user_id x = ws_user_id r \<and> ws_kind x = ws_kind r \<and> ws_target x = ws_target r) (t_schedules d), UniqueViolation),
      (\<not> exists_where (\<lambda>x. u_id x = ws_user_id r) (t_users d), ForeignKeyViolation)]"

definition chk_attention :: "db \<Rightarrow> attention_row \<Rightarrow> constraint option" where
  "chk_attention d r = violation
     [(exists_where (\<lambda>x. at_user_id x = at_user_id r) (t_attention d), UniqueViolation),
      (\<not> exists_where (\<lambda>x. u_id x = at_user_id r) (t_users d), ForeignKeyViolation)]"

definition chk_alerts :: "db \<Rightarrow> alert_row \<Rightarrow> constraint option" where
  "chk_alerts d r = violation
     [(exists_where (\<lambda>x. al_id x = al_id r) (t_alerts d), UniqueViolation),
      (\<not> exists_where (\<lambda>x. u_id x = al_user_id r) (t_users d), ForeignKeyViolation)]"

definition chk_monitors :: "db \<Rightarrow> monitor_row \<Rightarrow> constraint option" where
  "chk_monitors d r = violation
     [(exists_where (\<lambda>x. pm_id x = pm_id r) (t_monitors d), UniqueViolation),
      (exists_where (\<lambda>x. pm_channel_id x = pm_channel_id r \<and> pm_source x = pm_source r) (t_monitors d), UniqueViolation),
      (\<not> exists_where (\<lambda>x. c_id x = pm_channel_id r) (t_channels d), ForeignKeyViolation)]"

definition chk_repl_ops :: "db \<Rightarrow> repl_op_row \<Rightarrow> constraint option" where
  "chk_repl_ops d r = violation
     [(exists_where (\<lambda>x. ro_origin x = ro_origin r \<and> ro_sequence x = ro_sequence r) (t_repl_ops d), UniqueViolation),
      (ro_sequence r = 0, CheckViolation),
      (ro_physical_ms r \<le> 0, CheckViolation)]"

definition chk_repl_cursors :: "db \<Rightarrow> cursor_row \<Rightarrow> constraint option" where
  "chk_repl_cursors d r = violation
     [(exists_where (\<lambda>x. rc_origin x = rc_origin r) (t_repl_cursors d), UniqueViolation)]"

definition chk_bot_tokens :: "db \<Rightarrow> bot_token_row \<Rightarrow> constraint option" where
  "chk_bot_tokens d r = violation
     [(exists_where (\<lambda>x. bt_token_hash x = bt_token_hash r) (t_bot_tokens d), UniqueViolation),
      (\<not> exists_where (\<lambda>x. u_id x = bt_user_id r) (t_users d), ForeignKeyViolation),
      (\<not> exists_where (\<lambda>x. c_id x = bt_channel_id r) (t_channels d), ForeignKeyViolation)]"

definition chk_credentials :: "db \<Rightarrow> credential_row \<Rightarrow> constraint option" where
  "chk_credentials d r = violation
     [(exists_where (\<lambda>x. cr_id x = cr_id r) (t_credentials d), UniqueViolation),
      (exists_where (\<lambda>x. cr_token_hash x = cr_token_hash r) (t_credentials d), UniqueViolation),
      (\<not> exists_where (\<lambda>x. ag_id x = cr_agent_id r) (t_agents d), ForeignKeyViolation)]"

definition chk_runs :: "db \<Rightarrow> run_row \<Rightarrow> constraint option" where
  "chk_runs d r = violation
     [(exists_where (\<lambda>x. run_id x = run_id r) (t_runs d), UniqueViolation),
      (\<not> exists_where (\<lambda>x. ag_id x = run_agent_id r) (t_agents d), ForeignKeyViolation),
      (\<not> ref_ok (\<lambda>k. exists_where (\<lambda>x. u_id x = k) (t_users d)) (run_initiator_user_id r), ForeignKeyViolation),
      (run_state r \<notin> {''running'', ''completed'', ''failed'', ''cancelled''}, CheckViolation)]"

definition chk_run_events :: "db \<Rightarrow> run_event_row \<Rightarrow> constraint option" where
  "chk_run_events d r = violation
     [(exists_where (\<lambda>x. re_id x = re_id r) (t_run_events d), UniqueViolation),
      (\<not> exists_where (\<lambda>x. run_id x = re_run_id r) (t_runs d), ForeignKeyViolation),
      (\<not> ref_ok (\<lambda>k. exists_where (\<lambda>x. n_id x = k) (t_notifications d)) (re_notification_id r), ForeignKeyViolation)]"

definition chk_invocations :: "db \<Rightarrow> invocation_row \<Rightarrow> constraint option" where
  "chk_invocations d r = violation
     [(exists_where (\<lambda>x. iv_agent_id x = iv_agent_id r \<and> iv_idempotency_key x = iv_idempotency_key r) (t_invocations d), UniqueViolation),
      (\<not> exists_where (\<lambda>x. ag_id x = iv_agent_id r) (t_agents d), ForeignKeyViolation),
      (iv_status r \<notin> {''running'', ''completed''}, CheckViolation)]"

definition chk_views :: "db \<Rightarrow> view_row \<Rightarrow> constraint option" where
  "chk_views d r = violation
     [(exists_where (\<lambda>x. v_id x = v_id r) (t_views d), UniqueViolation),
      (exists_where (\<lambda>x. v_user_id x = v_user_id r \<and> v_name x = v_name r) (t_views d), UniqueViolation),
      (\<not> exists_where (\<lambda>x. u_id x = v_user_id r) (t_users d), ForeignKeyViolation)]"

definition chk_digests :: "db \<Rightarrow> digest_row \<Rightarrow> constraint option" where
  "chk_digests d r = violation
     [(exists_where (\<lambda>x. dg_id x = dg_id r) (t_digests d), UniqueViolation),
      (\<not> exists_where (\<lambda>x. u_id x = dg_user_id r) (t_users d), ForeignKeyViolation),
      (\<not> exists_where (\<lambda>x. v_id x = dg_view_id r) (t_views d), ForeignKeyViolation)]"

definition chk_quarantine :: "db \<Rightarrow> quarantine_row \<Rightarrow> constraint option" where
  "chk_quarantine d r = violation
     [(exists_where (\<lambda>x. rq_origin x = rq_origin r \<and> rq_sequence x = rq_sequence r) (t_quarantine d), UniqueViolation)]"

definition chk_snapshots :: "db \<Rightarrow> snapshot_row \<Rightarrow> constraint option" where
  "chk_snapshots d r = violation
     [(exists_where (\<lambda>x. rs_source x = rs_source r) (t_snapshots d), UniqueViolation)]"

definition chk_peers :: "db \<Rightarrow> peer_row \<Rightarrow> constraint option" where
  "chk_peers d r = violation
     [(exists_where (\<lambda>x. ps_peer x = ps_peer r) (t_peers d), UniqueViolation)]"

definition chk_slash :: "db \<Rightarrow> slash_row \<Rightarrow> constraint option" where
  "chk_slash d r = violation
     [(exists_where (\<lambda>x. sc_id x = sc_id r) (t_slash d), UniqueViolation),
      (exists_where (\<lambda>x. sc_team_name x = sc_team_name r \<and> sc_trigger_word x = sc_trigger_word r) (t_slash d), UniqueViolation),
      (sc_method r \<notin> {''GET'', ''POST''}, CheckViolation)]"

definition chk_slash_execs :: "db \<Rightarrow> slash_exec_row \<Rightarrow> constraint option" where
  "chk_slash_execs d r = violation
     [(exists_where (\<lambda>x. se_id x = se_id r) (t_slash_execs d), UniqueViolation),
      (exists_where (\<lambda>x. se_response_token_hash x = se_response_token_hash r) (t_slash_execs d), UniqueViolation),
      (exists_where (\<lambda>x. se_request_key x = se_request_key r) (t_slash_execs d), UniqueViolation),
      (\<not> exists_where (\<lambda>x. sc_id x = se_command_id r) (t_slash d), ForeignKeyViolation),
      (\<not> exists_where (\<lambda>x. c_id x = se_channel_id r) (t_channels d), ForeignKeyViolation),
      (\<not> exists_where (\<lambda>x. u_id x = se_user_id r) (t_users d), ForeignKeyViolation)]"

definition chk_slash_responses :: "db \<Rightarrow> slash_response_row \<Rightarrow> constraint option" where
  "chk_slash_responses d r = violation
     [(exists_where (\<lambda>x. sr_id x = sr_id r) (t_slash_responses d), UniqueViolation),
      (\<not> exists_where (\<lambda>x. se_id x = sr_execution_id r) (t_slash_execs d), ForeignKeyViolation),
      (\<not> exists_where (\<lambda>x. u_id x = sr_user_id r) (t_users d), ForeignKeyViolation),
      (sr_response_type r \<notin> {''ephemeral'', ''in_channel''}, CheckViolation)]"

definition chk_presence :: "db \<Rightarrow> presence_row \<Rightarrow> constraint option" where
  "chk_presence d r = violation
     [(exists_where (\<lambda>x. ap_agent_id x = ap_agent_id r \<and> ap_channel_id x = ap_channel_id r) (t_presence d), UniqueViolation),
      (\<not> exists_where (\<lambda>x. ag_id x = ap_agent_id r) (t_agents d), ForeignKeyViolation),
      (\<not> exists_where (\<lambda>x. c_id x = ap_channel_id r) (t_channels d), ForeignKeyViolation),
      (ap_state r \<notin> {''ready'', ''busy'', ''offline''}, CheckViolation)]"

definition chk_deliveries :: "db \<Rightarrow> delivery_row \<Rightarrow> constraint option" where
  "chk_deliveries d r = violation
     [(exists_where (\<lambda>x. de_id x = de_id r) (t_deliveries d), UniqueViolation),
      (\<not> exists_where (\<lambda>x. n_id x = de_notification_id r) (t_notifications d), ForeignKeyViolation)]"

definition chk_aliases :: "db \<Rightarrow> alias_row \<Rightarrow> constraint option" where
  "chk_aliases d r = violation
     [(exists_where (\<lambda>x. ma_team_name x = ma_team_name r \<and> ma_channel_name x = ma_channel_name r) (t_aliases d), UniqueViolation),
      (\<not> exists_where (\<lambda>x. c_id x = ma_channel_id r) (t_channels d), ForeignKeyViolation)]"

definition chk_posts :: "db \<Rightarrow> post_row \<Rightarrow> constraint option" where
  "chk_posts d r = violation
     [(exists_where (\<lambda>x. mp_id x = mp_id r) (t_posts d), UniqueViolation),
      (\<not> exists_where (\<lambda>x. c_id x = mp_channel_id r) (t_channels d), ForeignKeyViolation),
      (\<not> exists_where (\<lambda>x. u_id x = mp_user_id r) (t_users d), ForeignKeyViolation),
      (\<not> exists_where (\<lambda>x. n_id x = mp_notification_id r) (t_notifications d), ForeignKeyViolation)]"

definition chk_reactions :: "db \<Rightarrow> reaction_row \<Rightarrow> constraint option" where
  "chk_reactions d r = violation
     [(exists_where (\<lambda>x. mr_post_id x = mr_post_id r \<and> mr_user_id x = mr_user_id r \<and> mr_emoji_name x = mr_emoji_name r) (t_reactions d), UniqueViolation),
      (\<not> exists_where (\<lambda>x. mp_id x = mr_post_id r) (t_posts d), ForeignKeyViolation),
      (\<not> exists_where (\<lambda>x. u_id x = mr_user_id r) (t_users d), ForeignKeyViolation)]"

definition chk_targets :: "db \<Rightarrow> target_row \<Rightarrow> constraint option" where
  "chk_targets d r = violation
     [(exists_where (\<lambda>x. tg_id x = tg_id r) (t_targets d), UniqueViolation),
      (exists_where (\<lambda>x. tg_name x = tg_name r) (t_targets d), UniqueViolation)]"

definition chk_executions :: "db \<Rightarrow> execution_row \<Rightarrow> constraint option" where
  "chk_executions d r = violation
     [(exists_where (\<lambda>x. ex_operation_key x = ex_operation_key r) (t_executions d), UniqueViolation),
      (\<not> exists_where (\<lambda>x. n_id x = ex_notification_id r) (t_notifications d), ForeignKeyViolation),
      (\<not> exists_where (\<lambda>x. u_id x = ex_user_id r) (t_users d), ForeignKeyViolation)]"

lemmas chk_defs = chk_channels_def chk_webhooks_def chk_notifications_def chk_events_def chk_users_def chk_sessions_def chk_oidc_states_def chk_oidc_desktop_def chk_members_def chk_audit_def chk_messages_def chk_agents_def chk_bindings_def chk_commands_def chk_user_state_def chk_read_def chk_prefs_def chk_settings_def chk_incidents_def chk_snoozes_def chk_schedules_def chk_attention_def chk_alerts_def chk_monitors_def chk_repl_ops_def chk_repl_cursors_def chk_bot_tokens_def chk_credentials_def chk_runs_def chk_run_events_def chk_invocations_def chk_views_def chk_digests_def
  chk_quarantine_def chk_snapshots_def chk_peers_def chk_slash_def chk_slash_execs_def chk_slash_responses_def
  chk_presence_def chk_deliveries_def chk_aliases_def chk_posts_def chk_reactions_def chk_targets_def chk_executions_def

section \<open>The tables as keyed tables\<close>

interpretation users: sql_table t_users t_users_update u_id by unfold_locales simp

interpretation channels: sql_table t_channels t_channels_update c_id by unfold_locales simp

interpretation commands: sql_table t_commands t_commands_update q_id by unfold_locales simp

interpretation notifications: sql_table t_notifications t_notifications_update n_id by unfold_locales simp

interpretation schedules: sql_table t_schedules t_schedules_update ws_id by unfold_locales simp

interpretation sessions: sql_table t_sessions t_sessions_update s_token_hash by unfold_locales simp

end
