(* ===== verification/Access.thy ===== *)
theory Access
  imports Schema
begin

text \<open>
  Principals and the authorisation checks that the operations of the store share:
  \<open>RequireChannelOperator\<close> (incidents.go), \<open>channelReadable\<close>, \<open>ChannelIDByName\<close> and
  \<open>channelNameByID\<close> (timeline.go), \<open>CanReadNotification\<close> (store.go), \<open>BotChannelAuthorized\<close>
  (slash_channel.go), the identifier generator \<open>newID\<close> and the audit helpers.
\<close>

section \<open>Principals\<close>

record User =
  User_ID :: string
  User_Username :: string
  User_IsAdmin :: bool

record Agent =
  Agent_ID :: string
  Agent_Name :: string
  Agent_DisplayName :: string
  Agent_Description :: string
  Agent_Owner :: string
  Agent_Username :: string
  Agent_Enabled :: bool
  Agent_IsAdmin :: bool
  Agent_CreatedAt :: gotime
  Agent_LastUsedAt :: "gotime option"
  Agent_Channels :: "string list"
  Agent_UserID :: string
  Agent_OAuthSubject :: string

record MattermostBot =
  Bot_User :: User
  Bot_WebhookID :: string
  Bot_ChannelID :: string
  Bot_ChannelName :: string
  Bot_TeamName :: string

definition localInboxUserID :: string where
  "localInboxUserID = ''usr_tintwire_local_inbox''"

definition LocalInboxUser :: User where
  "LocalInboxUser = \<lparr>User_ID = localInboxUserID, User_Username = ''tintwire-local-inbox'', User_IsAdmin = True\<rparr>"

text \<open>\<open>User{ID: id}\<close>: the other fields have their zero values.\<close>

definition UserWithID :: "string \<Rightarrow> User" where
  "UserWithID i = \<lparr>User_ID = i, User_Username = [], User_IsAdmin = False\<rparr>"

text \<open>Sixteen bytes: the milliseconds and eight random bytes, in hexadecimal.\<close>

definition newID :: "string \<Rightarrow> gotime \<Rightarrow> 64 word \<Rightarrow> string" where
  "newID pre now rnd = pre @ hex64 (word_of_int (UnixMilli now)) @ hex64 rnd"

section \<open>Checks\<close>

definition operator_roles :: "string set" where
  "operator_roles = {''operator'', ''channel_admin''}"

lemma operator_roles_code [simp]: "r \<in> operator_roles \<longleftrightarrow> r = ''operator'' \<or> r = ''channel_admin''"
  by (simp add: operator_roles_def)

definition has_role :: "db \<Rightarrow> string \<Rightarrow> string \<Rightarrow> bool" where
  "has_role d user cid \<longleftrightarrow>
     exists_where (\<lambda>m. m_user_id m = user \<and> m_channel_id m = cid \<and> m_role m \<in> operator_roles) (t_members d)"

definition is_member :: "db \<Rightarrow> string \<Rightarrow> string \<Rightarrow> bool" where
  "is_member d user cid \<longleftrightarrow> exists_where (\<lambda>m. m_user_id m = user \<and> m_channel_id m = cid) (t_members d)"

text \<open>The condition on a user that both the operator check and the queue's statements use.\<close>

definition user_operates :: "db \<Rightarrow> string \<Rightarrow> string \<Rightarrow> bool" where
  "user_operates d user cid \<longleftrightarrow>
     exists_where (\<lambda>u. u_id u = user \<and> u_disabled_at u = None \<and> (u_is_admin u \<or> has_role d (u_id u) cid)) (t_users d)"

definition RequireChannelOperator :: "User \<Rightarrow> string \<Rightarrow> unit store" where
  "RequireChannelOperator user channelID =
     bindM (query (\<lambda>d. exists_where (\<lambda>c. c_id c = channelID) (t_channels d) \<and> user_operates d (User_ID user) channelID))
       (\<lambda>allowed. requireM allowed ErrForbidden)"

definition channelReadable :: "User \<Rightarrow> string \<Rightarrow> bool store" where
  "channelReadable user channelID =
     bindM (query (\<lambda>d. map_option c_visibility (List.find (\<lambda>c. c_id c = channelID) (t_channels d))))
       (\<lambda>r. bindM (rowM ErrNotificationNotFound r)
       (\<lambda>visibility.
         if User_IsAdmin user then returnM True
         else if User_ID user = [] then returnM (visibility = ''public'')
         else if visibility = ''public'' then returnM True
         else bindM (query (\<lambda>d. count_where (\<lambda>m. m_user_id m = User_ID user \<and> m_channel_id m = channelID) (t_members d)))
                (\<lambda>membership. returnM (membership > 0))))"

definition ChannelIDByName :: "string \<Rightarrow> string store" where
  "ChannelIDByName name =
     bindM (query (\<lambda>d. map_option c_id (List.find (\<lambda>c. c_name c = name) (t_channels d))))
       (rowM ErrNotificationNotFound)"

definition channelNameByID :: "string \<Rightarrow> string store" where
  "channelNameByID channelID =
     bindM (query (\<lambda>d. map_option c_name (List.find (\<lambda>c. c_id c = channelID) (t_channels d))))
       (rowM ErrNotificationNotFound)"

definition CanReadNotification :: "string \<Rightarrow> User \<Rightarrow> bool store" where
  "CanReadNotification notificationID user =
     (if User_ID user = [] \<or> User_IsAdmin user then returnM True
      else query (\<lambda>d. exists_where (\<lambda>n. n_id n = notificationID \<and>
             exists_where (\<lambda>c. c_id c = n_channel_id n \<and>
               (c_visibility c = ''public'' \<or> is_member d (User_ID user) (c_id c))) (t_channels d)) (t_notifications d)))"

definition BotChannelAuthorized :: "MattermostBot \<Rightarrow> string \<Rightarrow> bool store" where
  "BotChannelAuthorized mb channelID =
     (if User_IsAdmin (Bot_User mb) then returnM True
      else if channelID = Bot_ChannelID mb then returnM True
      else bindM (query (\<lambda>d. count_where (\<lambda>m. m_user_id m = User_ID (Bot_User mb) \<and> m_channel_id m = channelID) (t_members d)))
             (\<lambda>count. returnM (count > 0)))"

section \<open>Audit records\<close>

text \<open>\<open>recordQueueControl\<close> of agent_queue.go.\<close>

definition recordQueueControl :: "User \<Rightarrow> string \<Rightarrow> string \<Rightarrow> gotime \<Rightarrow> 64 word \<Rightarrow> unit store" where
  "recordQueueControl user action detail now rnd =
     bindM (sql_insert t_audit_update chk_audit
              \<lparr>a_id = newID ''audit_'' now rnd, a_actor_user_id = Some (User_ID user), a_target_user_id = None,
               a_action = action, a_detail = detail, a_created_at = UnixMilli now\<rparr>)
       (\<lambda>_. returnM ())"

section \<open>What the checks decide\<close>

definition operates :: "db \<Rightarrow> string \<Rightarrow> string \<Rightarrow> bool" where
  "operates d user cid \<longleftrightarrow> exists_where (\<lambda>c. c_id c = cid) (t_channels d) \<and> user_operates d user cid"

lemma sat_RequireChannelOperator [sat_intro]:
  "Q (Inl ErrDatabase) d \<Longrightarrow> (\<not> operates d (User_ID user) cid \<Longrightarrow> Q (Inl ErrForbidden) d) \<Longrightarrow>
   (operates d (User_ID user) cid \<Longrightarrow> Q (Inr ()) d) \<Longrightarrow> sat (RequireChannelOperator user cid) d Q"
  unfolding RequireChannelOperator_def
  by (intro sat_intro) (auto simp: operates_def intro!: sat_intro)

lemma sat_ChannelIDByName [sat_intro]:
  "Q (Inl ErrDatabase) d \<Longrightarrow> (\<forall>c \<in> set (t_channels d). c_name c \<noteq> name \<Longrightarrow> Q (Inl ErrNotificationNotFound) d) \<Longrightarrow>
   (\<And>c. c \<in> set (t_channels d) \<Longrightarrow> c_name c = name \<Longrightarrow> Q (Inr (c_id c)) d) \<Longrightarrow>
   sat (ChannelIDByName name) d Q"
  unfolding ChannelIDByName_def
  by (intro sat_intro) (auto intro!: sat_intro simp: find_None_iff dest!: find_SomeD)

lemma sat_recordQueueControl [sat_intro]:
  "(\<And>e. Q (Inl e) d) \<Longrightarrow>
   (\<And>r. a_actor_user_id r = Some (User_ID user) \<Longrightarrow> a_action r = action \<Longrightarrow> a_detail r = detail \<Longrightarrow>
      Q (Inr ()) (t_audit_update (\<lambda>xs. xs @ [r]) d)) \<Longrightarrow>
   sat (recordQueueControl user action detail now rnd) d Q"
  unfolding recordQueueControl_def by (intro sat_intro) (auto intro!: sat_intro)

lemma keeps_RequireChannelOperator [keeps_intro]: "keeps I (RequireChannelOperator user cid)"
  unfolding RequireChannelOperator_def by (intro keeps_intro)

lemma keeps_ChannelIDByName [keeps_intro]: "keeps I (ChannelIDByName name)"
  unfolding ChannelIDByName_def by (intro keeps_intro)

lemma keeps_recordQueueControl [keeps_intro]:
  "(\<And>d r. I d \<Longrightarrow> I (t_audit_update (\<lambda>xs. xs @ [r]) d)) \<Longrightarrow> keeps I (recordQueueControl user action detail nw rnd)"
  unfolding recordQueueControl_def by (intro keeps_intro)

lemma keeps_channelReadable [keeps_intro]: "keeps I (channelReadable user cid)"
  unfolding channelReadable_def by (intro keeps_intro)

lemma keeps_channelNameByID [keeps_intro]: "keeps I (channelNameByID cid)"
  unfolding channelNameByID_def by (intro keeps_intro)

lemma keeps_CanReadNotification [keeps_intro]: "keeps I (CanReadNotification nid user)"
  unfolding CanReadNotification_def by (intro keeps_intro)

text \<open>Who may read a channel.  On a healthy engine the read check of an existing channel answers
  yes exactly for administrators, for everyone on a public channel, and for a signed-in member.\<close>

lemma channelReadable_iff:
  assumes "List.find (\<lambda>c. c_id c = cid) (t_channels d) = Some c"
  shows "channelReadable user cid (up d) =
    (Inr (User_IsAdmin user \<or> c_visibility c = ''public'' \<or> (User_ID user \<noteq> [] \<and> is_member d (User_ID user) cid)), up d)"
  using assms by (auto simp: channelReadable_def sql_simps is_member_def count_where_pos)

end
