(* ===== verification/Accounts.thy ===== *)
theory Accounts
  imports Access
begin

text \<open>
  Users, sessions and sign-in: user_admin.go and the account part of store.go (\<open>BootstrapUser\<close> to
  \<open>CheckWritable\<close>).  SHA-256 and bcrypt are arguments of the operations that call them, random bytes
  and the clock are arguments too.  The invariants are that sessions belong to enabled users and that
  an enabled administrator remains.
\<close>

section \<open>Managed users\<close>

record ManagedMembership =
  Mm_ChannelID :: string
  Mm_ChannelName :: string
  Mm_Role :: string

record ManagedUser =
  Mu_ID :: string
  Mu_Username :: string
  Mu_AuthType :: string
  Mu_IsAdmin :: bool
  Mu_DisabledAt :: "gotime option"
  Mu_CreatedAt :: gotime
  Mu_SessionCount :: nat
  Mu_Protected :: bool
  Mu_Memberships :: "ManagedMembership list"

definition is_agent_user :: "db \<Rightarrow> string \<Rightarrow> bool" where
  "is_agent_user d i \<longleftrightarrow> exists_where (\<lambda>a. ag_user_id a = i) (t_agents d)"

definition auth_type :: "db \<Rightarrow> user_row \<Rightarrow> string" where
  "auth_type d u =
     (if u_id u = localInboxUserID then ''system''
      else if is_agent_user d (u_id u) then ''agent''
      else if u_password_hash u = [] \<and> u_oidc_subject u = None then ''bot''
      else if u_oidc_subject u \<noteq> None then ''oidc''
      else ''password'')"

definition ListManagedUsers :: "gotime \<Rightarrow> ManagedUser list store" where
  "ListManagedUsers now =
     bindM (query (\<lambda>d. map (\<lambda>u.
         \<lparr>Mu_ID = u_id u, Mu_Username = u_username u, Mu_AuthType = auth_type d u, Mu_IsAdmin = u_is_admin u,
          Mu_DisabledAt = map_option OfUnixMilli (u_disabled_at u), Mu_CreatedAt = OfUnixMilli (u_created_at u),
          Mu_SessionCount = count_where (\<lambda>s. s_user_id s = u_id u \<and> s_expires_at s > UnixMilli now) (t_sessions d),
          Mu_Protected = auth_type d u \<in> {''system'', ''agent'', ''bot''}, Mu_Memberships = []\<rparr>)
         (sort_key (nocase \<circ> u_username) (t_users d)))) (\<lambda>users.
     foldM (\<lambda>user acc.
       bindM (query (\<lambda>d. map (\<lambda>(c, m). \<lparr>Mm_ChannelID = c_id c, Mm_ChannelName = c_display_name c, Mm_Role = m_role m\<rparr>)
         (sort_key (\<lambda>(c, m). nocase (c_display_name c))
           (concat (map (\<lambda>m. if m_user_id m = Mu_ID user
              then map (\<lambda>c. (c, m)) (filter (\<lambda>c. c_id c = m_channel_id m) (t_channels d)) else []) (t_members d))))))
       (\<lambda>ms. returnM (acc @ [user\<lparr>Mu_Memberships := ms\<rparr>]))) users [])"

definition managedUserState :: "string \<Rightarrow> (bool \<times> bool \<times> bool) store" where
  "managedUserState userID =
     bindM (query (\<lambda>d. map_option (\<lambda>u.
         (u_id u = localInboxUserID \<or> is_agent_user d (u_id u) \<or> (u_password_hash u = [] \<and> u_oidc_subject u = None),
          u_is_admin u, u_disabled_at u \<noteq> None))
         (List.find (\<lambda>u. u_id u = userID) (t_users d))))
       (rowM ErrInvalidCredentials)"

definition recordAdminAudit :: "string \<Rightarrow> string \<Rightarrow> string \<Rightarrow> string \<Rightarrow> gotime \<Rightarrow> 64 word \<Rightarrow> unit store" where
  "recordAdminAudit actorID targetID action detail now rnd =
     bindM (sql_insert t_audit_update chk_audit
              \<lparr>a_id = newID ''aud_'' now rnd, a_actor_user_id = Some actorID, a_target_user_id = Some targetID,
               a_action = action, a_detail = detail, a_created_at = UnixMilli now\<rparr>)
       (\<lambda>_. returnM ())"

text \<open>The administrators the guards count: enabled, not the user in question, not the local inbox user,
  not an agent.\<close>

definition other_admin :: "db \<Rightarrow> string \<Rightarrow> user_row \<Rightarrow> bool" where
  "other_admin d userID u \<longleftrightarrow> u_is_admin u \<and> u_disabled_at u = None \<and> u_id u \<noteq> userID \<and>
     u_id u \<noteq> localInboxUserID \<and> \<not> is_agent_user d (u_id u)"

definition SetManagedUserAdmin :: "string \<Rightarrow> string \<Rightarrow> bool \<Rightarrow> gotime \<Rightarrow> 64 word \<Rightarrow> unit store" where
  "SetManagedUserAdmin actorID userID enabled now rnd =
     tx (bindM (managedUserState userID) (\<lambda>(protected, currentAdmin, disabled).
         bindM (requireM (\<not> protected) ErrForbidden) (\<lambda>_.
         bindM (whenM (currentAdmin \<and> \<not> enabled)
           (bindM (query (\<lambda>d. count_where (other_admin d userID) (t_users d))) (\<lambda>count.
            requireM (count \<noteq> 0) (ErrText ''cannot remove the final enabled administrator'')))) (\<lambda>_.
         bindM (sql_update t_users t_users_update (\<lambda>_ u. u_id u = userID) (\<lambda>u. u\<lparr>u_is_admin := enabled\<rparr>)) (\<lambda>_.
         bindM (whenM (currentAdmin \<noteq> enabled)
           (recordAdminAudit actorID userID ''user.admin'' (if enabled then ''enabled'' else ''disabled'') now rnd)) (\<lambda>_.
         returnM (Commit ())))))))"

definition SetManagedUserDisabled :: "string \<Rightarrow> string \<Rightarrow> bool \<Rightarrow> gotime \<Rightarrow> gotime \<Rightarrow> 64 word \<Rightarrow> unit store" where
  "SetManagedUserDisabled actorID userID disabled now now2 rnd =
     bindM (requireM (\<not> (actorID = userID \<and> disabled)) (ErrText ''cannot disable your own account'')) (\<lambda>_.
     tx (bindM (managedUserState userID) (\<lambda>(protected, admin, currentlyDisabled).
         bindM (requireM (\<not> protected) ErrForbidden) (\<lambda>_.
         bindM (whenM (admin \<and> disabled \<and> \<not> currentlyDisabled)
           (bindM (query (\<lambda>d. count_where (other_admin d userID) (t_users d))) (\<lambda>count.
            requireM (count \<noteq> 0) (ErrText ''cannot disable the final enabled administrator'')))) (\<lambda>_.
         bindM (sql_update t_users t_users_update (\<lambda>_ u. u_id u = userID)
                  (\<lambda>u. u\<lparr>u_disabled_at := (if disabled then Some (UnixMilli now) else None)\<rparr>)) (\<lambda>_.
         bindM (whenM disabled (bindM (sql_delete t_sessions t_sessions_update (\<lambda>_ s. s_user_id s = userID)) (\<lambda>_. returnM ()))) (\<lambda>_.
         bindM (whenM (currentlyDisabled \<noteq> disabled)
           (recordAdminAudit actorID userID ''user.access'' (if disabled then ''disabled'' else ''enabled'') now2 rnd)) (\<lambda>_.
         returnM (Commit ())))))))))"

definition RevokeManagedUserSessions :: "string \<Rightarrow> string \<Rightarrow> gotime \<Rightarrow> 64 word \<Rightarrow> unit store" where
  "RevokeManagedUserSessions actorID userID now rnd =
     tx (bindM (managedUserState userID) (\<lambda>(protected, _, _).
         bindM (requireM (\<not> protected) ErrForbidden) (\<lambda>_.
         bindM (sql_delete t_sessions t_sessions_update (\<lambda>_ s. s_user_id s = userID)) (\<lambda>_.
         bindM (recordAdminAudit actorID userID ''user.sessions'' ''revoked'' now rnd) (\<lambda>_.
         returnM (Commit ()))))))"

text \<open>\<open>bcrypt.GenerateFromPassword\<close> fails on passwords it cannot take; \<open>liftE\<close> turns its result into a step.\<close>

definition liftE :: "err + 'a \<Rightarrow> 'a store" where
  "liftE r = (case r of Inl e \<Rightarrow> failM e | Inr a \<Rightarrow> returnM a)"

definition ResetManagedUserPassword :: "(string \<Rightarrow> err + string) \<Rightarrow> string \<Rightarrow> string \<Rightarrow> string \<Rightarrow> gotime \<Rightarrow> 64 word \<Rightarrow> unit store" where
  "ResetManagedUserPassword bcrypt actorID userID password now rnd =
     bindM (requireM (12 \<le> len password) (ErrText ''password must contain at least 12 characters'')) (\<lambda>_.
     bindM (query (\<lambda>d. map_option (auth_type d) (List.find (\<lambda>u. u_id u = userID) (t_users d)))) (\<lambda>r.
     bindM (rowM ErrInvalidCredentials r) (\<lambda>authType.
     bindM (requireM (authType = ''password'') (ErrText ''only local-user passwords can be reset'')) (\<lambda>_.
     bindM (liftE (bcrypt password)) (\<lambda>hash.
     tx (bindM (sql_update t_users t_users_update (\<lambda>_ u. u_id u = userID) (\<lambda>u. u\<lparr>u_password_hash := hash\<rparr>)) (\<lambda>_.
         bindM (sql_delete t_sessions t_sessions_update (\<lambda>_ s. s_user_id s = userID)) (\<lambda>_.
         bindM (recordAdminAudit actorID userID ''user.password'' ''reset'' now rnd) (\<lambda>_.
         returnM (Commit ()))))))))))"

definition RemoveChannelMember :: "string \<Rightarrow> string \<Rightarrow> string \<Rightarrow> gotime \<Rightarrow> 64 word \<Rightarrow> unit store" where
  "RemoveChannelMember actorID channelID userID now rnd =
     tx (bindM (sql_delete t_members t_members_update (\<lambda>_ m. m_channel_id m = channelID \<and> m_user_id m = userID)) (\<lambda>_.
         bindM (recordAdminAudit actorID userID ''user.membership'' (channelID @ '':none'') now rnd) (\<lambda>_.
         returnM (Commit ()))))"

definition member_role_ok :: "member_row \<Rightarrow> bool" where
  "member_role_ok m \<longleftrightarrow> m_role m \<in> {''viewer'', ''operator'', ''channel_admin''}"

definition SetChannelMemberByID :: "string \<Rightarrow> string \<Rightarrow> string \<Rightarrow> string \<Rightarrow> gotime \<Rightarrow> gotime \<Rightarrow> 64 word \<Rightarrow> unit store" where
  "SetChannelMemberByID actorID channelID userID role now now2 rnd =
     bindM (requireM (role \<in> {''viewer'', ''operator'', ''channel_admin''}) (ErrText ''invalid channel role'')) (\<lambda>_.
     tx (bindM (sql_upsert_select t_members t_members_update member_role_ok chk_members (\<lambda>m. (m_user_id m, m_channel_id m))
                  (\<lambda>d. if exists_where (\<lambda>u. u_id u = userID) (t_users d) \<and> exists_where (\<lambda>c. c_id c = channelID) (t_channels d)
                        then Some \<lparr>m_user_id = userID, m_channel_id = channelID, m_role = role, m_created_at = UnixMilli now\<rparr> else None)
                  (\<lambda>r m. m\<lparr>m_role := m_role r\<rparr>)) (\<lambda>changed.
         bindM (requireM (changed \<noteq> 0) ErrInvalidCredentials) (\<lambda>_.
         bindM (recordAdminAudit actorID userID ''user.membership'' (channelID @ '':'' @ role) now2 rnd) (\<lambda>_.
         returnM (Commit ()))))))"

section \<open>Local users\<close>

definition by_username :: "string \<Rightarrow> user_row \<Rightarrow> bool" where
  "by_username name u \<longleftrightarrow> nocase (u_username u) = nocase name"

definition new_user_row :: "string \<Rightarrow> string \<Rightarrow> string \<Rightarrow> bool \<Rightarrow> string option \<Rightarrow> gotime \<Rightarrow> user_row" where
  "new_user_row i name hash adm subject now =
     \<lparr>u_id = i, u_username = name, u_password_hash = hash, u_created_at = UnixMilli now, u_is_admin = adm,
      u_oidc_subject = subject, u_disabled_at = None\<rparr>"

text \<open>The comparison of a stored hash with a password (\<open>bcrypt.CompareHashAndPassword\<close>) is the argument
  \<open>matches\<close>; \<open>postgres\<close> is the field of the store.\<close>

definition BootstrapUser :: "(string \<Rightarrow> err + string) \<Rightarrow> (string \<Rightarrow> string \<Rightarrow> bool) \<Rightarrow> bool \<Rightarrow> string \<Rightarrow> string \<Rightarrow> gotime \<Rightarrow> 64 word \<Rightarrow> unit store" where
  "BootstrapUser bcrypt matches postgres username0 password now rnd =
     (let username = TrimSpace username0 in
      bindM (requireM (\<not> (username = [] \<or> len username > 100 \<or> len password < 12))
        (ErrText ''reader username is required and password must contain at least 12 characters'')) (\<lambda>_.
      bindM (query (\<lambda>d. map_option u_password_hash (List.find (by_username username) (t_users d)))) (\<lambda>r.
      case r of
        Some existingHash \<Rightarrow>
          (if \<not> matches existingHash password
           then (if postgres then returnM () else failM (ErrText ''reader already exists with a different password''))
           else bindM (sql_update t_users t_users_update (\<lambda>_. by_username username) (\<lambda>u. u\<lparr>u_is_admin := True\<rparr>)) (\<lambda>_. returnM ()))
      | None \<Rightarrow>
          bindM (liftE (bcrypt password)) (\<lambda>hash.
          bindM (sql_insert t_users_update chk_users (new_user_row (newID ''usr_'' now rnd) username hash True None now)) (\<lambda>_. returnM ())))))"

definition CreateUser :: "(string \<Rightarrow> err + string) \<Rightarrow> string \<Rightarrow> string \<Rightarrow> bool \<Rightarrow> gotime \<Rightarrow> 64 word \<Rightarrow> User store" where
  "CreateUser bcrypt username0 password isAdmin now rnd =
     (let username = TrimSpace username0; i = newID ''usr_'' now rnd in
      bindM (requireM (\<not> (username = [] \<or> len username > 100 \<or> len password < 12))
        (ErrText ''username is required and password must contain at least 12 characters'')) (\<lambda>_.
      bindM (liftE (bcrypt password)) (\<lambda>hash.
      bindM (sql_insert t_users_update chk_users (new_user_row i username hash isAdmin None now)) (\<lambda>_.
      returnM \<lparr>User_ID = i, User_Username = username, User_IsAdmin = isAdmin\<rparr>))))"

definition SetChannelMember :: "string \<Rightarrow> string \<Rightarrow> string \<Rightarrow> gotime \<Rightarrow> unit store" where
  "SetChannelMember channelID username role now =
     bindM (sql_upsert_select t_members t_members_update member_role_ok chk_members (\<lambda>m. (m_user_id m, m_channel_id m))
              (\<lambda>d. map_option (\<lambda>u. \<lparr>m_user_id = u_id u, m_channel_id = channelID, m_role = role, m_created_at = UnixMilli now\<rparr>)
                      (List.find (by_username username) (t_users d)))
              (\<lambda>r m. m\<lparr>m_role := m_role r\<rparr>)) (\<lambda>changed.
     requireM (changed \<noteq> 0) ErrInvalidCredentials)"

definition to_user :: "user_row \<Rightarrow> User" where
  "to_user u = \<lparr>User_ID = u_id u, User_Username = u_username u, User_IsAdmin = u_is_admin u\<rparr>"

definition AuthenticateUser :: "(string \<Rightarrow> string \<Rightarrow> bool) \<Rightarrow> string \<Rightarrow> string \<Rightarrow> User store" where
  "AuthenticateUser matches username password =
     bindM (query (\<lambda>d. List.find (\<lambda>u. by_username (TrimSpace username) u \<and> u_disabled_at u = None) (t_users d))) (\<lambda>r.
     bindM (rowM ErrInvalidCredentials r) (\<lambda>u.
     bindM (requireM (matches (u_password_hash u) password) ErrInvalidCredentials) (\<lambda>_. returnM (to_user u))))"

definition UserByUsername :: "string \<Rightarrow> User store" where
  "UserByUsername username =
     bindM (query (\<lambda>d. map_option to_user (List.find (\<lambda>u. by_username username u \<and> u_disabled_at u = None) (t_users d))))
       (rowM ErrInvalidCredentials)"

section \<open>Sessions\<close>

definition session_for :: "string \<Rightarrow> string \<Rightarrow> gotime \<Rightarrow> gotime \<Rightarrow> db \<Rightarrow> session_row option" where
  "session_for tokenHash userID now expires d =
     map_option (\<lambda>u. \<lparr>s_token_hash = tokenHash, s_user_id = u_id u, s_created_at = UnixMilli now, s_expires_at = UnixMilli expires\<rparr>)
       (List.find (\<lambda>u. u_id u = userID \<and> u_disabled_at u = None) (t_users d))"

definition CreateSessionWithToken :: "(string \<Rightarrow> string) \<Rightarrow> string \<Rightarrow> string \<Rightarrow> gotime \<Rightarrow> gotime \<Rightarrow> gotime store" where
  "CreateSessionWithToken sha256 userID token lifetime now =
     bindM (sql_insert_select t_sessions_update chk_sessions (session_for (sha256 token) userID now (now + lifetime))) (\<lambda>changed.
     bindM (requireM (changed \<noteq> 0) ErrInvalidCredentials) (\<lambda>_. returnM (now + lifetime)))"

definition CreateSession :: "(string \<Rightarrow> string) \<Rightarrow> string \<Rightarrow> gotime \<Rightarrow> gotime \<Rightarrow> string \<Rightarrow> (string \<times> gotime) store" where
  "CreateSession sha256 userID lifetime now tokenBytes =
     bindM (CreateSessionWithToken sha256 userID (hex_bytes tokenBytes) lifetime now) (\<lambda>expires. returnM (hex_bytes tokenBytes, expires))"

definition UserForSession :: "(string \<Rightarrow> string) \<Rightarrow> string \<Rightarrow> gotime \<Rightarrow> User store" where
  "UserForSession sha256 token now =
     bindM (query (\<lambda>d. case List.find (\<lambda>s. s_token_hash s = sha256 token \<and> s_expires_at s > UnixMilli now) (t_sessions d) of
         None \<Rightarrow> None
       | Some s \<Rightarrow> map_option to_user (List.find (\<lambda>u. u_id u = s_user_id s \<and> u_disabled_at u = None) (t_users d))))
       (rowM ErrInvalidCredentials)"

definition DeleteSession :: "(string \<Rightarrow> string) \<Rightarrow> string \<Rightarrow> unit store" where
  "DeleteSession sha256 token =
     bindM (sql_delete t_sessions t_sessions_update (\<lambda>_ s. s_token_hash s = sha256 token)) (\<lambda>_. returnM ())"

definition RotateSession :: "(string \<Rightarrow> string) \<Rightarrow> string \<Rightarrow> gotime \<Rightarrow> gotime \<Rightarrow> string \<Rightarrow> (string \<times> gotime) store" where
  "RotateSession sha256 token lifetime now tokenBytes =
     tx (bindM (query (\<lambda>d. map_option s_user_id (List.find (\<lambda>s. s_token_hash s = sha256 token \<and> s_expires_at s > UnixMilli now) (t_sessions d)))) (\<lambda>r.
         bindM (rowM ErrInvalidCredentials r) (\<lambda>userID.
         bindM (sql_delete t_sessions t_sessions_update (\<lambda>_ s. s_token_hash s = sha256 token)) (\<lambda>_.
         bindM (sql_insert t_sessions_update chk_sessions
                  \<lparr>s_token_hash = sha256 (hex_bytes tokenBytes), s_user_id = userID, s_created_at = UnixMilli now,
                   s_expires_at = UnixMilli (now + lifetime)\<rparr>) (\<lambda>_.
         returnM (Commit (hex_bytes tokenBytes, now + lifetime)))))))"

text \<open>The readiness probe writes a setting and rolls back.\<close>

definition CheckWritable :: "unit store" where
  "CheckWritable =
     tx (bindM (sql_upsert t_settings t_settings_update chk_settings st_key \<lparr>st_key = ''readiness_probe'', st_value = ''1''\<rparr>
                  (\<lambda>x. x\<lparr>st_value := ''1''\<rparr>)) (\<lambda>_. returnM (Rollback ())))"

section \<open>Sessions belong to enabled users\<close>

definition session_ok :: "db \<Rightarrow> bool" where
  "session_ok d \<longleftrightarrow> keyed u_id (t_users d) \<and>
     (\<forall>s \<in> set (t_sessions d). \<exists>u \<in> set (t_users d). u_id u = s_user_id s \<and> u_disabled_at u = None)"

lemma session_ok_frame [simp]:
  "session_ok (t_audit_update f d) = session_ok d" "session_ok (t_members_update g d) = session_ok d"
  "session_ok (t_settings_update h d) = session_ok d" "session_ok (t_oidc_states_update k d) = session_ok d"
  "session_ok (t_oidc_desktop_update l d) = session_ok d"
  by (simp_all add: session_ok_def)

lemma session_ok_users:
  assumes "session_ok d" and "\<And>u. u_id (f u) = u_id u" and "\<And>u. u_disabled_at u = None \<Longrightarrow> u_disabled_at (f u) = None"
  shows "session_ok (t_users_update (upd_where P f) d)"
proof -
  have "\<exists>u \<in> set (upd_where P f (t_users d)). u_id u = i \<and> u_disabled_at u = None"
    if "\<exists>u \<in> set (t_users d). u_id u = i \<and> u_disabled_at u = None" for i
  proof -
    from that obtain u where u: "u \<in> set (t_users d)" "u_id u = i" "u_disabled_at u = None" by blast
    let ?u = "if P u then f u else u"
    have "?u \<in> set (upd_where P f (t_users d))" "u_id ?u = i" "u_disabled_at ?u = None"
      using u assms(2,3) by (auto simp: set_upd_where)
    then show ?thesis by blast
  qed
  with assms show ?thesis by (auto simp: session_ok_def intro!: keyed_upd_where)
qed

lemma chk_users_new: "chk_users d u = None \<Longrightarrow> \<forall>x \<in> set (t_users d). u_id x \<noteq> u_id u"
  by (simp add: chk_users_def)

lemma session_ok_new_user:
  assumes "session_ok d" and "chk_users d u = None"
  shows "session_ok (t_users_update (\<lambda>xs. xs @ [u]) d)"
proof -
  have "set (t_users (t_users_update (\<lambda>xs. xs @ [u]) d)) = insert u (set (t_users d))" by auto
  with assms(1) chk_users_new [OF assms(2)] show ?thesis unfolding session_ok_def by (simp add: keyed_snoc)
qed

lemma session_ok_delete: "session_ok d \<Longrightarrow> session_ok (t_sessions_update (del_where P) d)"
  by (auto simp: session_ok_def)

lemma session_ok_insert:
  "session_ok d \<Longrightarrow> session_for h i now e d = Some s \<Longrightarrow> session_ok (t_sessions_update (\<lambda>xs. xs @ [s]) d)"
  by (auto simp: session_ok_def session_for_def dest!: find_SomeD)

text \<open>Disabling a user and deleting that user's sessions, taken together.\<close>

lemma session_ok_disable:
  assumes "session_ok d" and "\<And>u. u_id (f u) = u_id u"
  shows "session_ok (t_sessions_update (del_where (\<lambda>s. s_user_id s = i)) (t_users_update (upd_where (\<lambda>u. u_id u = i) f) d))"
proof -
  have "u \<in> set (upd_where (\<lambda>u. u_id u = i) f (t_users d))" if "u \<in> set (t_users d)" "u_id u \<noteq> i" for u
    using that by (auto simp: set_upd_where image_iff)
  with assms show ?thesis by (fastforce simp: session_ok_def intro!: keyed_upd_where)
qed

lemma keeps_managedUserState [keeps_intro]: "keeps I (managedUserState i)"
  unfolding managedUserState_def by (intro keeps_intro)

lemma keeps_recordAdminAudit [keeps_intro]:
  "(\<And>d r. I d \<Longrightarrow> I (t_audit_update (\<lambda>xs. xs @ [r]) d)) \<Longrightarrow> keeps I (recordAdminAudit actor target action detail now rnd)"
  unfolding recordAdminAudit_def by (intro keeps_intro)

lemma keeps_liftE [keeps_intro]: "keeps I (liftE r)"
  unfolding liftE_def by (intro keeps_intro)

lemmas session_ok_rules = session_ok_users session_ok_new_user session_ok_delete session_ok_insert

lemma keeps_session_ok:
  "keeps session_ok (SetManagedUserAdmin actor i enabled now rnd)"
  "keeps session_ok (RevokeManagedUserSessions actor i now rnd)"
  "keeps session_ok (ResetManagedUserPassword bcrypt actor i pw now rnd)"
  "keeps session_ok (RemoveChannelMember actor cid i now rnd)"
  "keeps session_ok (SetChannelMemberByID actor cid i role now now2 rnd)"
  "keeps session_ok (BootstrapUser bcrypt matches pg name pw now rnd)"
  "keeps session_ok (CreateUser bcrypt name pw adm now rnd)"
  "keeps session_ok (SetChannelMember cid name role now)"
  "keeps session_ok (CreateSession sha256 i lifetime now bytes)"
  "keeps session_ok (DeleteSession sha256 token)"
  "keeps session_ok CheckWritable"
  unfolding SetManagedUserAdmin_def RevokeManagedUserSessions_def ResetManagedUserPassword_def RemoveChannelMember_def
    SetChannelMemberByID_def BootstrapUser_def CreateUser_def SetChannelMember_def CreateSession_def CreateSessionWithToken_def
    DeleteSession_def CheckWritable_def Let_def
  by (intro keeps_intro; auto intro: session_ok_rules)+

lemma sat_RotateSession:
  "session_ok d \<Longrightarrow> sat (RotateSession sha256 token lifetime now bytes) d (\<lambda>r. session_ok)"
  unfolding RotateSession_def
  by (intro sat_intro, auto intro!: sat_intro dest!: find_SomeD) (auto simp: session_ok_def)

lemma keeps_RotateSession: "keeps session_ok (RotateSession sha256 token lifetime now bytes)"
  by (rule keepsI) (rule sat_RotateSession)

lemma sat_managedUserState [sat_intro]:
  assumes "Q (Inl ErrDatabase) d" and "Q (Inl ErrInvalidCredentials) d"
    and "\<And>u. u \<in> set (t_users d) \<Longrightarrow> u_id u = i \<Longrightarrow>
      Q (Inr (u_id u = localInboxUserID \<or> is_agent_user d (u_id u) \<or> (u_password_hash u = [] \<and> u_oidc_subject u = None),
        u_is_admin u, u_disabled_at u \<noteq> None)) d"
  shows "sat (managedUserState i) d Q"
  unfolding managedUserState_def
  using assms by (intro sat_intro) (auto intro!: sat_intro dest!: find_SomeD)

lemma sat_recordAdminAudit [sat_intro]:
  assumes "\<And>e. Q (Inl e) d"
    and "\<And>r. a_actor_user_id r = Some actor \<Longrightarrow> a_target_user_id r = Some target \<Longrightarrow> a_action r = action \<Longrightarrow> a_detail r = detail \<Longrightarrow>
      Q (Inr ()) (t_audit_update (\<lambda>xs. xs @ [r]) d)"
  shows "sat (recordAdminAudit actor target action detail now rnd) d Q"
  unfolding recordAdminAudit_def using assms by (intro sat_intro) (auto intro!: sat_intro)

lemma keeps_SetManagedUserDisabled: "keeps session_ok (SetManagedUserDisabled actor i disabled now now2 rnd)"
proof (cases disabled)
  case False
  then show ?thesis unfolding SetManagedUserDisabled_def
    by (intro keeps_intro) (auto intro: session_ok_rules)
next
  case True
  show ?thesis
  proof (rule keepsI)
    fix d assume "session_ok d"
    then show "sat (SetManagedUserDisabled actor i disabled now now2 rnd) d (\<lambda>r. session_ok)"
      unfolding SetManagedUserDisabled_def
      by (intro sat_intro, auto intro!: sat_intro session_ok_disable simp: True)
  qed
qed

section \<open>An administrator remains\<close>

definition admin_ok :: "db \<Rightarrow> bool" where
  "admin_ok d \<longleftrightarrow> keyed u_id (t_users d) \<and>
     (\<exists>u \<in> set (t_users d). u_is_admin u \<and> u_disabled_at u = None \<and> u_id u \<noteq> localInboxUserID \<and> \<not> is_agent_user d (u_id u))"

lemma admin_ok_frame [simp]:
  "admin_ok (t_audit_update f d) = admin_ok d" "admin_ok (t_members_update g d) = admin_ok d"
  "admin_ok (t_settings_update h d) = admin_ok d" "admin_ok (t_oidc_states_update k d) = admin_ok d"
  "admin_ok (t_oidc_desktop_update l d) = admin_ok d" "admin_ok (t_sessions_update m d) = admin_ok d"
  by (simp_all add: admin_ok_def is_agent_user_def)

lemma admin_ok_users:
  assumes "admin_ok d" and "\<And>u. u_id (f u) = u_id u"
    and "\<And>u. u_is_admin u \<Longrightarrow> u_is_admin (f u)" and "\<And>u. u_disabled_at u = None \<Longrightarrow> u_disabled_at (f u) = None"
  shows "admin_ok (t_users_update (upd_where P f) d)"
proof -
  from assms(1) obtain u where u: "u \<in> set (t_users d)" "u_is_admin u" "u_disabled_at u = None" "u_id u \<noteq> localInboxUserID"
    "\<not> is_agent_user d (u_id u)" by (auto simp: admin_ok_def)
  let ?u = "if P u then f u else u"
  have "?u \<in> set (upd_where P f (t_users d))" "u_is_admin ?u" "u_disabled_at ?u = None" "u_id ?u = u_id u"
    using u assms(2-4) by (auto simp: set_upd_where)
  with u assms(1,2) show ?thesis
    by (auto simp: admin_ok_def is_agent_user_def intro!: keyed_upd_where bexI [where x = ?u])
qed

lemma admin_ok_new_user: "admin_ok d \<Longrightarrow> chk_users d u = None \<Longrightarrow> admin_ok (t_users_update (\<lambda>xs. xs @ [u]) d)"
  using chk_users_new [of d u] by (auto simp: admin_ok_def keyed_snoc is_agent_user_def)

text \<open>Any change of one user is harmless while another administrator is there.\<close>

lemma admin_ok_other:
  assumes "admin_ok d" and "\<And>u. u_id (f u) = u_id u" and "u' \<in> set (t_users d)" and "other_admin d i u'"
  shows "admin_ok (t_users_update (upd_where (\<lambda>u. u_id u = i) f) d)"
proof -
  have "u' \<in> set (upd_where (\<lambda>u. u_id u = i) f (t_users d))"
    using assms(3,4) by (auto simp: set_upd_where other_admin_def image_iff)
  with assms show ?thesis by (auto simp: admin_ok_def other_admin_def is_agent_user_def intro!: keyed_upd_where)
qed

text \<open>A user that is not an enabled administrator is not the one that keeps the invariant.\<close>

lemma other_admin_exists:
  assumes "admin_ok d" and "u \<in> set (t_users d)" and "u_id u = i" and "\<not> u_is_admin u \<or> u_disabled_at u \<noteq> None"
  shows "\<exists>u' \<in> set (t_users d). other_admin d i u'"
proof -
  from assms(1) obtain u' where u': "u' \<in> set (t_users d)" "u_is_admin u'" "u_disabled_at u' = None" "u_id u' \<noteq> localInboxUserID"
    "\<not> is_agent_user d (u_id u')" by (auto simp: admin_ok_def)
  have "u_id u' \<noteq> i"
  proof
    assume "u_id u' = i"
    with assms(1-3) u'(1) have "u' = u" by (intro keyed_unique [of u_id "t_users d"]) (simp_all add: admin_ok_def)
    with assms(4) u'(2,3) show False by simp
  qed
  with u' show ?thesis by (auto simp: other_admin_def)
qed

lemma admin_ok_change:
  assumes ok: "admin_ok d" and "\<And>u. u_id (f u) = u_id u" and "u \<in> set (t_users d)" and "u_id u = i"
    and safe: "0 < count_where (other_admin d i) (t_users d) \<or> \<not> u_is_admin u \<or> u_disabled_at u \<noteq> None"
  shows "admin_ok (t_users_update (upd_where (\<lambda>u. u_id u = i) f) d)"
proof -
  from safe obtain u' where "u' \<in> set (t_users d)" "other_admin d i u'"
    using other_admin_exists [OF ok assms(3,4)] by (auto simp: count_where_pos)
  with ok assms(2) show ?thesis by (intro admin_ok_other) auto
qed

lemma keeps_SetManagedUserAdmin_admin: "keeps admin_ok (SetManagedUserAdmin actor i enabled now rnd)"
proof (cases enabled)
  case True
  then show ?thesis unfolding SetManagedUserAdmin_def
    by (intro keeps_intro) (auto intro: admin_ok_users)
next
  case False
  show ?thesis
  proof (rule keepsI)
    fix d assume ok: "admin_ok d"
    show "sat (SetManagedUserAdmin actor i enabled now rnd) d (\<lambda>r. admin_ok)"
      unfolding SetManagedUserAdmin_def
      by (intro sat_intro, auto intro!: sat_intro simp: ok False) (erule admin_ok_change [OF ok, rotated]; simp)+
  qed
qed

lemma keeps_SetManagedUserDisabled_admin: "keeps admin_ok (SetManagedUserDisabled actor i disabled now now2 rnd)"
proof (cases disabled)
  case False
  then show ?thesis unfolding SetManagedUserDisabled_def
    by (intro keeps_intro) (auto intro: admin_ok_users)
next
  case True
  show ?thesis
  proof (rule keepsI)
    fix d assume ok: "admin_ok d"
    show "sat (SetManagedUserDisabled actor i disabled now now2 rnd) d (\<lambda>r. admin_ok)"
      unfolding SetManagedUserDisabled_def
      by (intro sat_intro, auto intro!: sat_intro simp: ok True) (erule admin_ok_change [OF ok, rotated]; simp)+
  qed
qed

lemma keeps_admin_ok:
  "keeps admin_ok (RevokeManagedUserSessions actor i now rnd)"
  "keeps admin_ok (ResetManagedUserPassword bcrypt actor i pw now rnd)"
  "keeps admin_ok (RemoveChannelMember actor cid i now rnd)"
  "keeps admin_ok (SetChannelMemberByID actor cid i role now now2 rnd)"
  "keeps admin_ok (BootstrapUser bcrypt matches pg name pw now rnd)"
  "keeps admin_ok (CreateUser bcrypt name pw adm now rnd)"
  "keeps admin_ok (SetChannelMember cid name role now)"
  "keeps admin_ok (CreateSession sha256 i lifetime now bytes)"
  "keeps admin_ok (DeleteSession sha256 token)"
  "keeps admin_ok (RotateSession sha256 token lifetime now bytes)"
  unfolding RevokeManagedUserSessions_def ResetManagedUserPassword_def RemoveChannelMember_def RotateSession_def
    SetChannelMemberByID_def BootstrapUser_def CreateUser_def SetChannelMember_def CreateSession_def CreateSessionWithToken_def
    DeleteSession_def Let_def
  by (intro keeps_intro; auto intro: admin_ok_users admin_ok_new_user)+

end
