(* ===== verification/SignIn.thy ===== *)
theory SignIn
  imports Accounts
begin

text \<open>
  OpenID Connect sign-in of store.go: the login state between the redirect and the callback, the
  confirmation that hands a browser sign-in over to the desktop application, and the users an identity
  provider introduces.
\<close>

section \<open>Login states\<close>

record OIDCLoginState =
  Ls_Verifier :: string
  Ls_Nonce :: string

definition CreateOIDCLoginState :: "(string \<Rightarrow> string) \<Rightarrow> string \<Rightarrow> string \<Rightarrow> string \<Rightarrow> gotime \<Rightarrow> gotime \<Rightarrow> unit store" where
  "CreateOIDCLoginState sha256 state verifier nonce lifetime now =
     bindM (requireM (\<not> (state = [] \<or> verifier = [] \<or> nonce = [] \<or> lifetime \<le> 0)) (ErrText ''invalid OIDC login state'')) (\<lambda>_.
     bindM (sql_delete t_oidc_states t_oidc_states_update (\<lambda>_ x. os_expires_at x \<le> UnixMilli now)) (\<lambda>_.
     bindM (sql_insert t_oidc_states_update chk_oidc_states
              \<lparr>os_state_hash = sha256 state, os_verifier = verifier, os_nonce = nonce, os_expires_at = UnixMilli (now + lifetime)\<rparr>) (\<lambda>_.
     returnM ())))"

definition login_state :: "(string \<Rightarrow> string) \<Rightarrow> string \<Rightarrow> gotime \<Rightarrow> db \<Rightarrow> OIDCLoginState option" where
  "login_state sha256 state now d =
     map_option (\<lambda>x. \<lparr>Ls_Verifier = os_verifier x, Ls_Nonce = os_nonce x\<rparr>)
       (List.find (\<lambda>x. os_state_hash x = sha256 state \<and> os_expires_at x > UnixMilli now) (t_oidc_states d))"

definition ConsumeOIDCLoginState :: "(string \<Rightarrow> string) \<Rightarrow> string \<Rightarrow> gotime \<Rightarrow> OIDCLoginState store" where
  "ConsumeOIDCLoginState sha256 state now =
     tx (bindM (query (login_state sha256 state now)) (\<lambda>r.
         bindM (rowM ErrInvalidCredentials r) (\<lambda>result.
         bindM (sql_delete t_oidc_states t_oidc_states_update (\<lambda>_ x. os_state_hash x = sha256 state)) (\<lambda>_.
         returnM (Commit result)))))"

definition GetOIDCLoginState :: "(string \<Rightarrow> string) \<Rightarrow> string \<Rightarrow> gotime \<Rightarrow> OIDCLoginState store" where
  "GetOIDCLoginState sha256 state now = bindM (query (login_state sha256 state now)) (rowM ErrInvalidCredentials)"

section \<open>Desktop confirmations\<close>

record OIDCDesktopConfirmation =
  Dc_VerificationCode :: string
  Dc_Status :: string

definition CreateOIDCDesktopConfirmation ::
    "(string \<Rightarrow> string) \<Rightarrow> string \<Rightarrow> string \<Rightarrow> string \<Rightarrow> string \<Rightarrow> gotime \<Rightarrow> gotime \<Rightarrow> unit store" where
  "CreateOIDCDesktopConfirmation sha256 userID handoff confirmationSecret verificationCode lifetime now =
     bindM (requireM (\<not> (userID = [] \<or> handoff = [] \<or> confirmationSecret = [] \<or> verificationCode = [] \<or> lifetime \<le> 0))
       (ErrText ''invalid OIDC desktop confirmation'')) (\<lambda>_.
     bindM (sql_delete t_oidc_desktop t_oidc_desktop_update (\<lambda>_ x. od_expires_at x \<le> UnixMilli now)) (\<lambda>_.
     tryM (sql_insert_select t_oidc_desktop_update chk_oidc_desktop (\<lambda>d.
             map_option (\<lambda>u. \<lparr>od_handoff_hash = sha256 handoff, od_confirmation_hash = sha256 confirmationSecret, od_user_id = u_id u,
                  od_verification_code = verificationCode, od_status = ''pending'', od_expires_at = UnixMilli (now + lifetime)\<rparr>)
               (List.find (\<lambda>u. u_id u = userID \<and> u_disabled_at u = None) (t_users d)))) (\<lambda>r.
     case r of
       Inl e \<Rightarrow> failM (if e = ErrConstraint UniqueViolation then ErrAlreadyExists else e)
     | Inr changed \<Rightarrow> requireM (changed = 1) ErrInvalidCredentials)))"

definition GetOIDCDesktopConfirmation :: "(string \<Rightarrow> string) \<Rightarrow> string \<Rightarrow> gotime \<Rightarrow> OIDCDesktopConfirmation store" where
  "GetOIDCDesktopConfirmation sha256 confirmationSecret now =
     bindM (query (\<lambda>d. map_option (\<lambda>x. \<lparr>Dc_VerificationCode = od_verification_code x, Dc_Status = od_status x\<rparr>)
       (List.find (\<lambda>x. od_confirmation_hash x = sha256 confirmationSecret \<and> od_expires_at x > UnixMilli now) (t_oidc_desktop d))))
       (rowM ErrInvalidCredentials)"

definition decide_confirmation :: "string \<Rightarrow> (string \<Rightarrow> string) \<Rightarrow> string \<Rightarrow> gotime \<Rightarrow> unit store" where
  "decide_confirmation status sha256 confirmationSecret now =
     bindM (sql_update t_oidc_desktop t_oidc_desktop_update
              (\<lambda>_ x. od_confirmation_hash x = sha256 confirmationSecret \<and> od_status x = ''pending'' \<and> od_expires_at x > UnixMilli now)
              (\<lambda>x. x\<lparr>od_status := status\<rparr>)) (\<lambda>changed.
     requireM (changed = 1) ErrInvalidCredentials)"

definition ApproveOIDCDesktopConfirmation :: "(string \<Rightarrow> string) \<Rightarrow> string \<Rightarrow> gotime \<Rightarrow> unit store" where
  "ApproveOIDCDesktopConfirmation = decide_confirmation ''approved''"

definition CancelOIDCDesktopConfirmation :: "(string \<Rightarrow> string) \<Rightarrow> string \<Rightarrow> gotime \<Rightarrow> unit store" where
  "CancelOIDCDesktopConfirmation = decide_confirmation ''cancelled''"

definition ExchangeOIDCDesktopHandoff :: "(string \<Rightarrow> string) \<Rightarrow> string \<Rightarrow> gotime \<Rightarrow> gotime \<Rightarrow> string \<Rightarrow> (string \<times> gotime) store" where
  "ExchangeOIDCDesktopHandoff sha256 handoff lifetime now tokenBytes =
     bindM (requireM (\<not> (handoff = [] \<or> lifetime \<le> 0)) ErrInvalidCredentials) (\<lambda>_.
     tx (bindM (query (\<lambda>d. map_option (\<lambda>x. (od_status x, od_expires_at x))
                  (List.find (\<lambda>x. od_handoff_hash x = sha256 handoff) (t_oidc_desktop d)))) (\<lambda>r.
         bindM (rowM ErrInvalidCredentials r) (\<lambda>(status, expiresAt).
         bindM (requireM (status \<noteq> ''cancelled'') ErrOIDCDesktopCancelled) (\<lambda>_.
         bindM (requireM (\<not> (status \<noteq> ''approved'' \<or> expiresAt \<le> UnixMilli now)) ErrInvalidCredentials) (\<lambda>_.
         bindM (sql_delete_returning t_oidc_desktop t_oidc_desktop_update
                  (\<lambda>_ x. od_handoff_hash x = sha256 handoff \<and> od_status x = ''approved'' \<and> od_expires_at x > UnixMilli now)) (\<lambda>deleted.
         bindM (rowM ErrInvalidCredentials (map_option od_user_id deleted)) (\<lambda>userID.
         bindM (sql_insert_select t_sessions_update chk_sessions
                  (session_for (sha256 (hex_bytes tokenBytes)) userID now (now + lifetime))) (\<lambda>changed.
         bindM (requireM (changed = 1) ErrInvalidCredentials) (\<lambda>_.
         returnM (Commit (hex_bytes tokenBytes, now + lifetime))))))))))))"

section \<open>Users of the identity provider\<close>

definition oidc_char :: "nat \<Rightarrow> bool" where
  "oidc_char r \<longleftrightarrow> (97 \<le> r \<and> r \<le> 122) \<or> (48 \<le> r \<and> r \<le> 57) \<or> r = 45 \<or> r = 95"

fun normalize_loop :: "nat list \<Rightarrow> string \<Rightarrow> string" where
  "normalize_loop [] b = b"
| "normalize_loop (r # rs) b =
     (let b' = (if oidc_char r then b @ [char_of r] else if b \<noteq> [] then b @ ''-'' else b) in
      if len b' \<ge> 80 then b' else normalize_loop rs b')"

definition normalizeOIDCUsername :: "string \<Rightarrow> string" where
  "normalizeOIDCUsername value =
     Trim (normalize_loop (map ToLowerRune (runes (TrimSpace value))) []) ''-_''"

definition oidc_candidate :: "string \<Rightarrow> nat \<Rightarrow> string" where
  "oidc_candidate base sfx = (if sfx = 0 then base else base @ ''-'' @ show_nat (sfx + 1))"

text \<open>The search for a free name has no bound in the code; the fuel is the number of iterations.\<close>

fun free_username :: "nat \<Rightarrow> string \<Rightarrow> nat \<Rightarrow> string store" where
  "free_username 0 base sfx = failM (ErrText ''out of fuel'')"
| "free_username (Suc n) base sfx =
     bindM (query (\<lambda>d. exists_where (by_username (oidc_candidate base sfx)) (t_users d))) (\<lambda>taken.
     if taken then free_username n base (sfx + 1) else returnM (oidc_candidate base sfx))"

definition FindOrCreateOIDCUser ::
    "(string \<Rightarrow> err + string) \<Rightarrow> nat \<Rightarrow> string \<Rightarrow> string \<Rightarrow> gotime \<Rightarrow> 64 word \<Rightarrow> string \<Rightarrow> User store" where
  "FindOrCreateOIDCUser bcrypt fuel subject0 preferredUsername now rnd randomPassword =
     (let subject = TrimSpace subject0; name = normalizeOIDCUsername preferredUsername; i = newID ''usr_'' now rnd in
      bindM (requireM (\<not> (subject = [] \<or> len subject > 255)) (ErrText ''invalid OIDC subject'')) (\<lambda>_.
      bindM (query (\<lambda>d. List.find (\<lambda>u. u_oidc_subject u = Some subject) (t_users d))) (\<lambda>r.
      case r of
        Some u \<Rightarrow> (if u_disabled_at u \<noteq> None then failM ErrInvalidCredentials else returnM (to_user u))
      | None \<Rightarrow>
          bindM (free_username fuel (if name = [] then ''pocket-user'' else name) 0) (\<lambda>username.
          bindM (liftE (bcrypt randomPassword)) (\<lambda>hash.
          bindM (sql_insert t_users_update chk_users (new_user_row i username hash False (Some subject) now)) (\<lambda>_.
          returnM \<lparr>User_ID = i, User_Username = username, User_IsAdmin = False\<rparr>))))))"

section \<open>Histories of the accounts\<close>

lemma keeps_free_username [keeps_intro]: "keeps I (free_username n base sfx)"
  by (induction n arbitrary: sfx) (simp_all, (intro keeps_intro; simp)+)

lemma keeps_sign_in:
  assumes users: "\<And>d u. I d \<Longrightarrow> chk_users d u = None \<Longrightarrow> I (t_users_update (\<lambda>xs. xs @ [u]) d)"
    and session: "\<And>d h i now e s. I d \<Longrightarrow> session_for h i now e d = Some s \<Longrightarrow> I (t_sessions_update (\<lambda>xs. xs @ [s]) d)"
    and states: "\<And>d f. I d \<Longrightarrow> I (t_oidc_states_update f d)" and desktop: "\<And>d f. I d \<Longrightarrow> I (t_oidc_desktop_update f d)"
  shows "keeps I (CreateOIDCLoginState sha256 state verifier nonce lifetime now)"
    and "keeps I (ConsumeOIDCLoginState sha256 state now)"
    and "keeps I (CreateOIDCDesktopConfirmation sha256 i handoff secret code lifetime now)"
    and "keeps I (ApproveOIDCDesktopConfirmation sha256 secret now)"
    and "keeps I (CancelOIDCDesktopConfirmation sha256 secret now)"
    and "keeps I (ExchangeOIDCDesktopHandoff sha256 handoff lifetime now bytes)"
    and "keeps I (FindOrCreateOIDCUser bcrypt fuel subject name now rnd pw)"
  unfolding CreateOIDCLoginState_def ConsumeOIDCLoginState_def CreateOIDCDesktopConfirmation_def ApproveOIDCDesktopConfirmation_def
    CancelOIDCDesktopConfirmation_def decide_confirmation_def ExchangeOIDCDesktopHandoff_def FindOrCreateOIDCUser_def Let_def
  by (intro keeps_intro; auto intro: assms)+

datatype account_op =
    OpSetAdmin string string bool gotime "64 word"
  | OpSetDisabled string string bool gotime gotime "64 word"
  | OpRevokeSessions string string gotime "64 word"
  | OpResetPassword string string string gotime "64 word"
  | OpRemoveMember string string string gotime "64 word"
  | OpSetMember string string string string gotime gotime "64 word"
  | OpBootstrap bool string string gotime "64 word"
  | OpCreateUser string string bool gotime "64 word"
  | OpSetMemberByName string string string gotime
  | OpCreateSession string gotime gotime string
  | OpDeleteSession string
  | OpRotateSession string gotime gotime string
  | OpCreateLoginState string string string gotime gotime
  | OpConsumeLoginState string gotime
  | OpCreateConfirmation string string string string gotime gotime
  | OpApprove string gotime
  | OpCancel string gotime
  | OpExchange string gotime gotime string
  | OpOIDCUser nat string string gotime "64 word" string

fun account_exec :: "(string \<Rightarrow> string) \<Rightarrow> (string \<Rightarrow> err + string) \<Rightarrow> (string \<Rightarrow> string \<Rightarrow> bool) \<Rightarrow> account_op \<Rightarrow> unit store" where
  "account_exec sha bc mt (OpSetAdmin a i e now rnd) = SetManagedUserAdmin a i e now rnd"
| "account_exec sha bc mt (OpSetDisabled a i e now now2 rnd) = SetManagedUserDisabled a i e now now2 rnd"
| "account_exec sha bc mt (OpRevokeSessions a i now rnd) = RevokeManagedUserSessions a i now rnd"
| "account_exec sha bc mt (OpResetPassword a i pw now rnd) = ResetManagedUserPassword bc a i pw now rnd"
| "account_exec sha bc mt (OpRemoveMember a c i now rnd) = RemoveChannelMember a c i now rnd"
| "account_exec sha bc mt (OpSetMember a c i role now now2 rnd) = SetChannelMemberByID a c i role now now2 rnd"
| "account_exec sha bc mt (OpBootstrap pg name pw now rnd) = BootstrapUser bc mt pg name pw now rnd"
| "account_exec sha bc mt (OpCreateUser name pw adm now rnd) = ignoreM (CreateUser bc name pw adm now rnd)"
| "account_exec sha bc mt (OpSetMemberByName c name role now) = SetChannelMember c name role now"
| "account_exec sha bc mt (OpCreateSession i lifetime now bytes) = ignoreM (CreateSession sha i lifetime now bytes)"
| "account_exec sha bc mt (OpDeleteSession token) = DeleteSession sha token"
| "account_exec sha bc mt (OpRotateSession token lifetime now bytes) = ignoreM (RotateSession sha token lifetime now bytes)"
| "account_exec sha bc mt (OpCreateLoginState st ver nonce lifetime now) = CreateOIDCLoginState sha st ver nonce lifetime now"
| "account_exec sha bc mt (OpConsumeLoginState st now) = ignoreM (ConsumeOIDCLoginState sha st now)"
| "account_exec sha bc mt (OpCreateConfirmation i handoff secret code lifetime now) = CreateOIDCDesktopConfirmation sha i handoff secret code lifetime now"
| "account_exec sha bc mt (OpApprove secret now) = ApproveOIDCDesktopConfirmation sha secret now"
| "account_exec sha bc mt (OpCancel secret now) = CancelOIDCDesktopConfirmation sha secret now"
| "account_exec sha bc mt (OpExchange handoff lifetime now bytes) = ignoreM (ExchangeOIDCDesktopHandoff sha handoff lifetime now bytes)"
| "account_exec sha bc mt (OpOIDCUser fuel subject name now rnd pw) = ignoreM (FindOrCreateOIDCUser bc fuel subject name now rnd pw)"

text \<open>A sequence of account operations, each in the session the one before left, with any faults.\<close>

lemma keeps_account_exec:
  "keeps session_ok (account_exec sha bc mt op)" "keeps admin_ok (account_exec sha bc mt op)"
proof -
  note s = keeps_sign_in [of session_ok, OF session_ok_new_user session_ok_insert]
  note a = keeps_sign_in [of admin_ok, OF admin_ok_new_user]
  show "keeps session_ok (account_exec sha bc mt op)"
    by (cases op; hypsubst; unfold account_exec.simps; (rule keeps_ignoreM)?;
        rule keeps_session_ok keeps_RotateSession keeps_SetManagedUserDisabled s; simp)
  show "keeps admin_ok (account_exec sha bc mt op)"
    by (cases op; hypsubst; unfold account_exec.simps; (rule keeps_ignoreM)?;
        rule keeps_admin_ok keeps_SetManagedUserAdmin_admin keeps_SetManagedUserDisabled_admin a; simp)
qed

interpretation open_sessions: lasting_always "account_exec sha bc mt" session_ok for sha bc mt
  by unfold_locales (rule keeps_account_exec(1))

interpretation administrators: lasting_always "account_exec sha bc mt" admin_ok for sha bc mt
  by unfold_locales (rule keeps_account_exec(2))

text \<open>C10: sessions belong to enabled users.  After any sequence of account operations, with any faults, no
  session of a disabled user exists: disabling a user revokes the sessions in the same transaction and
  no operation opens one for a disabled user.\<close>

theorem no_session_of_disabled:
  assumes "session_ok (wdb w)"
    and "s \<in> set (t_sessions (wdb (history (account_exec sha bc mt) ops w)))" and "u \<in> set (t_users (wdb (history (account_exec sha bc mt) ops w)))"
    and "u_id u = s_user_id s"
  shows "u_disabled_at u = None"
proof -
  let ?d = "wdb (history (account_exec sha bc mt) ops w)"
  have ok: "session_ok ?d" by (rule open_sessions.lasts_always [OF assms(1)])
  then obtain u' where "u' \<in> set (t_users ?d)" "u_id u' = s_user_id s" "u_disabled_at u' = None"
    using assms(2) by (auto simp: session_ok_def)
  with ok assms(3,4) show ?thesis by (metis keyed_unique session_ok_def)
qed

text \<open>C11: the installation keeps an administrator.  When an enabled administrator other than the local
  inbox user and the agents exists, one exists after any sequence of account operations, with any
  faults.\<close>

theorem administrator_remains:
  assumes "admin_ok (wdb w)"
  shows "\<exists>u \<in> set (t_users (wdb (history (account_exec sha bc mt) ops w))). u_is_admin u \<and> u_disabled_at u = None \<and>
    u_id u \<noteq> localInboxUserID \<and> \<not> is_agent_user (wdb (history (account_exec sha bc mt) ops w)) (u_id u)"
  using administrators.lasts_always [OF assms] by (auto simp: admin_ok_def)

text \<open>A database with two administrators, and operations that disable one of them.\<close>

definition two_admins :: db where
  "two_admins = empty_db\<lparr>t_users := [new_user_row ''u1'' ''ann'' ''h1'' True None 0, new_user_row ''u2'' ''bob'' ''h2'' True None 0]\<rparr>"

definition demo_ops :: "account_op list" where
  "demo_ops = [OpCreateSession ''u1'' Hour 0 ''k'', OpCreateSession ''u2'' Hour 0 ''x'', OpSetDisabled ''u1'' ''u2'' True 0 0 0,
     OpSetDisabled ''u2'' ''u1'' True 0 0 1, OpSetAdmin ''u1'' ''u1'' False 0 2]"

definition demo_accounts :: db where
  "demo_accounts = wdb (history (account_exec id Inr (\<lambda>h p. True)) demo_ops (up two_admins))"

theorem no_session_of_disabled_witness: "u_disabled_at (hd (t_users demo_accounts)) = None"
  unfolding demo_accounts_def
  by (rule no_session_of_disabled [where w = "up two_admins" and sha = id and bc = Inr and mt = "\<lambda>h p. True" and ops = demo_ops and s = "\<lparr>s_token_hash = ''6b'', s_user_id = ''u1'', s_created_at = 0, s_expires_at = 3600000\<rparr>"];
      code_simp)

theorem administrator_remains_witness:
  "\<exists>u \<in> set (t_users demo_accounts). u_is_admin u \<and> u_disabled_at u = None \<and> u_id u \<noteq> localInboxUserID \<and> \<not> is_agent_user demo_accounts (u_id u)"
  unfolding demo_accounts_def by (rule administrator_remains; code_simp)

section \<open>Tokens are used once\<close>

text \<open>A login state is consumed once.  After a successful consumption the same state is not accepted
  again on that database, at any time.\<close>

lemma login_state_once:
  assumes "ConsumeOIDCLoginState sha state now w = (Inr x, w')" and "wdb w2 = wdb w'"
  shows "ConsumeOIDCLoginState sha state now' w2 \<noteq> (Inr y, w3)"
proof -
  have "sat (ConsumeOIDCLoginState sha state now) (wdb w) (\<lambda>r d. \<forall>x. r = Inr x \<longrightarrow> (\<forall>z \<in> set (t_oidc_states d). os_state_hash z \<noteq> sha state))"
    unfolding ConsumeOIDCLoginState_def by (intro sat_intro) (auto intro!: sat_intro)
  from satD [OF this assms(1)] have none: "\<forall>z \<in> set (t_oidc_states (wdb w2)). os_state_hash z \<noteq> sha state"
    using assms(2) by simp
  have "sat (ConsumeOIDCLoginState sha state now') (wdb w2) (\<lambda>r d. \<forall>y. r \<noteq> Inr y)"
    unfolding ConsumeOIDCLoginState_def login_state_def using none
    by (intro sat_intro) (auto intro!: sat_intro dest!: find_SomeD)
  from sat_run [OF this] show ?thesis by auto
qed

definition state_db :: db where
  "state_db = empty_db\<lparr>t_oidc_states := [\<lparr>os_state_hash = ''st'', os_verifier = ''v'', os_nonce = ''n'', os_expires_at = 1000\<rparr>]\<rparr>"

lemma login_state_once_witness:
  "ConsumeOIDCLoginState id ''st'' 0 (snd (ConsumeOIDCLoginState id ''st'' 0 (up state_db))) \<noteq> (Inr \<lparr>Ls_Verifier = ''v'', Ls_Nonce = ''n''\<rparr>, up empty_db)"
proof -
  have "fst (ConsumeOIDCLoginState id ''st'' 0 (up state_db)) = Inr \<lparr>Ls_Verifier = ''v'', Ls_Nonce = ''n''\<rparr>" by code_simp
  then have "ConsumeOIDCLoginState id ''st'' 0 (up state_db) =
      (Inr \<lparr>Ls_Verifier = ''v'', Ls_Nonce = ''n''\<rparr>, snd (ConsumeOIDCLoginState id ''st'' 0 (up state_db)))"
    by (metis prod.collapse)
  from login_state_once [OF this refl] show ?thesis .
qed

text \<open>What a successful exchange does: it uses an approved, unexpired confirmation of an enabled user, opens a
  session for that user under the hash of the token, and leaves no confirmation of the handoff.\<close>

definition exchanged :: "(string \<Rightarrow> string) \<Rightarrow> string \<Rightarrow> int \<Rightarrow> db \<Rightarrow> string \<times> gotime \<Rightarrow> db \<Rightarrow> bool" where
  "exchanged sha handoff ms d te d' \<longleftrightarrow>
     (\<exists>x \<in> set (t_oidc_desktop d). \<exists>u \<in> set (t_users d). od_handoff_hash x = sha handoff \<and> od_status x = ''approved'' \<and>
        ms < od_expires_at x \<and> u_id u = od_user_id x \<and> u_disabled_at u = None \<and>
        \<lparr>s_token_hash = sha (fst te), s_user_id = u_id u, s_created_at = ms, s_expires_at = UnixMilli (snd te)\<rparr> \<in> set (t_sessions d')) \<and>
     (\<forall>z \<in> set (t_oidc_desktop d'). od_handoff_hash z \<noteq> sha handoff)"

lemma exchangedI:
  assumes "keyed od_handoff_hash (t_oidc_desktop d)"
    and "List.find (\<lambda>x. od_handoff_hash x = sha handoff \<and> od_status x = ''approved'' \<and> ms < od_expires_at x) (t_oidc_desktop d) = Some x"
    and "List.find (\<lambda>u. u_id u = od_user_id x \<and> u_disabled_at u = None) (t_users d) = Some u"
    and "t_sessions d' = t_sessions d @ [\<lparr>s_token_hash = sha (fst te), s_user_id = u_id u, s_created_at = ms, s_expires_at = UnixMilli (snd te)\<rparr>]"
    and "t_oidc_desktop d' = del_where (\<lambda>x. od_handoff_hash x = sha handoff \<and> od_status x = ''approved'' \<and> ms < od_expires_at x) (t_oidc_desktop d)"
  shows "exchanged sha handoff ms d te d'"
proof -
  note x = find_SomeD [OF assms(2)] and u = find_SomeD [OF assms(3)]
  have "z = x" if "z \<in> set (t_oidc_desktop d)" "od_handoff_hash z = sha handoff" for z
    using that x assms(1) by (auto dest: keyed_unique)
  with x have "\<forall>z \<in> set (t_oidc_desktop d'). od_handoff_hash z \<noteq> sha handoff" by (auto simp: assms(5))
  with x u assms(4) show ?thesis unfolding exchanged_def by auto
qed

text \<open>C12: a desktop handoff is exchanged only after approval, and once.  An exchange that returns a token
  found an approved, unexpired confirmation of an enabled user and opened a session for that user under
  the hash of the token; afterwards no exchange of that handoff succeeds on that database.\<close>

theorem handoff_once:
  assumes "ExchangeOIDCDesktopHandoff sha handoff lifetime now bytes w = (Inr te, w')"
    and "keyed od_handoff_hash (t_oidc_desktop (wdb w))" and "wdb w2 = wdb w'"
  shows "exchanged sha handoff (UnixMilli now) (wdb w) te (wdb w') \<and>
    ExchangeOIDCDesktopHandoff sha handoff lifetime' now' bytes' w2 \<noteq> (Inr y, wz)"
proof -
  have "sat (ExchangeOIDCDesktopHandoff sha handoff lifetime now bytes) (wdb w)
      (\<lambda>r d'. \<forall>te. r = Inr te \<longrightarrow> exchanged sha handoff (UnixMilli now) (wdb w) te d')"
    unfolding ExchangeOIDCDesktopHandoff_def
    by (intro sat_intro, auto intro!: sat_intro simp: session_for_def) (rule exchangedI [OF assms(2)]; simp)
  from satD [OF this assms(1)] have ex: "exchanged sha handoff (UnixMilli now) (wdb w) te (wdb w')" by simp
  then have "\<forall>z \<in> set (t_oidc_desktop (wdb w2)). od_handoff_hash z \<noteq> sha handoff" using assms(3) by (simp add: exchanged_def)
  then have "sat (ExchangeOIDCDesktopHandoff sha handoff lifetime' now' bytes') (wdb w2) (\<lambda>r d. \<forall>y. r \<noteq> Inr y)"
    unfolding ExchangeOIDCDesktopHandoff_def
    by (intro sat_intro) (auto intro!: sat_intro dest!: find_SomeD)
  from sat_run [OF this] ex show ?thesis by (cases y) auto
qed

definition handoff_db :: db where
  "handoff_db = two_admins\<lparr>t_oidc_desktop := [\<lparr>od_handoff_hash = ''hand'', od_confirmation_hash = ''conf'', od_user_id = ''u1'',
     od_verification_code = ''42'', od_status = ''approved'', od_expires_at = 1000\<rparr>]\<rparr>"

theorem handoff_once_witness:
  "exchanged id ''hand'' 0 handoff_db (''6b'', Hour) (wdb (snd (ExchangeOIDCDesktopHandoff id ''hand'' Hour 0 ''k'' (up handoff_db)))) \<and>
   ExchangeOIDCDesktopHandoff id ''hand'' Hour 0 ''k'' (snd (ExchangeOIDCDesktopHandoff id ''hand'' Hour 0 ''k'' (up handoff_db))) \<noteq> (Inr (''6b'', Hour), up handoff_db)"
proof -
  have "fst (ExchangeOIDCDesktopHandoff id ''hand'' Hour 0 ''k'' (up handoff_db)) = Inr (''6b'', Hour)" by code_simp
  then have "ExchangeOIDCDesktopHandoff id ''hand'' Hour 0 ''k'' (up handoff_db) =
      (Inr (''6b'', Hour), snd (ExchangeOIDCDesktopHandoff id ''hand'' Hour 0 ''k'' (up handoff_db)))" by (metis prod.collapse)
  from handoff_once [OF this _ refl, where lifetime' = Hour and now' = 0 and bytes' = "''k''" and y = "(''6b'', Hour)" and wz = "up handoff_db"]
  have "keyed od_handoff_hash (t_oidc_desktop handoff_db) \<Longrightarrow> ?thesis" by (simp add: UnixMilli_def)
  moreover have "keyed od_handoff_hash (t_oidc_desktop handoff_db)" by code_simp
  ultimately show ?thesis .
qed

section \<open>Rotating a session\<close>

text \<open>The user a session token stands for.\<close>

definition session_user :: "(string \<Rightarrow> string) \<Rightarrow> string \<Rightarrow> gotime \<Rightarrow> db \<Rightarrow> User option" where
  "session_user sha token now d =
     (case List.find (\<lambda>s. s_token_hash s = sha token \<and> s_expires_at s > UnixMilli now) (t_sessions d) of
        None \<Rightarrow> None
      | Some s \<Rightarrow> map_option to_user (List.find (\<lambda>u. u_id u = s_user_id s \<and> u_disabled_at u = None) (t_users d)))"

lemma UserForSession_up:
  "UserForSession sha token now (up d) =
     (case session_user sha token now d of None \<Rightarrow> Inl ErrInvalidCredentials | Some u \<Rightarrow> Inr u, up d)"
  by (simp add: UserForSession_def session_user_def sql_simps split: option.splits)

definition rotated :: "(string \<Rightarrow> string) \<Rightarrow> string \<Rightarrow> gotime \<Rightarrow> db \<Rightarrow> string \<times> gotime \<Rightarrow> db \<Rightarrow> bool" where
  "rotated sha token now d te d' \<longleftrightarrow> (\<exists>u. session_user sha token now d = Some u \<and>
     (\<forall>t. session_user sha token t d' = None) \<and>
     (\<forall>t. UnixMilli t < UnixMilli (snd te) \<longrightarrow> session_user sha (fst te) t d' = Some u) \<and>
     (\<forall>t. UnixMilli (snd te) \<le> UnixMilli t \<longrightarrow> session_user sha (fst te) t d' = None))"

lemma rotatedI:
  assumes ok: "session_ok d" and key: "keyed s_token_hash (t_sessions d)"
    and s: "List.find (\<lambda>s. s_token_hash s = sha token \<and> s_expires_at s > UnixMilli now) (t_sessions d) = Some s"
    and new: "sha (fst te) \<noteq> sha token" and chk: "\<forall>x \<in> set (del_where (\<lambda>s. s_token_hash s = sha token) (t_sessions d)). s_token_hash x \<noteq> sha (fst te)"
    and d': "t_sessions d' = del_where (\<lambda>s. s_token_hash s = sha token) (t_sessions d) @
       [\<lparr>s_token_hash = sha (fst te), s_user_id = s_user_id s, s_created_at = c, s_expires_at = UnixMilli (snd te)\<rparr>]"
    and u': "t_users d' = t_users d"
  shows "rotated sha token now d te d'"
proof -
  let ?P = "\<lambda>u. u_id u = s_user_id s \<and> u_disabled_at u = None"
  have "List.find ?P (t_users d) \<noteq> None"
    using find_SomeD [OF s] ok by (auto simp: session_ok_def find_None_iff)
  then obtain u where u: "List.find ?P (t_users d) = Some u" by auto
  have old: "List.find (\<lambda>s. s_token_hash s = sha token \<and> s_expires_at s > t) (t_sessions d') = None" for t
    using new by (auto simp: d' find_None_iff)
  have newf: "List.find (\<lambda>x. s_token_hash x = sha (fst te) \<and> s_expires_at x > t) (t_sessions d') =
     (if t < UnixMilli (snd te) then Some \<lparr>s_token_hash = sha (fst te), s_user_id = s_user_id s, s_created_at = c, s_expires_at = UnixMilli (snd te)\<rparr> else None)" for t
  proof -
    have "List.find (\<lambda>x. s_token_hash x = sha (fst te) \<and> s_expires_at x > t) (del_where (\<lambda>s. s_token_hash s = sha token) (t_sessions d)) = None"
      using chk by (auto simp: find_None_iff)
    then show ?thesis unfolding d' by (simp add: find_append)
  qed
  show ?thesis unfolding rotated_def session_user_def s old newf using u by (auto simp: u')
qed

text \<open>Rotating a session replaces the token and keeps the user.  A rotation that returns a new token
  stood for a user before; afterwards the old token stands for nobody at any time, the new one for the
  same user until it expires and for nobody from then on.\<close>

lemma rotation_replaces_token:
  assumes "RotateSession sha token lifetime now bytes w = (Inr te, w')"
    and "session_ok (wdb w)" and "keyed s_token_hash (t_sessions (wdb w))" and "sha (hex_bytes bytes) \<noteq> sha token"
  shows "rotated sha token now (wdb w) te (wdb w')"
proof -
  have "sat (RotateSession sha token lifetime now bytes) (wdb w) (\<lambda>r d'. \<forall>te. r = Inr te \<longrightarrow> rotated sha token now (wdb w) te d')"
    unfolding RotateSession_def
    by (intro sat_intro, auto intro!: sat_intro) (rule rotatedI [OF assms(2,3)]; auto simp: assms(4) chk_sessions_def)
  from satD [OF this assms(1)] show ?thesis by simp
qed

definition session_db :: db where
  "session_db = two_admins\<lparr>t_sessions := [\<lparr>s_token_hash = ''old'', s_user_id = ''u1'', s_created_at = 0, s_expires_at = 1000\<rparr>]\<rparr>"

lemma rotation_replaces_token_witness:
  "rotated id ''old'' 0 session_db (''6b'', Hour) (wdb (snd (RotateSession id ''old'' Hour 0 ''k'' (up session_db))))"
proof (rule rotation_replaces_token [where w' = "snd (RotateSession id ''old'' Hour 0 ''k'' (up session_db))" and w = "up session_db"
      and bytes = "''k''" and lifetime = Hour, unfolded world.select_convs])
  have "fst (RotateSession id ''old'' Hour 0 ''k'' (up session_db)) = Inr (''6b'', Hour)" by code_simp
  then show "RotateSession id ''old'' Hour 0 ''k'' (up session_db) = (Inr (''6b'', Hour), snd (RotateSession id ''old'' Hour 0 ''k'' (up session_db)))"
    by (metis prod.collapse)
qed code_simp+

section \<open>Names for new users\<close>

lemma nocase_append: "nocase (xs @ ys) = nocase xs @ nocase ys"
  by (simp add: nocase_def)

lemma nocase_digits: "\<forall>c \<in> set xs. of_char c \<in> {48..57 :: nat} \<Longrightarrow> nocase xs = xs"
  by (induction xs) (simp_all add: nocase_def)

lemma candidate_inj: "nocase (oidc_candidate base i) = nocase (oidc_candidate base j) \<Longrightarrow> i = j"
proof -
  assume eq: "nocase (oidc_candidate base i) = nocase (oidc_candidate base j)"
  have nd: "nocase (show_nat n) = show_nat n" for n by (rule nocase_digits) (blast dest: show_nat_digits)
  have form: "nocase (oidc_candidate base k) = nocase base @ (if k = 0 then [] else ''-'' @ show_nat (k + 1))" for k
  proof -
    have "nocase (CHR ''-'' # xs) = CHR ''-'' # nocase xs" for xs by (simp add: nocase_def)
    then show ?thesis by (simp add: oidc_candidate_def nocase_append nd)
  qed
  from eq show ?thesis unfolding form by (auto split: if_splits dest: show_nat_inj)
qed

lemma taken_bound:
  assumes "\<And>k. k < n \<Longrightarrow> exists_where (by_username (oidc_candidate base k)) us"
  shows "n \<le> length us"
proof -
  let ?c = "\<lambda>k. nocase (oidc_candidate base k)"
  have "?c ` {..<n} \<subseteq> (nocase \<circ> u_username) ` set us"
    using assms by (force simp: by_username_def)
  then have "card (?c ` {..<n}) \<le> card ((nocase \<circ> u_username) ` set us)" by (rule card_mono [rotated]) simp
  also have "\<dots> \<le> length us" by (metis card_image_le card_length le_trans List.finite_set)
  finally show ?thesis by (simp add: card_image inj_on_def candidate_inj)
qed

lemma free_username_up:
  "(\<And>k. k < s \<Longrightarrow> exists_where (by_username (oidc_candidate base k)) (t_users d)) \<Longrightarrow> length (t_users d) < s + n \<Longrightarrow>
   \<exists>name. free_username n base s (up d) = (Inr name, up d) \<and> \<not> exists_where (by_username name) (t_users d) \<and> (\<exists>k. name = oidc_candidate base k)"
proof (induction n arbitrary: s)
  case 0
  with taken_bound [of s base "t_users d"] show ?case by simp
next
  case (Suc n)
  show ?case
  proof (cases "exists_where (by_username (oidc_candidate base s)) (t_users d)")
    case True
    with Suc.prems have "\<exists>name. free_username n base (s + 1) (up d) = (Inr name, up d) \<and> \<not> exists_where (by_username name) (t_users d) \<and>
        (\<exists>k. name = oidc_candidate base k)"
      by (intro Suc.IH) (auto simp: less_Suc_eq simp del: exists_where_iff)
    with True show ?thesis by (simp add: sql_simps del: exists_where_iff)
  next
    case False
    then show ?thesis by (auto simp: sql_simps simp del: exists_where_iff)
  qed
qed

text \<open>The search for a user name ends.  With one more iteration than there are users, the loop of
  \<open>FindOrCreateOIDCUser\<close> returns a name that no user has, whatever names are taken.\<close>

theorem free_username_ends:
  assumes "length (t_users d) < n"
  shows "\<exists>name. free_username n base 0 (up d) = (Inr name, up d) \<and> \<not> exists_where (by_username name) (t_users d)"
  using free_username_up [of 0 base d n] assms by auto

theorem free_username_ends_witness:
  "\<exists>name. free_username 3 ''ann'' 0 (up two_admins) = (Inr name, up two_admins) \<and> \<not> exists_where (by_username name) (t_users two_admins)"
  by (rule free_username_ends) code_simp

section \<open>Normalised names\<close>

definition name_char :: "char \<Rightarrow> bool" where
  "name_char c \<longleftrightarrow> oidc_char (of_char c)"

lemma normalize_loop_chars: "list_all name_char b \<Longrightarrow> list_all name_char (normalize_loop rs b)"
  by (induction rs b rule: normalize_loop.induct) (auto simp: Let_def name_char_def oidc_char_def)

lemma normalize_loop_length: "len b < 80 \<Longrightarrow> len (normalize_loop rs b) \<le> 80"
  by (induction rs b rule: normalize_loop.induct) (auto simp: Let_def len_def)

lemma Trim_sublist: "\<exists>pre post. s = pre @ Trim s cs @ post"
proof -
  let ?P = "\<lambda>c. c \<in> set cs"
  let ?t = "dropWhile ?P s"
  have "s = takeWhile ?P s @ ?t" by simp
  moreover have "?t = Trim s cs @ rev (takeWhile ?P (rev ?t))"
    by (metis Trim_def rev_append rev_rev_ident takeWhile_dropWhile_id)
  ultimately show ?thesis by metis
qed

lemma Trim_ends: "Trim s cs \<noteq> [] \<Longrightarrow> hd (Trim s cs) \<notin> set cs \<and> last (Trim s cs) \<notin> set cs"
proof -
  assume ne: "Trim s cs \<noteq> []"
  let ?P = "\<lambda>c. c \<in> set cs"
  let ?t = "dropWhile ?P s"
  have "last (Trim s cs) \<notin> set cs" using ne hd_dropWhile [of ?P "rev ?t"] by (simp add: Trim_def last_rev)
  moreover have "hd (Trim s cs) = hd ?t"
    using ne by (metis Trim_def append_Nil2 hd_append2 rev_append rev_is_Nil_conv rev_rev_ident takeWhile_dropWhile_id)
  moreover have "?t \<noteq> []" using ne unfolding Trim_def by (metis dropWhile.simps(1) rev.simps(1))
  ultimately show ?thesis using hd_dropWhile [of ?P s] by auto
qed

text \<open>A normalised user name is well formed.  Whatever the identity provider sends, the result has at most
  eighty characters, only lower case letters, digits, dashes and underscores, and neither starts nor
  ends with a dash or underscore.\<close>

lemma normalized_name:
  "len (normalizeOIDCUsername v) \<le> 80 \<and> list_all name_char (normalizeOIDCUsername v) \<and>
   (normalizeOIDCUsername v = [] \<or> (hd (normalizeOIDCUsername v) \<notin> set ''-_'' \<and> last (normalizeOIDCUsername v) \<notin> set ''-_''))"
proof -
  let ?s = "normalize_loop (map ToLowerRune (runes (TrimSpace v))) []"
  obtain pre post where s: "?s = pre @ normalizeOIDCUsername v @ post"
    using Trim_sublist [of ?s "''-_''"] by (auto simp: normalizeOIDCUsername_def)
  have "len ?s \<le> 80" by (rule normalize_loop_length) (simp add: len_def)
  then have "len (normalizeOIDCUsername v) \<le> 80" unfolding s by (simp add: len_def)
  moreover have "list_all name_char ?s" by (rule normalize_loop_chars) simp
  then have "list_all name_char (normalizeOIDCUsername v)" unfolding s by simp
  moreover have "normalizeOIDCUsername v = [] \<or> (hd (normalizeOIDCUsername v) \<notin> set ''-_'' \<and> last (normalizeOIDCUsername v) \<notin> set ''-_'')"
    using Trim_ends [of ?s "''-_''"] by (auto simp: normalizeOIDCUsername_def)
  ultimately show ?thesis by blast
qed

end
