(* ===== verification/Json.thy ===== *)
theory Json
  imports Prelude
begin

text \<open>
  The part of \<open>encoding/json\<close> that the store uses: the encoder of values that were built from strings,
  numbers, lists and objects, the decoder with its escapes, UTF-8 repair and nesting limit, and the
  assignment of object members to struct fields.  A number is kept as its literal.
\<close>

section \<open>Values\<close>

datatype json =
    JNull
  | JBool bool
  | JNum string
  | JStr string
  | JArr "json list"
  | JObj "(string \<times> json) list"

section \<open>Encoding\<close>

text \<open>The rune at the start of a string and its width; a width of one on a byte outside ASCII is an
  invalid encoding.\<close>

definition rune_at :: "string \<Rightarrow> nat \<times> nat" where
  "rune_at s = decode_rune (map of_char (take 4 s))"

text \<open>The encoder escapes quotes, backslashes, control characters and the characters that matter to HTML.\<close>

definition esc_ascii :: "char \<Rightarrow> string" where
  "esc_ascii c = (let b = of_char c :: nat in
     if c = CHR 0x22 \<or> c = CHR 0x5C then [CHR 0x5C, c]
     else if c = CHR 0x08 then [CHR 0x5C, CHR ''b'']
     else if c = CHR 0x09 then [CHR 0x5C, CHR ''t'']
     else if c = CHR 0x0A then [CHR 0x5C, CHR ''n'']
     else if c = CHR 0x0C then [CHR 0x5C, CHR ''f'']
     else if c = CHR 0x0D then [CHR 0x5C, CHR ''r'']
     else if b < 32 \<or> c = CHR 0x26 \<or> c = CHR 0x3C \<or> c = CHR 0x3E
     then [CHR 0x5C, CHR ''u'', CHR ''0'', CHR ''0'', hex_digit (b div 16), hex_digit (b mod 16)]
     else [c])"

fun quote_body :: "string \<Rightarrow> string" where
  "quote_body [] = []"
| "quote_body (c # s) =
     (if of_char c < (128 :: nat) then esc_ascii c @ quote_body s
      else case rune_at (c # s) of (r, k) \<Rightarrow>
        if r = 65533 \<and> k = 1 then [CHR 0x5C, CHR ''u'', CHR ''f'', CHR ''f'', CHR ''f'', CHR ''d''] @ quote_body s
        else if r = 8232 \<or> r = 8233 then [CHR 0x5C, CHR ''u'', CHR ''2'', CHR ''0'', CHR ''2'', hex_digit (r - 8224)] @ quote_body (drop (k - 1) s)
        else take k (c # s) @ quote_body (drop (k - 1) s))"

definition quote :: "string \<Rightarrow> string" where
  "quote s = CHR 0x22 # quote_body s @ [CHR 0x22]"

definition join :: "string list \<Rightarrow> string" where
  "join xs = (case xs of [] \<Rightarrow> [] | y # ys \<Rightarrow> y @ concat (map (\<lambda>z. CHR '','' # z) ys))"

fun Marshal :: "json \<Rightarrow> string" where
  "Marshal JNull = ''null''"
| "Marshal (JBool b) = (if b then ''true'' else ''false'')"
| "Marshal (JNum n) = n"
| "Marshal (JStr s) = quote s"
| "Marshal (JArr vs) = CHR ''['' # join (map Marshal vs) @ '']''"
| "Marshal (JObj ms) = CHR ''{'' # join (map (\<lambda>(k, v). quote k @ CHR '':'' # Marshal v) ms) @ ''}''"

section \<open>Decoding\<close>

text \<open>The UTF-8 encoding of a code point.\<close>

definition utf8_enc :: "nat \<Rightarrow> string" where
  "utf8_enc r = map byte_char
     (if r < 128 then [r]
      else if r < 2048 then [192 + r div 64, 128 + r mod 64]
      else if r < 65536 then [224 + r div 4096, 128 + r div 64 mod 64, 128 + r mod 64]
      else [240 + r div 262144, 128 + r div 4096 mod 64, 128 + r div 64 mod 64, 128 + r mod 64])"

definition hex_val :: "char \<Rightarrow> nat option" where
  "hex_val c = (let b = of_char c :: nat in
     if 48 \<le> b \<and> b \<le> 57 then Some (b - 48)
     else if 97 \<le> b \<and> b \<le> 102 then Some (b - 87)
     else if 65 \<le> b \<and> b \<le> 70 then Some (b - 55) else None)"

fun hex4 :: "string \<Rightarrow> nat option" where
  "hex4 (a # b # c # e # s) =
     (case (hex_val a, hex_val b, hex_val c, hex_val e) of
        (Some x, Some y, Some z, Some w) \<Rightarrow> Some (4096 * x + 256 * y + 16 * z + w)
      | _ \<Rightarrow> None)"
| "hex4 _ = None"

definition low_surrogate :: "nat \<Rightarrow> string \<Rightarrow> nat option" where
  "low_surrogate hi s =
     (if 55296 \<le> hi \<and> hi < 56320 \<and> take 2 s = [CHR 0x5C, CHR ''u''] then
        (case hex4 (drop 2 s) of
           Some lo \<Rightarrow> if 56320 \<le> lo \<and> lo < 57344 then Some (65536 + (hi - 55296) * 1024 + (lo - 56320)) else None
         | None \<Rightarrow> None)
      else None)"

definition simple_escape :: "char \<Rightarrow> char option" where
  "simple_escape e =
     (if e = CHR 0x22 \<or> e = CHR 0x5C \<or> e = CHR ''/'' then Some e
      else if e = CHR ''b'' then Some (CHR 0x08) else if e = CHR ''f'' then Some (CHR 0x0C)
      else if e = CHR ''n'' then Some (CHR 0x0A) else if e = CHR ''r'' then Some (CHR 0x0D)
      else if e = CHR ''t'' then Some (CHR 0x09) else None)"

definition emit :: "string \<Rightarrow> (string \<times> string) option \<Rightarrow> (string \<times> string) option" where
  "emit p r = map_option (\<lambda>(x, rest). (p @ x, rest)) r"

fun unquote_body :: "string \<Rightarrow> (string \<times> string) option" where
  "unquote_body [] = None"
| "unquote_body (c # s) =
     (if c = CHR 0x22 then Some ([], s)
      else if c = CHR 0x5C then
        (case s of
           [] \<Rightarrow> None
         | e # r \<Rightarrow>
             (case simple_escape e of
                Some x \<Rightarrow> emit [x] (unquote_body r)
              | None \<Rightarrow>
                  if e = CHR ''u'' then
                    (case hex4 r of
                       None \<Rightarrow> None
                     | Some v \<Rightarrow>
                         if 55296 \<le> v \<and> v < 57344 then
                           (case low_surrogate v (drop 4 r) of
                              Some p \<Rightarrow> emit (utf8_enc p) (unquote_body (drop 10 r))
                            | None \<Rightarrow> emit (utf8_enc 65533) (unquote_body (drop 4 r)))
                         else emit (utf8_enc v) (unquote_body (drop 4 r)))
                  else None))
      else if of_char c < (32 :: nat) then None
      else if of_char c < (128 :: nat) then emit [c] (unquote_body s)
      else case rune_at (c # s) of (r, k) \<Rightarrow>
        if r = 65533 \<and> k = 1 then emit (utf8_enc 65533) (unquote_body s)
        else emit (take k (c # s)) (unquote_body (drop (k - 1) s)))"

definition is_digit :: "char \<Rightarrow> bool" where
  "is_digit c \<longleftrightarrow> (of_char c :: nat) \<in> {48..57}"

definition skip_ws :: "string \<Rightarrow> string" where
  "skip_ws = dropWhile (\<lambda>c. c = CHR '' '' \<or> c = CHR 0x09 \<or> c = CHR 0x0A \<or> c = CHR 0x0D)"

text \<open>The literal of a number: an optional sign, an integer without leading zeros, a fraction, an exponent.
  Each part returns what it read and what is left.\<close>

definition digits1 :: "string \<Rightarrow> (string \<times> string) option" where
  "digits1 s = (let ds = takeWhile is_digit s in if ds = [] then None else Some (ds, dropWhile is_digit s))"

definition num_int :: "string \<Rightarrow> (string \<times> string) option" where
  "num_int s = (case s of c # r \<Rightarrow> if c = CHR ''0'' then Some (''0'', r) else digits1 s | [] \<Rightarrow> None)"

definition num_frac :: "string \<Rightarrow> (string \<times> string) option" where
  "num_frac s = (case s of c # r \<Rightarrow> if c = CHR ''.'' then emit ''.'' (digits1 r) else Some ([], s) | [] \<Rightarrow> Some ([], []))"

definition num_sign :: "string \<Rightarrow> string \<times> string" where
  "num_sign s = (case s of c # r \<Rightarrow> if c = CHR ''+'' \<or> c = CHR ''-'' then ([c], r) else ([], s) | [] \<Rightarrow> ([], []))"

definition num_exp :: "string \<Rightarrow> (string \<times> string) option" where
  "num_exp s = (case s of
      c # r \<Rightarrow> if c = CHR ''e'' \<or> c = CHR ''E'' then (case num_sign r of (sg, r') \<Rightarrow> emit (c # sg) (digits1 r')) else Some ([], s)
    | [] \<Rightarrow> Some ([], []))"

definition thenM :: "(string \<times> string) option \<Rightarrow> (string \<Rightarrow> (string \<times> string) option) \<Rightarrow> (string \<times> string) option" where
  "thenM m f = (case m of None \<Rightarrow> None | Some (x, r) \<Rightarrow> emit x (f r))"

definition number :: "string \<Rightarrow> (string \<times> string) option" where
  "number s = (case s of
      c # r \<Rightarrow> if c = CHR ''-'' then emit ''-'' (thenM (thenM (num_int r) num_frac) num_exp)
               else thenM (thenM (num_int s) num_frac) num_exp
    | [] \<Rightarrow> None)"

text \<open>Values, elements and members; the first argument bounds the number of calls, the second the nesting
  depth.\<close>

fun value_at :: "nat \<Rightarrow> int \<Rightarrow> string \<Rightarrow> (json \<times> string) option"
and elements_at :: "nat \<Rightarrow> int \<Rightarrow> string \<Rightarrow> (json list \<times> string) option"
and members_at :: "nat \<Rightarrow> int \<Rightarrow> string \<Rightarrow> ((string \<times> json) list \<times> string) option" where
  "value_at 0 d s = None"
| "value_at (Suc n) d s =
     (case skip_ws s of
        [] \<Rightarrow> None
      | c # r \<Rightarrow>
          if c = CHR 0x22 then map_option (\<lambda>(x, r'). (JStr x, r')) (unquote_body r)
          else if c = CHR ''['' then
            (if d \<le> 0 then None
             else case skip_ws r of
                 [] \<Rightarrow> None
               | e # r' \<Rightarrow> if e = CHR '']'' then Some (JArr [], r') else map_option (\<lambda>(x, t). (JArr x, t)) (elements_at n (d - 1) (e # r')))
          else if c = CHR ''{'' then
            (if d \<le> 0 then None
             else case skip_ws r of
                 [] \<Rightarrow> None
               | e # r' \<Rightarrow> if e = CHR ''}'' then Some (JObj [], r') else map_option (\<lambda>(x, t). (JObj x, t)) (members_at n (d - 1) (e # r')))
          else if c = CHR ''t'' \<and> take 3 r = ''rue'' then Some (JBool True, drop 3 r)
          else if c = CHR ''f'' \<and> take 4 r = ''alse'' then Some (JBool False, drop 4 r)
          else if c = CHR ''n'' \<and> take 3 r = ''ull'' then Some (JNull, drop 3 r)
          else map_option (\<lambda>(x, r'). (JNum x, r')) (number (c # r)))"
| "elements_at 0 d s = None"
| "elements_at (Suc n) d s =
     (case value_at n d s of
        None \<Rightarrow> None
      | Some (v, r) \<Rightarrow>
          (case skip_ws r of
             [] \<Rightarrow> None
           | c # r' \<Rightarrow>
               if c = CHR '']'' then Some ([v], r')
               else if c = CHR '','' then map_option (\<lambda>(vs, t). (v # vs, t)) (elements_at n d r')
               else None))"
| "members_at 0 d s = None"
| "members_at (Suc n) d s =
     (case skip_ws s of
        [] \<Rightarrow> None
      | q # s' \<Rightarrow>
          if q \<noteq> CHR 0x22 then None
          else case unquote_body s' of
            None \<Rightarrow> None
          | Some (k, r) \<Rightarrow>
              (case skip_ws r of
                 [] \<Rightarrow> None
               | c # r' \<Rightarrow>
                   if c \<noteq> CHR '':'' then None
                   else case value_at n d r' of
                     None \<Rightarrow> None
                   | Some (v, t) \<Rightarrow>
                       (case skip_ws t of
                          [] \<Rightarrow> None
                        | e # t' \<Rightarrow>
                            if e = CHR ''}'' then Some ([(k, v)], t')
                            else if e = CHR '','' then map_option (\<lambda>(ms, u). ((k, v) # ms, u)) (members_at n d t')
                            else None)))"

definition maxNestingDepth :: int where
  "maxNestingDepth = 10000"

definition Unmarshal :: "string \<Rightarrow> json option" where
  "Unmarshal s = (case value_at (2 * length s + 2) maxNestingDepth s of
      Some (v, r) \<Rightarrow> if skip_ws r = [] then Some v else None
    | None \<Rightarrow> None)"

section \<open>Members into struct fields\<close>

text \<open>A member belongs to the field whose name it equals up to case folding; of several, the last one with a
  value of the right type counts.  A value of a wrong type leaves the field and makes the decoder report
  an error after the remaining members.\<close>

definition fold_name :: "string \<Rightarrow> nat list" where
  "fold_name s = map (\<lambda>r. if 97 \<le> r \<and> r \<le> 122 then r - 32 else if r = 8490 then 75 else if r = 383 then 83 else r) (runes s)"

definition matches :: "string \<Rightarrow> string \<Rightarrow> bool" where
  "matches field key \<longleftrightarrow> fold_name key = fold_name field"

fun str_field :: "string \<Rightarrow> (string \<times> json) list \<Rightarrow> string \<Rightarrow> string" where
  "str_field f [] cur = cur"
| "str_field f ((k, v) # ms) cur = str_field f ms (case v of JStr x \<Rightarrow> if matches f k then x else cur | _ \<Rightarrow> cur)"

fun obj_field :: "string \<Rightarrow> (string \<times> json) list \<Rightarrow> (string \<times> json) list" where
  "obj_field f [] = []"
| "obj_field f ((k, v) # ms) = (case v of JObj x \<Rightarrow> if matches f k then x @ obj_field f ms else obj_field f ms | _ \<Rightarrow> obj_field f ms)"

definition str_typed :: "string \<Rightarrow> (string \<times> json) list \<Rightarrow> bool" where
  "str_typed f ms \<longleftrightarrow> list_all (\<lambda>(k, v). matches f k \<longrightarrow> (case v of JStr x \<Rightarrow> True | JNull \<Rightarrow> True | _ \<Rightarrow> False)) ms"

text \<open>The members of a document that is decoded into a struct: none when it is malformed or not an object.\<close>

definition members_of :: "string \<Rightarrow> (string \<times> json) list" where
  "members_of s = (case Unmarshal s of Some (JObj ms) \<Rightarrow> ms | _ \<Rightarrow> [])"

definition struct_ok :: "string \<Rightarrow> bool" where
  "struct_ok s \<longleftrightarrow> (case Unmarshal s of Some (JObj ms) \<Rightarrow> True | Some JNull \<Rightarrow> True | _ \<Rightarrow> False)"

section \<open>Round trip\<close>

fun utf8 :: "string \<Rightarrow> bool" where
  "utf8 [] = True"
| "utf8 (c # s) = (if of_char c < (128 :: nat) then utf8 s
     else case rune_at (c # s) of (r, k) \<Rightarrow> 2 \<le> k \<and> k \<le> length (c # s) \<and> utf8 (drop (k - 1) s))"

lemma hex_val_digit: "n < 16 \<Longrightarrow> hex_val (hex_digit n) = Some n"
  by (cases "n < 10") (simp_all add: hex_val_def of_char_hex_digit)

lemma char_below_128: "of_char c < (128 :: nat) \<Longrightarrow> utf8_enc (of_char c) = [c]"
  by (simp add: utf8_enc_def byte_char_def)

lemma hex4_byte:
  assumes "of_char c < (128 :: nat)"
  shows "hex4 (CHR ''0'' # CHR ''0'' # hex_digit (of_char c div 16) # hex_digit (of_char c mod 16) # t) = Some (of_char c)"
proof -
  have "hex_val (hex_digit (of_char c div 16)) = Some (of_char c div 16 :: nat)" using assms by (intro hex_val_digit) auto
  moreover have "hex_val (hex_digit (of_char c mod 16)) = Some (of_char c mod 16 :: nat)" by (intro hex_val_digit) auto
  moreover have "hex_val CHR ''0'' = Some 0" by (simp add: hex_val_def)
  ultimately show ?thesis by simp
qed

lemma unquote_escape_u:
  assumes "hex4 t = Some v" and "v < 55296 \<or> 57344 \<le> v"
  shows "unquote_body (CHR 0x5C # CHR ''u'' # t) = emit (utf8_enc v) (unquote_body (drop 4 t))"
  using assms by (auto simp: simple_escape_def)

lemma unquote_esc_ascii:
  assumes "of_char c < (128 :: nat)"
  shows "unquote_body (esc_ascii c @ t) = emit [c] (unquote_body t)"
proof -
  let ?u = "[CHR 0x5C, CHR ''u'', CHR ''0'', CHR ''0'', hex_digit (of_char c div 16), hex_digit (of_char c mod 16)]"
  have u: "unquote_body (?u @ t) = emit [c] (unquote_body t)"
    using unquote_escape_u [OF hex4_byte [OF assms, of t]] assms by (simp add: char_below_128 del: unquote_body.simps)
  consider "c \<in> {CHR 0x22, CHR 0x5C, CHR 0x08, CHR 0x09, CHR 0x0A, CHR 0x0C, CHR 0x0D}"
    | "esc_ascii c = ?u" | "esc_ascii c = [c]" "\<not> of_char c < (32 :: nat)" "c \<noteq> CHR 0x22" "c \<noteq> CHR 0x5C"
    by (cases "c \<in> {CHR 0x22, CHR 0x5C, CHR 0x08, CHR 0x09, CHR 0x0A, CHR 0x0C, CHR 0x0D}";
        cases "of_char c < (32 :: nat) \<or> c \<in> {CHR 0x26, CHR 0x3C, CHR 0x3E}") (simp_all add: esc_ascii_def Let_def)
  then show ?thesis
  proof cases
    case 1
    then show ?thesis by (auto simp: esc_ascii_def Let_def simple_escape_def)
  next
    case 2
    then show ?thesis using u by simp
  next
    case 3
    then show ?thesis using assms by simp
  qed
qed

lemma decode_rune_width:
  assumes "decode_rune bs = (r, k)" and "2 \<le> k"
  shows "k \<le> length bs" and "k \<le> 4" and "decode_rune (take k bs @ us) = (r, k)" and "r = 65533 \<longrightarrow> k = 3"
proof -
  obtain a as where bs: "bs = a # as" using assms by (cases bs) auto
  have "k \<le> length bs \<and> k \<le> 4 \<and> decode_rune (take k bs @ us) = (r, k) \<and> (r = 65533 \<longrightarrow> k = 3)"
    using assms unfolding bs
    by (cases as; cases "tl as"; cases "tl (tl as)")
       (auto simp: cont_def split: if_splits list.splits)
  then show "k \<le> length bs" "k \<le> 4" "decode_rune (take k bs @ us) = (r, k)" "r = 65533 \<longrightarrow> k = 3" by auto
qed

lemma rune_at_width:
  assumes "rune_at s = (r, k)" and "2 \<le> k"
  shows "k \<le> length s" and "rune_at (take k s @ t) = (r, k)" and "drop k (take k s @ t) = t" and "r = 65533 \<longrightarrow> k = 3"
proof -
  note w = decode_rune_width [OF assms(1) [unfolded rune_at_def] assms(2)]
  from w(1) show l: "k \<le> length s" by simp
  have "map of_char (take 4 (take k s @ t)) = take k (map of_char (take 4 s)) @ map (of_char :: char \<Rightarrow> nat) (take (4 - k) t)"
    using l w(2) by (simp add: take_map min_def)
  then show "rune_at (take k s @ t) = (r, k)" by (simp add: rune_at_def w(3))
  show "drop k (take k s @ t) = t" using l by simp
  show "r = 65533 \<longrightarrow> k = 3" by (rule w(4))
qed

lemma decode_three_bytes:
  assumes "decode_rune bs = (r, k)" and "2 \<le> k" and "2048 \<le> r" and "r < 65536"
  shows "\<exists>a b c rest. bs = a # b # c # rest \<and> k = 3 \<and> 224 \<le> a \<and> a < 240 \<and> cont b \<and> cont c \<and> r = (a - 224) * 4096 + (b - 128) * 64 + (c - 128)"
proof -
  obtain a as where bs: "bs = a # as" using assms by (cases bs) auto
  have "\<not> (194 \<le> a \<and> a < 224)" using assms unfolding bs by (auto simp: cont_def split: if_splits list.splits)
  moreover have "\<not> (240 \<le> a \<and> a < 245)" using assms unfolding bs by (auto simp: cont_def split: if_splits list.splits)
  ultimately show ?thesis using assms unfolding bs by (auto split: if_splits list.splits)
qed

lemma decode_line_separator:
  assumes "decode_rune bs = (r, k)" and "2 \<le> k" and "r = 8232 \<or> r = 8233"
  shows "k = 3 \<and> take 3 bs = [226, 128, r - 8064]"
proof -
  from decode_three_bytes [OF assms(1,2)] assms(3) obtain a b c rest where
    d: "bs = a # b # c # rest" "k = 3" "224 \<le> a" "cont b" "cont c" "r = (a - 224) * 4096 + (b - 128) * 64 + (c - 128)" by auto
  obtain x y z where xyz: "a = x + 224" "b = y + 128" "c = z + 128" "y < 64" "z < 64"
    using d(3-5) by (intro that [of "a - 224" "b - 128" "c - 128"]) (auto simp: cont_def)
  then have "r = z + 64 * (y + 64 * x)" using d(6) by simp
  with xyz(5) have z: "r mod 64 = z" and yx: "r div 64 = y + 64 * x"
    by (simp_all only: mod_mult_self2 div_mult_self2 mod_less div_less)
  from xyz(4) yx have "r div 64 mod 64 = y" "r div 64 div 64 = x" by simp_all
  moreover from assms(3) have "r mod 64 = r - 8192" "r div 64 mod 64 = 0" "r div 64 div 64 = 2" "8192 \<le> r" by auto
  ultimately have "x = 2" "y = 0" "z = r - 8192" "8192 \<le> r" using z by simp_all
  with xyz(1-3) have "a = 226 \<and> b = 128 \<and> c = r - 8064" by simp
  with d(1,2) show ?thesis by simp
qed

lemma line_separators:
  assumes "rune_at s = (r, k)" and "2 \<le> k" and "r = 8232 \<or> r = 8233"
  shows "utf8_enc r = take k s"
proof -
  from decode_line_separator [OF assms(1) [unfolded rune_at_def] assms(2,3)]
  have k: "k = 3" and b: "map of_char (take 3 s) = [226, 128, r - 8064]" by (simp_all add: take_map)
  have "map char_of (map of_char (take 3 s) :: nat list) = take 3 s" by (simp add: map_idI)
  with k b assms(3) show ?thesis by (auto simp: utf8_enc_def byte_char_def)
qed

lemma hex4_line_separator:
  "r = 8232 \<or> r = 8233 \<Longrightarrow> hex4 (CHR ''2'' # CHR ''0'' # CHR ''2'' # hex_digit (r - 8224) # t) = Some r"
  by (auto simp: hex_val_digit hex_val_def [of "CHR ''0''"] hex_val_def [of "CHR ''2''"])

lemma unquote_quote_body: "utf8 s \<Longrightarrow> unquote_body (quote_body s @ CHR 0x22 # t) = Some (s, t)"
proof (induction s rule: quote_body.induct)
  case 1
  then show ?case by simp
next
  case (2 c s)
  show ?case
  proof (cases "of_char c < (128 :: nat)")
    case True
    with 2 have "unquote_body (quote_body s @ CHR 0x22 # t) = Some (s, t)" by simp
    with True show ?thesis by (simp add: unquote_esc_ascii emit_def)
  next
    case False
    obtain r k where rk: "rune_at (c # s) = (r, k)" by fastforce
    with 2 False have k: "2 \<le> k" and u: "utf8 (drop (k - 1) s)" by simp_all
    note w = rune_at_width [OF rk k]
    have e: "c # s = take k (c # s) @ drop (k - 1) s" using k by (metis append_take_drop_id drop_Cons' gr_zeroI not_numeral_le_zero)
    show ?thesis
    proof (cases "r = 8232 \<or> r = 8233")
      case True
      with k 2(3) [OF False rk [symmetric]] u have ih: "unquote_body (quote_body (drop (k - 1) s) @ CHR 0x22 # t) = Some (drop (k - 1) s, t)" by auto
      let ?rest = "quote_body (drop (k - 1) s) @ CHR 0x22 # t"
      let ?x = "CHR ''2'' # CHR ''0'' # CHR ''2'' # hex_digit (r - 8224) # ?rest"
      have "quote_body (c # s) @ CHR 0x22 # t = CHR 0x5C # CHR ''u'' # ?x"
        using False rk True k by auto
      moreover have "unquote_body (CHR 0x5C # CHR ''u'' # ?x) = emit (utf8_enc r) (unquote_body (drop 4 ?x))"
        using True by (intro unquote_escape_u hex4_line_separator) auto
      ultimately have "unquote_body (quote_body (c # s) @ CHR 0x22 # t) = emit (utf8_enc r) (unquote_body ?rest)"
        by (simp del: unquote_body.simps quote_body.simps)
      also have "\<dots> = Some (take k (c # s) @ drop (k - 1) s, t)" using ih line_separators [OF rk k True] by (simp add: emit_def)
      finally show ?thesis using e by simp
    next
      case no: False
      with k 2(4) [OF False rk [symmetric]] u have ih: "unquote_body (quote_body (drop (k - 1) s) @ CHR 0x22 # t) = Some (drop (k - 1) s, t)" by auto
      have q: "quote_body (c # s) @ CHR 0x22 # t = take k (c # s) @ quote_body (drop (k - 1) s) @ CHR 0x22 # t"
        using False rk no k by auto
      obtain k' where k': "k = Suc k'" using k by (cases k) auto
      let ?t = "take k' s @ quote_body (drop k' s) @ CHR 0x22 # t"
      from q k' have "unquote_body (quote_body (c # s) @ CHR 0x22 # t) = unquote_body (c # ?t)" by simp
      also have "\<dots> = emit (take k (c # ?t)) (unquote_body (drop (k - 1) ?t))"
        using w(2) [of "quote_body (drop k' s) @ CHR 0x22 # t"] False k k' by auto
      also have "\<dots> = Some (c # s, t)" using w(1) k' ih by (simp add: emit_def)
      finally show ?thesis .
    qed
  qed
qed

text \<open>What may follow a value inside a document.\<close>

definition delim :: "string \<Rightarrow> bool" where
  "delim s \<longleftrightarrow> s = [] \<or> hd s = CHR '','' \<or> hd s = CHR '']'' \<or> hd s = CHR ''}''"

lemma show_nat_all_digits: "\<forall>c \<in> set (show_nat n). is_digit c"
  using show_nat_digits by (auto simp: is_digit_def)

lemma show_nat_nonempty: "show_nat n \<noteq> []"
  by (simp add: show_nat.simps [of n])

lemma show_nat_hd: "hd (show_nat n) = CHR ''0'' \<Longrightarrow> n = 0"
proof (induction n rule: show_nat.induct)
  case (1 n)
  show ?case
  proof (cases "n < 10")
    case True
    then have "take_bit 8 (48 + n) = 48 + n" by (simp add: take_bit_nat_eq_self)
    with 1 True show ?thesis by (simp add: show_nat.simps [of n] char_of_eq_iff)
  next
    case False
    with 1 have "n div 10 = 0" by (simp add: show_nat.simps [of n] show_nat_nonempty)
    with False show ?thesis by simp
  qed
qed

lemma delim_no_digit: "delim t \<Longrightarrow> takeWhile is_digit t = [] \<and> dropWhile is_digit t = t"
  by (cases t) (auto simp: delim_def is_digit_def)

lemma digits1_append: "\<forall>c \<in> set ds. is_digit c \<Longrightarrow> ds \<noteq> [] \<Longrightarrow> delim t \<Longrightarrow> digits1 (ds @ t) = Some (ds, t)"
  by (simp add: digits1_def delim_no_digit takeWhile_append dropWhile_append)

lemma num_int_show: "delim t \<Longrightarrow> num_int (show_nat n @ t) = Some (show_nat n, t)"
proof (cases "n = 0")
  case False
  assume "delim t"
  with False show_nat_hd [of n] have "num_int (show_nat n @ t) = digits1 (show_nat n @ t)"
    by (cases "show_nat n") (auto simp: num_int_def show_nat_nonempty)
  with \<open>delim t\<close> show ?thesis by (simp add: digits1_append show_nat_all_digits show_nat_nonempty)
next
  case True
  have "show_nat 0 = ''0''" by code_simp
  with True show ?thesis by (simp add: num_int_def)
qed

lemma num_tail: "delim t \<Longrightarrow> num_frac t = Some ([], t) \<and> num_exp t = Some ([], t)"
  by (cases t) (auto simp: delim_def num_frac_def num_exp_def)

lemma thenM_show: "delim t \<Longrightarrow> thenM (thenM (num_int (show_nat n @ t)) num_frac) num_exp = Some (show_nat n, t)"
  by (simp add: num_int_show thenM_def num_tail emit_def)

lemma number_show: "delim t \<Longrightarrow> number (show_int i @ t) = Some (show_int i, t)"
proof (cases "i < 0")
  case True
  assume "delim t"
  with True thenM_show [of t "nat (- i)"] show ?thesis by (simp add: number_def show_int_def emit_def)
next
  case False
  assume "delim t"
  obtain c s where cs: "show_nat (nat i) = c # s" using show_nat_nonempty by (cases "show_nat (nat i)") auto
  with show_nat_all_digits [of "nat i"] have "is_digit c" by auto
  then have "number (c # s @ t) = thenM (thenM (num_int (c # s @ t)) num_frac) num_exp"
    by (auto simp: number_def is_digit_def)
  with thenM_show [OF \<open>delim t\<close>, of "nat i"] False cs show ?thesis by (simp add: show_int_def)
qed

fun wf :: "json \<Rightarrow> bool" where
  "wf JNull = True"
| "wf (JBool b) = True"
| "wf (JNum n) = (\<exists>i. n = show_int i)"
| "wf (JStr s) = utf8 s"
| "wf (JArr vs) = list_all wf vs"
| "wf (JObj ms) = list_all (\<lambda>(k, v). utf8 k \<and> wf v) ms"

fun nesting :: "json \<Rightarrow> int" where
  "nesting (JArr vs) = 1 + fold max (map nesting vs) 0"
| "nesting (JObj ms) = 1 + fold max (map (\<lambda>(k, v). nesting v) ms) 0"
| "nesting v = 0"

fun cost :: "json \<Rightarrow> nat" where
  "cost (JArr vs) = 1 + sum_list (map (\<lambda>v. 1 + cost v) vs)"
| "cost (JObj ms) = 1 + sum_list (map (\<lambda>(k, v). 1 + cost v) ms)"
| "cost v = 1"

lemma fold_max_ge: "(x :: int) \<in> set xs \<or> x \<le> m \<Longrightarrow> x \<le> fold max xs m"
  unfolding le_fold_max by blast

lemma skip_ws_id: "s \<noteq> [] \<Longrightarrow> hd s \<notin> {CHR '' '', CHR 0x09, CHR 0x0A, CHR 0x0D} \<Longrightarrow> skip_ws s = s"
  by (cases s) (auto simp: skip_ws_def)

lemma skip_ws_delim: "delim s \<Longrightarrow> skip_ws s = s"
  by (cases s) (auto simp: skip_ws_def delim_def)

text \<open>The first character of an encoded value.\<close>

definition starts :: "char \<Rightarrow> bool" where
  "starts c \<longleftrightarrow> c \<in> {CHR 0x22, CHR ''['', CHR ''{'', CHR ''t'', CHR ''f'', CHR ''n'', CHR ''-''} \<or> is_digit c"

lemma digit_plain: "is_digit c \<Longrightarrow> c \<notin> {CHR '' '', CHR 0x09, CHR 0x0A, CHR 0x0D, CHR '']'', CHR ''}'', CHR 0x22, CHR ''['', CHR ''{'', CHR ''t'', CHR ''f'', CHR ''n''}"
  by (auto simp: is_digit_def)

lemma show_int_Cons:
  obtains c s where "show_int i = c # s" and "c = CHR ''-'' \<or> is_digit c"
proof (cases "show_nat (nat i)")
  case (Cons c s)
  with show_nat_all_digits [of "nat i"] that show ?thesis by (cases "i < 0") (auto simp: show_int_def)
qed (simp add: show_nat_nonempty)

lemma Marshal_starts: "wf v \<Longrightarrow> \<exists>c s. Marshal v = c # s \<and> starts c"
proof (cases v)
  case (JNum n)
  assume "wf v"
  with JNum obtain i where n: "n = show_int i" by auto
  obtain c s where "show_int i = c # s" "c = CHR ''-'' \<or> is_digit c" by (rule show_int_Cons)
  then show ?thesis using JNum n by (auto simp: starts_def)
qed (auto simp: quote_def starts_def)

lemma starts_skip: "starts c \<Longrightarrow> skip_ws (c # s) = c # s \<and> c \<noteq> CHR '']'' \<and> c \<noteq> CHR ''}''"
  by (cases "is_digit c") (use digit_plain [of c] in \<open>simp add: skip_ws_def\<close>, auto simp: starts_def skip_ws_def)

lemma value_at_num:
  assumes "delim t"
  shows "value_at (Suc n) d (show_int i @ t) = Some (JNum (show_int i), t)"
proof -
  obtain c s where cs: "show_int i = c # s" "c = CHR ''-'' \<or> is_digit c" by (rule show_int_Cons)
  then have "starts c" by (auto simp: starts_def)
  with cs(1) have "skip_ws (show_int i @ t) = c # s @ t" by (simp add: starts_skip)
  moreover have "c \<notin> {CHR 0x22, CHR ''['', CHR ''{'', CHR ''t'', CHR ''f'', CHR ''n''}"
    using cs(2) by (cases "is_digit c") (use digit_plain [of c] in simp, simp)
  ultimately show ?thesis using number_show [OF assms, of i] cs(1) by simp
qed

text \<open>Decoding gives back a value inside a document.\<close>

definition reads :: "json \<Rightarrow> bool" where
  "reads v \<longleftrightarrow> (\<forall>n d t. nesting v \<le> d \<longrightarrow> cost v \<le> n \<longrightarrow> delim t \<longrightarrow> value_at n d (Marshal v @ t) = Some (v, t))"

lemma readsD: "reads v \<Longrightarrow> nesting v \<le> d \<Longrightarrow> cost v \<le> n \<Longrightarrow> delim t \<Longrightarrow> value_at n d (Marshal v @ t) = Some (v, t)"
  by (simp add: reads_def)

lemma elements_at_Marshal:
  assumes "\<forall>x \<in> set (v # vs). reads x \<and> nesting x \<le> d" and "sum_list (map (\<lambda>x. 1 + cost x) (v # vs)) \<le> n"
  shows "elements_at n d (Marshal v @ concat (map (\<lambda>z. CHR '','' # Marshal z) vs) @ CHR '']'' # t) = Some (v # vs, t)"
  using assms
proof (induction vs arbitrary: v n)
  case Nil
  then obtain n' where n: "n = Suc n'" "cost v \<le> n'" by (cases n) auto
  have "delim (CHR '']'' # t)" by (simp add: delim_def)
  with Nil n show ?case by (simp add: readsD skip_ws_delim)
next
  case (Cons u vs)
  then obtain n' where n: "n = Suc n'" "cost v \<le> n'" by (cases n) auto
  let ?r = "CHR '','' # Marshal u @ concat (map (\<lambda>z. CHR '','' # Marshal z) vs) @ CHR '']'' # t"
  have d: "delim ?r" by (simp add: delim_def)
  have "value_at n' d (Marshal v @ ?r) = Some (v, ?r)" using Cons.prems n d by (intro readsD) auto
  moreover have "elements_at n' d (Marshal u @ concat (map (\<lambda>z. CHR '','' # Marshal z) vs) @ CHR '']'' # t) = Some (u # vs, t)"
    using Cons.prems n by (intro Cons.IH) auto
  ultimately show ?case using n(1) skip_ws_delim [OF d] by simp
qed

lemma members_at_Marshal:
  assumes "\<forall>(k, x) \<in> set (m # ms). utf8 k \<and> reads x \<and> nesting x \<le> d \<and> wf x" and "sum_list (map (\<lambda>(k, x). 1 + cost x) (m # ms)) \<le> n"
  shows "members_at n d ((\<lambda>(k, x). quote k @ CHR '':'' # Marshal x) m @ concat (map (\<lambda>z. CHR '','' # (\<lambda>(k, x). quote k @ CHR '':'' # Marshal x) z) ms) @ CHR ''}'' # t)
    = Some (m # ms, t)"
  using assms
proof (induction ms arbitrary: m n)
  case Nil
  obtain k v where m: "m = (k, v)" by fastforce
  with Nil obtain n' where n: "n = Suc n'" "cost v \<le> n'" by (cases n) auto
  have d: "delim (CHR ''}'' # t)" by (simp add: delim_def)
  have "value_at n' d (Marshal v @ CHR ''}'' # t) = Some (v, CHR ''}'' # t)" using Nil.prems m n d by (intro readsD) auto
  with Nil m n show ?case by (simp add: skip_ws_delim [OF d] quote_def unquote_quote_body skip_ws_def)
next
  case (Cons u ms)
  obtain k v where m: "m = (k, v)" by fastforce
  with Cons.prems obtain n' where n: "n = Suc n'" "cost v \<le> n'" by (cases n) auto
  let ?rest = "(\<lambda>(k, x). quote k @ CHR '':'' # Marshal x) u @ concat (map (\<lambda>z. CHR '','' # (\<lambda>(k, x). quote k @ CHR '':'' # Marshal x) z) ms) @ CHR ''}'' # t"
  have d: "delim (CHR '','' # ?rest)" by (simp add: delim_def)
  have "value_at n' d (Marshal v @ CHR '','' # ?rest) = Some (v, CHR '','' # ?rest)" using Cons.prems m n d by (intro readsD) auto
  moreover have "members_at n' d ?rest = Some (u # ms, t)" using Cons.prems n m by (intro Cons.IH) auto
  ultimately show ?case using Cons.prems m n(1)
    by (simp add: skip_ws_delim [OF d] quote_def unquote_quote_body skip_ws_def)
qed

lemma reads_wf: "wf v \<Longrightarrow> reads v"
proof (induction v)
  case (JNum x)
  then obtain i where "x = show_int i" by auto
  then show ?case by (auto simp: reads_def value_at_num Suc_le_eq gr0_conv_Suc simp del: value_at.simps)
next
  case (JArr vs)
  show ?case unfolding reads_def
  proof (intro allI impI)
    fix n d t assume n: "nesting (JArr vs) \<le> d" "cost (JArr vs) \<le> n" "delim t"
    obtain n' where n': "n = Suc n'" using n(2) by (cases n) auto
    have nonneg: "0 \<le> fold max (map nesting vs) 0" by (rule fold_max_ge) simp
    show "value_at n d (Marshal (JArr vs) @ t) = Some (JArr vs, t)"
    proof (cases vs)
      case Nil
      with n n' nonneg show ?thesis by (simp add: skip_ws_def join_def)
    next
      case (Cons u us)
      have r: "\<forall>x \<in> set vs. reads x \<and> nesting x \<le> d - 1"
      proof
        fix x assume x: "x \<in> set vs"
        then have "nesting x \<le> fold max (map nesting vs) 0" by (intro fold_max_ge) simp
        with JArr x n(1) show "reads x \<and> nesting x \<le> d - 1" by (simp add: list_all_iff)
      qed
      have "elements_at n' (d - 1) (Marshal u @ concat (map (\<lambda>z. CHR '','' # Marshal z) us) @ CHR '']'' # t) = Some (u # us, t)"
        using r n(2) n' Cons by (intro elements_at_Marshal) simp_all
      moreover obtain c s where "Marshal u = c # s" "starts c" using Marshal_starts [of u] JArr.prems Cons by auto
      moreover have "0 < d" using n(1) nonneg by simp
      ultimately show ?thesis using Cons n' starts_skip [of c] by (simp add: join_def skip_ws_def comp_def)
    qed
  qed
next
  case (JObj ms)
  show ?case unfolding reads_def
  proof (intro allI impI)
    fix n d t assume n: "nesting (JObj ms) \<le> d" "cost (JObj ms) \<le> n" "delim t"
    obtain n' where n': "n = Suc n'" using n(2) by (cases n) auto
    have nonneg: "0 \<le> fold max (map (\<lambda>(k, v). nesting v) ms) 0" by (rule fold_max_ge) simp
    show "value_at n d (Marshal (JObj ms) @ t) = Some (JObj ms, t)"
    proof (cases ms)
      case Nil
      with n n' nonneg show ?thesis by (simp add: skip_ws_def join_def)
    next
      case (Cons u us)
      have r: "\<forall>(k, x) \<in> set ms. utf8 k \<and> reads x \<and> nesting x \<le> d - 1 \<and> wf x"
      proof (clarify)
        fix k x assume m: "(k, x) \<in> set ms"
        with JObj.prems have "utf8 k" "wf x" by (auto simp: list_all_iff)
        moreover from JObj.IH [OF m, of x] \<open>wf x\<close> have "reads x" by (simp add: snds.intros)
        moreover have "nesting x \<le> fold max (map (\<lambda>(k, v). nesting v) ms) 0" using m by (intro fold_max_ge) force
        ultimately show "utf8 k \<and> reads x \<and> nesting x \<le> d - 1 \<and> wf x" using n(1) by simp
      qed
      have "members_at n' (d - 1) ((\<lambda>(k, x). quote k @ CHR '':'' # Marshal x) u @
          concat (map (\<lambda>z. CHR '','' # (\<lambda>(k, x). quote k @ CHR '':'' # Marshal x) z) us) @ CHR ''}'' # t) = Some (u # us, t)"
        using r n(2) n' Cons by (intro members_at_Marshal) simp_all
      moreover have "0 < d" using n(1) nonneg by simp
      ultimately show ?thesis using Cons n' by (cases u) (simp add: join_def skip_ws_def comp_def quote_def)
    qed
  qed
qed (auto simp: reads_def quote_def unquote_quote_body skip_ws_def Suc_le_eq gr0_conv_Suc)

lemma cost_length: "wf v \<Longrightarrow> cost v \<le> 2 * length (Marshal v)"
proof (induction v)
  case (JNum x)
  then show ?case using Marshal_starts [of "JNum x"] by auto
next
  case (JArr vs)
  have "list_all wf us \<Longrightarrow> set us \<subseteq> set vs \<Longrightarrow> sum_list (map (\<lambda>v. 1 + cost v) us) \<le> 2 * length (concat (map (\<lambda>z. CHR '','' # Marshal z) us))" for us
    using JArr.IH by (induction us) (simp, fastforce)
  from this [of "tl vs"] JArr show ?case by (cases vs) (fastforce simp: join_def comp_def)+
next
  case (JObj ms)
  let ?f = "\<lambda>(k, x). quote k @ CHR '':'' # Marshal x"
  have c: "cost (snd m) \<le> 2 * length (?f m)" if "m \<in> set ms" for m
    using JObj.IH [OF that, of "snd m"] JObj.prems that by (cases m) (auto simp: list_all_iff snds.intros)
  have "set us \<subseteq> set ms \<Longrightarrow> sum_list (map (\<lambda>(k, v). 1 + cost v) us) \<le> 2 * length (concat (map (\<lambda>z. CHR '','' # ?f z) us))" for us
    using c by (induction us) (simp, fastforce)
  from this [of "tl ms"] c show ?case by (cases ms) (fastforce simp: join_def comp_def)+
qed (auto simp: quote_def)

text \<open>Decoding inverts encoding, for valid UTF-8, integers and a nesting within the limit of the decoder.\<close>

lemma Unmarshal_Marshal:
  assumes "wf v" and "nesting v \<le> maxNestingDepth"
  shows "Unmarshal (Marshal v) = Some v"
proof -
  have "value_at (2 * length (Marshal v) + 2) maxNestingDepth (Marshal v @ []) = Some (v, [])"
    using reads_wf [OF assms(1)] assms(2) cost_length [OF assms(1)] by (intro readsD) (simp_all add: delim_def)
  then show ?thesis by (simp add: Unmarshal_def skip_ws_def)
qed

end
