(* ===== verification/OpLog.thy ===== *)
theory OpLog
  imports Schema Json
begin

text \<open>
  The operation log of \<open>internal/store/replication.go\<close>: sequence numbers and hybrid clock of the operations
  a node appends, the pruning of retained envelopes, the reads of the log and the status of the peers.
  The identity of the node is part of the \<open>Store\<close> value; it is a record that the operations take.
\<close>

section \<open>Configuration\<close>

record config =
  replicationClusterID :: string
  replicationNodeID :: string
  controlAuthority :: string
  controlLease :: gotime

definition replicationProtocolVersion :: int where
  "replicationProtocolVersion = 1"

definition maxReplicationPayloadBytes :: int where
  "maxReplicationPayloadBytes = 1048576"

text \<open>The regular expression of identities: an alphanumeric character, then 7 to 127 characters that are
  alphanumeric, dot, underscore or dash.\<close>

definition alnum :: "char \<Rightarrow> bool" where
  "alnum c = (let b = of_char c :: nat in 48 \<le> b \<and> b \<le> 57 \<or> 65 \<le> b \<and> b \<le> 90 \<or> 97 \<le> b \<and> b \<le> 122)"

definition replicationIdentityPattern :: "string \<Rightarrow> bool" where
  "replicationIdentityPattern s = (case s of [] \<Rightarrow> False
     | c # r \<Rightarrow> alnum c \<and> 7 \<le> len r \<and> len r \<le> 127 \<and> list_all (\<lambda>x. alnum x \<or> x = CHR ''.'' \<or> x = CHR ''_'' \<or> x = CHR ''-'') r)"

definition ConfigureReplication :: "string \<Rightarrow> string \<Rightarrow> config \<Rightarrow> err + config" where
  "ConfigureReplication clusterID nodeID cfg =
     (let clusterID = TrimSpace clusterID; nodeID = TrimSpace nodeID in
      if clusterID = [] \<and> nodeID = [] then Inr cfg
      else if \<not> replicationIdentityPattern clusterID \<or> \<not> replicationIdentityPattern nodeID
      then Inl (ErrText ''cluster-id and node-id must both be 8-128 URL-safe characters'')
      else Inr (cfg\<lparr>replicationClusterID := clusterID, replicationNodeID := nodeID\<rparr>))"

definition IsControlAuthority :: "config \<Rightarrow> bool" where
  "IsControlAuthority cfg \<longleftrightarrow> controlAuthority cfg \<noteq> [] \<and> replicationNodeID cfg = controlAuthority cfg"

section \<open>The log\<close>

record ReplicationOperation =
  Ro_Version :: int
  Ro_ClusterID :: string
  Ro_Origin :: string
  Ro_Sequence :: nat
  Ro_PhysicalMS :: int
  Ro_Logical :: "32 word"
  Ro_Kind :: string
  Ro_ChannelID :: string
  Ro_ActorType :: string
  Ro_ActorID :: string
  Ro_Payload :: string
  Ro_CreatedAt :: gotime

text \<open>The sequence numbers known of an origin: those of the retained envelopes and of the cursor.\<close>

definition known_sequences :: "db \<Rightarrow> string \<Rightarrow> nat list" where
  "known_sequences d origin =
     map ro_sequence (filter (\<lambda>r. ro_origin r = origin) (t_repl_ops d)) @
     map rc_sequence (filter (\<lambda>c. rc_origin c = origin) (t_repl_cursors d))"

definition ReplicationCursor :: "string \<Rightarrow> nat store" where
  "ReplicationCursor origin = query (\<lambda>d. fold max (known_sequences d origin) 0)"

definition log_head :: "string \<Rightarrow> db \<Rightarrow> (nat \<times> int \<times> 32 word) option" where
  "log_head origin d = first_by (\<lambda>(s, p, l). (- int s, - p))
     (map (\<lambda>r. (ro_sequence r, ro_physical_ms r, ro_logical r)) (filter (\<lambda>r. ro_origin r = origin) (t_repl_ops d)) @
      map (\<lambda>c. (rc_sequence c, 0, 0)) (filter (\<lambda>c. rc_origin c = origin) (t_repl_cursors d)))"

text \<open>The operation after the head of the log at a time.\<close>

definition next_stamp :: "(nat \<times> int \<times> 32 word) option \<Rightarrow> int \<Rightarrow> nat \<times> int \<times> 32 word" where
  "next_stamp head physical =
     (case (case head of None \<Rightarrow> (0, 0, 0) | Some h \<Rightarrow> h) of (previousSequence, previousPhysical, previousLogical) \<Rightarrow>
        if previousPhysical \<ge> physical then (previousSequence + 1, previousPhysical, previousLogical + 1)
        else (previousSequence + 1, physical, 0))"

definition appendReplicationOperation ::
    "config \<Rightarrow> string \<Rightarrow> string \<Rightarrow> string \<Rightarrow> string \<Rightarrow> (string \<times> json) list \<Rightarrow> gotime \<Rightarrow> unit store" where
  "appendReplicationOperation cfg kind channelID actorType actorID payload now =
     (if replicationClusterID cfg = [] then returnM ()
      else let encoded = Marshal (JObj (sort_key fst payload)) in
        bindM (requireM (\<not> len encoded > maxReplicationPayloadBytes) (ErrText ''replication operation exceeds 1 MiB'')) (\<lambda>_.
        bindM (query (log_head (replicationNodeID cfg))) (\<lambda>head.
        case next_stamp head (UnixMilli now) of (seq, physical, logical) \<Rightarrow>
          bindM (sql_insert t_repl_ops_update chk_repl_ops
                   \<lparr>ro_cluster_id = replicationClusterID cfg, ro_origin = replicationNodeID cfg, ro_sequence = seq, ro_physical_ms = physical,
                    ro_logical = logical, ro_kind = kind, ro_channel_id = channelID, ro_actor_type = actorType, ro_actor_id = actorID,
                    ro_payload = encoded, ro_created_at = UnixMilli now\<rparr>) (\<lambda>_.
          returnM ()))))"

definition raise_cursor :: "string \<Rightarrow> nat \<Rightarrow> nat store" where
  "raise_cursor origin sequence =
     sql_upsert t_repl_cursors t_repl_cursors_update chk_repl_cursors rc_origin \<lparr>rc_origin = origin, rc_sequence = sequence\<rparr>
       (\<lambda>c. c\<lparr>rc_sequence := max (rc_sequence c) sequence\<rparr>)"

definition PruneReplicationOperations :: "string \<Rightarrow> nat \<Rightarrow> unit store" where
  "PruneReplicationOperations origin through =
     bindM (requireM (replicationIdentityPattern origin \<and> through \<noteq> 0) (ErrText ''invalid replication prune range'')) (\<lambda>_.
     tx (bindM (query (\<lambda>d. fold max (map ro_sequence (filter (\<lambda>r. ro_origin r = origin) (t_repl_ops d))) 0)) (\<lambda>high.
         bindM (requireM (\<not> through > high) (ErrText ''replication prune range exceeds retained high-water mark'')) (\<lambda>_.
         bindM (raise_cursor origin through) (\<lambda>_.
         bindM (sql_delete t_repl_ops t_repl_ops_update (\<lambda>_ r. ro_origin r = origin \<and> ro_sequence r \<le> through)) (\<lambda>_.
         returnM (Commit ())))))))"

definition row_operation :: "repl_op_row \<Rightarrow> ReplicationOperation" where
  "row_operation r = \<lparr>Ro_Version = replicationProtocolVersion, Ro_ClusterID = ro_cluster_id r, Ro_Origin = ro_origin r, Ro_Sequence = ro_sequence r,
     Ro_PhysicalMS = ro_physical_ms r, Ro_Logical = ro_logical r, Ro_Kind = ro_kind r, Ro_ChannelID = ro_channel_id r,
     Ro_ActorType = ro_actor_type r, Ro_ActorID = ro_actor_id r, Ro_Payload = ro_payload r, Ro_CreatedAt = OfUnixMilli (ro_created_at r)\<rparr>"

definition ReplicationOperations :: "string \<Rightarrow> nat \<Rightarrow> int \<Rightarrow> ReplicationOperation list store" where
  "ReplicationOperations origin after limit =
     (let limit = (if limit \<le> 0 \<or> limit > 500 then 500 else limit) in
      query (\<lambda>d. map row_operation (take (nat limit)
        (sort_key ro_sequence (filter (\<lambda>r. ro_origin r = origin \<and> ro_sequence r > after) (t_repl_ops d))))))"

section \<open>Status\<close>

record ReplicationStatus =
  Rs_ClusterID :: string
  Rs_NodeID :: string
  Rs_ControlAuthority :: bool
  Rs_Origins :: "(string \<times> nat) list"

record ReplicationPeerStatus =
  Rp_Peer :: string
  Rp_NodeID :: string
  Rp_LastAttemptAt :: gotime
  Rp_LastSuccessAt :: "gotime option"
  Rp_ConsecutiveFailures :: nat

record ReplicationMetrics =
  Rm_Operations :: "(string \<times> nat) list"
  Rm_Quarantined :: nat
  Rm_Peers :: "ReplicationPeerStatus list"
  Rm_SnapshotApplications :: nat
  Rm_LastSnapshotAt :: "gotime option"

text \<open>The highest sequence number of every origin; a Go map is an association list here.\<close>

definition origin_heads :: "db \<Rightarrow> (string \<times> nat) list" where
  "origin_heads d = map (\<lambda>o'. (o', fold max (known_sequences d o') 0))
     (remdups (map ro_origin (t_repl_ops d) @ map rc_origin (t_repl_cursors d)))"

definition ReplicationStatusOf :: "config \<Rightarrow> ReplicationStatus store" where
  "ReplicationStatusOf cfg = query (\<lambda>d. \<lparr>Rs_ClusterID = replicationClusterID cfg, Rs_NodeID = replicationNodeID cfg,
     Rs_ControlAuthority = IsControlAuthority cfg, Rs_Origins = origin_heads d\<rparr>)"

definition peer_status :: "peer_row \<Rightarrow> ReplicationPeerStatus" where
  "peer_status p = \<lparr>Rp_Peer = ps_peer p, Rp_NodeID = ps_node_id p, Rp_LastAttemptAt = OfUnixMilli (ps_last_attempt_at p),
     Rp_LastSuccessAt = map_option OfUnixMilli (ps_last_success_at p), Rp_ConsecutiveFailures = ps_consecutive_failures p\<rparr>"

definition ReplicationMetricsOf :: "ReplicationMetrics store" where
  "ReplicationMetricsOf =
     bindM (query origin_heads) (\<lambda>ops.
     bindM (query (\<lambda>d. length (t_quarantine d))) (\<lambda>quarantined.
     bindM (query (\<lambda>d. (sum_list (map rs_application_count (t_snapshots d)),
         case map rs_last_applied_at (t_snapshots d) of [] \<Rightarrow> None | t # ts \<Rightarrow> Some (fold max ts t)))) (\<lambda>(applications, at).
     bindM (query (\<lambda>d. map peer_status (sort_key ps_peer (t_peers d)))) (\<lambda>peers.
     returnM \<lparr>Rm_Operations = ops, Rm_Quarantined = quarantined, Rm_Peers = peers, Rm_SnapshotApplications = applications,
              Rm_LastSnapshotAt = map_option OfUnixMilli at\<rparr>))))"

definition RecordReplicationPeerResult :: "string \<Rightarrow> string \<Rightarrow> string option \<Rightarrow> gotime \<Rightarrow> unit store" where
  "RecordReplicationPeerResult peer nodeID syncErr now =
     (case syncErr of
        None \<Rightarrow> ignoreM (sql_upsert t_peers t_peers_update chk_peers ps_peer
          \<lparr>ps_peer = peer, ps_node_id = nodeID, ps_last_attempt_at = UnixMilli now, ps_last_success_at = Some (UnixMilli now),
           ps_consecutive_failures = 0, ps_last_error = []\<rparr>
          (\<lambda>p. p\<lparr>ps_node_id := nodeID, ps_last_attempt_at := UnixMilli now, ps_last_success_at := Some (UnixMilli now),
                  ps_consecutive_failures := 0, ps_last_error := []\<rparr>))
      | Some message \<Rightarrow>
          let message = (if len message > 500 then take 500 message else message) in
          ignoreM (sql_upsert t_peers t_peers_update chk_peers ps_peer
            \<lparr>ps_peer = peer, ps_node_id = nodeID, ps_last_attempt_at = UnixMilli now, ps_last_success_at = None,
             ps_consecutive_failures = 1, ps_last_error = message\<rparr>
            (\<lambda>p. p\<lparr>ps_node_id := (if nodeID = [] then ps_node_id p else nodeID), ps_last_attempt_at := UnixMilli now,
                    ps_consecutive_failures := ps_consecutive_failures p + 1, ps_last_error := message\<rparr>)))"

section \<open>Sequence numbers\<close>

definition high :: "db \<Rightarrow> string \<Rightarrow> nat" where
  "high d origin = fold max (known_sequences d origin) 0"

lemma high_ge: "n \<le> high d origin \<longleftrightarrow> n = 0 \<or>
    (\<exists>r \<in> set (t_repl_ops d). ro_origin r = origin \<and> n \<le> ro_sequence r) \<or>
    (\<exists>c \<in> set (t_repl_cursors d). rc_origin c = origin \<and> n \<le> rc_sequence c)"
  by (auto simp: high_def le_fold_max known_sequences_def)

lemma high_op: "r \<in> set (t_repl_ops d) \<Longrightarrow> ro_sequence r \<le> high d (ro_origin r)"
  using high_ge [of "ro_sequence r" d "ro_origin r"] by blast

lemma log_head_high:
  "(case log_head origin d of None \<Rightarrow> 0 | Some (s, p, l) \<Rightarrow> s) = high d origin"
proof -
  let ?xs = "map (\<lambda>r. (ro_sequence r, ro_physical_ms r, ro_logical r)) (filter (\<lambda>r. ro_origin r = origin) (t_repl_ops d)) @
      map (\<lambda>c. (rc_sequence c, 0, 0)) (filter (\<lambda>c. rc_origin c = origin) (t_repl_cursors d))"
  have k: "map fst ?xs = known_sequences d origin" by (simp add: known_sequences_def comp_def)
  show ?thesis
  proof (cases "log_head origin d")
    case None
    then have "?xs = []" by (simp add: log_head_def)
    then have "known_sequences d origin = []" unfolding k [symmetric] by simp
    with None show ?thesis by (simp add: high_def)
  next
    case (Some h)
    obtain s p l where h: "h = (s, p, l)" by (cases h)
    from first_by_SomeD [OF Some [unfolded log_head_def h]]
    have m: "(s, p, l) \<in> set ?xs" and le: "\<And>y. y \<in> set ?xs \<Longrightarrow> fst y \<le> s" by (fastforce simp: less_eq_prod_def)+
    from m have "s \<in> set (known_sequences d origin)" unfolding k [symmetric] by force
    then have "s \<le> high d origin" by (auto simp: high_def le_fold_max)
    moreover have "high d origin \<le> s"
    proof -
      have "\<forall>x \<in> set (known_sequences d origin). x \<le> s" using le unfolding k [symmetric] set_map by blast
      then show ?thesis using le_fold_max [of "high d origin" "known_sequences d origin" 0] by (force simp: high_def)
    qed
    ultimately show ?thesis using Some h by simp
  qed
qed

definition appended :: "config \<Rightarrow> db \<Rightarrow> db \<Rightarrow> bool" where
  "appended cfg d d' \<longleftrightarrow> (\<exists>r. d' = t_repl_ops_update (\<lambda>xs. xs @ [r]) d \<and> ro_origin r = replicationNodeID cfg \<and>
     ro_sequence r = high d (replicationNodeID cfg) + 1)"

lemma next_stamp_seq: "next_stamp (log_head origin d) ms = (sq, p, l) \<Longrightarrow> sq = high d origin + 1"
  using log_head_high [of origin d] by (auto simp: next_stamp_def split: option.splits if_splits)

lemma appendedI:
  "next_stamp (log_head (replicationNodeID cfg) d) ms = (sq, p, l) \<Longrightarrow> ro_sequence r = sq \<Longrightarrow> ro_origin r = replicationNodeID cfg \<Longrightarrow>
   appended cfg d (t_repl_ops_update (\<lambda>xs. xs @ [r]) d)"
  unfolding appended_def by (intro exI [of _ r]) (auto dest: next_stamp_seq)

lemma sat_append [sat_intro]:
  assumes "\<And>e. Q (Inl e) d" and "replicationClusterID cfg = [] \<Longrightarrow> Q (Inr ()) d"
    and "\<And>d'. replicationClusterID cfg \<noteq> [] \<Longrightarrow> appended cfg d d' \<Longrightarrow> Q (Inr ()) d'"
  shows "sat (appendReplicationOperation cfg kind cid at aid payload now) d Q"
  unfolding appendReplicationOperation_def Let_def
  by (intro sat_intro; auto intro!: sat_intro assms(3) simp: assms(1,2) simp del: Marshal.simps; erule appendedI; simp)

lemma high_appended: "appended cfg d d' \<Longrightarrow> n \<le> high d origin \<Longrightarrow> n \<le> high d' origin"
  by (auto simp: appended_def high_ge)

lemma keeps_append [keeps_intro]:
  "(\<And>d d'. I d \<Longrightarrow> appended cfg d d' \<Longrightarrow> I d') \<Longrightarrow> keeps I (appendReplicationOperation cfg kind cid at aid payload now)"
  by (rule keepsI) (auto intro!: sat_intro)

definition cursor_raised :: "string \<Rightarrow> nat \<Rightarrow> db \<Rightarrow> db \<Rightarrow> bool" where
  "cursor_raised origin sequence d d' \<longleftrightarrow> (\<exists>f. d' = t_repl_cursors_update f d) \<and>
     (\<forall>n o'. n \<le> high d' o' \<longleftrightarrow> n \<le> high d o' \<or> o' = origin \<and> n \<le> sequence) \<and>
     (\<exists>c \<in> set (t_repl_cursors d'). rc_origin c = origin \<and> sequence \<le> rc_sequence c)"

lemma cursor_raised_insert: "cursor_raised origin sequence d (t_repl_cursors_update (\<lambda>xs. xs @ [\<lparr>rc_origin = origin, rc_sequence = sequence\<rparr>]) d)"
  by (auto simp: cursor_raised_def high_ge)

lemma cursor_raised_update:
  assumes "c \<in> set (t_repl_cursors d)" and "rc_origin c = origin"
  shows "cursor_raised origin sequence d
    (t_repl_cursors_update (upd_where (\<lambda>x. rc_origin x = origin) (\<lambda>c. c\<lparr>rc_sequence := max (rc_sequence c) sequence\<rparr>)) d)"
proof -
  let ?d = "t_repl_cursors_update (upd_where (\<lambda>x. rc_origin x = origin) (\<lambda>c. c\<lparr>rc_sequence := max (rc_sequence c) sequence\<rparr>)) d"
  have "n \<le> high ?d o' \<longleftrightarrow> n \<le> high d o' \<or> o' = origin \<and> n \<le> sequence" for n o'
    using assms by (cases "o' = origin") (auto simp: high_ge bex_upd_where le_max_iff_disj if_distrib cong: if_cong)
  moreover have "\<exists>c \<in> set (t_repl_cursors ?d). rc_origin c = origin \<and> sequence \<le> rc_sequence c"
    using assms by (auto simp: bex_upd_where intro!: bexI [of _ c])
  ultimately show ?thesis unfolding cursor_raised_def by blast
qed

lemma sat_raise_cursor [sat_intro]:
  assumes "\<And>e. Q (Inl e) d" and "\<And>k d'. cursor_raised origin sequence d d' \<Longrightarrow> Q (Inr k) d'"
  shows "sat (raise_cursor origin sequence) d Q"
  unfolding raise_cursor_def
  by (intro sat_intro; auto intro!: assms cursor_raised_insert cursor_raised_update)

lemma high_prune:
  assumes "n \<le> high d o'" and "cursor_raised origin through d d'"
  shows "n \<le> high (t_repl_ops_update (del_where (\<lambda>r. ro_origin r = origin \<and> ro_sequence r \<le> through)) d') o'"
proof -
  from assms have "n \<le> high d' o'" "\<exists>c \<in> set (t_repl_cursors d'). rc_origin c = origin \<and> through \<le> rc_sequence c"
    by (auto simp: cursor_raised_def)
  then show ?thesis by (fastforce simp: high_ge)
qed

lemma keeps_prune: "keeps (\<lambda>d. n \<le> high d o') (PruneReplicationOperations origin through)"
  unfolding PruneReplicationOperations_def
  by (rule keepsI, intro sat_intro) (auto intro!: sat_intro, rule high_prune)

text \<open>What happens to the log of a node between two of its operations: its own appends, and prunes.\<close>

datatype log_op =
    OpAppend string string string string "(string \<times> json) list" gotime
  | OpPrune string nat

fun log_exec :: "config \<Rightarrow> log_op \<Rightarrow> unit store" where
  "log_exec cfg (OpAppend kind cid at aid payload now) = tx (bindM (appendReplicationOperation cfg kind cid at aid payload now) (\<lambda>_. returnM (Commit ())))"
| "log_exec cfg (OpPrune origin through) = PruneReplicationOperations origin through"

lemma keeps_log_exec: "keeps (\<lambda>d. n \<le> high d o') (log_exec cfg op)"
proof (cases op)
  case (OpPrune origin through)
  then show ?thesis by (simp add: keeps_prune)
qed (simp, intro keeps_intro, erule (1) high_appended)

interpretation log_heads: lasting_always "log_exec cfg" "\<lambda>d. n \<le> high d origin" for cfg n origin
  by unfold_locales (rule keeps_log_exec)

text \<open>C16: sequence numbers are not reused.  Whatever appends and prunes happen in between, with any faults, the next
  operation a node appends has a sequence number above every operation of that node that was ever in
  the log, also those whose envelopes have been pruned, and it is the successor of the highest number
  known.\<close>

theorem sequence_not_reused:
  assumes "old \<in> set (t_repl_ops (wdb w))" and "ro_origin old = replicationNodeID cfg" and "replicationClusterID cfg \<noteq> []"
    and "appendReplicationOperation cfg kind cid at aid payload now (history (log_exec cfg) ops w) = (Inr (), w')"
  shows "\<exists>new. t_repl_ops (wdb w') = t_repl_ops (wdb (history (log_exec cfg) ops w)) @ [new] \<and> ro_origin new = replicationNodeID cfg \<and>
    ro_sequence old < ro_sequence new \<and> ro_sequence new = high (wdb (history (log_exec cfg) ops w)) (replicationNodeID cfg) + 1"
proof -
  let ?w = "history (log_exec cfg) ops w"
  have "ro_sequence old \<le> high (wdb ?w) (replicationNodeID cfg)"
    using high_op [OF assms(1)] assms(2) by (auto intro: log_heads.lasts_always)
  moreover have "sat (appendReplicationOperation cfg kind cid at aid payload now) (wdb ?w) (\<lambda>r d. r = Inr () \<longrightarrow> appended cfg (wdb ?w) d)"
    using assms(3) by (auto intro!: sat_intro)
  from satD [OF this assms(4)] have "appended cfg (wdb ?w) (wdb w')" by simp
  ultimately show ?thesis by (auto simp: appended_def)
qed

definition demo_config :: config where
  "demo_config = \<lparr>replicationClusterID = ''cluster-1'', replicationNodeID = ''node-a-1'', controlAuthority = [], controlLease = 0\<rparr>"

definition demo_log :: "db world" where
  "demo_log = history (log_exec demo_config) [OpAppend ''k'' ''c'' ''webhook'' ''w'' [] 5000000, OpAppend ''k'' ''c'' ''webhook'' ''w'' [] 5000000] (up empty_db)"

definition demo_prune :: "log_op list" where
  "demo_prune = [OpPrune ''node-a-1'' 2]"

theorem sequence_not_reused_witness:
  "t_repl_ops (wdb (history (log_exec demo_config) demo_prune demo_log)) = [] \<and>
   (\<exists>new. t_repl_ops (wdb (snd (appendReplicationOperation demo_config ''k'' ''c'' ''webhook'' ''w'' [] 9000000 (history (log_exec demo_config) demo_prune demo_log)))) = [new] \<and>
     ro_sequence new = 3)"
proof -
  let ?w = "history (log_exec demo_config) demo_prune demo_log"
  let ?old = "\<lparr>ro_cluster_id = ''cluster-1'', ro_origin = ''node-a-1'', ro_sequence = 2, ro_physical_ms = 5, ro_logical = 1, ro_kind = ''k'', ro_channel_id = ''c'',
    ro_actor_type = ''webhook'', ro_actor_id = ''w'', ro_payload = ''{}'', ro_created_at = 5\<rparr>"
  have f: "fst (appendReplicationOperation demo_config ''k'' ''c'' ''webhook'' ''w'' [] 9000000 ?w) = Inr ()" by code_simp
  have e: "t_repl_ops (wdb ?w) = []" "high (wdb ?w) (replicationNodeID demo_config) = 2" by code_simp+
  have "?old \<in> set (t_repl_ops (wdb demo_log))" "ro_origin ?old = replicationNodeID demo_config" "replicationClusterID demo_config \<noteq> []" by code_simp+
  from sequence_not_reused [OF this, of "''k''" "''c''" "''webhook''" "''w''" "[]" 9000000 demo_prune, OF prod.collapse [symmetric, of "appendReplicationOperation demo_config ''k'' ''c'' ''webhook'' ''w'' [] 9000000 ?w", unfolded f]]
  show ?thesis unfolding e by auto
qed

end
