(* ===== verification/Webhooks.thy ===== *)
theory Webhooks
  imports Access
begin

text \<open>
  Channels and incoming webhooks of store.go (\<open>BootstrapWebhook\<close> to \<open>ImportWebhooks\<close>): creation with a
  secret that is stored as a hash, the channel-override policy kept in the settings table, revocation
  and the import with its dry run.
\<close>

section \<open>Data\<close>

record ChannelSummary =
  Cs_ID :: string
  Cs_Name :: string
  Cs_DisplayName :: string
  Cs_Description :: string
  Cs_AccentColor :: string
  Cs_Visibility :: string
  Cs_NotificationLevel :: string
  Cs_UnreadCount :: nat
  Cs_FiringCount :: nat
  Cs_TotalCount :: nat
  Cs_TotalMessages :: nat

record CreateChannelInput =
  Ci_Name :: string
  Ci_DisplayName :: string
  Ci_Description :: string
  Ci_AccentColor :: string
  Ci_Visibility :: string

record WebhookImport =
  Wi_Token :: string
  Wi_Channel :: string
  Wi_ChannelLocked :: bool

record WebhookImportResult =
  Wr_Created :: nat
  Wr_Existing :: nat

record Webhook =
  Wh_ID :: string
  Wh_ChannelID :: string
  Wh_Channel :: string
  Wh_Kind :: string
  Wh_CreatedAt :: gotime
  Wh_RevokedAt :: "gotime option"
  Wh_ChannelLocked :: bool

definition webhookChannelPolicyPrefix :: string where
  "webhookChannelPolicyPrefix = ''webhook_channel_policy:''"

definition policy_key :: "string \<Rightarrow> string" where
  "policy_key hash = webhookChannelPolicyPrefix @ hex_bytes hash"

text \<open>The value of the policy setting.\<close>

definition policy_name :: "bool \<Rightarrow> string" where
  "policy_name channelLocked = (if channelLocked then ''locked'' else ''public'')"

text \<open>Rows with the column defaults of the schema.\<close>

definition default_channel :: "string \<Rightarrow> string \<Rightarrow> gotime \<Rightarrow> channel_row" where
  "default_channel i name now = \<lparr>c_id = i, c_name = name, c_display_name = name, c_description = [], c_accent_color = [],
     c_visibility = ''public'', c_created_at = UnixMilli now\<rparr>"

definition incoming_webhook :: "string \<Rightarrow> string \<Rightarrow> string \<Rightarrow> gotime \<Rightarrow> webhook_row" where
  "incoming_webhook i hash cid now = \<lparr>w_id = i, w_token_hash = hash, w_channel_id = cid, w_created_at = UnixMilli now,
     w_kind = ''incoming'', w_revoked_at = None\<rparr>"

definition channel_summary :: "string \<Rightarrow> string \<Rightarrow> string \<Rightarrow> string \<Rightarrow> string \<Rightarrow> string \<Rightarrow> ChannelSummary" where
  "channel_summary i name disp desc accent vis = \<lparr>Cs_ID = i, Cs_Name = name, Cs_DisplayName = disp, Cs_Description = desc,
     Cs_AccentColor = accent, Cs_Visibility = vis, Cs_NotificationLevel = [], Cs_UnreadCount = 0, Cs_FiringCount = 0,
     Cs_TotalCount = 0, Cs_TotalMessages = 0\<rparr>"

definition set_policy :: "string \<Rightarrow> string \<Rightarrow> nat store" where
  "set_policy hash policy =
     sql_upsert t_settings t_settings_update chk_settings st_key \<lparr>st_key = policy_key hash, st_value = policy\<rparr> (\<lambda>x. x\<lparr>st_value := policy\<rparr>)"

section \<open>Operations\<close>

definition BootstrapWebhook :: "(string \<Rightarrow> string) \<Rightarrow> string \<Rightarrow> string \<Rightarrow> gotime \<Rightarrow> 64 word \<Rightarrow> 64 word \<Rightarrow> unit store" where
  "BootstrapWebhook sha256 token channelName now rnd1 rnd2 =
     tx (bindM (query (\<lambda>d. map_option c_id (List.find (\<lambda>c. c_name c = channelName) (t_channels d)))) (\<lambda>found.
         bindM (case found of
             Some i \<Rightarrow> returnM i
           | None \<Rightarrow> bindM (sql_insert t_channels_update chk_channels (default_channel (newID ''chn_'' now rnd1) channelName now))
                       (\<lambda>_. returnM (newID ''chn_'' now rnd1))) (\<lambda>channelID.
         bindM (query (\<lambda>d. map_option (\<lambda>w. (w_channel_id w, w_revoked_at w)) (List.find (\<lambda>w. w_token_hash w = sha256 token) (t_webhooks d)))) (\<lambda>existing.
         case existing of
           Some (existingChannelID, revoked) \<Rightarrow>
             bindM (requireM (revoked = None) (ErrText ''webhook token has been revoked'')) (\<lambda>_.
             bindM (requireM (existingChannelID = channelID) (ErrText ''webhook token is already mapped to another channel'')) (\<lambda>_.
             bindM (sql_insert_ignore t_settings t_settings_update chk_settings st_key
                      \<lparr>st_key = policy_key (sha256 token), st_value = ''public''\<rparr>) (\<lambda>_.
             returnM (Commit ()))))
         | None \<Rightarrow>
             bindM (sql_insert t_webhooks_update chk_webhooks (incoming_webhook (newID ''whk_'' now rnd2) (sha256 token) channelID now)) (\<lambda>_.
             bindM (sql_insert t_settings_update chk_settings \<lparr>st_key = policy_key (sha256 token), st_value = ''public''\<rparr>) (\<lambda>_.
             returnM (Commit ())))))))"

definition CreateChannel :: "(string \<Rightarrow> string) \<Rightarrow> CreateChannelInput \<Rightarrow> gotime \<Rightarrow> 64 word \<Rightarrow> 64 word \<Rightarrow> string \<Rightarrow> (ChannelSummary \<times> string) store" where
  "CreateChannel sha256 input now rnd1 rnd2 tokenBytes =
     (let channelID = newID ''chn_'' now rnd1; webhookID = newID ''whk_'' now rnd2; token = hex_bytes tokenBytes in
      tx (bindM (sql_insert t_channels_update chk_channels
                   \<lparr>c_id = channelID, c_name = Ci_Name input, c_display_name = Ci_DisplayName input, c_description = Ci_Description input,
                    c_accent_color = Ci_AccentColor input, c_visibility = Ci_Visibility input, c_created_at = UnixMilli now\<rparr>) (\<lambda>_.
          bindM (sql_insert t_webhooks_update chk_webhooks (incoming_webhook webhookID (sha256 token) channelID now)) (\<lambda>_.
          bindM (sql_insert t_settings_update chk_settings \<lparr>st_key = policy_key (sha256 token), st_value = ''public''\<rparr>) (\<lambda>_.
          returnM (Commit (channel_summary channelID (Ci_Name input) (Ci_DisplayName input) (Ci_Description input)
                             (Ci_AccentColor input) (Ci_Visibility input), token)))))))"

definition UpdateChannel :: "string \<Rightarrow> CreateChannelInput \<Rightarrow> ChannelSummary store" where
  "UpdateChannel channelID input =
     bindM (sql_update t_channels t_channels_update (\<lambda>_ c. c_id c = channelID)
              (\<lambda>c. c\<lparr>c_display_name := Ci_DisplayName input, c_description := Ci_Description input, c_accent_color := Ci_AccentColor input,
                     c_visibility := Ci_Visibility input\<rparr>)) (\<lambda>changed.
     bindM (requireM (changed \<noteq> 0) ErrChannelNotFound) (\<lambda>_.
     bindM (query (\<lambda>d. map_option (\<lambda>c. channel_summary (c_id c) (c_name c) (c_display_name c) (c_description c) (c_accent_color c) (c_visibility c))
              (List.find (\<lambda>c. c_id c = channelID) (t_channels d)))) (rowM ErrNoRows)))"

definition CreateWebhook :: "(string \<Rightarrow> string) \<Rightarrow> string \<Rightarrow> bool \<Rightarrow> gotime \<Rightarrow> 64 word \<Rightarrow> string \<Rightarrow> (Webhook \<times> string) store" where
  "CreateWebhook sha256 channelID channelLocked now rnd secret =
     (let token = ''twh_'' @ hex_bytes secret; i = newID ''whk_'' now rnd; policy = policy_name channelLocked in
      bindM (query (\<lambda>d. map_option c_name (List.find (\<lambda>c. c_id c = channelID) (t_channels d)))) (\<lambda>r.
      bindM (rowM ErrForbidden r) (\<lambda>channelName.
      tx (bindM (sql_insert t_webhooks_update chk_webhooks (incoming_webhook i (sha256 token) channelID now)) (\<lambda>_.
          bindM (set_policy (sha256 token) policy) (\<lambda>_.
          returnM (Commit (\<lparr>Wh_ID = i, Wh_ChannelID = channelID, Wh_Channel = channelName, Wh_Kind = ''incoming'', Wh_CreatedAt = now,
                            Wh_RevokedAt = None, Wh_ChannelLocked = channelLocked\<rparr>, token))))))))"

definition policy_of :: "db \<Rightarrow> string \<Rightarrow> string" where
  "policy_of d hash = (case List.find (\<lambda>x. st_key x = policy_key hash) (t_settings d) of None \<Rightarrow> ''locked'' | Some x \<Rightarrow> st_value x)"

definition DuplicateWebhook :: "(string \<Rightarrow> string) \<Rightarrow> string \<Rightarrow> gotime \<Rightarrow> 64 word \<Rightarrow> string \<Rightarrow> (Webhook \<times> string) store" where
  "DuplicateWebhook sha256 i now rnd secret =
     (let token = ''twh_'' @ hex_bytes secret; newID' = newID ''whk_'' now rnd in
      tx (bindM (query (\<lambda>d. case List.find (\<lambda>w. w_id w = i \<and> w_kind w = ''incoming'' \<and> w_revoked_at w = None) (t_webhooks d) of
                   None \<Rightarrow> None
                 | Some w \<Rightarrow> map_option (\<lambda>c. (w_channel_id w, c_name c, w_token_hash w)) (List.find (\<lambda>c. c_id c = w_channel_id w) (t_channels d)))) (\<lambda>r.
          bindM (rowM ErrWebhookNotFound r) (\<lambda>(channelID, channelName, oldHash).
          bindM (query (\<lambda>d. policy_of d oldHash)) (\<lambda>policy.
          bindM (sql_insert t_webhooks_update chk_webhooks (incoming_webhook newID' (sha256 token) channelID now)) (\<lambda>_.
          bindM (set_policy (sha256 token) policy) (\<lambda>_.
          returnM (Commit (\<lparr>Wh_ID = newID', Wh_ChannelID = channelID, Wh_Channel = channelName, Wh_Kind = ''incoming'', Wh_CreatedAt = now,
                            Wh_RevokedAt = None, Wh_ChannelLocked = (policy \<noteq> ''public'')\<rparr>, token)))))))))"

definition ListWebhooks :: "Webhook list store" where
  "ListWebhooks = query (\<lambda>d.
     map (\<lambda>(w, c). \<lparr>Wh_ID = w_id w, Wh_ChannelID = w_channel_id w, Wh_Channel = c_name c, Wh_Kind = w_kind w,
                    Wh_CreatedAt = OfUnixMilli (w_created_at w), Wh_RevokedAt = map_option OfUnixMilli (w_revoked_at w),
                    Wh_ChannelLocked = (policy_of d (w_token_hash w) \<noteq> ''public'')\<rparr>)
       (rev (sort_key (\<lambda>(w, c). (w_created_at w, w_id w))
         (concat (map (\<lambda>w. if w_kind w = ''incoming'' then map (\<lambda>c. (w, c)) (filter (\<lambda>c. c_id c = w_channel_id w) (t_channels d)) else [])
           (t_webhooks d))))))"

definition SetWebhookChannelLocked :: "string \<Rightarrow> bool \<Rightarrow> unit store" where
  "SetWebhookChannelLocked i channelLocked =
     tx (bindM (query (\<lambda>d. map_option w_token_hash (List.find (\<lambda>w. w_id w = i \<and> w_kind w = ''incoming'' \<and> w_revoked_at w = None) (t_webhooks d)))) (\<lambda>r.
         bindM (rowM ErrWebhookNotFound r) (\<lambda>tokenHash.
         bindM (set_policy tokenHash (policy_name channelLocked)) (\<lambda>_.
         returnM (Commit ())))))"

definition RevokeWebhook :: "string \<Rightarrow> gotime \<Rightarrow> unit store" where
  "RevokeWebhook i now =
     bindM (sql_update t_webhooks t_webhooks_update (\<lambda>_ w. w_id w = i \<and> w_kind w = ''incoming'')
              (\<lambda>w. w\<lparr>w_revoked_at := (case w_revoked_at w of None \<Rightarrow> Some (UnixMilli now) | Some t \<Rightarrow> Some t)\<rparr>)) (\<lambda>changed.
     requireM (changed \<noteq> 0) ErrWebhookNotFound)"

text \<open>One item of an import.  The loop keeps the hashes seen so far and the counters; clock and random bytes of
  the \<open>n\<close>th item are arguments.\<close>

definition import_item :: "(string \<Rightarrow> string) \<Rightarrow> bool \<Rightarrow> (nat \<Rightarrow> gotime \<times> 64 word) \<Rightarrow> WebhookImport \<Rightarrow>
    string list \<times> WebhookImportResult \<Rightarrow> (string list \<times> WebhookImportResult) store" where
  "import_item sha256 doApply fresh item acc =
     (case acc of (seen, result) \<Rightarrow>
      let hash = sha256 (Wi_Token item); policy = (policy_name (Wi_ChannelLocked item));
          seen' = hash # seen; f = fresh (length seen) in
      bindM (requireM (hash \<notin> set seen) (import_conflict ''duplicate webhook in import'')) (\<lambda>_.
      bindM (query (\<lambda>d. map_option c_id (List.find (\<lambda>c. c_name c = Wi_Channel item) (t_channels d)))) (\<lambda>r.
      bindM (rowM (import_conflict ''destination channel does not exist'') r) (\<lambda>channelID.
      bindM (query (\<lambda>d. map_option (\<lambda>w. (w_channel_id w, w_revoked_at w)) (List.find (\<lambda>w. w_token_hash w = hash) (t_webhooks d)))) (\<lambda>existing.
      case existing of
        Some (existingChannelID, revoked) \<Rightarrow>
          bindM (requireM (revoked = None) (import_conflict ''webhook token has been revoked'')) (\<lambda>_.
          bindM (requireM (existingChannelID = channelID) (import_conflict ''webhook is already mapped to another channel'')) (\<lambda>_.
          bindM (whenM doApply (bindM (set_policy hash policy) (\<lambda>_. returnM ()))) (\<lambda>_.
          returnM (seen', result\<lparr>Wr_Existing := Wr_Existing result + 1\<rparr>))))
      | None \<Rightarrow>
          bindM (whenM doApply
            (bindM (sql_insert t_webhooks_update chk_webhooks (incoming_webhook (newID ''whk_'' (fst f) (snd f)) hash channelID (fst f))) (\<lambda>_.
             bindM (set_policy hash policy) (\<lambda>_. returnM ())))) (\<lambda>_.
          returnM (seen', result\<lparr>Wr_Created := Wr_Created result + 1\<rparr>)))))))"

definition ImportWebhooks :: "(string \<Rightarrow> string) \<Rightarrow> WebhookImport list \<Rightarrow> bool \<Rightarrow> (nat \<Rightarrow> gotime \<times> 64 word) \<Rightarrow> WebhookImportResult store" where
  "ImportWebhooks sha256 imports doApply fresh =
     tx (bindM (foldM (import_item sha256 doApply fresh) imports ([], \<lparr>Wr_Created = 0, Wr_Existing = 0\<rparr>)) (\<lambda>(seen, result).
         returnM (if doApply then Commit result else Rollback result)))"

section \<open>Revocation\<close>

datatype webhook_op =
    OpBootstrapWebhook string string gotime "64 word" "64 word"
  | OpCreateChannel CreateChannelInput gotime "64 word" "64 word" string
  | OpUpdateChannel string CreateChannelInput
  | OpCreateWebhook string bool gotime "64 word" string
  | OpDuplicateWebhook string gotime "64 word" string
  | OpSetLocked string bool
  | OpRevoke string gotime
  | OpImport "WebhookImport list" bool "nat \<Rightarrow> gotime \<times> 64 word"

fun webhook_exec :: "(string \<Rightarrow> string) \<Rightarrow> webhook_op \<Rightarrow> unit store" where
  "webhook_exec sha (OpBootstrapWebhook token name now rnd1 rnd2) = BootstrapWebhook sha token name now rnd1 rnd2"
| "webhook_exec sha (OpCreateChannel input now rnd1 rnd2 bytes) = ignoreM (CreateChannel sha input now rnd1 rnd2 bytes)"
| "webhook_exec sha (OpUpdateChannel i input) = ignoreM (UpdateChannel i input)"
| "webhook_exec sha (OpCreateWebhook i locked now rnd secret) = ignoreM (CreateWebhook sha i locked now rnd secret)"
| "webhook_exec sha (OpDuplicateWebhook i now rnd secret) = ignoreM (DuplicateWebhook sha i now rnd secret)"
| "webhook_exec sha (OpSetLocked i locked) = SetWebhookChannelLocked i locked"
| "webhook_exec sha (OpRevoke i now) = RevokeWebhook i now"
| "webhook_exec sha (OpImport imports doApply fresh) = ignoreM (ImportWebhooks sha imports doApply fresh)"

definition revoked_at :: "string \<Rightarrow> int \<Rightarrow> db \<Rightarrow> bool" where
  "revoked_at hash t d \<longleftrightarrow> keyed w_token_hash (t_webhooks d) \<and>
     (\<exists>w \<in> set (t_webhooks d). w_token_hash w = hash \<and> w_revoked_at w = Some t)"

lemma revoked_at_frame [simp]:
  "revoked_at hash t (t_channels_update f d) = revoked_at hash t d"
  "revoked_at hash t (t_settings_update g d) = revoked_at hash t d"
  by (simp_all add: revoked_at_def)

lemma revoked_at_insert:
  "revoked_at hash t d \<Longrightarrow> chk_webhooks d r = None \<Longrightarrow> revoked_at hash t (t_webhooks_update (\<lambda>xs. xs @ [r]) d)"
  by (auto simp: revoked_at_def chk_webhooks_def keyed_snoc)

lemma revoked_at_revoke:
  assumes "revoked_at hash t d" and "\<And>w. w_token_hash (f w) = w_token_hash w"
    and "\<And>w. w_revoked_at w = Some t \<Longrightarrow> w_revoked_at (f w) = Some t"
  shows "revoked_at hash t (t_webhooks_update (upd_where P f) d)"
proof -
  from assms(1) obtain w where w: "keyed w_token_hash (t_webhooks d)" "w \<in> set (t_webhooks d)" "w_token_hash w = hash" "w_revoked_at w = Some t"
    by (auto simp: revoked_at_def)
  have "(if P w then f w else w) \<in> set (upd_where P f (t_webhooks d))" unfolding set_upd_where using w(2) by (rule imageI)
  moreover have "w_token_hash (if P w then f w else w) = hash \<and> w_revoked_at (if P w then f w else w) = Some t"
    using w assms(2,3) by simp
  moreover have "keyed w_token_hash (upd_where P f (t_webhooks d))" using w(1) assms(2) by (simp add: keyed_upd_where)
  ultimately show ?thesis by (auto simp: revoked_at_def)
qed

lemma keeps_set_policy [keeps_intro]: "keeps (revoked_at hash t) (set_policy h p)"
  unfolding set_policy_def by (intro keeps_intro) simp_all

lemma keeps_webhook_exec: "keeps (revoked_at hash t) (webhook_exec sha op)"
  by (cases op; hypsubst; unfold webhook_exec.simps BootstrapWebhook_def CreateChannel_def UpdateChannel_def CreateWebhook_def
        DuplicateWebhook_def SetWebhookChannelLocked_def RevokeWebhook_def ImportWebhooks_def import_item_def Let_def;
      intro keeps_intro; simp add: revoked_at_insert revoked_at_revoke)

interpretation revoked_tokens: lasting_always "webhook_exec sha" "revoked_at hash t" for sha hash t
  by unfold_locales (rule keeps_webhook_exec)

text \<open>C13: a revoked token stays revoked.  Whatever channel and webhook operations follow, in any order and
  with any faults (bootstrap and import of the same token included), every webhook with the hash of a
  revoked token still carries the original time of revocation.\<close>

theorem revocation_permanent:
  assumes "keyed w_token_hash (t_webhooks (wdb w))" and "r \<in> set (t_webhooks (wdb w))" and "w_revoked_at r = Some t"
    and "r' \<in> set (t_webhooks (wdb (history (webhook_exec sha) ops w)))" and "w_token_hash r' = w_token_hash r"
  shows "w_revoked_at r' = Some t"
proof -
  have "revoked_at (w_token_hash r) t (wdb w)" using assms(1-3) by (auto simp: revoked_at_def)
  then have "revoked_at (w_token_hash r) t (wdb (history (webhook_exec sha) ops w))" by (rule revoked_tokens.lasts_always)
  with assms(4,5) show ?thesis unfolding revoked_at_def by (metis keyed_unique)
qed

definition revoked_db :: db where
  "revoked_db = empty_db\<lparr>t_channels := [default_channel ''c1'' ''ops'' 0], t_webhooks := [(incoming_webhook ''w1'' ''tok'' ''c1'' 0)\<lparr>w_revoked_at := Some 5\<rparr>]\<rparr>"

definition revoked_ops :: "webhook_op list" where
  "revoked_ops = [OpBootstrapWebhook ''tok'' ''ops'' 0 1 2, OpCreateWebhook ''c1'' False 0 3 ''x'', OpRevoke ''w1'' 9000000,
     OpImport [\<lparr>Wi_Token = ''tok'', Wi_Channel = ''ops'', Wi_ChannelLocked = False\<rparr>] True (\<lambda>_. (0, 7))]"

theorem revocation_permanent_witness:
  "w_revoked_at (hd (t_webhooks (wdb (history (webhook_exec id) revoked_ops (up revoked_db))))) = Some 5"
  by (rule revocation_permanent [where w = "up revoked_db" and sha = id and ops = revoked_ops and r = "hd (t_webhooks revoked_db)"]; code_simp)

section \<open>Policies\<close>

lemma hex_digit_inj: "m < 16 \<Longrightarrow> n < 16 \<Longrightarrow> hex_digit m = hex_digit n \<Longrightarrow> m = n"
proof -
  assume a: "m < 16" "n < 16" "hex_digit m = hex_digit n"
  from of_char_hex_digit [OF a(1)] of_char_hex_digit [OF a(2)] a(3) have "(if m < 10 then 48 + m else 87 + m) = (if n < 10 then 48 + n else 87 + n)" by simp
  with a(1,2) show ?thesis by (simp split: if_split_asm)
qed

lemma hex_byte_inj:
  fixes c e :: char
  assumes "hex_digit (of_char c div 16) = hex_digit (of_char e div 16)" and "hex_digit (of_char c mod 16) = hex_digit (of_char e mod 16)"
  shows "c = e"
proof -
  have b: "of_char c < (256 :: nat)" "of_char e < (256 :: nat)" by simp_all
  then have "of_char c div 16 < (16 :: nat)" "of_char e div 16 < (16 :: nat)"
    by (auto intro: less_mult_imp_div_less)
  then have "of_char c div 16 = (of_char e div 16 :: nat)" by (rule hex_digit_inj [OF _ _ assms(1)])
  moreover have "of_char c mod 16 = (of_char e mod 16 :: nat)" by (intro hex_digit_inj assms(2)) auto
  ultimately have "of_char c = (of_char e :: nat)" by (metis div_mult_mod_eq)
  then show ?thesis by simp
qed

lemma hex_bytes_inj: "hex_bytes s = hex_bytes t \<Longrightarrow> s = t"
proof (induction s arbitrary: t)
  case Nil
  then show ?case by (cases t) (simp_all add: hex_bytes_def)
next
  case (Cons c s)
  then show ?case by (cases t) (auto simp: hex_bytes_def intro: hex_byte_inj)
qed

lemma policy_key_inj [simp]: "policy_key h = policy_key h' \<longleftrightarrow> h = h'"
  by (auto simp: policy_key_def dest: hex_bytes_inj)

text \<open>Setting a policy sets it for that token only.\<close>

definition policy_set :: "string \<Rightarrow> string \<Rightarrow> db \<Rightarrow> db \<Rightarrow> bool" where
  "policy_set hash policy d d' \<longleftrightarrow> t_channels d' = t_channels d \<and> t_webhooks d' = t_webhooks d \<and>
     policy_of d' hash = policy \<and> (\<forall>h. h \<noteq> hash \<longrightarrow> policy_of d' h = policy_of d h)"

lemma find_upd_where_same:
  "(\<And>x. P (f x) = P x) \<Longrightarrow> List.find P (upd_where P f xs) = map_option f (List.find P xs)"
  by (induction xs) auto

lemma find_upd_where_other:
  "(\<And>x. Q x \<Longrightarrow> \<not> P x) \<Longrightarrow> (\<And>x. P x \<Longrightarrow> \<not> Q (f x)) \<Longrightarrow> List.find Q (upd_where P f xs) = List.find Q xs"
  by (induction xs) auto

lemma sat_set_policy [sat_intro]:
  assumes "Q (Inl ErrDatabase) d" and "\<And>d'. policy_set hash policy d d' \<Longrightarrow> Q (Inr 1) d'"
  shows "sat (set_policy hash policy) d Q"
  unfolding set_policy_def
proof (intro sat_intro)
  let ?K = "\<lambda>x. st_key x = policy_key hash" and ?f = "\<lambda>x. x\<lparr>st_value := policy\<rparr>"
  show "Q (Inl ErrDatabase) d" by (rule assms(1))
  { assume "exists_where (\<lambda>x. st_key x = st_key \<lparr>st_key = policy_key hash, st_value = policy\<rparr>) (t_settings d)"
    then obtain x where "List.find ?K (t_settings d) = Some x"
      by (metis exists_where_iff find_None_iff not_None_eq setting_row.select_convs(1))
    moreover from this have "List.find ?K (upd_where ?K ?f (t_settings d)) = Some (?f x)" by (subst find_upd_where_same) simp_all
    moreover have "List.find (\<lambda>x. st_key x = policy_key h) (upd_where ?K ?f (t_settings d)) = List.find (\<lambda>x. st_key x = policy_key h) (t_settings d)"
      if "h \<noteq> hash" for h using that by (intro find_upd_where_other) auto
    ultimately show "Q (Inr 1) (t_settings_update (upd_where (\<lambda>x. st_key x = st_key \<lparr>st_key = policy_key hash, st_value = policy\<rparr>) ?f) d)"
      by (intro assms(2)) (simp add: policy_set_def policy_of_def) }
  { fix c
    assume "\<not> exists_where (\<lambda>x. st_key x = st_key \<lparr>st_key = policy_key hash, st_value = policy\<rparr>) (t_settings d)"
      and "chk_settings d \<lparr>st_key = policy_key hash, st_value = policy\<rparr> = Some c"
    then show "Q (Inl (ErrConstraint c)) d" by (auto simp: chk_settings_def violation_def) }
  assume "\<not> exists_where (\<lambda>x. st_key x = st_key \<lparr>st_key = policy_key hash, st_value = policy\<rparr>) (t_settings d)"
  then have "List.find ?K (t_settings d) = None" by (auto simp: find_None_iff)
  then show "Q (Inr 1) (t_settings_update (\<lambda>xs. xs @ [\<lparr>st_key = policy_key hash, st_value = policy\<rparr>]) d)"
    by (intro assms(2)) (auto simp: policy_set_def policy_of_def find_append split: option.splits)
qed

section \<open>Import\<close>

definition import_active :: "(string \<Rightarrow> string) \<Rightarrow> db \<Rightarrow> WebhookImport \<Rightarrow> bool" where
  "import_active sha d item \<longleftrightarrow>
     (\<exists>w \<in> set (t_webhooks d). w_token_hash w = sha (Wi_Token item) \<and> w_revoked_at w = None \<and>
        (\<exists>c \<in> set (t_channels d). c_id c = w_channel_id w \<and> c_name c = Wi_Channel item)) \<and>
     policy_of d (sha (Wi_Token item)) = (policy_name (Wi_ChannelLocked item))"

definition item_done :: "(string \<Rightarrow> string) \<Rightarrow> WebhookImport \<Rightarrow> string list \<Rightarrow> db \<Rightarrow> string list \<Rightarrow> db \<Rightarrow> bool" where
  "item_done sha item seen d seen' d' \<longleftrightarrow> seen' = sha (Wi_Token item) # seen \<and> sha (Wi_Token item) \<notin> set seen \<and>
     t_channels d' = t_channels d \<and> set (t_webhooks d) \<subseteq> set (t_webhooks d') \<and>
     (\<forall>h. h \<noteq> sha (Wi_Token item) \<longrightarrow> policy_of d' h = policy_of d h) \<and> import_active sha d' item"

lemma item_done_existing:
  assumes "policy_set (sha (Wi_Token item)) (policy_name (Wi_ChannelLocked item)) d d'" and "sha (Wi_Token item) \<notin> set seen"
    and "List.find (\<lambda>c. c_name c = Wi_Channel item) (t_channels d) = Some c"
    and "List.find (\<lambda>w. w_token_hash w = sha (Wi_Token item)) (t_webhooks d) = Some w" and "w_revoked_at w = None" and "w_channel_id w = c_id c"
  shows "item_done sha item seen d (sha (Wi_Token item) # seen) d'"
proof -
  have "\<exists>w \<in> set (t_webhooks d). w_token_hash w = sha (Wi_Token item) \<and> w_revoked_at w = None \<and>
      (\<exists>c \<in> set (t_channels d). c_id c = w_channel_id w \<and> c_name c = Wi_Channel item)"
    using assms(5,6) find_SomeD [OF assms(3)] find_SomeD [OF assms(4)] by metis
  with assms(1,2) show ?thesis by (simp add: item_done_def policy_set_def import_active_def)
qed

lemma item_done_created:
  assumes "policy_set (sha (Wi_Token item)) (policy_name (Wi_ChannelLocked item))
      (t_webhooks_update (\<lambda>xs. xs @ [incoming_webhook i (sha (Wi_Token item)) (c_id c) now]) d) d'" and "sha (Wi_Token item) \<notin> set seen"
    and "List.find (\<lambda>c. c_name c = Wi_Channel item) (t_channels d) = Some c"
  shows "item_done sha item seen d (sha (Wi_Token item) # seen) d'"
  using assms find_SomeD [OF assms(3)]
  by (auto simp: item_done_def policy_set_def import_active_def incoming_webhook_def policy_of_def)

lemma sat_import_item:
  "sat (import_item sha True fresh item (seen, res)) d (\<lambda>r d'. \<forall>seen' res'. r = Inr (seen', res') \<longrightarrow> item_done sha item seen d seen' d')"
  unfolding import_item_def Let_def prod.case
  by (intro sat_intro; (simp; fail)?)
     (auto intro!: sat_intro simp: whenM_def; erule (2) item_done_existing item_done_created; simp)

lemma item_done_active:
  assumes "item_done sha item seen d seen' d'" and "import_active sha d i" and "sha (Wi_Token i) \<in> set seen"
  shows "import_active sha d' i"
proof -
  from assms(1,3) have "sha (Wi_Token i) \<noteq> sha (Wi_Token item)" by (auto simp: item_done_def)
  with assms(1) have "policy_of d' (sha (Wi_Token i)) = policy_of d (sha (Wi_Token i))" "t_channels d' = t_channels d"
    "set (t_webhooks d) \<subseteq> set (t_webhooks d')" by (simp_all add: item_done_def)
  with assms(2) show ?thesis unfolding import_active_def by (metis subsetD)
qed

definition all_done :: "(string \<Rightarrow> string) \<Rightarrow> WebhookImport list \<Rightarrow> string list \<Rightarrow> db \<Rightarrow> bool" where
  "all_done sha items seen d \<longleftrightarrow> (\<forall>i \<in> set items. import_active sha d i \<and> sha (Wi_Token i) \<in> set seen)"

lemma sat_import_fold:
  assumes "all_done sha before seen d"
  shows "sat (foldM (import_item sha True fresh) items (seen, res)) d
    (\<lambda>r d'. \<forall>seen' res'. r = Inr (seen', res') \<longrightarrow> all_done sha (before @ items) seen' d')"
  using assms
proof (induction items arbitrary: before seen res d)
  case Nil
  then show ?case by (auto intro!: sat_intro)
next
  case (Cons item items)
  let ?Q = "\<lambda>r d'. \<forall>seen' res'. r = Inr (seen', res') \<longrightarrow> all_done sha (before @ item # items) seen' d'"
  have "sat (foldM (import_item sha True fresh) items (seen', res')) d' ?Q" if "item_done sha item seen d seen' d'" for seen' res' d'
  proof -
    have "all_done sha (before @ [item]) seen' d'"
      using Cons.prems that item_done_active [OF that] by (auto simp: all_done_def item_done_def)
    from Cons.IH [OF this] show ?thesis by simp
  qed
  then show ?case unfolding foldM.simps
    by (intro sat_bind sat_mono [OF sat_import_item]) (auto split: sum.splits)
qed

text \<open>C15: what an import promises.  When an import that applies its changes returns, every imported token
  belongs to an active webhook of the channel it names, and carries the channel policy that was asked
  for; when it returns an error, nothing was changed.\<close>

theorem import_applies:
  assumes "ImportWebhooks sha items True fresh w = (r, w')"
  shows "case r of Inl e \<Rightarrow> wdb w' = wdb w | Inr res \<Rightarrow> \<forall>item \<in> set items. import_active sha (wdb w') item"
proof -
  have "sat (ImportWebhooks sha items True fresh) (wdb w)
    (\<lambda>r d. case r of Inl e \<Rightarrow> d = wdb w | Inr res \<Rightarrow> \<forall>item \<in> set items. import_active sha d item)"
    unfolding ImportWebhooks_def
    by (intro sat_intro sat_mono [OF sat_import_fold [where before = "[]"]])
       (auto simp: all_done_def intro!: sat_intro split: sum.splits)
  from satD [OF this assms] show ?thesis .
qed

definition import_db :: db where
  "import_db = empty_db\<lparr>t_channels := [default_channel ''c1'' ''ops'' 0, default_channel ''c2'' ''dev'' 0], t_webhooks := [incoming_webhook ''w1'' ''old'' ''c1'' 0]\<rparr>"

definition import_list :: "WebhookImport list" where
  "import_list = [\<lparr>Wi_Token = ''old'', Wi_Channel = ''ops'', Wi_ChannelLocked = True\<rparr>, \<lparr>Wi_Token = ''new'', Wi_Channel = ''dev'', Wi_ChannelLocked = False\<rparr>]"

theorem import_applies_witness:
  "fst (ImportWebhooks id import_list True (\<lambda>n. (0, word_of_nat n)) (up import_db)) = Inr \<lparr>Wr_Created = 1, Wr_Existing = 1\<rparr> \<and>
   list_all (import_active id (wdb (snd (ImportWebhooks id import_list True (\<lambda>n. (0, word_of_nat n)) (up import_db))))) import_list"
proof -
  have r: "fst (ImportWebhooks id import_list True (\<lambda>n. (0, word_of_nat n)) (up import_db)) = Inr \<lparr>Wr_Created = 1, Wr_Existing = 1\<rparr>"
    by code_simp
  from import_applies [OF surjective_pairing, where w = "up import_db" and items = import_list and sha = id and fresh = "\<lambda>n. (0, word_of_nat n)"]
  show ?thesis unfolding r by (simp add: list_all_iff)
qed

text \<open>The identifiers the run that applies the changes generates, one per item.  They are fresh when no two of them
  agree and none belongs to an existing webhook.\<close>

definition import_ids :: "(nat \<Rightarrow> gotime \<times> 64 word) \<Rightarrow> nat \<Rightarrow> string list" where
  "import_ids fresh n = map (\<lambda>k. newID ''whk_'' (fst (fresh k)) (snd (fresh k))) [0..<n]"

definition fresh_ids :: "(nat \<Rightarrow> gotime \<times> 64 word) \<Rightarrow> nat \<Rightarrow> db \<Rightarrow> bool" where
  "fresh_ids fresh n d \<longleftrightarrow> distinct (import_ids fresh n) \<and> list_all (\<lambda>w. w_id w \<notin> set (import_ids fresh n)) (t_webhooks d)"

text \<open>The simulation between a dry run on \<open>d\<close> and the run that applies the changes: the same channels, and
  new webhooks only for hashes already seen, under the identifiers generated so far.\<close>

definition import_sim :: "(nat \<Rightarrow> gotime \<times> 64 word) \<Rightarrow> string list \<Rightarrow> db \<Rightarrow> db \<Rightarrow> bool" where
  "import_sim fresh seen d d' \<longleftrightarrow> t_channels d' = t_channels d \<and>
     (\<exists>new. t_webhooks d' = t_webhooks d @ new \<and>
       (\<forall>w \<in> set new. w_token_hash w \<in> set seen \<and> w_id w \<in> set (import_ids fresh (length seen))))"

lemma import_sim_find:
  "import_sim fresh seen d d' \<Longrightarrow> h \<notin> set seen \<Longrightarrow>
   List.find (\<lambda>w. w_token_hash w = h) (t_webhooks d') = List.find (\<lambda>w. w_token_hash w = h) (t_webhooks d)"
proof -
  assume a: "import_sim fresh seen d d'" "h \<notin> set seen"
  then obtain new where n: "t_webhooks d' = t_webhooks d @ new" "\<forall>w \<in> set new. w_token_hash w \<in> set seen"
    by (auto simp: import_sim_def)
  with a(2) have "List.find (\<lambda>w. w_token_hash w = h) new = None" by (auto simp: find_None_iff)
  with n(1) show ?thesis by (auto simp: find_append split: option.splits)
qed

lemma import_sim_more:
  "import_sim fresh seen d d' \<Longrightarrow> t_channels d2 = t_channels d' \<Longrightarrow> t_webhooks d2 = t_webhooks d' \<Longrightarrow> import_sim fresh (h # seen) d d2"
  "import_sim fresh seen d d' \<Longrightarrow> t_channels d2 = t_channels d' \<Longrightarrow>
     t_webhooks d2 = t_webhooks d' @ [incoming_webhook (newID ''whk_'' (fst (fresh (length seen))) (snd (fresh (length seen)))) h c now] \<Longrightarrow>
     import_sim fresh (h # seen) d d2"
  by (fastforce simp: import_sim_def incoming_webhook_def import_ids_def)+

lemma set_policy_up:
  obtains d' where "set_policy h p (up d) = (Inr 1, up d')" "t_channels d' = t_channels d" "t_webhooks d' = t_webhooks d"
proof -
  have "honest (set_policy h p)"
    unfolding set_policy_def sql_upsert_def by (rule honest_stmt) (auto split: option.splits)
  moreover have "sat (set_policy h p) d (\<lambda>r d'. case r of Inl e \<Rightarrow> e = ErrDatabase | Inr a \<Rightarrow> a = 1 \<and> policy_set h p d d')"
    by (intro sat_intro) simp_all
  ultimately have "\<exists>a d'. set_policy h p (up d) = (Inr a, up d') \<and> a = 1 \<and> policy_set h p d d'" by (rule honest_success)
  then show ?thesis using that by (auto simp: policy_set_def)
qed

definition sim_outcome :: "(nat \<Rightarrow> gotime \<times> 64 word) \<Rightarrow> db \<Rightarrow> (err + string list \<times> WebhookImportResult) \<times> db world \<Rightarrow>
    (err + string list \<times> WebhookImportResult) \<times> db world \<Rightarrow> bool" where
  "sim_outcome fresh d dry run \<longleftrightarrow> snd dry = up d \<and> (\<exists>d'. snd run = up d' \<and>
     fst run = fst dry \<and> (\<forall>seen res. fst run = Inr (seen, res) \<longrightarrow> import_sim fresh seen d d'))"

text \<open>A new webhook violates no constraint: its hash was not found, its channel was, and its identifier is fresh.\<close>

lemma fresh_webhook_ok:
  assumes "import_sim fresh seen d d'" and "fresh_ids fresh n d" and "length seen < n"
    and "List.find (\<lambda>w. w_token_hash w = h) (t_webhooks d') = None" and "\<exists>c \<in> set (t_channels d'). c_id c = cid"
  shows "chk_webhooks d' (incoming_webhook (newID ''whk_'' (fst (fresh (length seen))) (snd (fresh (length seen)))) h cid now) = None"
    (is "chk_webhooks d' (incoming_webhook ?i h cid now) = None")
proof -
  from assms(3) obtain m where n: "n = length seen + Suc m" by (metis add_Suc_right less_imp_Suc_add)
  have split: "import_ids fresh n = import_ids fresh (length seen) @ ?i # map (\<lambda>k. newID ''whk_'' (fst (fresh k)) (snd (fresh k))) [Suc (length seen)..<n]"
    using upt_add_eq_append [of 0 "length seen" "Suc m"] upt_conv_Cons [of "length seen" n]
    unfolding n import_ids_def by (simp del: upt_Suc)
  from assms(2) have "?i \<notin> set (import_ids fresh (length seen))" "\<forall>w \<in> set (t_webhooks d). w_id w \<noteq> ?i"
    unfolding fresh_ids_def split by (auto simp: list_all_iff)
  with assms(1) have "\<forall>w \<in> set (t_webhooks d'). w_id w \<noteq> ?i" by (fastforce simp: import_sim_def)
  with assms(4,5) show ?thesis by (auto simp: chk_webhooks_def violation_def incoming_webhook_def find_None_iff)
qed

lemma import_item_sim:
  assumes sim: "import_sim fresh' seen d d'" and ids: "fresh_ids fresh' n d" "length seen < n"
  shows "sim_outcome fresh' d (import_item sha False fresh item (seen, res) (up d)) (import_item sha True fresh' item (seen, res) (up d'))"
proof (cases "sha (Wi_Token item) \<in> set seen")
  case True
  then show ?thesis by (simp add: import_item_def Let_def sim_outcome_def sql_simps)
next
  case False
  let ?h = "sha (Wi_Token item)"
  have ch: "t_channels d' = t_channels d" using sim by (simp add: import_sim_def)
  have wh: "List.find (\<lambda>w. w_token_hash w = ?h) (t_webhooks d') = List.find (\<lambda>w. w_token_hash w = ?h) (t_webhooks d)"
    using sim False by (rule import_sim_find)
  show ?thesis
  proof (cases "List.find (\<lambda>c. c_name c = Wi_Channel item) (t_channels d)")
    case None
    with False ch show ?thesis by (simp add: import_item_def Let_def sim_outcome_def sql_simps)
  next
    case (Some c)
    show ?thesis
    proof (cases "List.find (\<lambda>w. w_token_hash w = ?h) (t_webhooks d)")
      case old: (Some w)
      obtain d2 where p: "set_policy ?h (policy_name (Wi_ChannelLocked item)) (up d') = (Inr 1, up d2)" "t_channels d2 = t_channels d'" "t_webhooks d2 = t_webhooks d'"
        by (rule set_policy_up)
      with sim have "import_sim fresh' (?h # seen) d d2" by (blast intro: import_sim_more)
      with False Some old ch wh p(1) show ?thesis by (simp add: import_item_def Let_def sim_outcome_def sql_simps)
    next
      case new: None
      let ?r = "incoming_webhook (newID ''whk_'' (fst (fresh' (length seen))) (snd (fresh' (length seen)))) ?h (c_id c) (fst (fresh' (length seen)))"
      from find_SomeD [OF Some] ch have "\<exists>x \<in> set (t_channels d'). c_id x = c_id c" by auto
      with new wh have chk: "chk_webhooks d' ?r = None" by (intro fresh_webhook_ok [OF sim ids]) simp_all
      obtain d2 where p: "set_policy ?h (policy_name (Wi_ChannelLocked item)) (up (t_webhooks_update (\<lambda>xs. xs @ [?r]) d')) = (Inr 1, up d2)"
          "t_channels d2 = t_channels d'" "t_webhooks d2 = t_webhooks d' @ [?r]"
        by (rule set_policy_up [of ?h _ "t_webhooks_update (\<lambda>xs. xs @ [?r]) d'"]) simp
      with sim have "import_sim fresh' (?h # seen) d d2" by (blast intro: import_sim_more)
      with False Some new ch wh chk p(1) show ?thesis by (auto simp: import_item_def Let_def sim_outcome_def sql_simps)
    qed
  qed
qed

lemma import_item_seen: "sat (import_item sha doApply fresh item (seen, res)) d (\<lambda>r d'. \<forall>seen' res'. r = Inr (seen', res') \<longrightarrow> length seen' = Suc (length seen))"
  unfolding import_item_def Let_def prod.case by (intro sat_intro sat_true) (auto intro!: sat_intro split: option.splits)

lemma import_item_dry: "snd (import_item sha False fresh item acc (up d)) = up d"
proof -
  obtain seen res where acc: "acc = (seen, res)" by fastforce
  show ?thesis
  proof (cases "List.find (\<lambda>c. c_name c = Wi_Channel item) (t_channels d)")
    case (Some c)
    then show ?thesis
      by (cases "List.find (\<lambda>w. w_token_hash w = sha (Wi_Token item)) (t_webhooks d)")
        (simp_all add: acc import_item_def Let_def sql_simps)
  qed (simp add: acc import_item_def Let_def sql_simps)
qed

lemma import_fold_dry: "snd (foldM (import_item sha False fresh) items acc (up d)) = up d"
proof (induction items arbitrary: acc)
  case Nil
  then show ?case by (simp add: returnM_def)
next
  case (Cons item items)
  with import_item_dry [of sha fresh item acc d] show ?case by (auto simp: bindM_def split: prod.splits sum.splits)
qed

lemma import_fold_sim:
  "import_sim fresh' seen d d' \<Longrightarrow> fresh_ids fresh' n d \<Longrightarrow> length seen + length items \<le> n \<Longrightarrow>
   sim_outcome fresh' d (foldM (import_item sha False fresh) items (seen, res) (up d)) (foldM (import_item sha True fresh') items (seen, res) (up d'))"
proof (induction items arbitrary: seen res d')
  case Nil
  then show ?case by (simp add: sim_outcome_def returnM_def)
next
  case (Cons item items)
  obtain r w where dry: "import_item sha False fresh item (seen, res) (up d) = (r, w)" by fastforce
  obtain r' w' where run: "import_item sha True fresh' item (seen, res) (up d') = (r', w')" by fastforce
  have s: "sim_outcome fresh' d (r, w) (r', w')"
    using import_item_sim [OF Cons.prems(1,2), of sha fresh item res] Cons.prems(3) dry run by simp
  show ?case
  proof (cases r')
    case (Inl e)
    with s dry run show ?thesis by (cases r) (auto simp: sim_outcome_def bindM_def import_fold_dry)
  next
    case (Inr acc)
    obtain seen' res' where acc: "acc = (seen', res')" by fastforce
    with s Inr obtain d2 where d2: "r = Inr (seen', res')" "w = up d" "w' = up d2" "import_sim fresh' seen' d d2"
      by (auto simp: sim_outcome_def)
    have "length seen' = Suc (length seen)"
      using sat_run [OF import_item_seen, of sha True fresh' item seen res "up d'"] run Inr acc by simp
    with Cons.IH [OF d2(4) Cons.prems(2), of res'] Cons.prems(3) d2 dry run Inr acc show ?thesis by (simp add: bindM_def)
  qed
qed

text \<open>C14: a dry run predicts the import.  It changes nothing, whatever statements fail.  And on a healthy engine, when
  the generated webhook identifiers are new and all different, the run that applies the changes returns exactly what the
  dry run returned: the same counts, or the same conflict with the same message.\<close>

theorem import_dry_run:
  "wdb (snd (ImportWebhooks sha items False fresh w)) = wdb w \<and>
   (fresh_ids fresh' (length items) d \<longrightarrow>
    fst (ImportWebhooks sha items True fresh' (up d)) = fst (ImportWebhooks sha items False fresh (up d)))"
proof (intro conjI impI)
  have "sat (ImportWebhooks sha items False fresh) (wdb w) (\<lambda>r d. d = wdb w)"
    unfolding ImportWebhooks_def
    by (intro sat_intro sat_mono [OF sat_true]) (auto intro!: sat_intro split: sum.splits)
  then show "wdb (snd (ImportWebhooks sha items False fresh w)) = wdb w" by (rule sat_run)
  assume ids: "fresh_ids fresh' (length items) d"
  have "import_sim fresh' [] d d" by (simp add: import_sim_def)
  from import_fold_sim [OF this ids, of items sha fresh "\<lparr>Wr_Created = 0, Wr_Existing = 0\<rparr>"]
  show "fst (ImportWebhooks sha items True fresh' (up d)) = fst (ImportWebhooks sha items False fresh (up d))"
    by (auto simp: ImportWebhooks_def sim_outcome_def sql_simps split: prod.splits sum.splits)
qed

theorem import_dry_run_witness:
  "fresh_ids (\<lambda>n. (0, word_of_nat n)) (length import_list) import_db \<and>
   fst (ImportWebhooks id import_list True (\<lambda>n. (0, word_of_nat n)) (up import_db)) = Inr \<lparr>Wr_Created = 1, Wr_Existing = 1\<rparr>"
proof
  show ids: "fresh_ids (\<lambda>n. (0, word_of_nat n)) (length import_list) import_db" by code_simp
  have "fst (ImportWebhooks id import_list False (\<lambda>n. (0, word_of_nat n)) (up import_db)) = Inr \<lparr>Wr_Created = 1, Wr_Existing = 1\<rparr>"
    by code_simp
  with ids import_dry_run [of id import_list "\<lambda>n. (0, word_of_nat n)" "up import_db" "\<lambda>n. (0, word_of_nat n)" import_db]
  show "fst (ImportWebhooks id import_list True (\<lambda>n. (0, word_of_nat n)) (up import_db)) = Inr \<lparr>Wr_Created = 1, Wr_Existing = 1\<rparr>"
    by simp
qed

section \<open>Duplicates\<close>

definition duplicated :: "(string \<Rightarrow> string) \<Rightarrow> string \<Rightarrow> gotime \<Rightarrow> db \<Rightarrow> Webhook \<Rightarrow> string \<Rightarrow> db \<Rightarrow> bool" where
  "duplicated sha i now d hook token d' \<longleftrightarrow>
     (\<exists>old \<in> set (t_webhooks d). w_id old = i \<and> w_revoked_at old = None \<and> sha token \<noteq> w_token_hash old \<and>
        t_webhooks d' = t_webhooks d @ [incoming_webhook (Wh_ID hook) (sha token) (w_channel_id old) now] \<and>
        (\<forall>h. h \<noteq> sha token \<longrightarrow> policy_of d' h = policy_of d h) \<and>
        policy_of d' (sha token) = policy_of d (w_token_hash old) \<and>
        Wh_ChannelLocked hook = (policy_of d (w_token_hash old) \<noteq> ''public''))"

lemma duplicatedI:
  assumes "List.find (\<lambda>w. w_id w = i \<and> w_kind w = ''incoming'' \<and> w_revoked_at w = None) (t_webhooks d) = Some old"
    and "chk_webhooks d (incoming_webhook (Wh_ID hook) (sha token) (w_channel_id old) now) = None"
    and "policy_set (sha token) (policy_of d (w_token_hash old))
      (t_webhooks_update (\<lambda>xs. xs @ [incoming_webhook (Wh_ID hook) (sha token) (w_channel_id old) now]) d) d'"
    and "Wh_ChannelLocked hook = (policy_of d (w_token_hash old) \<noteq> ''public'')"
  shows "duplicated sha i now d hook token d'"
proof -
  have p: "policy_of (t_webhooks_update f d) h = policy_of d h" for f h by (simp add: policy_of_def)
  from assms(2) have "\<forall>x \<in> set (t_webhooks d). w_token_hash x \<noteq> sha token" by (simp add: chk_webhooks_def incoming_webhook_def)
  with find_SomeD [OF assms(1)] assms(3,4) show ?thesis
    unfolding duplicated_def by (intro bexI [of _ old]) (auto simp: policy_set_def p)
qed

text \<open>A duplicate keeps the policy.  A duplication that returns used an active webhook, leaves every
  existing webhook and policy as it was, adds an active webhook of the same channel under the hash of
  the new token, and gives the new token the channel policy of the original.\<close>

lemma duplicate_keeps_policy:
  assumes "DuplicateWebhook sha i now rnd secret w = (Inr (hook, token), w')"
  shows "duplicated sha i now (wdb w) hook token (wdb w')"
proof -
  let ?Q = "\<lambda>r d. \<forall>hook token. r = Inr (hook, token) \<longrightarrow> duplicated sha i now (wdb w) hook token d"
  have "sat (DuplicateWebhook sha i now rnd secret) (wdb w) ?Q"
    unfolding DuplicateWebhook_def Let_def
    by (intro sat_intro) (auto intro!: sat_intro split: option.splits elim!: duplicatedI)
  from satD [OF this assms] show ?thesis by blast
qed

lemma duplicate_keeps_policy_witness:
  "\<exists>hook token d. duplicated id ''w1'' 0 import_db hook token d \<and> length (t_webhooks d) = 2"
proof -
  have r: "map_sum id (\<lambda>_. ()) (fst (DuplicateWebhook id ''w1'' 0 5 ''s'' (up import_db))) = Inr ()"
    "length (t_webhooks (wdb (snd (DuplicateWebhook id ''w1'' 0 5 ''s'' (up import_db))))) = 2" by code_simp+
  then obtain hook token where "DuplicateWebhook id ''w1'' 0 5 ''s'' (up import_db) =
      (Inr (hook, token), snd (DuplicateWebhook id ''w1'' 0 5 ''s'' (up import_db)))"
    by (cases "DuplicateWebhook id ''w1'' 0 5 ''s'' (up import_db)"; cases "fst (DuplicateWebhook id ''w1'' 0 5 ''s'' (up import_db))") auto
  from duplicate_keeps_policy [OF this] r(2) show ?thesis by auto
qed

end
