(* ===== verification/Notifications.thy ===== *)
theory Notifications
  imports OpLog Webhooks
begin

text \<open>
  The lifecycle of notifications in \<open>internal/store/store.go\<close> and \<open>incidents.go\<close>: ingestion through a webhook with
  channel override and external key, the states \<open>received\<close>, \<open>firing\<close>, \<open>acknowledged\<close> and \<open>resolved\<close>, incident
  groups, and the read, unread and dismissed marks of the inbox.
\<close>

section \<open>Data\<close>

record IncomingNotification =
  In_Channel :: string
  In_Text :: string
  In_Username :: string
  In_IconURL :: string
  In_Attachments :: string
  In_RawPayload :: string
  In_ExternalKey :: string
  In_State :: string
  In_Card :: string

record Notification =
  Nt_IncidentKey :: string
  Nt_ID :: string
  Nt_ChannelID :: string
  Nt_ChannelName :: string
  Nt_Text :: string
  Nt_Username :: string
  Nt_IconURL :: string
  Nt_Attachments :: string
  Nt_State :: string
  Nt_CreatedAt :: gotime
  Nt_UpdatedAt :: gotime
  Nt_EventCount :: nat
  Nt_Card :: string
  Nt_Agent :: string
  Nt_Unread :: bool
  Nt_CanOperate :: bool
  Nt_CanApprove :: bool
  Nt_CompatRoot :: bool

record NotificationEvent =
  Ev_ID :: string
  Ev_State :: string
  Ev_RawPayload :: string
  Ev_CreatedAt :: gotime
  Ev_Actor :: string

type_synonym NotificationInboxAction = string

definition InboxMarkRead :: NotificationInboxAction where
  "InboxMarkRead = ''read''"

definition InboxMarkUnread :: NotificationInboxAction where
  "InboxMarkUnread = ''unread''"

definition InboxDismiss :: NotificationInboxAction where
  "InboxDismiss = ''dismiss''"

definition InboxRestore :: NotificationInboxAction where
  "InboxRestore = ''restore''"

definition stateRank :: "string \<Rightarrow> int" where
  "stateRank s = (if s = ''received'' then 0 else if s = ''firing'' then 1 else if s = ''acknowledged'' then 2
     else if s = ''resolved'' then 3 else -1)"

definition notificationIDForExternalKey :: "(string \<Rightarrow> string) \<Rightarrow> string \<Rightarrow> string \<Rightarrow> string" where
  "notificationIDForExternalKey sha256 webhookID externalKey =
     ''ntf_'' @ hex_bytes (take 16 (sha256 (webhookID @ [CHR 0x00] @ externalKey)))"

section \<open>Events and incident keys\<close>

definition insertNotificationEvent :: "string \<Rightarrow> string \<Rightarrow> string \<Rightarrow> gotime \<Rightarrow> 64 word \<Rightarrow> unit store" where
  "insertNotificationEvent notificationID state rawPayload now rnd =
     ignoreM (sql_insert t_events_update chk_events
       \<lparr>e_id = newID ''evt_'' now rnd, e_notification_id = notificationID, e_state = state, e_raw_payload = rawPayload,
        e_created_at = UnixMilli now, e_actor_user_id = None\<rparr>)"

text \<open>The incident key of a card, or else of the properties of the payload.\<close>

definition incident_key :: "IncomingNotification \<Rightarrow> string" where
  "incident_key input =
     (let key = TrimSpace (str_field ''incident_key'' (members_of (In_Card input)) []) in
      if key = [] then TrimSpace (str_field ''incident_key'' (obj_field ''props'' (members_of (In_RawPayload input))) []) else key)"

definition saveIncidentKey :: "string \<Rightarrow> IncomingNotification \<Rightarrow> unit store" where
  "saveIncidentKey i input =
     (let key = incident_key input in
      bindM (requireM (\<not> len key > 200) (ErrText ''incident_key must be at most 200 bytes'')) (\<lambda>_.
      if key = [] then ignoreM (sql_delete t_incidents t_incidents_update (\<lambda>_ r. i_notification_id r = i))
      else ignoreM (sql_upsert t_incidents t_incidents_update chk_incidents i_notification_id
             \<lparr>i_notification_id = i, i_incident_key = key\<rparr> (\<lambda>r. r\<lparr>i_incident_key := key\<rparr>))))"

section \<open>Ingestion\<close>

text \<open>The webhook of a token and its channel.\<close>

definition webhook_channel :: "string \<Rightarrow> db \<Rightarrow> (string \<times> string \<times> string) option" where
  "webhook_channel hash d =
     (case List.find (\<lambda>w. w_token_hash w = hash \<and> w_revoked_at w = None) (t_webhooks d) of
        None \<Rightarrow> None
      | Some w \<Rightarrow> map_option (\<lambda>c. (w_id w, c_id c, c_name c)) (List.find (\<lambda>c. c_id c = w_channel_id w) (t_channels d)))"

text \<open>The channel a payload asks for, if the policy of the webhook lets it choose.\<close>

definition override_channel :: "string \<Rightarrow> string \<Rightarrow> string \<Rightarrow> string \<Rightarrow> (string \<times> string) store" where
  "override_channel hash wanted channelID channelName =
     (let override = TrimPrefix (TrimSpace wanted) ''#'' in
      if override = [] then returnM (channelID, channelName)
      else bindM (query (\<lambda>d. policy_of d hash)) (\<lambda>policy.
        if policy = ''public'' then
          bindM (query (\<lambda>d. map_option (\<lambda>c. (c_id c, c_name c)) (List.find (\<lambda>c. c_name c = override \<and> c_visibility c = ''public'') (t_channels d))))
            (rowM ErrWebhookChannelDenied)
        else returnM (channelID, channelName)))"

definition notification_of :: "string \<Rightarrow> string \<Rightarrow> string \<Rightarrow> IncomingNotification \<Rightarrow> gotime \<Rightarrow> gotime \<Rightarrow> Notification" where
  "notification_of i channelID channelName input created now =
     \<lparr>Nt_IncidentKey = [], Nt_ID = i, Nt_ChannelID = channelID, Nt_ChannelName = channelName, Nt_Text = In_Text input, Nt_Username = In_Username input,
      Nt_IconURL = In_IconURL input, Nt_Attachments = In_Attachments input, Nt_State = In_State input, Nt_CreatedAt = created, Nt_UpdatedAt = now,
      Nt_EventCount = 0, Nt_Card = In_Card input, Nt_Agent = [], Nt_Unread = False, Nt_CanOperate = False, Nt_CanApprove = False, Nt_CompatRoot = False\<rparr>"

text \<open>The fields that both replicated operations of a notification carry.\<close>

definition replicated_fields :: "string \<Rightarrow> IncomingNotification \<Rightarrow> (string \<times> json) list" where
  "replicated_fields i input =
     [(''notification_id'', JStr i), (''state'', JStr (In_State input)), (''text'', JStr (In_Text input)), (''username'', JStr (In_Username input)),
      (''icon_url'', JStr (In_IconURL input)), (''card_json'', JStr (In_Card input)), (''attachments_json'', JStr (In_Attachments input)),
      (''raw_payload_json'', JStr (In_RawPayload input))]"

definition beat_monitors :: "string \<Rightarrow> string \<Rightarrow> gotime \<Rightarrow> unit store" where
  "beat_monitors channelID source now =
     ignoreM (sql_update t_monitors t_monitors_update (\<lambda>_ m. pm_channel_id m = channelID \<and> pm_source m = source) (\<lambda>m. m\<lparr>pm_last_seen := UnixMilli now\<rparr>))"

text \<open>A further delivery under the external key of an existing notification: it reopens a resolved one, and
  otherwise never lowers the state.\<close>

definition reopens :: "string \<Rightarrow> IncomingNotification \<Rightarrow> bool" where
  "reopens existingState input \<longleftrightarrow> existingState = ''resolved'' \<and> In_State input = ''firing''"

definition merged :: "string \<Rightarrow> IncomingNotification \<Rightarrow> IncomingNotification" where
  "merged existingState input =
     (if \<not> reopens existingState input \<and> stateRank existingState > stateRank (In_State input) then input\<lparr>In_State := existingState\<rparr> else input)"

definition after_stamp :: "int \<Rightarrow> gotime \<Rightarrow> gotime" where
  "after_stamp at now = (if UnixMilli now \<le> at then OfUnixMilli (at + 1) else now)"

definition delivered :: "string \<Rightarrow> IncomingNotification \<Rightarrow> gotime \<Rightarrow> notification_row \<Rightarrow> notification_row" where
  "delivered channelID input now n = n\<lparr>n_channel_id := channelID, n_text := In_Text input, n_username := In_Username input, n_icon_url := In_IconURL input,
     n_attachments := In_Attachments input, n_raw_payload := In_RawPayload input, n_state := In_State input,
     n_updated_at := UnixMilli now, n_card := In_Card input\<rparr>"

definition update_notification ::
    "config \<Rightarrow> string \<Rightarrow> string \<Rightarrow> string \<Rightarrow> IncomingNotification \<Rightarrow> gotime \<Rightarrow> 64 word \<Rightarrow> string \<times> int \<times> string \<Rightarrow> Notification fin store" where
  "update_notification cfg webhookID channelID channelName input now rnd existing =
     (case existing of (existingID, createdAt, existingState) \<Rightarrow>
      let input' = merged existingState input; now' = after_stamp createdAt now in
      bindM (sql_update t_notifications t_notifications_update (\<lambda>_ n. n_id n = existingID) (delivered channelID input' now')) (\<lambda>_.
      bindM (insertNotificationEvent existingID (In_State input') (In_RawPayload input') now' rnd) (\<lambda>_.
      bindM (whenM (reopens existingState input) (ignoreM (sql_delete t_user_state t_user_state_update (\<lambda>_ s. us_notification_id s = existingID)))) (\<lambda>_.
      bindM (appendReplicationOperation cfg ''notification.updated'' channelID ''webhook'' webhookID
               (replicated_fields existingID input' @ [(''updated_at'', JNum (show_int (UnixMilli now')))]) now') (\<lambda>_.
      bindM (beat_monitors channelID (In_Username input') now') (\<lambda>_.
      bindM (saveIncidentKey existingID input') (\<lambda>_.
      returnM (Commit (notification_of existingID channelID channelName input' (OfUnixMilli createdAt) now')))))))))"

definition created_row :: "string \<Rightarrow> string \<Rightarrow> string \<Rightarrow> IncomingNotification \<Rightarrow> gotime \<Rightarrow> notification_row" where
  "created_row i cid wid input now = \<lparr>n_id = i, n_channel_id = cid, n_webhook_id = wid, n_text = In_Text input, n_username = In_Username input,
     n_icon_url = In_IconURL input, n_attachments = In_Attachments input, n_raw_payload = In_RawPayload input,
     n_created_at = UnixMilli now, n_external_key = In_ExternalKey input, n_state = In_State input,
     n_updated_at = UnixMilli now, n_card = In_Card input, n_agent_id = None, n_agent_run_id = None\<rparr>"

definition create_notification ::
    "config \<Rightarrow> (string \<Rightarrow> string) \<Rightarrow> string \<Rightarrow> string \<Rightarrow> string \<Rightarrow> IncomingNotification \<Rightarrow> gotime \<Rightarrow> 64 word \<Rightarrow> 64 word \<Rightarrow> Notification fin store" where
  "create_notification cfg sha256 webhookID channelID channelName input now rnd1 rnd2 =
     (let i = (if In_ExternalKey input \<noteq> [] then notificationIDForExternalKey sha256 webhookID (In_ExternalKey input) else newID ''ntf_'' now rnd1) in
      bindM (sql_insert t_notifications_update chk_notifications (created_row i channelID webhookID input now)) (\<lambda>_.
      bindM (insertNotificationEvent i (In_State input) (In_RawPayload input) now rnd2) (\<lambda>_.
      bindM (appendReplicationOperation cfg ''notification.created'' channelID ''webhook'' webhookID
               (replicated_fields i input @ [(''external_key'', JStr (In_ExternalKey input)), (''channel_name'', JStr channelName),
                 (''created_at'', JNum (show_int (UnixMilli now))), (''updated_at'', JNum (show_int (UnixMilli now)))]) now) (\<lambda>_.
      bindM (beat_monitors channelID (In_Username input) now) (\<lambda>_.
      bindM (saveIncidentKey i input) (\<lambda>_.
      returnM (Commit (notification_of i channelID channelName input now now))))))))"

text \<open>The defaults of a payload.\<close>

definition with_defaults :: "IncomingNotification \<Rightarrow> IncomingNotification" where
  "with_defaults input = input\<lparr>In_State := (if In_State input = [] then ''received'' else In_State input),
     In_Attachments := (if In_Attachments input = [] then ''[]'' else In_Attachments input),
     In_Username := (if In_Username input = [] then ''webhook'' else In_Username input)\<rparr>"

definition CreateFromWebhook ::
    "config \<Rightarrow> (string \<Rightarrow> string) \<Rightarrow> string \<Rightarrow> IncomingNotification \<Rightarrow> gotime \<Rightarrow> 64 word \<Rightarrow> 64 word \<Rightarrow> Notification store" where
  "CreateFromWebhook cfg sha256 token input0 now rnd1 rnd2 =
     (let input = with_defaults input0 in
      bindM (requireM (stateRank (In_State input) \<ge> 0) (ErrText ''unsupported notification state'')) (\<lambda>_.
      tx (bindM (query (webhook_channel (sha256 token))) (\<lambda>r.
          bindM (rowM ErrWebhookNotFound r) (\<lambda>(webhookID, ownID, ownName).
          bindM (override_channel (sha256 token) (In_Channel input) ownID ownName) (\<lambda>(channelID, channelName).
          bindM (if In_ExternalKey input = [] then returnM None
                 else query (\<lambda>d. map_option (\<lambda>n. (n_id n, n_created_at n, n_state n))
                        (List.find (\<lambda>n. n_webhook_id n = webhookID \<and> n_external_key n = In_ExternalKey input) (t_notifications d)))) (\<lambda>existing.
          case existing of
            Some e \<Rightarrow> update_notification cfg webhookID channelID channelName input now rnd2 e
          | None \<Rightarrow> create_notification cfg sha256 webhookID channelID channelName input now rnd1 rnd2)))))))"

section \<open>State changes\<close>

definition valid_transition :: "string \<Rightarrow> string \<Rightarrow> bool" where
  "valid_transition currentState nextState \<longleftrightarrow>
     (currentState = ''received'' \<or> currentState = ''firing'') \<and> (nextState = ''acknowledged'' \<or> nextState = ''resolved'') \<or>
     currentState = ''acknowledged'' \<and> nextState = ''resolved''"

definition SetNotificationState :: "config \<Rightarrow> string \<Rightarrow> User \<Rightarrow> string \<Rightarrow> gotime \<Rightarrow> 64 word \<Rightarrow> unit store" where
  "SetNotificationState cfg notificationID actor nextState now rnd =
     bindM (requireM (nextState = ''acknowledged'' \<or> nextState = ''resolved'') ErrInvalidTransition) (\<lambda>_.
     tx (bindM (query (\<lambda>d. map_option (\<lambda>n. (n_state n, n_channel_id n, n_updated_at n)) (List.find (\<lambda>n. n_id n = notificationID) (t_notifications d)))) (\<lambda>r.
         bindM (rowM ErrNotificationNotFound r) (\<lambda>(currentState, channelID, updatedAt).
         bindM (whenM (\<not> User_IsAdmin actor)
                  (bindM (query (\<lambda>d. has_role d (User_ID actor) channelID)) (\<lambda>allowed. requireM allowed ErrForbidden))) (\<lambda>_.
         if currentState = nextState then returnM (Commit ())
         else
           bindM (requireM (valid_transition currentState nextState) ErrInvalidTransition) (\<lambda>_.
           let now = after_stamp updatedAt now; eventID = newID ''evt_'' now rnd in
           bindM (sql_update t_notifications t_notifications_update (\<lambda>_ n. n_id n = notificationID)
                    (\<lambda>n. n\<lparr>n_state := nextState, n_updated_at := UnixMilli now\<rparr>)) (\<lambda>_.
           bindM (sql_insert t_events_update chk_events
                    \<lparr>e_id = eventID, e_notification_id = notificationID, e_state = nextState, e_raw_payload = ''{}'',
                     e_created_at = UnixMilli now, e_actor_user_id = Some (User_ID actor)\<rparr>) (\<lambda>_.
           bindM (appendReplicationOperation cfg ''notification.state'' channelID ''user'' (User_ID actor)
                    [(''notification_id'', JStr notificationID), (''state'', JStr nextState), (''event_id'', JStr eventID),
                     (''updated_at'', JNum (show_int (UnixMilli now)))] now) (\<lambda>_.
           returnM (Commit ()))))))))))"

definition ListNotificationEvents :: "string \<Rightarrow> NotificationEvent list store" where
  "ListNotificationEvents notificationID =
     bindM (query (\<lambda>d. exists_where (\<lambda>n. n_id n = notificationID) (t_notifications d))) (\<lambda>found.
     bindM (requireM found ErrNotificationNotFound) (\<lambda>_.
     query (\<lambda>d. map (\<lambda>e. \<lparr>Ev_ID = e_id e, Ev_State = e_state e, Ev_RawPayload = e_raw_payload e, Ev_CreatedAt = OfUnixMilli (e_created_at e),
         Ev_Actor = (case e_actor_user_id e of None \<Rightarrow> [] | Some k \<Rightarrow>
            (case List.find (\<lambda>u. u_id u = k) (t_users d) of None \<Rightarrow> [] | Some u \<Rightarrow> u_username u))\<rparr>)
       (sort_key (\<lambda>e. (e_created_at e, e_id e)) (filter (\<lambda>e. e_notification_id e = notificationID) (t_events d))))))"

section \<open>Incidents\<close>

text \<open>One event per acknowledged notification; clock and random bytes of the \<open>n\<close>th event are arguments.\<close>

definition ack_event :: "User \<Rightarrow> (nat \<Rightarrow> gotime \<times> 64 word) \<Rightarrow> string \<Rightarrow> nat \<Rightarrow> nat store" where
  "ack_event user fresh i n =
     bindM (sql_insert t_events_update chk_events
              \<lparr>e_id = newID ''evt_'' (fst (fresh n)) (snd (fresh n)), e_notification_id = i, e_state = ''acknowledged'', e_raw_payload = ''{}'',
               e_created_at = UnixMilli (fst (fresh n)), e_actor_user_id = Some (User_ID user)\<rparr>) (\<lambda>_. returnM (n + 1))"

definition in_group :: "string \<Rightarrow> string \<Rightarrow> db \<Rightarrow> notification_row \<Rightarrow> bool" where
  "in_group channelID key d n \<longleftrightarrow> n_channel_id n = channelID \<and> (n_state n = ''received'' \<or> n_state n = ''firing'') \<and>
     exists_where (\<lambda>i. i_notification_id i = n_id n \<and> i_incident_key i = key) (t_incidents d)"

definition AcknowledgeIncident :: "User \<Rightarrow> string \<Rightarrow> string \<Rightarrow> gotime \<Rightarrow> (nat \<Rightarrow> gotime \<times> 64 word) \<Rightarrow> unit store" where
  "AcknowledgeIncident user channelID key now fresh =
     bindM (RequireChannelOperator user channelID) (\<lambda>_.
     tx (bindM (stmt (\<lambda>d. Inr (map n_id (filter (in_group channelID key d) (t_notifications d)),
                  t_notifications_update (upd_where (in_group channelID key d) (\<lambda>n. n\<lparr>n_state := ''acknowledged'', n_updated_at := UnixMilli now\<rparr>)) d))) (\<lambda>ids.
         bindM (foldM (ack_event user fresh) ids 0) (\<lambda>_.
         returnM (Commit ())))))"

section \<open>The inbox\<close>

definition SetNotificationInboxState :: "string \<Rightarrow> string \<Rightarrow> NotificationInboxAction \<Rightarrow> gotime \<Rightarrow> unit store" where
  "SetNotificationInboxState userID notificationID action at =
     bindM (requireM (userID \<noteq> []) (ErrText ''user is required'')) (\<lambda>_.
     let ms = UnixMilli at;
         upsert = sql_upsert t_user_state t_user_state_update chk_user_state (\<lambda>s. (us_user_id s, us_notification_id s));
         row = \<lparr>us_user_id = userID, us_notification_id = notificationID, us_read_at = 0, us_unread = False, us_dismissed_at = None\<rparr> in
     bindM (if action = InboxMarkRead then upsert (row\<lparr>us_read_at := ms\<rparr>) (\<lambda>s. s\<lparr>us_read_at := max (us_read_at s) ms, us_unread := False\<rparr>)
       else if action = InboxMarkUnread then upsert (row\<lparr>us_unread := True\<rparr>) (\<lambda>s. s\<lparr>us_unread := True\<rparr>)
       else if action = InboxDismiss then upsert (row\<lparr>us_read_at := ms, us_dismissed_at := Some ms\<rparr>)
           (\<lambda>s. s\<lparr>us_read_at := max (us_read_at s) ms, us_unread := False, us_dismissed_at := Some ms\<rparr>)
       else if action = InboxRestore then upsert row (\<lambda>s. s\<lparr>us_dismissed_at := None\<rparr>)
       else failM (ErrText ''invalid inbox action'')) (\<lambda>changed.
     requireM (changed \<noteq> 0) ErrNotificationNotFound))"

section \<open>What ingestion does\<close>

text \<open>Effects on the tables of notifications, webhooks, channels and settings only.\<close>

definition only_notifications :: "(notification_row list \<Rightarrow> notification_row list) \<Rightarrow> db \<Rightarrow> db \<Rightarrow> bool" where
  "only_notifications f d d' \<longleftrightarrow> t_notifications d' = f (t_notifications d) \<and> t_webhooks d' = t_webhooks d \<and> t_channels d' = t_channels d \<and>
     t_settings d' = t_settings d"

lemma only_notifications_frame [simp]:
  "only_notifications f d (t_events_update g d') = only_notifications f d d'"
  "only_notifications f d (t_user_state_update h d') = only_notifications f d d'"
  "only_notifications f d (t_monitors_update k d') = only_notifications f d d'"
  "only_notifications f d (t_incidents_update l d') = only_notifications f d d'"
  "only_notifications f d (t_repl_ops_update p d') = only_notifications f d d'"
  by (simp_all add: only_notifications_def)

lemma only_notifications_start: "only_notifications f d (t_notifications_update f d)"
  by (simp add: only_notifications_def)

lemma only_notifications_appended: "appended cfg d' d2 \<Longrightarrow> only_notifications f d d' \<Longrightarrow> only_notifications f d d2"
  by (auto simp: appended_def)

text \<open>Operations that leave a condition on the database alone.\<close>

lemma keeps_ingest_parts [keeps_intro]:
  "(\<And>d g. I d \<Longrightarrow> I (t_events_update g d)) \<Longrightarrow> keeps I (insertNotificationEvent i st raw now rnd)"
  "(\<And>d g. I d \<Longrightarrow> I (t_incidents_update g d)) \<Longrightarrow> keeps I (saveIncidentKey i input)"
  "(\<And>d g. I d \<Longrightarrow> I (t_monitors_update g d)) \<Longrightarrow> keeps I (beat_monitors cid src now)"
  unfolding insertNotificationEvent_def saveIncidentKey_def beat_monitors_def Let_def
  by (intro keeps_intro; simp)+

lemma sat_update_notification:
  assumes err: "\<And>e d'. Q (Inl e) d'"
    and ok: "\<And>d'. only_notifications (upd_where (\<lambda>n. n_id n = i) (delivered cid (merged st input) (after_stamp created now))) d d' \<Longrightarrow>
      Q (Inr (Commit (notification_of i cid cname (merged st input) (OfUnixMilli created) (after_stamp created now)))) d'"
  shows "sat (update_notification cfg wid cid cname input now rnd (i, created, st)) d Q"
proof -
  let ?I = "only_notifications (upd_where (\<lambda>n. n_id n = i) (delivered cid (merged st input) (after_stamp created now))) d"
  note step = sat_keeps_bind [where I = ?I and Q = Q, OF _ _ err]
  show ?thesis unfolding update_notification_def Let_def prod.case
    by (rule sat_bind, rule sat_update, simp add: err, simp only: sum.case,
        (rule step, (intro keeps_intro; simp add: only_notifications_appended), simp add: only_notifications_start)+,
        rule sat_return, erule ok)
qed

lemma sat_create_notification:
  assumes err: "\<And>e d'. Q (Inl e) d'"
    and ok: "\<And>i d'. (In_ExternalKey input \<noteq> [] \<Longrightarrow> i = notificationIDForExternalKey sha wid (In_ExternalKey input)) \<Longrightarrow>
      chk_notifications d (created_row i cid wid input now) = None \<Longrightarrow>
      only_notifications (\<lambda>xs. xs @ [created_row i cid wid input now]) d d' \<Longrightarrow>
      Q (Inr (Commit (notification_of i cid cname input now now))) d'"
  shows "sat (create_notification cfg sha wid cid cname input now rnd1 rnd2) d Q"
proof -
  let ?i = "if In_ExternalKey input \<noteq> [] then notificationIDForExternalKey sha wid (In_ExternalKey input) else newID ''ntf_'' now rnd1"
  let ?I = "only_notifications (\<lambda>xs. xs @ [created_row ?i cid wid input now]) d"
  note step = sat_keeps_bind [where I = ?I and Q = Q, OF _ _ err]
  show ?thesis unfolding create_notification_def Let_def
    by (rule sat_bind, rule sat_insert, simp add: err, simp add: err, simp only: sum.case,
        (rule step, (intro keeps_intro; simp add: only_notifications_appended), simp add: only_notifications_start)+,
        rule sat_return, rule ok, simp, assumption, assumption)
qed

definition routed :: "string \<Rightarrow> db \<Rightarrow> string \<Rightarrow> string \<Rightarrow> bool" where
  "routed hash d own cid \<longleftrightarrow> cid = own \<or>
     policy_of d hash = ''public'' \<and> (\<exists>c \<in> set (t_channels d). c_id c = cid \<and> c_visibility c = ''public'')"

lemma sat_override_channel [sat_intro]:
  assumes "\<And>e. Q (Inl e) d" and "\<And>cid cname. routed hash d own cid \<Longrightarrow> Q (Inr (cid, cname)) d"
  shows "sat (override_channel hash wanted own name) d Q"
  unfolding override_channel_def Let_def
  by (intro sat_intro) (auto intro!: sat_intro assms simp: routed_def dest!: find_SomeD)

definition accepts :: "string \<Rightarrow> db \<Rightarrow> webhook_row \<Rightarrow> bool" where
  "accepts hash d w \<longleftrightarrow> w \<in> set (t_webhooks d) \<and> w_token_hash w = hash \<and> w_revoked_at w = None \<and>
     List.find (\<lambda>w. w_token_hash w = hash \<and> w_revoked_at w = None) (t_webhooks d) = Some w"

definition under_key :: "string \<Rightarrow> string \<Rightarrow> db \<Rightarrow> notification_row option" where
  "under_key wid key d = (if key = [] then None else List.find (\<lambda>n. n_webhook_id n = wid \<and> n_external_key n = key) (t_notifications d))"

lemma webhook_channel_SomeD:
  assumes "webhook_channel hash d = Some (wid, own, name)"
  obtains w where "accepts hash d w" "w_id w = wid" "w_channel_id w = own"
proof -
  from assms obtain w c where w: "List.find (\<lambda>w. w_token_hash w = hash \<and> w_revoked_at w = None) (t_webhooks d) = Some w"
      "List.find (\<lambda>c. c_id c = w_channel_id w) (t_channels d) = Some c" "w_id w = wid" "c_id c = own"
    by (auto simp: webhook_channel_def split: option.splits)
  from find_SomeD [OF w(1)] find_SomeD [OF w(2)] w show ?thesis by (intro that [of w]) (auto simp: accepts_def)
qed

lemma sat_CreateFromWebhook:
  assumes err: "\<And>e. Q (Inl e) d"
    and old: "\<And>w cid cname n d'. accepts (sha token) d w \<Longrightarrow> routed (sha token) d (w_channel_id w) cid \<Longrightarrow>
      stateRank (In_State (with_defaults input)) \<ge> 0 \<Longrightarrow> under_key (w_id w) (In_ExternalKey input) d = Some n \<Longrightarrow>
      only_notifications (upd_where (\<lambda>x. n_id x = n_id n)
        (delivered cid (merged (n_state n) (with_defaults input)) (after_stamp (n_created_at n) now))) d d' \<Longrightarrow>
      Q (Inr (notification_of (n_id n) cid cname (merged (n_state n) (with_defaults input)) (OfUnixMilli (n_created_at n)) (after_stamp (n_created_at n) now))) d'"
    and new: "\<And>w cid cname i d'. accepts (sha token) d w \<Longrightarrow> routed (sha token) d (w_channel_id w) cid \<Longrightarrow>
      stateRank (In_State (with_defaults input)) \<ge> 0 \<Longrightarrow> under_key (w_id w) (In_ExternalKey input) d = None \<Longrightarrow>
      chk_notifications d (created_row i cid (w_id w) (with_defaults input) now) = None \<Longrightarrow>
      only_notifications (\<lambda>xs. xs @ [created_row i cid (w_id w) (with_defaults input) now]) d d' \<Longrightarrow>
      Q (Inr (notification_of i cid cname (with_defaults input) now now)) d'"
  shows "sat (CreateFromWebhook cfg sha token input now rnd1 rnd2) d Q"
proof -
  have key: "In_ExternalKey (with_defaults input) = In_ExternalKey input" by (simp add: with_defaults_def)
  show ?thesis unfolding CreateFromWebhook_def Let_def
    by (intro sat_intro; (auto simp: err elim!: webhook_channel_SomeD intro!: sat_intro sat_update_notification sat_create_notification; fail)?)
       (auto simp: err key under_key_def elim!: webhook_channel_SomeD intro!: sat_intro sat_update_notification sat_create_notification old new)
qed

section \<open>The lifecycle as a step relation\<close>

inductive lifecycle_step :: "string \<Rightarrow> string \<Rightarrow> bool" where
  stay: "lifecycle_step s s"
| raise: "stateRank s < stateRank s' \<Longrightarrow> lifecycle_step s s'"
| reopen: "lifecycle_step ''resolved'' ''firing''"

inductive_simps lifecycle_step_iff: "lifecycle_step s s'"

lemma stateRank_inj: "stateRank s = stateRank s' \<Longrightarrow> 0 \<le> stateRank s \<Longrightarrow> s = s'"
  by (auto simp: stateRank_def split: if_splits)

lemma merged_step:
  assumes "0 \<le> stateRank (In_State input)"
  shows "lifecycle_step s (In_State (merged s input))"
proof (cases "reopens s input")
  case True
  then show ?thesis by (auto simp: merged_def reopens_def intro: reopen)
next
  case False
  consider "stateRank s > stateRank (In_State input)" | "stateRank s < stateRank (In_State input)" | "s = In_State input"
    using assms stateRank_inj [of s "In_State input"] by force
  then show ?thesis using False by cases (auto simp: merged_def intro: lifecycle_step.intros)
qed

lemma transition_step: "valid_transition s s' \<Longrightarrow> lifecycle_step s s'"
  by (rule raise) (auto simp: valid_transition_def stateRank_def)

definition evolved :: "notification_row \<Rightarrow> notification_row \<Rightarrow> bool" where
  "evolved n n' \<longleftrightarrow> n_id n' = n_id n \<and> n_webhook_id n' = n_webhook_id n \<and> n_external_key n' = n_external_key n \<and>
     n_created_at n' = n_created_at n \<and> lifecycle_step (n_state n) (n_state n')"

lemma evolved_refl [simp]: "evolved n n"
  by (simp add: evolved_def stay)

definition evolves :: "db \<Rightarrow> db \<Rightarrow> bool" where
  "evolves d d' \<longleftrightarrow> (\<forall>n \<in> set (t_notifications d). \<exists>n' \<in> set (t_notifications d'). evolved n n')"

lemma evolves_same: "t_notifications d' = t_notifications d \<Longrightarrow> evolves d d'"
  unfolding evolves_def using evolved_refl by metis

lemma evolves_refl [simp]: "evolves d d"
  by (simp add: evolves_same)

lemma evolves_insert: "only_notifications (\<lambda>xs. xs @ [r]) d d' \<Longrightarrow> evolves d d'"
  unfolding evolves_def only_notifications_def using evolved_refl by (metis Un_iff set_append)

lemma evolves_update:
  assumes "\<And>n. n \<in> set (t_notifications d) \<Longrightarrow> P n \<Longrightarrow> evolved n (f n)" and "t_notifications d' = upd_where P f (t_notifications d)"
  shows "evolves d d'"
  using assms(1) unfolding evolves_def assms(2) bex_upd_where by (auto intro!: bexI)

lemma evolves_delivered:
  assumes "keyed n_id (t_notifications d)" and "under_key wid key d = Some n" and "0 \<le> stateRank (In_State input)"
    and "only_notifications (upd_where (\<lambda>x. n_id x = n_id n) (delivered cid (merged (n_state n) input) now)) d d'"
  shows "evolves d d'"
proof (rule evolves_update)
  fix x assume x: "x \<in> set (t_notifications d)" "n_id x = n_id n"
  from assms(2) have "n \<in> set (t_notifications d)" by (auto simp: under_key_def dest!: find_SomeD split: if_splits)
  with assms(1) x have "x = n" by (auto intro: keyed_unique)
  with merged_step [OF assms(3)] show "evolved x (delivered cid (merged (n_state n) input) now x)"
    by (simp add: evolved_def delivered_def)
next
  show "t_notifications d' = upd_where (\<lambda>x. n_id x = n_id n) (delivered cid (merged (n_state n) input) now) (t_notifications d)"
    using assms(4) by (simp add: only_notifications_def)
qed

lemma evolves_frame [simp]:
  "evolves d (t_events_update g d') = evolves d d'" "evolves d (t_user_state_update h d') = evolves d d'"
  by (simp_all add: evolves_def)

lemma evolves_appended: "appended cfg d' d2 \<Longrightarrow> evolves d d' \<Longrightarrow> evolves d d2"
  by (auto simp: appended_def evolves_def)

lemma sat_SetNotificationState_evolves:
  assumes "keyed n_id (t_notifications d)"
  shows "sat (SetNotificationState cfg i actor next now rnd) d (\<lambda>r d'. evolves d d')"
proof -
  have step: "evolves d (t_notifications_update (upd_where (\<lambda>x. n_id x = i) (\<lambda>x. x\<lparr>n_state := st, n_updated_at := t\<rparr>)) d)"
    if "List.find (\<lambda>n. n_id n = i) (t_notifications d) = Some n" "valid_transition (n_state n) st" for n t st
  proof (rule evolves_update)
    fix x assume "x \<in> set (t_notifications d)" "n_id x = i"
    with notifications.found_unique [OF assms that(1)] that(2)
    show "evolved x (x\<lparr>n_state := st, n_updated_at := t\<rparr>)" by (auto simp: evolved_def intro: transition_step)
  qed simp
  show ?thesis unfolding SetNotificationState_def Let_def
    by (intro sat_intro) (auto intro!: sat_intro elim!: evolves_appended, (erule (1) step)+)
qed

lemma sat_ack_events: "sat (foldM (ack_event user fresh) ids n) d (\<lambda>r d'. t_notifications d' = t_notifications d)"
proof -
  have "keeps (\<lambda>x. t_notifications x = t_notifications d) (foldM (ack_event user fresh) ids n)"
    unfolding ack_event_def by (intro keeps_intro) simp
  then show ?thesis by (auto dest: keeps_sat)
qed

lemma sat_AcknowledgeIncident_evolves: "sat (AcknowledgeIncident user cid key now fresh) d (\<lambda>r d'. evolves d d')"
proof -
  have step: "evolves d d'" if "t_notifications d' =
      upd_where (in_group cid key d) (\<lambda>n. n\<lparr>n_state := ''acknowledged'', n_updated_at := t\<rparr>) (t_notifications d)" for d' t
    by (rule evolves_update [OF _ that]) (auto simp: evolved_def in_group_def stateRank_def intro!: raise)
  show ?thesis unfolding AcknowledgeIncident_def
    by (intro sat_intro sat_mono [OF sat_ack_events]; auto intro!: sat_intro sat_mono [OF sat_ack_events] split: sum.splits; rule step, assumption)
qed

lemma keeps_inbox: "(\<And>d g. I d \<Longrightarrow> I (t_user_state_update g d)) \<Longrightarrow> keeps I (SetNotificationInboxState u i a at)"
  unfolding SetNotificationInboxState_def Let_def by (intro keeps_intro) auto

datatype notification_op =
    OpIngest string IncomingNotification gotime "64 word" "64 word"
  | OpSetState string User string gotime "64 word"
  | OpAckIncident User string string gotime "nat \<Rightarrow> gotime \<times> 64 word"
  | OpInbox string string NotificationInboxAction gotime

fun notification_exec :: "config \<Rightarrow> (string \<Rightarrow> string) \<Rightarrow> notification_op \<Rightarrow> unit store" where
  "notification_exec cfg sha (OpIngest token input now rnd1 rnd2) = ignoreM (CreateFromWebhook cfg sha token input now rnd1 rnd2)"
| "notification_exec cfg sha (OpSetState i actor st now rnd) = SetNotificationState cfg i actor st now rnd"
| "notification_exec cfg sha (OpAckIncident user cid key now fresh) = AcknowledgeIncident user cid key now fresh"
| "notification_exec cfg sha (OpInbox u i a at) = SetNotificationInboxState u i a at"

lemma sat_notification_exec:
  assumes "keyed n_id (t_notifications d)"
  shows "sat (notification_exec cfg sha op) d (\<lambda>r d'. evolves d d')"
proof (cases op)
  case (OpIngest token input now rnd1 rnd2)
  have "sat (CreateFromWebhook cfg sha token input now rnd1 rnd2) d (\<lambda>r d'. evolves d d')"
    by (rule sat_CreateFromWebhook) (auto intro: evolves_insert evolves_delivered [OF assms])
  then show ?thesis using OpIngest by (auto intro!: sat_intro elim!: sat_mono split: sum.splits)
next
  case (OpInbox u i a at)
  have "keeps (\<lambda>d'. evolves d d') (SetNotificationInboxState u i a at)" by (rule keeps_inbox) simp
  then have "sat (SetNotificationInboxState u i a at) d (\<lambda>r d'. evolves d d')" by (rule keeps_sat) simp
  then show ?thesis using OpInbox by simp
qed (simp_all add: sat_SetNotificationState_evolves [OF assms] sat_AcknowledgeIncident_evolves)

text \<open>C17: the lifecycle of a notification.  Whichever of the four operations runs by which a server changes a notification of its own accord, that
  is a delivery to a webhook, a new state set by an operator, the acknowledgement of an incident or a change of the inbox state, and whichever of its statements fails, every
  notification keeps its identity, webhook, external key and creation time, and its state stays, rises in
  the order received, firing, acknowledged, resolved, or goes from resolved back to firing.  Operations and
  snapshots received from other nodes are not among the four.\<close>

theorem lifecycle_respected:
  assumes "keyed n_id (t_notifications (wdb w))" and "n \<in> set (t_notifications (wdb w))"
  shows "\<exists>n' \<in> set (t_notifications (wdb (snd (notification_exec cfg sha op w)))). n_id n' = n_id n \<and> n_webhook_id n' = n_webhook_id n \<and>
    n_external_key n' = n_external_key n \<and> n_created_at n' = n_created_at n \<and> lifecycle_step (n_state n) (n_state n')"
  using sat_run [OF sat_notification_exec [OF assms(1), of cfg sha op]] assms(2) by (auto simp: evolves_def evolved_def)

definition plain_notification :: "string \<Rightarrow> string \<Rightarrow> string \<Rightarrow> string \<Rightarrow> notification_row" where
  "plain_notification i cid st key = \<lparr>n_id = i, n_channel_id = cid, n_webhook_id = ''w1'', n_text = [], n_username = [], n_icon_url = [], n_attachments = ''[]'',
     n_raw_payload = ''{}'', n_created_at = 1, n_external_key = key, n_state = st, n_updated_at = 1, n_card = [], n_agent_id = None, n_agent_run_id = None\<rparr>"

definition plain_input :: "string \<Rightarrow> string \<Rightarrow> string \<Rightarrow> IncomingNotification" where
  "plain_input chan st key = \<lparr>In_Channel = chan, In_Text = ''t'', In_Username = [], In_IconURL = [], In_Attachments = [], In_RawPayload = ''{}'',
     In_ExternalKey = key, In_State = st, In_Card = []\<rparr>"

definition notification_db :: db where
  "notification_db = import_db\<lparr>t_notifications := [plain_notification ''n1'' ''c1'' ''resolved'' ''k'']\<rparr>"

theorem lifecycle_respected_witness:
  "\<exists>n' \<in> set (t_notifications (wdb (snd (notification_exec demo_config id (OpIngest ''old'' (plain_input [] ''firing'' ''k'') 5000000 1 2) (up notification_db))))).
     n_id n' = ''n1'' \<and> n_state n' = ''firing''"
proof -
  have r: "map n_state (t_notifications (wdb (snd (notification_exec demo_config id (OpIngest ''old'' (plain_input [] ''firing'' ''k'') 5000000 1 2) (up notification_db))))) = [''firing'']"
    by code_simp
  have "keyed n_id (t_notifications (wdb (up notification_db)))" "plain_notification ''n1'' ''c1'' ''resolved'' ''k'' \<in> set (t_notifications (wdb (up notification_db)))"
    by code_simp+
  from lifecycle_respected [OF this, of demo_config id "OpIngest ''old'' (plain_input [] ''firing'' ''k'') 5000000 1 2"] r
  show ?thesis by (auto simp: plain_notification_def map_eq_Cons_conv)
qed

section \<open>Routing and external keys\<close>

text \<open>What an accepted delivery leaves: a row in the channel it was routed to, which a search for the external key
  finds, and no further row when the key was known.\<close>

definition ingested :: "(string \<Rightarrow> string) \<Rightarrow> string \<Rightarrow> string \<Rightarrow> db \<Rightarrow> Notification \<Rightarrow> db \<Rightarrow> bool" where
  "ingested sha token key d n d' \<longleftrightarrow>
     (\<exists>w. accepts (sha token) d w \<and> routed (sha token) d (w_channel_id w) (Nt_ChannelID n) \<and> t_webhooks d' = t_webhooks d \<and>
        (\<exists>r \<in> set (t_notifications d'). n_id r = Nt_ID n \<and> n_webhook_id r = w_id w \<and> n_channel_id r = Nt_ChannelID n) \<and>
        (key \<noteq> [] \<longrightarrow> map_option n_id (under_key (w_id w) key d') = Some (Nt_ID n)) \<and>
        (\<forall>old. under_key (w_id w) key d = Some old \<longrightarrow> Nt_ID n = n_id old \<and> map n_id (t_notifications d') = map n_id (t_notifications d)))"

lemma under_key_SomeD: "under_key wid key d = Some n \<Longrightarrow> key \<noteq> [] \<and> n \<in> set (t_notifications d) \<and> n_webhook_id n = wid \<and> n_external_key n = key"
  by (auto simp: under_key_def dest!: find_SomeD split: if_splits)

lemma find_upd_where_inv: "(\<And>x. P (f x) = P x) \<Longrightarrow> List.find P (upd_where Q f xs) = map_option (\<lambda>x. if Q x then f x else x) (List.find P xs)"
  by (induction xs) auto

lemma ingested_old:
  assumes "accepts (sha token) d w" and "routed (sha token) d (w_channel_id w) cid" and "under_key (w_id w) key d = Some n"
    and "only_notifications (upd_where (\<lambda>x. n_id x = n_id n) (delivered cid input t)) d d'"
  shows "ingested sha token key d (notification_of (n_id n) cid cname input created t) d'"
proof -
  note u = under_key_SomeD [OF assms(3)]
  have t: "t_notifications d' = upd_where (\<lambda>x. n_id x = n_id n) (delivered cid input t) (t_notifications d)" "t_webhooks d' = t_webhooks d"
    using assms(4) by (simp_all add: only_notifications_def)
  have "map n_id (t_notifications d') = map n_id (t_notifications d)"
    unfolding t by (simp add: map_upd_where delivered_def)
  moreover have "map_option n_id (under_key (w_id w) key d') = Some (n_id n)"
    using assms(3) u unfolding under_key_def t by (simp add: find_upd_where_inv delivered_def)
  moreover have "delivered cid input t n \<in> set (t_notifications d')" using u unfolding t set_upd_where by (auto simp: image_iff)
  moreover have "n_id (delivered cid input t n) = n_id n \<and> n_webhook_id (delivered cid input t n) = w_id w \<and> n_channel_id (delivered cid input t n) = cid"
    using u by (simp add: delivered_def)
  ultimately show ?thesis unfolding ingested_def using assms(1-3) t(2)
    by (intro exI [of _ w]) (simp add: notification_of_def, blast)
qed

lemma ingested_new:
  assumes "accepts (sha token) d w" and "routed (sha token) d (w_channel_id w) cid" and "under_key (w_id w) key d = None"
    and "only_notifications (\<lambda>xs. xs @ [created_row i cid (w_id w) (with_defaults input) now]) d d'" and "key = In_ExternalKey input"
  shows "ingested sha token key d (notification_of i cid cname (with_defaults input) now now) d'"
proof -
  have "In_ExternalKey (with_defaults input) = key" using assms(5) by (simp add: with_defaults_def)
  with assms show ?thesis unfolding ingested_def
    by (intro exI [of _ w]) (auto simp: created_row_def notification_of_def only_notifications_def under_key_def find_append split: if_splits)
qed

lemma CreateFromWebhook_ingested:
  assumes "CreateFromWebhook cfg sha token input now rnd1 rnd2 w = (Inr n, w')"
  shows "ingested sha token (In_ExternalKey input) (wdb w) n (wdb w')"
proof -
  have "sat (CreateFromWebhook cfg sha token input now rnd1 rnd2) (wdb w) (\<lambda>r d'. \<forall>n. r = Inr n \<longrightarrow> ingested sha token (In_ExternalKey input) (wdb w) n d')"
    by (rule sat_CreateFromWebhook) (auto intro: ingested_old ingested_new)
  from satD [OF this assms] show ?thesis by simp
qed

text \<open>C18: routing of a payload.  A notification that was accepted came through an active webhook with that token and
  is stored in the channel of the webhook, or, only when the policy of the webhook is public, in a
  channel that is itself public; a locked webhook never writes elsewhere and no webhook reaches a
  private channel other than its own.\<close>

theorem webhook_routing:
  assumes "CreateFromWebhook cfg sha token input now rnd1 rnd2 w = (Inr n, w')"
  shows "\<exists>hook \<in> set (t_webhooks (wdb w)). w_token_hash hook = sha token \<and> w_revoked_at hook = None \<and>
    (\<exists>r \<in> set (t_notifications (wdb w')). n_id r = Nt_ID n \<and> n_webhook_id r = w_id hook \<and> n_channel_id r = Nt_ChannelID n) \<and>
    (Nt_ChannelID n = w_channel_id hook \<or>
     policy_of (wdb w) (sha token) = ''public'' \<and> (\<exists>c \<in> set (t_channels (wdb w)). c_id c = Nt_ChannelID n \<and> c_visibility c = ''public''))"
  using CreateFromWebhook_ingested [OF assms] unfolding ingested_def accepts_def routed_def by blast

theorem webhook_routing_witness:
  "\<exists>hook \<in> set (t_webhooks import_db). w_token_hash hook = ''old'' \<and> w_channel_id hook = ''c1''"
proof -
  have "map_sum id Nt_ChannelID (fst (CreateFromWebhook demo_config id ''old'' (plain_input ''#dev'' [] []) 5000000 1 2 (up import_db))) = Inr ''c1''" by code_simp
  then obtain n where "CreateFromWebhook demo_config id ''old'' (plain_input ''#dev'' [] []) 5000000 1 2 (up import_db) =
      (Inr n, snd (CreateFromWebhook demo_config id ''old'' (plain_input ''#dev'' [] []) 5000000 1 2 (up import_db)))" "Nt_ChannelID n = ''c1''"
    by (blast dest: run_Inr)
  moreover have "policy_of import_db ''old'' = ''locked''" by code_simp
  ultimately show ?thesis using webhook_routing [of demo_config id "''old''" "plain_input ''#dev'' [] []" 5000000 1 2 "up import_db" n] by force
qed

text \<open>C19: deliveries under one external key update one notification.  When a delivery with an external key has been
  accepted, a later delivery with the same token and key, at any time and with any content, is returned
  under the same identifier and adds no notification.\<close>

theorem external_key_updates:
  assumes "CreateFromWebhook cfg sha token input now rnd1 rnd2 w = (Inr n, w')" and "In_ExternalKey input \<noteq> []"
    and "wdb v = wdb w'" and "In_ExternalKey input' = In_ExternalKey input"
    and "CreateFromWebhook cfg sha token input' now' rnd3 rnd4 v = (Inr n', v')"
  shows "Nt_ID n' = Nt_ID n \<and> map n_id (t_notifications (wdb v')) = map n_id (t_notifications (wdb w'))"
proof -
  let ?k = "In_ExternalKey input"
  obtain hook where 1: "accepts (sha token) (wdb w) hook" "t_webhooks (wdb w') = t_webhooks (wdb w)"
      "map_option n_id (under_key (w_id hook) ?k (wdb w')) = Some (Nt_ID n)"
    using CreateFromWebhook_ingested [OF assms(1)] assms(2) by (auto simp: ingested_def)
  obtain hook' where 2: "accepts (sha token) (wdb w') hook'"
      "\<forall>old. under_key (w_id hook') ?k (wdb w') = Some old \<longrightarrow> Nt_ID n' = n_id old \<and> map n_id (t_notifications (wdb v')) = map n_id (t_notifications (wdb w'))"
    using CreateFromWebhook_ingested [OF assms(5)] assms(3,4) by (auto simp: ingested_def)
  have "hook' = hook" using 1(1,2) 2(1) by (simp add: accepts_def)
  with 1(3) 2(2) show ?thesis by auto
qed

definition standalone :: config where
  "standalone = \<lparr>replicationClusterID = [], replicationNodeID = [], controlAuthority = [], controlLease = 0\<rparr>"

definition first_delivery :: "(err + Notification) \<times> db world" where
  "first_delivery = CreateFromWebhook standalone id ''old'' (plain_input [] ''firing'' ''k'') 5000000 1 2 (up import_db)"

definition second_delivery :: "(err + Notification) \<times> db world" where
  "second_delivery = CreateFromWebhook standalone id ''old'' (plain_input [] ''resolved'' ''k'') 7000000 3 4 (snd first_delivery)"

theorem external_key_updates_witness: "map n_id (t_notifications (wdb (snd second_delivery))) = map n_id (t_notifications (wdb (snd first_delivery)))"
proof -
  have "map_sum id (\<lambda>_. ()) (fst first_delivery) = Inr ()" "map_sum id (\<lambda>_. ()) (fst second_delivery) = Inr ()" by code_simp+
  then obtain n n' where d: "first_delivery = (Inr n, snd first_delivery)" "second_delivery = (Inr n', snd second_delivery)"
    by (blast dest: run_Inr)
  have 1: "CreateFromWebhook standalone id ''old'' (plain_input [] ''firing'' ''k'') 5000000 1 2 (up import_db) = (Inr n, snd first_delivery)"
    using d(1) by (simp only: first_delivery_def [symmetric])
  have 2: "CreateFromWebhook standalone id ''old'' (plain_input [] ''resolved'' ''k'') 7000000 3 4 (snd first_delivery) = (Inr n', snd second_delivery)"
    using d(2) by (simp only: second_delivery_def [symmetric])
  from external_key_updates [OF 1 _ refl _ 2] show ?thesis by (simp add: plain_input_def)
qed

section \<open>Operators\<close>

definition transitioned :: "string \<Rightarrow> User \<Rightarrow> string \<Rightarrow> db \<Rightarrow> db \<Rightarrow> bool" where
  "transitioned i actor next d d' \<longleftrightarrow>
     (\<exists>n \<in> set (t_notifications d). n_id n = i \<and> (User_IsAdmin actor \<or> has_role d (User_ID actor) (n_channel_id n)) \<and>
        (if n_state n = next then d' = d
         else valid_transition (n_state n) next \<and>
           (\<exists>t. n_updated_at n < t \<and>
              t_notifications d' = upd_where (\<lambda>x. n_id x = i) (\<lambda>x. x\<lparr>n_state := next, n_updated_at := t\<rparr>) (t_notifications d) \<and>
              (\<exists>e. t_events d' = t_events d @ [e] \<and> e_notification_id e = i \<and> e_state e = next \<and> e_created_at e = t \<and> e_actor_user_id e = Some (User_ID actor)))))"

lemma after_stamp_later: "at < UnixMilli (after_stamp at now)"
  by (simp add: after_stamp_def)

lemma transitionedI:
  fixes now :: gotime
  assumes "List.find (\<lambda>n. n_id n = i) (t_notifications d) = Some n" and "User_IsAdmin actor \<or> has_role d (User_ID actor) (n_channel_id n)"
    and "n_state n \<noteq> next" and "valid_transition (n_state n) next"
    and "t_notifications d' = upd_where (\<lambda>x. n_id x = i) (\<lambda>x. x\<lparr>n_state := next, n_updated_at := UnixMilli (after_stamp (n_updated_at n) now)\<rparr>) (t_notifications d)"
    and "\<exists>e. t_events d' = t_events d @ [e] \<and> e_notification_id e = i \<and> e_state e = next \<and> e_created_at e = UnixMilli (after_stamp (n_updated_at n) now) \<and>
      e_actor_user_id e = Some (User_ID actor)"
  shows "transitioned i actor next d d'"
  unfolding transitioned_def using find_SomeD [OF assms(1)] assms(2-6) after_stamp_later [of "n_updated_at n" now]
  by (intro bexI [of _ n]) (auto intro!: exI [of _ "UnixMilli (after_stamp (n_updated_at n) now)"])

lemma transitioned_same:
  "List.find (\<lambda>n. n_id n = i) (t_notifications d) = Some n \<Longrightarrow> User_IsAdmin actor \<or> has_role d (User_ID actor) (n_channel_id n) \<Longrightarrow>
   n_state n = next \<Longrightarrow> transitioned i actor next d d"
  unfolding transitioned_def by (drule find_SomeD) auto

text \<open>A state change by an operator.  When it returns, the notification exists and the actor is an
  administrator or has an operator role in its channel; either it already had the state and nothing
  changed, or the transition was a valid one, the row has the new state with a strictly later update time,
  and one event records the state, the time and the actor.\<close>

theorem operator_transition:
  assumes "SetNotificationState cfg i actor next now rnd w = (Inr (), w')"
  shows "transitioned i actor next (wdb w) (wdb w')"
proof -
  have "sat (SetNotificationState cfg i actor next now rnd) (wdb w) (\<lambda>r d'. r = Inr () \<longrightarrow> transitioned i actor next (wdb w) d')"
    unfolding SetNotificationState_def Let_def
    by (intro sat_intro) (auto intro!: sat_intro simp: appended_def, (erule transitioned_same transitionedI [where now = now]; simp)+)
  from satD [OF this assms] show ?thesis by simp
qed

theorem operator_transition_witness:
  "transitioned ''n1'' \<lparr>User_ID = ''u1'', User_Username = ''ann'', User_IsAdmin = True\<rparr> ''resolved'' (notification_db\<lparr>t_notifications := [plain_notification ''n1'' ''c1'' ''firing'' ''k''],
     t_users := [\<lparr>u_id = ''u1'', u_username = ''ann'', u_password_hash = [], u_created_at = 0, u_is_admin = True, u_oidc_subject = None, u_disabled_at = None\<rparr>]\<rparr>)
    (wdb (snd (SetNotificationState demo_config ''n1'' \<lparr>User_ID = ''u1'', User_Username = ''ann'', User_IsAdmin = True\<rparr> ''resolved'' 0 5
     (up (notification_db\<lparr>t_notifications := [plain_notification ''n1'' ''c1'' ''firing'' ''k''],
     t_users := [\<lparr>u_id = ''u1'', u_username = ''ann'', u_password_hash = [], u_created_at = 0, u_is_admin = True, u_oidc_subject = None, u_disabled_at = None\<rparr>]\<rparr>)))))"
proof -
  let ?w = "up (notification_db\<lparr>t_notifications := [plain_notification ''n1'' ''c1'' ''firing'' ''k''],
     t_users := [\<lparr>u_id = ''u1'', u_username = ''ann'', u_password_hash = [], u_created_at = 0, u_is_admin = True, u_oidc_subject = None, u_disabled_at = None\<rparr>]\<rparr>)"
  have "fst (SetNotificationState demo_config ''n1'' \<lparr>User_ID = ''u1'', User_Username = ''ann'', User_IsAdmin = True\<rparr> ''resolved'' 0 5 ?w) = Inr ()" by code_simp
  from operator_transition [OF prod.collapse [symmetric, of "SetNotificationState demo_config ''n1'' \<lparr>User_ID = ''u1'', User_Username = ''ann'', User_IsAdmin = True\<rparr> ''resolved'' 0 5 ?w", unfolded this]]
  show ?thesis by simp
qed

end
