(* ===== verification/Replication.thy ===== *)
theory Replication
  imports Notifications
begin

text \<open>
  The exchange of notifications between nodes in \<open>internal/store/replication.go\<close> and \<open>replication_snapshot.go\<close>:
  a node applies a contiguous range of the operations of another node, quarantines what it cannot apply, and
  merges snapshots of the notification table.  SHA-256 and the text of an error are arguments.  A
  \<open>json.RawMessage\<close> is its bytes, with the empty string for nil; a Go map is an association list, in the order in which a
  loop visits it.
\<close>

section \<open>Encoding of structs\<close>

text \<open>The compact form of a valid document: spaces outside of strings are dropped, characters that matter to HTML
  and the line separators are escaped.  The flag tells that the position is inside a string.\<close>

fun compact :: "bool \<Rightarrow> string \<Rightarrow> string" where
  "compact q [] = []"
| "compact False (c # s) =
     (if c \<in> {CHR '' '', CHR 0x09, CHR 0x0A, CHR 0x0D} then compact False s else c # compact (c = CHR 0x22) s)"
| "compact True (c # s) =
     (if c = CHR 0x5C then (case s of [] \<Rightarrow> [c] | e # t \<Rightarrow> c # e # compact True t)
      else if c \<in> {CHR 0x26, CHR 0x3C, CHR 0x3E} then esc_ascii c @ compact True s
      else if c = CHR 0xE2 \<and> take 1 s = [CHR 0x80] \<and> (take 1 (drop 1 s) = [CHR 0xA8] \<or> take 1 (drop 1 s) = [CHR 0xA9])
      then [CHR 0x5C, CHR ''u'', CHR ''2'', CHR ''0'', CHR ''2'', (if take 1 (drop 1 s) = [CHR 0xA8] then CHR ''8'' else CHR ''9'')] @ compact True (drop 2 s)
      else c # compact (c \<noteq> CHR 0x22) s)"

definition Valid :: "string \<Rightarrow> bool" where
  "Valid s \<longleftrightarrow> Unmarshal s \<noteq> None"

definition MarshalRaw :: "string \<Rightarrow> string option" where
  "MarshalRaw raw = (if raw = [] then Some ''null'' else if Valid raw then Some (compact False raw) else None)"

text \<open>The date of a day counted from 1 January 1970, in the Gregorian calendar.\<close>

definition civil :: "int \<Rightarrow> int \<times> int \<times> int" where
  "civil days = (let z = days + 719468; era = z div 146097; doe = z mod 146097;
     yoe = (doe - doe div 1460 + doe div 36524 - doe div 146096) div 365;
     doy = doe - (365 * yoe + yoe div 4 - yoe div 100); mp = (5 * doy + 2) div 153;
     m = (if mp < 10 then mp + 3 else mp - 9) in
     (yoe + era * 400 + (if m \<le> 2 then 1 else 0), m, doy - (153 * mp + 2) div 5 + 1))"

definition pad :: "nat \<Rightarrow> int \<Rightarrow> string" where
  "pad k n = (let s = show_int n in replicate (k - length s) (CHR ''0'') @ s)"

text \<open>The fraction of a second without its trailing zeros.\<close>

definition fraction :: "int \<Rightarrow> string" where
  "fraction ns = (let s = rev (dropWhile (\<lambda>c. c = CHR ''0'') (rev (pad 9 ns))) in if s = [] then [] else CHR ''.'' # s)"

text \<open>\<open>time.Time\<close> in UTC as JSON; years of more than four digits are refused.\<close>

definition MarshalTime :: "gotime \<Rightarrow> string option" where
  "MarshalTime t = (let sec = t div Second; day = sec div 86400; s = sec mod 86400 in
     case civil day of (y, m, d) \<Rightarrow>
       if y < 0 \<or> y \<ge> 10000 then None
       else Some (quote (pad 4 y @ ''-'' @ pad 2 m @ ''-'' @ pad 2 d @ ''T'' @ pad 2 (s div 3600) @ '':'' @
              pad 2 (s div 60 mod 60) @ '':'' @ pad 2 (s mod 60) @ fraction (t mod Second) @ ''Z'')))"

text \<open>An object from the encodings of its fields; an error in one field is an error of the whole.\<close>

fun fields :: "(string \<times> string option) list \<Rightarrow> string list option" where
  "fields [] = Some []"
| "fields ((k, v) # fs) = (case (v, fields fs) of (Some x, Some xs) \<Rightarrow> Some ((quote k @ CHR '':'' # x) # xs) | _ \<Rightarrow> None)"

definition MarshalStruct :: "(string \<times> string option) list \<Rightarrow> string option" where
  "MarshalStruct fs = map_option (\<lambda>xs. CHR ''{'' # join xs @ ''}'') (fields fs)"

definition MarshalOperation :: "ReplicationOperation \<Rightarrow> string option" where
  "MarshalOperation op = MarshalStruct
     ([(''version'', Some (show_int (Ro_Version op))), (''cluster_id'', Some (quote (Ro_ClusterID op))), (''origin'', Some (quote (Ro_Origin op))),
       (''sequence'', Some (show_nat (Ro_Sequence op))), (''physical_ms'', Some (show_int (Ro_PhysicalMS op))),
       (''logical'', Some (show_nat (unat (Ro_Logical op)))), (''kind'', Some (quote (Ro_Kind op)))] @
      (if Ro_ChannelID op = [] then [] else [(''channel_id'', Some (quote (Ro_ChannelID op)))]) @
      [(''actor_type'', Some (quote (Ro_ActorType op))), (''actor_id'', Some (quote (Ro_ActorID op))),
       (''payload'', MarshalRaw (Ro_Payload op)), (''created_at'', MarshalTime (Ro_CreatedAt op))])"

section \<open>Replicated notifications\<close>

record replicatedNotification =
  Rn_NotificationID :: string
  Rn_State :: string
  Rn_Text :: string
  Rn_Username :: string
  Rn_IconURL :: string
  Rn_CardJSON :: string
  Rn_AttachmentsJSON :: string
  Rn_RawPayloadJSON :: string
  Rn_ExternalKey :: string
  Rn_ChannelName :: string
  Rn_CreatedAt :: int
  Rn_UpdatedAt :: int
  Rn_EventID :: string

record ReplicationSnapshotNotification =
  Sn_ID :: string
  Sn_ChannelID :: string
  Sn_WebhookID :: string
  Sn_Text :: string
  Sn_Username :: string
  Sn_IconURL :: string
  Sn_Attachments :: string
  Sn_RawPayload :: string
  Sn_Card :: string
  Sn_CreatedAt :: int
  Sn_UpdatedAt :: int
  Sn_ExternalKey :: string
  Sn_State :: string

record ReplicationSnapshot =
  Ss_Version :: int
  Ss_ProtocolVersion :: int
  Ss_ClusterID :: string
  Ss_Source :: string
  Ss_CreatedAt :: gotime
  Ss_Cursors :: "(string \<times> nat) list"
  Ss_Notifications :: "ReplicationSnapshotNotification list"
  Ss_Digest :: string

text \<open>Decoding of a payload: every string field must be a string or null, every \<open>int64\<close> an integer literal in range.\<close>

definition parse_int64 :: "string \<Rightarrow> int option" where
  "parse_int64 s = (let negative = take 1 s = ''-''; ds = (if negative then drop 1 s else s); n = int (read_nat ds); i = (if negative then - n else n) in
     if ds \<noteq> [] \<and> list_all is_digit ds \<and> - (2 ^ 63) \<le> i \<and> i < 2 ^ 63 then Some i else None)"

definition int_of :: "json \<Rightarrow> int option" where
  "int_of v = (case v of JNum x \<Rightarrow> parse_int64 x | _ \<Rightarrow> None)"

fun int_field :: "string \<Rightarrow> (string \<times> json) list \<Rightarrow> int \<Rightarrow> int" where
  "int_field f [] cur = cur"
| "int_field f ((k, v) # ms) cur = int_field f ms (if matches f k then (case int_of v of None \<Rightarrow> cur | Some i \<Rightarrow> i) else cur)"

definition int_typed :: "string \<Rightarrow> (string \<times> json) list \<Rightarrow> bool" where
  "int_typed f ms \<longleftrightarrow> list_all (\<lambda>(k, v). matches f k \<longrightarrow> v = JNull \<or> int_of v \<noteq> None) ms"

definition string_fields :: "string list" where
  "string_fields = [''notification_id'', ''state'', ''text'', ''username'', ''icon_url'', ''card_json'', ''attachments_json'', ''raw_payload_json'',
     ''external_key'', ''channel_name'', ''event_id'']"

definition int_fields :: "string list" where
  "int_fields = [''created_at'', ''updated_at'']"

definition decode_notification :: "string \<Rightarrow> replicatedNotification option" where
  "decode_notification payload =
     (let ms = members_of payload; s = (\<lambda>f. str_field f ms []); i = (\<lambda>f. int_field f ms 0) in
      if struct_ok payload \<and> list_all (\<lambda>f. str_typed f ms) string_fields \<and> list_all (\<lambda>f. int_typed f ms) int_fields
      then Some \<lparr>Rn_NotificationID = s ''notification_id'', Rn_State = s ''state'', Rn_Text = s ''text'', Rn_Username = s ''username'',
              Rn_IconURL = s ''icon_url'', Rn_CardJSON = s ''card_json'', Rn_AttachmentsJSON = s ''attachments_json'',
              Rn_RawPayloadJSON = s ''raw_payload_json'', Rn_ExternalKey = s ''external_key'', Rn_ChannelName = s ''channel_name'',
              Rn_CreatedAt = i ''created_at'', Rn_UpdatedAt = i ''updated_at'', Rn_EventID = s ''event_id''\<rparr>
      else None)"

definition snapshot_of :: "notification_row \<Rightarrow> ReplicationSnapshotNotification" where
  "snapshot_of n = \<lparr>Sn_ID = n_id n, Sn_ChannelID = n_channel_id n, Sn_WebhookID = n_webhook_id n, Sn_Text = n_text n, Sn_Username = n_username n,
     Sn_IconURL = n_icon_url n, Sn_Attachments = n_attachments n, Sn_RawPayload = n_raw_payload n, Sn_Card = n_card n, Sn_CreatedAt = n_created_at n,
     Sn_UpdatedAt = n_updated_at n, Sn_ExternalKey = n_external_key n, Sn_State = n_state n\<rparr>"

text \<open>The row that an \<open>INSERT\<close> of these columns makes; the columns of agents stay NULL.\<close>

definition row_of :: "ReplicationSnapshotNotification \<Rightarrow> notification_row" where
  "row_of v = \<lparr>n_id = Sn_ID v, n_channel_id = Sn_ChannelID v, n_webhook_id = Sn_WebhookID v, n_text = Sn_Text v, n_username = Sn_Username v,
     n_icon_url = Sn_IconURL v, n_attachments = Sn_Attachments v, n_raw_payload = Sn_RawPayload v, n_created_at = Sn_CreatedAt v,
     n_external_key = Sn_ExternalKey v, n_state = Sn_State v, n_updated_at = Sn_UpdatedAt v, n_card = Sn_Card v, n_agent_id = None,
     n_agent_run_id = None\<rparr>"

definition snapshotNotificationContentKey :: "ReplicationSnapshotNotification \<Rightarrow> string" where
  "snapshotNotificationContentKey v = Marshal (JArr (map JStr
     [Sn_ChannelID v, Sn_Text v, Sn_Username v, Sn_IconURL v, Sn_Attachments v, Sn_RawPayload v, Sn_Card v]))"

text \<open>The higher of two states, and whether the content of the incoming notification replaces the local one.\<close>

definition higher_state :: "string \<Rightarrow> string \<Rightarrow> string" where
  "higher_state local incoming = (if stateRank incoming > stateRank local then incoming else local)"

definition incoming_wins :: "ReplicationSnapshotNotification \<Rightarrow> ReplicationSnapshotNotification \<Rightarrow> bool" where
  "incoming_wins local incoming \<longleftrightarrow> Sn_UpdatedAt incoming > Sn_UpdatedAt local \<or>
     Sn_UpdatedAt incoming = Sn_UpdatedAt local \<and> snapshotNotificationContentKey incoming > snapshotNotificationContentKey local"

definition replace_content :: "ReplicationSnapshotNotification \<Rightarrow> string \<Rightarrow> notification_row \<Rightarrow> notification_row" where
  "replace_content v state n = n\<lparr>n_channel_id := Sn_ChannelID v, n_text := Sn_Text v, n_username := Sn_Username v, n_icon_url := Sn_IconURL v,
     n_attachments := Sn_Attachments v, n_raw_payload := Sn_RawPayload v, n_card := Sn_Card v, n_created_at := min (n_created_at n) (Sn_CreatedAt v),
     n_updated_at := Sn_UpdatedAt v, n_state := state\<rparr>"

text \<open>\<open>UPDATE notifications \<dots> SET channel_id\<close>: the new channel has to exist.\<close>

definition move_notification :: "string \<Rightarrow> string \<Rightarrow> (notification_row \<Rightarrow> notification_row) \<Rightarrow> nat store" where
  "move_notification i channelID f = stmt (\<lambda>d.
     if exists_where (\<lambda>n. n_id n = i) (t_notifications d) \<and> \<not> exists_where (\<lambda>c. c_id c = channelID) (t_channels d)
     then Inl (ErrConstraint ForeignKeyViolation)
     else Inr (count_where (\<lambda>n. n_id n = i) (t_notifications d), t_notifications_update (upd_where (\<lambda>n. n_id n = i) f) d))"

section \<open>Effects of operations\<close>

definition incoming_of :: "ReplicationOperation \<Rightarrow> replicatedNotification \<Rightarrow> ReplicationSnapshotNotification" where
  "incoming_of op p = \<lparr>Sn_ID = Rn_NotificationID p, Sn_ChannelID = Ro_ChannelID op, Sn_WebhookID = Ro_ActorID op, Sn_Text = Rn_Text p,
     Sn_Username = Rn_Username p, Sn_IconURL = Rn_IconURL p, Sn_Attachments = Rn_AttachmentsJSON p, Sn_RawPayload = Rn_RawPayloadJSON p,
     Sn_Card = Rn_CardJSON p, Sn_CreatedAt = Rn_CreatedAt p, Sn_UpdatedAt = Rn_UpdatedAt p, Sn_ExternalKey = Rn_ExternalKey p, Sn_State = Rn_State p\<rparr>"

text \<open>A creation whose row is there already: the two notifications are merged when they have the same identity.\<close>

definition merge_creation :: "(string \<Rightarrow> string) \<Rightarrow> ReplicationOperation \<Rightarrow> replicatedNotification \<Rightarrow> err \<Rightarrow> unit store" where
  "merge_creation sha256 op p e =
     (if Rn_ExternalKey p = [] then failM e
      else tryM (query (\<lambda>d. map_option snapshot_of (List.find (\<lambda>n. n_id n = Rn_NotificationID p) (t_notifications d)))) (\<lambda>r. case r of
        Inl _ \<Rightarrow> failM e
      | Inr None \<Rightarrow> failM e
      | Inr (Some local) \<Rightarrow>
          bindM (requireM (\<not> (Sn_WebhookID local \<noteq> Ro_ActorID op \<or> Sn_ExternalKey local \<noteq> Rn_ExternalKey p \<or>
                   Rn_NotificationID p \<noteq> notificationIDForExternalKey sha256 (Ro_ActorID op) (Rn_ExternalKey p)))
                 (ErrText ''notification creation identity collision'')) (\<lambda>_.
          let incoming = incoming_of op p; state = higher_state (Sn_State local) (Sn_State incoming) in
          if incoming_wins local incoming then ignoreM (move_notification (Sn_ID incoming) (Sn_ChannelID incoming) (replace_content incoming state))
          else ignoreM (sql_update t_notifications t_notifications_update (\<lambda>_ n. n_id n = Sn_ID incoming)
                 (\<lambda>n. n\<lparr>n_created_at := min (n_created_at n) (Sn_CreatedAt incoming), n_state := state\<rparr>)))))"

definition apply_created :: "(string \<Rightarrow> string) \<Rightarrow> ReplicationOperation \<Rightarrow> replicatedNotification \<Rightarrow> unit store" where
  "apply_created sha256 op p =
     bindM (requireM (Rn_ChannelName p \<noteq> []) (ErrText ''missing channel name'')) (\<lambda>_.
     bindM (sql_insert_ignore t_channels t_channels_update chk_channels c_id
              \<lparr>c_id = Ro_ChannelID op, c_name = Rn_ChannelName p, c_display_name = Rn_ChannelName p, c_description = [], c_accent_color = [],
               c_visibility = ''public'', c_created_at = Rn_CreatedAt p\<rparr>) (\<lambda>_.
     bindM (sql_insert_ignore t_webhooks t_webhooks_update chk_webhooks w_id
              \<lparr>w_id = Ro_ActorID op, w_token_hash = sha256 (Ro_ActorID op), w_channel_id = Ro_ChannelID op, w_created_at = Rn_CreatedAt p,
               w_kind = ''incoming'', w_revoked_at = None\<rparr>) (\<lambda>_.
     tryM (sql_insert t_notifications_update chk_notifications (row_of (incoming_of op p))) (\<lambda>r. case r of
       Inr _ \<Rightarrow> returnM ()
     | Inl e \<Rightarrow> merge_creation sha256 op p e))))"

definition apply_updated :: "ReplicationOperation \<Rightarrow> replicatedNotification \<Rightarrow> unit store" where
  "apply_updated op p =
     bindM (move_notification (Rn_NotificationID p) (Ro_ChannelID op)
       (\<lambda>n. n\<lparr>n_channel_id := Ro_ChannelID op, n_text := Rn_Text p, n_username := Rn_Username p, n_icon_url := Rn_IconURL p,
              n_attachments := Rn_AttachmentsJSON p, n_raw_payload := Rn_RawPayloadJSON p, n_state := Rn_State p, n_updated_at := Rn_UpdatedAt p,
              n_card := Rn_CardJSON p\<rparr>)) (\<lambda>n.
     requireM (n = 1) (ErrText ''notification update before creation''))"

definition apply_state :: "replicatedNotification \<Rightarrow> unit store" where
  "apply_state p =
     bindM (query (\<lambda>d. map_option n_state (List.find (\<lambda>n. n_id n = Rn_NotificationID p) (t_notifications d)))) (\<lambda>r.
     bindM (rowM ErrNoRows r) (\<lambda>current.
     whenM (stateRank (Rn_State p) > stateRank current)
       (ignoreM (sql_update t_notifications t_notifications_update (\<lambda>_ n. n_id n = Rn_NotificationID p)
          (\<lambda>n. n\<lparr>n_state := Rn_State p, n_updated_at := max (n_updated_at n) (Rn_UpdatedAt p)\<rparr>)))))"

definition applyReplicationEffect :: "(string \<Rightarrow> string) \<Rightarrow> ReplicationOperation \<Rightarrow> unit store" where
  "applyReplicationEffect sha256 op =
     (case decode_notification (Ro_Payload op) of
        None \<Rightarrow> failM (ErrText ''json: cannot unmarshal'')
      | Some p \<Rightarrow>
          bindM (requireM (Rn_NotificationID p \<noteq> []) (ErrText ''missing notification ID'')) (\<lambda>_.
          if Ro_Kind op = ''notification.created'' then apply_created sha256 op p
          else if Ro_Kind op = ''notification.updated'' then apply_updated op p
          else if Ro_Kind op = ''notification.state'' then apply_state p
          else failM (ErrText ''unsupported operation kind'')))"

text \<open>A quarantined operation ends the range: the transaction is committed and an error returned.  An envelope
  that cannot be encoded is a nil slice, which the column does not take.\<close>

definition quarantineReplication :: "ReplicationOperation \<Rightarrow> string \<Rightarrow> gotime \<Rightarrow> unit fin store" where
  "quarantineReplication op reason now =
     (case MarshalOperation op of
        None \<Rightarrow> stmt (\<lambda>d. Inl (ErrConstraint CheckViolation))
      | Some b \<Rightarrow>
          bindM (sql_insert_ignore t_quarantine t_quarantine_update chk_quarantine (\<lambda>q. (rq_origin q, rq_sequence q))
                   \<lparr>rq_origin = Ro_Origin op, rq_sequence = Ro_Sequence op, rq_reason = reason, rq_envelope = b, rq_created_at = UnixMilli now\<rparr>) (\<lambda>_.
          returnM (CommitErr ErrReplicationQuarantined)))"

definition envelope_row :: "ReplicationOperation \<Rightarrow> repl_op_row" where
  "envelope_row op = \<lparr>ro_cluster_id = Ro_ClusterID op, ro_origin = Ro_Origin op, ro_sequence = Ro_Sequence op, ro_physical_ms = Ro_PhysicalMS op,
     ro_logical = Ro_Logical op, ro_kind = Ro_Kind op, ro_channel_id = Ro_ChannelID op, ro_actor_type = Ro_ActorType op,
     ro_actor_id = Ro_ActorID op, ro_payload = Ro_Payload op, ro_created_at = UnixMilli (Ro_CreatedAt op)\<rparr>"

text \<open>The loop over the range.\<close>

fun apply_loop :: "config \<Rightarrow> (string \<Rightarrow> string) \<Rightarrow> (err \<Rightarrow> string) \<Rightarrow> gotime \<Rightarrow> string \<Rightarrow> ReplicationOperation list \<Rightarrow> nat \<Rightarrow> unit fin store" where
  "apply_loop cfg sha256 error_text now origin [] cursor = returnM (Commit ())"
| "apply_loop cfg sha256 error_text now origin (op # operations) cursor =
     (if Ro_Origin op \<noteq> origin \<or> Ro_Sequence op = 0 then failM (ErrText ''mixed or invalid replication range'')
      else if Ro_Sequence op \<le> cursor then
        bindM (query (\<lambda>d. List.find (\<lambda>r. ro_origin r = origin \<and> ro_sequence r = Ro_Sequence op) (t_repl_ops d))) (\<lambda>r.
        bindM (rowM ErrNoRows r) (\<lambda>r.
        if ro_cluster_id r \<noteq> Ro_ClusterID op \<or> ro_kind r \<noteq> Ro_Kind op \<or> ro_payload r \<noteq> Ro_Payload op
        then failM (ErrText ''replication operation ID collision'')
        else apply_loop cfg sha256 error_text now origin operations cursor))
      else if Ro_Sequence op \<noteq> cursor + 1 then failM ErrReplicationGap
      else if Ro_Version op \<noteq> replicationProtocolVersion \<or> Ro_ClusterID op \<noteq> replicationClusterID cfg
      then quarantineReplication op ''unsupported version or cluster'' now
      else if len (Ro_Payload op) > maxReplicationPayloadBytes \<or> \<not> Valid (Ro_Payload op)
      then quarantineReplication op ''invalid payload'' now
      else tryM (applyReplicationEffect sha256 op) (\<lambda>r. case r of
        Inl e \<Rightarrow> quarantineReplication op (error_text e) now
      | Inr _ \<Rightarrow>
          bindM (sql_insert t_repl_ops_update chk_repl_ops (envelope_row op)) (\<lambda>_.
          bindM (sql_upsert t_repl_cursors t_repl_cursors_update chk_repl_cursors rc_origin \<lparr>rc_origin = origin, rc_sequence = Ro_Sequence op\<rparr>
                   (\<lambda>c. c\<lparr>rc_sequence := Ro_Sequence op\<rparr>)) (\<lambda>_.
          apply_loop cfg sha256 error_text now origin operations (Ro_Sequence op)))))"

definition ApplyReplicationOperations :: "config \<Rightarrow> (string \<Rightarrow> string) \<Rightarrow> (err \<Rightarrow> string) \<Rightarrow> ReplicationOperation list \<Rightarrow> gotime \<Rightarrow> unit store" where
  "ApplyReplicationOperations cfg sha256 error_text operations now =
     (case operations of
        [] \<Rightarrow> returnM ()
      | first # _ \<Rightarrow>
          tx (bindM (query (\<lambda>d. case List.find (\<lambda>c. rc_origin c = Ro_Origin first) (t_repl_cursors d) of None \<Rightarrow> 0 | Some c \<Rightarrow> rc_sequence c)) (\<lambda>cursor.
              apply_loop cfg sha256 error_text now (Ro_Origin first) operations cursor)))"

section \<open>Snapshots\<close>

definition replicationSnapshotVersion :: int where
  "replicationSnapshotVersion = 1"

definition MarshalSnapshotNotification :: "ReplicationSnapshotNotification \<Rightarrow> string option" where
  "MarshalSnapshotNotification v = MarshalStruct
     [(''id'', Some (quote (Sn_ID v))), (''channel_id'', Some (quote (Sn_ChannelID v))), (''webhook_id'', Some (quote (Sn_WebhookID v))),
      (''text'', Some (quote (Sn_Text v))), (''username'', Some (quote (Sn_Username v))), (''icon_url'', Some (quote (Sn_IconURL v))),
      (''attachments'', MarshalRaw (Sn_Attachments v)), (''raw_payload'', MarshalRaw (Sn_RawPayload v)), (''card'', MarshalRaw (Sn_Card v)),
      (''created_at'', Some (show_int (Sn_CreatedAt v))), (''updated_at'', Some (show_int (Sn_UpdatedAt v))),
      (''external_key'', Some (quote (Sn_ExternalKey v))), (''state'', Some (quote (Sn_State v)))]"

fun all_some :: "'a option list \<Rightarrow> 'a list option" where
  "all_some [] = Some []"
| "all_some (x # xs) = (case (x, all_some xs) of (Some y, Some ys) \<Rightarrow> Some (y # ys) | _ \<Rightarrow> None)"

definition replicationSnapshotDigest :: "(string \<Rightarrow> string) \<Rightarrow> ReplicationSnapshot \<Rightarrow> string option" where
  "replicationSnapshotDigest sha256 s = map_option (\<lambda>x. hex_bytes (sha256 x)) (MarshalStruct
     [(''version'', Some (show_int (Ss_Version s))), (''protocol_version'', Some (show_int (Ss_ProtocolVersion s))),
      (''cluster_id'', Some (quote (Ss_ClusterID s))), (''source'', Some (quote (Ss_Source s))), (''created_at'', MarshalTime (Ss_CreatedAt s)),
      (''cursors'', Some (CHR ''{'' # join (map (\<lambda>(k, n). quote k @ CHR '':'' # show_nat n) (sort_key fst (Ss_Cursors s))) @ ''}'')),
      (''notifications'', map_option (\<lambda>xs. CHR ''['' # join xs @ '']'') (all_some (map MarshalSnapshotNotification (Ss_Notifications s)))),
      (''digest'', Some (quote []))])"

definition BuildReplicationSnapshot :: "config \<Rightarrow> (string \<Rightarrow> string) \<Rightarrow> gotime \<Rightarrow> ReplicationSnapshot store" where
  "BuildReplicationSnapshot cfg sha256 now =
     bindM (requireM (\<not> (replicationClusterID cfg = [] \<or> replicationNodeID cfg = [])) (ErrText ''replication is not configured'')) (\<lambda>_.
     tx (bindM (query origin_heads) (\<lambda>cursors.
         bindM (query (\<lambda>d. map snapshot_of (sort_key n_id (t_notifications d)))) (\<lambda>notifications.
         let snapshot = \<lparr>Ss_Version = replicationSnapshotVersion, Ss_ProtocolVersion = replicationProtocolVersion, Ss_ClusterID = replicationClusterID cfg,
               Ss_Source = replicationNodeID cfg, Ss_CreatedAt = now, Ss_Cursors = cursors, Ss_Notifications = notifications, Ss_Digest = []\<rparr> in
         case replicationSnapshotDigest sha256 snapshot of
           None \<Rightarrow> failM (ErrText ''json: error calling MarshalJSON'')
         | Some digest \<Rightarrow> returnM (Rollback (snapshot\<lparr>Ss_Digest := digest\<rparr>))))))"

definition validSnapshotJSON :: "string \<Rightarrow> bool" where
  "validSnapshotJSON v \<longleftrightarrow> v = [] \<or> Valid v"

definition valid_incoming :: "ReplicationSnapshotNotification \<Rightarrow> bool" where
  "valid_incoming v \<longleftrightarrow> \<not> (Sn_ID v = [] \<or> Sn_ChannelID v = [] \<or> Sn_WebhookID v = [] \<or> Sn_CreatedAt v \<le> 0 \<or> Sn_UpdatedAt v < Sn_CreatedAt v \<or>
     stateRank (Sn_State v) < 0 \<or> \<not> validSnapshotJSON (Sn_Attachments v) \<or> \<not> validSnapshotJSON (Sn_RawPayload v) \<or> \<not> validSnapshotJSON (Sn_Card v))"

text \<open>The merge of one notification that is there already.\<close>

definition merge_local :: "ReplicationSnapshotNotification \<Rightarrow> ReplicationSnapshotNotification \<Rightarrow> unit store" where
  "merge_local incoming local =
     bindM (requireM (\<not> (Sn_WebhookID local \<noteq> Sn_WebhookID incoming \<or> Sn_ExternalKey local \<noteq> Sn_ExternalKey incoming))
              (ErrText ''replication snapshot notification identity collision'')) (\<lambda>_.
     let state = higher_state (Sn_State local) (Sn_State incoming); same = (\<lambda>_ n. n_id n = Sn_ID incoming) in
     if incoming_wins local incoming then ignoreM (move_notification (Sn_ID incoming) (Sn_ChannelID incoming) (replace_content incoming state))
     else if state \<noteq> Sn_State local then
       ignoreM (sql_update t_notifications t_notifications_update same
         (\<lambda>n. n\<lparr>n_created_at := min (n_created_at n) (Sn_CreatedAt incoming), n_state := state\<rparr>))
     else if Sn_CreatedAt incoming < Sn_CreatedAt local then
       ignoreM (sql_update t_notifications t_notifications_update same (\<lambda>n. n\<lparr>n_created_at := Sn_CreatedAt incoming\<rparr>))
     else returnM ())"

definition merge_notification :: "ReplicationSnapshotNotification \<Rightarrow> string list \<Rightarrow> string list store" where
  "merge_notification incoming seen =
     bindM (requireM (valid_incoming incoming \<and> Sn_ID incoming \<notin> set seen) (ErrText ''invalid replication snapshot notification'')) (\<lambda>_.
     bindM (query (\<lambda>d. map_option snapshot_of (List.find (\<lambda>n. n_id n = Sn_ID incoming) (t_notifications d)))) (\<lambda>r.
     bindM (case r of
         None \<Rightarrow> ignoreM (sql_insert t_notifications_update chk_notifications (row_of incoming))
       | Some local \<Rightarrow> merge_local incoming local) (\<lambda>_.
     returnM (Sn_ID incoming # seen))))"

definition ApplyReplicationSnapshot :: "config \<Rightarrow> (string \<Rightarrow> string) \<Rightarrow> ReplicationSnapshot \<Rightarrow> gotime \<Rightarrow> gotime \<Rightarrow> unit store" where
  "ApplyReplicationSnapshot cfg sha256 snapshot now now2 =
     bindM (requireM (\<not> (Ss_Version snapshot \<noteq> replicationSnapshotVersion \<or> Ss_ProtocolVersion snapshot \<noteq> replicationProtocolVersion \<or>
              Ss_ClusterID snapshot \<noteq> replicationClusterID cfg \<or> \<not> replicationIdentityPattern (Ss_Source snapshot)))
              (ErrText ''invalid replication snapshot identity'')) (\<lambda>_.
     bindM (requireM (\<not> (Ss_Digest snapshot = [] \<or> replicationSnapshotDigest sha256 snapshot \<noteq> Some (Ss_Digest snapshot)))
              (ErrText ''invalid replication snapshot digest'')) (\<lambda>_.
     bindM (requireM (\<not> Ss_CreatedAt snapshot > now + 2 * Minute) (ErrText ''replication snapshot timestamp is in the future'')) (\<lambda>_.
     bindM (requireM (list_all (\<lambda>(origin, sequence). \<not> (\<not> replicationIdentityPattern origin \<or> sequence = 0)) (Ss_Cursors snapshot))
              (ErrText ''invalid replication snapshot cursor'')) (\<lambda>_.
     tx (bindM (foldM merge_notification (Ss_Notifications snapshot) []) (\<lambda>_.
         bindM (foldM (\<lambda>(origin, sequence) _. raise_cursor origin sequence) (Ss_Cursors snapshot) 0) (\<lambda>_.
         bindM (sql_upsert t_snapshots t_snapshots_update chk_snapshots rs_source
                  \<lparr>rs_source = Ss_Source snapshot, rs_last_applied_at = UnixMilli now2, rs_application_count = 1,
                   rs_notification_count = length (Ss_Notifications snapshot)\<rparr>
                  (\<lambda>r. r\<lparr>rs_last_applied_at := UnixMilli now2, rs_application_count := rs_application_count r + 1,
                          rs_notification_count := length (Ss_Notifications snapshot)\<rparr>)) (\<lambda>_.
         returnM (Commit ())))))))))"

section \<open>The merge of two notifications\<close>

text \<open>An interface for merges of replicated values: on the values that satisfy a condition the merge is
  commutative, associative and idempotent.\<close>

locale replicated_merge =
  fixes ok :: "'k \<Rightarrow> 'a \<Rightarrow> bool" and join :: "'a \<Rightarrow> 'a \<Rightarrow> 'a"
  assumes closed: "ok k a \<Longrightarrow> ok k b \<Longrightarrow> ok k (join a b)"
    and commutes: "ok k a \<Longrightarrow> ok k b \<Longrightarrow> join a b = join b a"
    and associates: "ok k a \<Longrightarrow> ok k b \<Longrightarrow> ok k c \<Longrightarrow> join (join a b) c = join a (join b c)"
    and idempotent: "ok k a \<Longrightarrow> join a a = a"
begin

text \<open>Values that may be absent at a node.\<close>

definition combine :: "'a option \<Rightarrow> 'a option \<Rightarrow> 'a option" where
  "combine x y = (case x of None \<Rightarrow> y | Some a \<Rightarrow> (case y of None \<Rightarrow> x | Some b \<Rightarrow> Some (join a b)))"

definition fine :: "'k \<Rightarrow> 'a option \<Rightarrow> bool" where
  "fine k x \<longleftrightarrow> (\<forall>a. x = Some a \<longrightarrow> ok k a)"

lemma combine_fine: "fine k x \<Longrightarrow> fine k y \<Longrightarrow> fine k (combine x y)"
  by (auto simp: combine_def fine_def closed split: option.splits)

lemma combine_commutes: "fine k x \<Longrightarrow> fine k y \<Longrightarrow> combine x y = combine y x"
  by (auto simp: combine_def fine_def intro: commutes split: option.splits)

lemma combine_associates: "fine k x \<Longrightarrow> fine k y \<Longrightarrow> fine k z \<Longrightarrow> combine (combine x y) z = combine x (combine y z)"
  by (auto simp: combine_def fine_def intro: associates split: option.splits)

lemma combine_again: "fine k x \<Longrightarrow> fine k y \<Longrightarrow> combine (combine x y) y = combine x y"
  using combine_associates [of k x y y] by (auto simp: combine_def fine_def idempotent split: option.splits)

lemma combine_order: "fine k x \<Longrightarrow> fine k y \<Longrightarrow> fine k z \<Longrightarrow> combine (combine x y) z = combine (combine x z) y"
  using combine_associates [of k x y z] combine_associates [of k x z y] combine_commutes [of k y z] by simp

end

definition merge_value :: "ReplicationSnapshotNotification \<Rightarrow> ReplicationSnapshotNotification \<Rightarrow> ReplicationSnapshotNotification" where
  "merge_value local incoming = (if incoming_wins local incoming then incoming else local)
     \<lparr>Sn_CreatedAt := min (Sn_CreatedAt local) (Sn_CreatedAt incoming), Sn_State := higher_state (Sn_State local) (Sn_State incoming)\<rparr>"

definition utf8_content :: "ReplicationSnapshotNotification \<Rightarrow> bool" where
  "utf8_content v \<longleftrightarrow> utf8 (Sn_ChannelID v) \<and> utf8 (Sn_Text v) \<and> utf8 (Sn_Username v) \<and> utf8 (Sn_IconURL v) \<and> utf8 (Sn_Attachments v) \<and>
     utf8 (Sn_RawPayload v) \<and> utf8 (Sn_Card v)"

lemma content_key_inj:
  assumes "snapshotNotificationContentKey v = snapshotNotificationContentKey w" and "utf8_content v" and "utf8_content w"
  shows "Sn_ChannelID v = Sn_ChannelID w \<and> Sn_Text v = Sn_Text w \<and> Sn_Username v = Sn_Username w \<and> Sn_IconURL v = Sn_IconURL w \<and>
    Sn_Attachments v = Sn_Attachments w \<and> Sn_RawPayload v = Sn_RawPayload w \<and> Sn_Card v = Sn_Card w"
proof -
  have "Unmarshal (snapshotNotificationContentKey u) = Some (JArr (map JStr
      [Sn_ChannelID u, Sn_Text u, Sn_Username u, Sn_IconURL u, Sn_Attachments u, Sn_RawPayload u, Sn_Card u]))" if "utf8_content u" for u
    unfolding snapshotNotificationContentKey_def using that
    by (intro Unmarshal_Marshal) (simp_all add: utf8_content_def maxNestingDepth_def)
  from this [OF assms(2)] this [OF assms(3)] assms(1) show ?thesis by simp
qed

text \<open>Last writer wins: the order that decides on the content.\<close>

definition written :: "ReplicationSnapshotNotification \<Rightarrow> int \<times> string" where
  "written v = (Sn_UpdatedAt v, snapshotNotificationContentKey v)"

lemma incoming_wins_iff: "incoming_wins v w \<longleftrightarrow> written v < written w"
  by (auto simp: incoming_wins_def written_def less_prod_def)

lemma written_stamp [simp]: "written (v\<lparr>Sn_CreatedAt := c, Sn_State := s\<rparr>) = written v"
  by (simp add: written_def snapshotNotificationContentKey_def)

text \<open>The values of one notification: its identifier, webhook and external key.\<close>

definition ok_value :: "string \<times> string \<times> string \<Rightarrow> ReplicationSnapshotNotification \<Rightarrow> bool" where
  "ok_value k v \<longleftrightarrow> (Sn_ID v, Sn_WebhookID v, Sn_ExternalKey v) = k \<and> utf8_content v \<and> 0 \<le> stateRank (Sn_State v)"

lemma same_written:
  assumes "ok_value k v" and "ok_value k w" and "written v = written w"
  shows "v\<lparr>Sn_CreatedAt := c, Sn_State := s\<rparr> = w\<lparr>Sn_CreatedAt := c, Sn_State := s\<rparr>"
  using assms content_key_inj [of v w] by (cases v; cases w) (auto simp: ok_value_def written_def)

lemma higher_state_rank: "stateRank (higher_state s t) = max (stateRank s) (stateRank t)"
  by (simp add: higher_state_def)

lemma higher_state_eqI: "0 \<le> stateRank s \<Longrightarrow> stateRank s = stateRank t \<Longrightarrow> s = t"
  by (rule stateRank_inj)

lemma merge_value_ok: "ok_value k a \<Longrightarrow> ok_value k b \<Longrightarrow> ok_value k (merge_value a b)"
  by (auto simp: ok_value_def merge_value_def utf8_content_def higher_state_def)

lemma merge_value_commutes: "ok_value k a \<Longrightarrow> ok_value k b \<Longrightarrow> merge_value a b = merge_value b a"
proof -
  assume ok: "ok_value k a" "ok_value k b"
  have s: "higher_state (Sn_State a) (Sn_State b) = higher_state (Sn_State b) (Sn_State a)"
    using ok by (intro higher_state_eqI) (auto simp: higher_state_rank ok_value_def)
  show ?thesis
    using same_written [OF ok] by (cases "written a" "written b" rule: linorder_cases) (auto simp: merge_value_def incoming_wins_iff s min.commute)
qed

lemma merge_value_associates:
  assumes "ok_value k a" and "ok_value k b" and "ok_value k c"
  shows "merge_value (merge_value a b) c = merge_value a (merge_value b c)"
proof -
  have "higher_state (higher_state (Sn_State a) (Sn_State b)) (Sn_State c) = higher_state (Sn_State a) (higher_state (Sn_State b) (Sn_State c))"
    using assms by (intro higher_state_eqI) (auto simp: higher_state_rank ok_value_def)
  then show ?thesis by (auto simp: merge_value_def incoming_wins_iff min.assoc)
qed

lemma merge_value_idempotent: "merge_value a a = a"
  by (simp add: merge_value_def incoming_wins_iff higher_state_def)

interpretation lww: replicated_merge ok_value merge_value
  by unfold_locales (erule merge_value_ok merge_value_commutes merge_value_associates merge_value_idempotent; assumption | simp add: merge_value_idempotent)+

section \<open>Snapshots of two nodes\<close>

definition notifs :: "db \<Rightarrow> string \<Rightarrow> ReplicationSnapshotNotification option" where
  "notifs d i = map_option snapshot_of (List.find (\<lambda>n. n_id n = i) (t_notifications d))"

lemma find_upd_key:
  "(\<And>n. n_id (f n) = n_id n) \<Longrightarrow> List.find (\<lambda>n. n_id n = j) (upd_where (\<lambda>n. n_id n = i) f xs) =
     (if j = i then map_option f (List.find (\<lambda>n. n_id n = i) xs) else List.find (\<lambda>n. n_id n = j) xs)"
  by (induction xs) auto

lemma n_id_replace_content [simp]: "n_id (replace_content v s n) = n_id n"
  by (simp add: replace_content_def)

lemma snapshot_row_of [simp]: "snapshot_of (row_of v) = v"
  by (simp add: snapshot_of_def row_of_def)

lemma notifs_update:
  "(\<And>n. n_id (f n) = n_id n) \<Longrightarrow> List.find (\<lambda>n. n_id n = i) (t_notifications d) = Some n \<Longrightarrow>
   notifs (t_notifications_update (upd_where (\<lambda>n. n_id n = i) f) d) = (notifs d)(i := Some (snapshot_of (f n)))"
  by (auto simp: notifs_def find_upd_key)

lemma notifs_insert:
  "notifs d (n_id r) = None \<Longrightarrow> notifs (t_notifications_update (\<lambda>xs. xs @ [r]) d) = (notifs d)(n_id r := Some (snapshot_of r))"
  by (auto simp: notifs_def find_append split: option.splits)

definition same_identity :: "ReplicationSnapshotNotification \<Rightarrow> ReplicationSnapshotNotification \<Rightarrow> bool" where
  "same_identity v w \<longleftrightarrow> Sn_WebhookID v = Sn_WebhookID w \<and> Sn_ExternalKey v = Sn_ExternalKey w"

text \<open>What a statement of the merge leaves behind.\<close>

definition absorbed :: "ReplicationSnapshotNotification \<Rightarrow> db \<Rightarrow> db \<Rightarrow> bool" where
  "absorbed v d d' \<longleftrightarrow> notifs d' = (notifs d)(Sn_ID v := lww.combine (notifs d (Sn_ID v)) (Some v)) \<and>
     (\<forall>l. notifs d (Sn_ID v) = Some l \<longrightarrow> same_identity l v) \<and> t_repl_ops d' = t_repl_ops d \<and> t_repl_cursors d' = t_repl_cursors d"

lemma absorbed_new: "notifs d (Sn_ID v) = None \<Longrightarrow> absorbed v d (t_notifications_update (\<lambda>xs. xs @ [row_of v]) d)"
  using notifs_insert [of d "row_of v"] by (auto simp: absorbed_def lww.combine_def row_of_def snapshot_row_of [unfolded row_of_def])

lemma absorbed_update:
  assumes "List.find (\<lambda>n. n_id n = Sn_ID v) (t_notifications d) = Some n" and "same_identity (snapshot_of n) v"
    and "\<And>n. n_id (f n) = n_id n" and "snapshot_of (f n) = merge_value (snapshot_of n) v"
  shows "absorbed v d (t_notifications_update (upd_where (\<lambda>n. n_id n = Sn_ID v) f) d)"
  using assms notifs_update [of f "Sn_ID v" d n] by (auto simp: absorbed_def lww.combine_def notifs_def)

lemma absorbed_skip: "notifs d (Sn_ID v) = Some l \<Longrightarrow> same_identity l v \<Longrightarrow> merge_value l v = l \<Longrightarrow> absorbed v d d"
  by (auto simp: absorbed_def lww.combine_def)

lemma sat_merge_local:
  assumes local: "notifs d (Sn_ID v) = Some l" and err: "\<And>e d'. Q (Inl e) d'" and ok: "\<And>d'. absorbed v d d' \<Longrightarrow> Q (Inr ()) d'"
  shows "sat (merge_local v l) d Q"
proof -
  from local obtain n where n: "List.find (\<lambda>n. n_id n = Sn_ID v) (t_notifications d) = Some n" and l: "l = snapshot_of n"
    by (auto simp: notifs_def)
  have i: "n_id n = Sn_ID v" using find_SomeD [OF n] by simp
  let ?st = "higher_state (Sn_State l) (Sn_State v)"
  have wins: "snapshot_of (replace_content v ?st n) = merge_value l v" if "incoming_wins l v" "same_identity l v"
    using that i unfolding l by (simp add: snapshot_of_def replace_content_def merge_value_def same_identity_def)
  have state: "snapshot_of (n\<lparr>n_created_at := min (n_created_at n) (Sn_CreatedAt v), n_state := ?st\<rparr>) = merge_value l v" if "\<not> incoming_wins l v"
    using that unfolding l by (simp add: snapshot_of_def merge_value_def)
  have older: "snapshot_of (n\<lparr>n_created_at := Sn_CreatedAt v\<rparr>) = merge_value l v"
    if "\<not> incoming_wins l v" "?st = Sn_State l" "Sn_CreatedAt v < Sn_CreatedAt l"
    using that unfolding l by (simp add: snapshot_of_def merge_value_def min_def)
  have skip: "merge_value l v = l" if "\<not> incoming_wins l v" "?st = Sn_State l" "\<not> Sn_CreatedAt v < Sn_CreatedAt l"
    using that by (simp add: merge_value_def min_def)
  note upd = absorbed_update [OF n, folded l]
  show ?thesis unfolding merge_local_def Let_def move_notification_def
    by (intro sat_intro; simp only: sum.case; (intro sat_intro)?)
       (auto simp: err same_identity_def wins state older skip split: if_splits intro!: ok upd absorbed_skip [OF local])
qed

lemma sat_merge_notification:
  assumes err: "\<And>e d'. Q (Inl e) d'"
    and ok: "\<And>d'. valid_incoming v \<Longrightarrow> Sn_ID v \<notin> set seen \<Longrightarrow> absorbed v d d' \<Longrightarrow> Q (Inr (Sn_ID v # seen)) d'"
  shows "sat (merge_notification v seen) d Q"
  unfolding merge_notification_def
  by (intro sat_intro sat_merge_local; auto simp: err notifs_def intro!: sat_intro ok absorbed_new sat_merge_local)

definition absorbed_all :: "ReplicationSnapshotNotification list \<Rightarrow> string list \<Rightarrow> db \<Rightarrow> db \<Rightarrow> bool" where
  "absorbed_all vs seen d d' \<longleftrightarrow> (\<forall>v \<in> set vs. valid_incoming v \<and> Sn_ID v \<notin> set seen \<and> (\<forall>l. notifs d (Sn_ID v) = Some l \<longrightarrow> same_identity l v)) \<and>
     (\<forall>i. notifs d' i = lww.combine (notifs d i) (List.find (\<lambda>v. Sn_ID v = i) vs)) \<and> t_repl_ops d' = t_repl_ops d \<and> t_repl_cursors d' = t_repl_cursors d"

lemma absorbed_all_Cons:
  assumes "valid_incoming v" and "Sn_ID v \<notin> set seen" and "absorbed v d d1" and "absorbed_all vs (Sn_ID v # seen) d1 d'"
  shows "absorbed_all (v # vs) seen d d'"
proof -
  have n: "notifs d1 = (notifs d)(Sn_ID v := lww.combine (notifs d (Sn_ID v)) (Some v))" using assms(3) by (simp add: absorbed_def)
  have none: "List.find (\<lambda>w. Sn_ID w = Sn_ID v) vs = None" using assms(4) by (auto simp: absorbed_all_def find_None_iff)
  have "notifs d' i = lww.combine (notifs d i) (List.find (\<lambda>w. Sn_ID w = i) (v # vs))" for i
    using assms(4) none by (auto simp: absorbed_all_def n) (simp add: lww.combine_def split: option.split)
  with assms show ?thesis by (auto simp: absorbed_all_def absorbed_def n)
qed

lemma sat_merge_all:
  assumes err: "\<And>e d'. Q (Inl e) d'" and ok: "\<And>s d'. absorbed_all vs seen d d' \<Longrightarrow> Q (Inr s) d'"
  shows "sat (foldM merge_notification vs seen) d Q"
  using ok
proof (induction vs arbitrary: seen d)
  case Nil
  have "absorbed_all [] seen d d" by (auto simp: absorbed_all_def lww.combine_def split: option.split)
  with Nil show ?case by (auto intro!: sat_intro)
next
  case (Cons v vs)
  show ?case unfolding foldM.simps
    by (intro sat_intro sat_merge_notification) (auto simp: err intro!: Cons.IH Cons.prems dest: absorbed_all_Cons)
qed

text \<open>The cursors of a snapshot.\<close>

lemma sat_raise_all:
  assumes err: "\<And>e d'. Q (Inl e) d'"
    and ok: "\<And>k d'. (\<And>n o'. n \<le> high d' o' \<longleftrightarrow> n \<le> high d o' \<or> (\<exists>s. (o', s) \<in> set cs \<and> n \<le> s)) \<Longrightarrow>
      t_notifications d' = t_notifications d \<Longrightarrow> Q (Inr k) d'"
  shows "sat (foldM (\<lambda>(origin, sequence) _. raise_cursor origin sequence) cs k) d Q"
  using ok
proof (induction cs arbitrary: d k)
  case Nil
  then show ?case by (auto intro!: sat_intro)
next
  case (Cons c cs)
  obtain origin sequence where c: "c = (origin, sequence)" by (cases c)
  have step: "sat (foldM (\<lambda>(origin, sequence) _. raise_cursor origin sequence) cs j) d1 Q" if "cursor_raised origin sequence d d1" for j d1
  proof (rule Cons.IH)
    fix k d'
    assume h: "\<And>n o'. n \<le> high d' o' \<longleftrightarrow> n \<le> high d1 o' \<or> (\<exists>s. (o', s) \<in> set cs \<and> n \<le> s)" and t: "t_notifications d' = t_notifications d1"
    have "n \<le> high d1 o' \<longleftrightarrow> n \<le> high d o' \<or> o' = origin \<and> n \<le> sequence" for n o' using that by (simp add: cursor_raised_def)
    with h t show "Q (Inr k) d'" using that by (intro Cons.prems) (auto simp: c cursor_raised_def)
  qed
  show ?case unfolding foldM.simps c prod.case by (intro sat_intro) (auto simp: err intro!: step)
qed

lemma origin_heads_high: "n \<le> high d o' \<longleftrightarrow> n = 0 \<or> (\<exists>s. (o', s) \<in> set (origin_heads d) \<and> n \<le> s)"
proof -
  have "(o', s) \<in> set (origin_heads d) \<longleftrightarrow> s = high d o' \<and> (o' \<in> ro_origin ` set (t_repl_ops d) \<or> o' \<in> rc_origin ` set (t_repl_cursors d))" for s
    by (auto simp: origin_heads_def high_def)
  moreover have "o' \<in> ro_origin ` set (t_repl_ops d) \<or> o' \<in> rc_origin ` set (t_repl_cursors d)" if "n \<le> high d o'" "n \<noteq> 0"
    using that unfolding high_ge by blast
  ultimately show ?thesis by auto
qed

definition received :: "ReplicationSnapshot \<Rightarrow> db \<Rightarrow> db \<Rightarrow> bool" where
  "received s d d' \<longleftrightarrow> (\<exists>d1. absorbed_all (Ss_Notifications s) [] d d1 \<and> notifs d' = notifs d1) \<and>
     (\<forall>n o'. n \<le> high d' o' \<longleftrightarrow> n \<le> high d o' \<or> (\<exists>k. (o', k) \<in> set (Ss_Cursors s) \<and> n \<le> k))"

lemma receivedI:
  assumes "absorbed_all (Ss_Notifications s) [] d d1"
    and "\<And>n o'. n \<le> high d' o' \<longleftrightarrow> n \<le> high d1 o' \<or> (\<exists>k. (o', k) \<in> set (Ss_Cursors s) \<and> n \<le> k)"
    and "t_notifications d' = t_notifications d1"
  shows "received s d (t_snapshots_update f d')"
proof -
  have "high d1 = high d" using assms(1) by (auto simp: absorbed_all_def high_def known_sequences_def fun_eq_iff)
  moreover have "notifs (t_snapshots_update f d') = notifs d1" "high (t_snapshots_update f d') = high d'"
    using assms(3) by (auto simp: notifs_def high_def known_sequences_def fun_eq_iff)
  ultimately show ?thesis using assms(1,2) by (auto simp: received_def)
qed

lemma sat_ApplyReplicationSnapshot:
  assumes "\<And>e. Q (Inl e) d" and "\<And>d'. received s d d' \<Longrightarrow> Q (Inr ()) d'"
  shows "sat (ApplyReplicationSnapshot cfg sha s now now2) d Q"
  unfolding ApplyReplicationSnapshot_def
  by (intro sat_intro sat_merge_all; auto simp: assms(1) intro!: sat_intro sat_raise_all sat_merge_all assms(2); erule receivedI; simp)

lemma sat_BuildReplicationSnapshot:
  "sat (BuildReplicationSnapshot cfg sha now) d (\<lambda>r d'. d' = d \<and>
     (\<forall>s. r = Inr s \<longrightarrow> Ss_Notifications s = map snapshot_of (sort_key n_id (t_notifications d)) \<and> Ss_Cursors s = origin_heads d))"
  unfolding BuildReplicationSnapshot_def Let_def
  by (intro sat_intro) (auto intro!: sat_intro)

lemma find_snapshot:
  assumes "keyed n_id (t_notifications d)"
  shows "List.find (\<lambda>v. Sn_ID v = i) (map snapshot_of (sort_key n_id (t_notifications d))) = notifs d i"
proof -
  have f: "List.find (\<lambda>v. Sn_ID v = i) (map snapshot_of xs) = map_option snapshot_of (List.find (\<lambda>n. n_id n = i) xs)" for xs
    by (induction xs) (auto simp: snapshot_of_def)
  have "keyed n_id (sort_key n_id (t_notifications d))"
    using assms by (simp add: keyed_def distinct_map)
  then have "List.find (\<lambda>n. n_id n = i) (sort_key n_id (t_notifications d)) = List.find (\<lambda>n. n_id n = i) (t_notifications d)"
  proof (cases "List.find (\<lambda>n. n_id n = i) (t_notifications d)")
    case None
    then have "List.find (\<lambda>n. n_id n = i) (sort_key n_id (t_notifications d)) = None" unfolding find_None_iff by simp
    with None show ?thesis by simp
  next
    case (Some n)
    then have "n \<in> set (sort_key n_id (t_notifications d))" and "n_id n = i" by (auto dest: find_SomeD)
    with \<open>keyed n_id (sort_key n_id (t_notifications d))\<close> Some show ?thesis by (simp add: keyed_find)
  qed
  then show ?thesis by (simp add: f notifs_def)
qed

definition utf8_rows :: "db \<Rightarrow> bool" where
  "utf8_rows d \<longleftrightarrow> list_all (\<lambda>n. utf8_content (snapshot_of n)) (t_notifications d)"

lemma notifs_SomeD: "notifs d i = Some v \<Longrightarrow> Sn_ID v = i \<and> (\<exists>n \<in> set (t_notifications d). v = snapshot_of n)"
  by (auto simp: notifs_def snapshot_of_def dest!: find_SomeD)

text \<open>Two nodes of which each has taken in the snapshot of the other.\<close>

lemma exchange:
  assumes s: "Ss_Notifications s1 = map snapshot_of (sort_key n_id (t_notifications d1))" "Ss_Notifications s2 = map snapshot_of (sort_key n_id (t_notifications d2))"
    and r: "received s2 d1 d1'" "received s1 d2 d2'"
    and k: "keyed n_id (t_notifications d1)" "keyed n_id (t_notifications d2)"
    and u: "utf8_rows d1" "utf8_rows d2"
  shows "notifs d1' i = notifs d2' i"
proof -
  from r obtain e1 e2 where e: "absorbed_all (Ss_Notifications s2) [] d1 e1" "absorbed_all (Ss_Notifications s1) [] d2 e2" "notifs d1' = notifs e1" "notifs d2' = notifs e2"
    by (auto simp: received_def)
  have n1: "notifs d1' i = lww.combine (notifs d1 i) (notifs d2 i)" and n2: "notifs d2' i = lww.combine (notifs d2 i) (notifs d1 i)"
    using e find_snapshot k unfolding absorbed_all_def s by auto
  have valid: "utf8_content v \<and> 0 \<le> stateRank (Sn_State v) \<and> Sn_ID v = i" if "notifs d1 i = Some v \<or> notifs d2 i = Some v" for v
  proof -
    from that have "v \<in> set (Ss_Notifications s1) \<union> set (Ss_Notifications s2)" and "Sn_ID v = i" and "utf8_content v"
      using u unfolding s utf8_rows_def list_all_iff by (auto dest!: notifs_SomeD)
    with e(1,2) show ?thesis unfolding absorbed_all_def valid_incoming_def by auto
  qed
  have same: "same_identity v w" if "notifs d1 i = Some v" "notifs d2 i = Some w" for v w
    using that e(1) notifs_SomeD [OF that(2)] by (auto simp: absorbed_all_def s)
  obtain key where "lww.fine key (notifs d1 i)" "lww.fine key (notifs d2 i)"
  proof (cases "notifs d1 i")
    case None
    then show ?thesis using valid by (intro that [of "case notifs d2 i of None \<Rightarrow> ([], [], []) | Some v \<Rightarrow> (i, Sn_WebhookID v, Sn_ExternalKey v)"])
      (auto simp: lww.fine_def ok_value_def split: option.splits)
  next
    case (Some v)
    have "ok_value (i, Sn_WebhookID v, Sn_ExternalKey v) v" using valid [of v] Some by (simp add: ok_value_def)
    moreover have "ok_value (i, Sn_WebhookID v, Sn_ExternalKey v) w" if "notifs d2 i = Some w" for w
      using valid [of w] same [OF Some that] that by (simp add: ok_value_def same_identity_def)
    ultimately show ?thesis using Some by (intro that [of "(i, Sn_WebhookID v, Sn_ExternalKey v)"]) (simp_all add: lww.fine_def)
  qed
  then show ?thesis unfolding n1 n2 by (rule lww.combine_commutes)
qed

text \<open>C22: two nodes that exchange snapshots agree.  When each of two nodes has taken in the snapshot that the other
  one built before, both hold the same value for every notification, and the same highest sequence number for
  every origin.  The texts must be valid UTF-8: the order on contents compares their JSON encodings, which
  replace invalid bytes.\<close>

theorem snapshot_convergence:
  assumes "BuildReplicationSnapshot cfg1 sha now1 w1 = (Inr s1, v1)" and "BuildReplicationSnapshot cfg2 sha now2 w2 = (Inr s2, v2)"
    and "ApplyReplicationSnapshot cfg1 sha s2 now3 now4 v1 = (Inr (), w1')" and "ApplyReplicationSnapshot cfg2 sha s1 now5 now6 v2 = (Inr (), w2')"
    and "keyed n_id (t_notifications (wdb w1))" and "keyed n_id (t_notifications (wdb w2))"
    and "utf8_rows (wdb w1)" and "utf8_rows (wdb w2)"
  shows "notifs (wdb w1') = notifs (wdb w2') \<and> high (wdb w1') = high (wdb w2')"
proof -
  have b1: "wdb v1 = wdb w1" "Ss_Notifications s1 = map snapshot_of (sort_key n_id (t_notifications (wdb w1)))" "Ss_Cursors s1 = origin_heads (wdb w1)"
    using satD [OF sat_BuildReplicationSnapshot assms(1)] by auto
  have b2: "wdb v2 = wdb w2" "Ss_Notifications s2 = map snapshot_of (sort_key n_id (t_notifications (wdb w2)))" "Ss_Cursors s2 = origin_heads (wdb w2)"
    using satD [OF sat_BuildReplicationSnapshot assms(2)] by auto
  have r1: "received s2 (wdb w1) (wdb w1')"
    using satD [OF sat_ApplyReplicationSnapshot [where Q = "\<lambda>r d'. r = Inr () \<longrightarrow> received s2 (wdb v1) d'"] assms(3)] b1(1) by simp
  have r2: "received s1 (wdb w2) (wdb w2')"
    using satD [OF sat_ApplyReplicationSnapshot [where Q = "\<lambda>r d'. r = Inr () \<longrightarrow> received s1 (wdb v2) d'"] assms(4)] b2(1) by simp
  have "notifs (wdb w1') = notifs (wdb w2')"
    using exchange [OF b1(2) b2(2) r1 r2 assms(5-8)] by blast
  moreover have "n \<le> high (wdb w1') o' \<longleftrightarrow> n \<le> high (wdb w2') o'" for n o'
    using r1 r2 origin_heads_high [of n "wdb w1" o'] origin_heads_high [of n "wdb w2" o'] unfolding received_def b1(3) b2(3) by auto
  then have "high (wdb w1') = high (wdb w2')" by (intro ext) (meson order_antisym order_refl)
  ultimately show ?thesis ..
qed

section \<open>Ranges of operations\<close>

definition cursor_of :: "db \<Rightarrow> string \<Rightarrow> nat" where
  "cursor_of d origin = (case List.find (\<lambda>c. rc_origin c = origin) (t_repl_cursors d) of None \<Rightarrow> 0 | Some c \<Rightarrow> rc_sequence c)"

text \<open>An operation is acknowledged when the cursor covers it and its envelope is retained.\<close>

definition acknowledged :: "string \<Rightarrow> db \<Rightarrow> ReplicationOperation \<Rightarrow> bool" where
  "acknowledged origin d op \<longleftrightarrow> Ro_Origin op = origin \<and> Ro_Sequence op \<noteq> 0 \<and> Ro_Sequence op \<le> cursor_of d origin \<and>
     (\<exists>r. List.find (\<lambda>r. ro_origin r = origin \<and> ro_sequence r = Ro_Sequence op) (t_repl_ops d) = Some r \<and>
        ro_cluster_id r = Ro_ClusterID op \<and> ro_kind r = Ro_Kind op \<and> ro_payload r = Ro_Payload op)"

lemma keeps_move [keeps_intro]: "(\<And>d f. I d \<Longrightarrow> I (t_notifications_update f d)) \<Longrightarrow> keeps I (move_notification i cid f)"
  unfolding move_notification_def by (rule keepsI, rule sat_stmt) (auto split: if_splits)

lemma keeps_effect:
  assumes "\<And>d f. I d \<Longrightarrow> I (t_notifications_update f d)" "\<And>d f. I d \<Longrightarrow> I (t_channels_update f d)" "\<And>d f. I d \<Longrightarrow> I (t_webhooks_update f d)"
  shows "keeps I (applyReplicationEffect sha op)"
  unfolding applyReplicationEffect_def apply_created_def apply_updated_def apply_state_def merge_creation_def Let_def
  by (intro keeps_intro; simp add: assms)

definition ranged :: "string \<Rightarrow> ReplicationOperation list \<Rightarrow> db \<Rightarrow> db \<Rightarrow> bool" where
  "ranged origin operations d d' \<longleftrightarrow> list_all (acknowledged origin d') operations \<and> cursor_of d origin \<le> cursor_of d' origin \<and>
     (\<exists>rs. t_repl_ops d' = t_repl_ops d @ rs \<and> map ro_sequence rs = [Suc (cursor_of d origin)..<Suc (cursor_of d' origin)] \<and>
        list_all (\<lambda>r. ro_origin r = origin) rs)"

lemma ranged_Nil [simp]: "ranged origin [] d d"
  by (simp add: ranged_def)

lemma acknowledged_later: "acknowledged origin d op \<Longrightarrow> ranged origin operations d d' \<Longrightarrow> acknowledged origin d' op"
  by (auto simp: acknowledged_def ranged_def find_append)

lemma ranged_known: "acknowledged origin d op \<Longrightarrow> ranged origin operations d d' \<Longrightarrow> ranged origin (op # operations) d d'"
  using acknowledged_later [of origin d op operations d'] by (simp add: ranged_def)

lemma ranged_new:
  assumes "t_repl_ops d1 = t_repl_ops d @ [envelope_row op]" and "cursor_of d1 origin = Ro_Sequence op" and "Ro_Sequence op = Suc (cursor_of d origin)"
    and "Ro_Origin op = origin" and "chk_repl_ops d0 (envelope_row op) = None" and "t_repl_ops d0 = t_repl_ops d"
    and "ranged origin operations d1 d'"
  shows "ranged origin (op # operations) d d'"
proof -
  have "List.find (\<lambda>r. ro_origin r = origin \<and> ro_sequence r = Ro_Sequence op) (t_repl_ops d) = None"
    using assms(4-6) by (auto simp: chk_repl_ops_def violation_def find_None_iff envelope_row_def split: if_splits)
  then have "acknowledged origin d1 op" using assms(1-4) by (simp add: acknowledged_def find_append envelope_row_def)
  with assms(7) have "acknowledged origin d' op" by (rule acknowledged_later [rotated])
  moreover from assms(7) obtain rs where "t_repl_ops d' = t_repl_ops d1 @ rs" "map ro_sequence rs = [Suc (cursor_of d1 origin)..<Suc (cursor_of d' origin)]"
      "list_all (\<lambda>r. ro_origin r = origin) rs" by (auto simp: ranged_def)
  moreover have "cursor_of d1 origin \<le> cursor_of d' origin" using assms(7) by (simp add: ranged_def)
  ultimately show ?thesis using assms(1-4,7)
    by (auto simp: ranged_def envelope_row_def upt_conv_Cons intro!: exI [of _ "envelope_row op # rs"])
qed

lemma cursor_upserted:
  "cursor_of (t_repl_cursors_update (upd_where (\<lambda>x. rc_origin x = origin) (\<lambda>c. c\<lparr>rc_sequence := s\<rparr>)) d) origin =
     (if exists_where (\<lambda>c. rc_origin c = origin) (t_repl_cursors d) then s else 0)"
proof -
  have f: "List.find (\<lambda>c. rc_origin c = origin) (upd_where (\<lambda>x. rc_origin x = origin) (\<lambda>c. c\<lparr>rc_sequence := s\<rparr>) xs) =
      map_option (\<lambda>c. c\<lparr>rc_sequence := s\<rparr>) (List.find (\<lambda>c. rc_origin c = origin) xs)" for xs by (induction xs) auto
  show ?thesis
    by (cases "List.find (\<lambda>c. rc_origin c = origin) (t_repl_cursors d)") (auto simp: cursor_of_def f dest: find_SomeD find_NoneD)
qed

lemma cursor_inserted:
  "\<not> exists_where (\<lambda>c. rc_origin c = origin) (t_repl_cursors d) \<Longrightarrow>
   cursor_of (t_repl_cursors_update (\<lambda>xs. xs @ [\<lparr>rc_origin = origin, rc_sequence = s\<rparr>]) d) origin = s"
  by (auto simp: cursor_of_def find_append split: option.splits dest: find_SomeD)

definition applied_range :: "string \<Rightarrow> ReplicationOperation list \<Rightarrow> db \<Rightarrow> err + unit fin \<Rightarrow> db \<Rightarrow> bool" where
  "applied_range origin operations d r d' \<longleftrightarrow>
     (case r of Inl e \<Rightarrow> True | Inr f \<Rightarrow> f = CommitErr ErrReplicationQuarantined \<or> f = Commit () \<and> ranged origin operations d d')"

lemma applied_range_err [simp]: "applied_range origin operations d (Inl e) d'"
  by (simp add: applied_range_def)

lemma sat_quarantine: "sat (quarantineReplication op reason now) d (applied_range origin operations d0)"
  unfolding quarantineReplication_def by (auto intro!: sat_intro simp: applied_range_def)

lemma sat_apply_loop: "sat (apply_loop cfg sha et now origin operations (cursor_of d origin)) d (applied_range origin operations d)"
proof (induction operations arbitrary: d)
  case Nil
  then show ?case by (auto intro!: sat_intro simp: applied_range_def)
next
  case (Cons op operations)
  let ?Q = "applied_range origin (op # operations) d"
  have known: "sat (apply_loop cfg sha et now origin operations (cursor_of d origin)) d ?Q" if "acknowledged origin d op"
    by (rule sat_mono [OF Cons.IH]) (auto simp: applied_range_def split: sum.splits intro: ranged_known [OF that])
  have new: "sat (apply_loop cfg sha et now origin operations (Ro_Sequence op)) d1 ?Q"
    if "t_repl_ops d1 = t_repl_ops d @ [envelope_row op]" "cursor_of d1 origin = Ro_Sequence op" "Ro_Sequence op = Suc (cursor_of d origin)"
      "Ro_Origin op = origin" "chk_repl_ops d0 (envelope_row op) = None" "t_repl_ops d0 = t_repl_ops d" for d0 d1
    using Cons.IH [of d1] unfolding that(2)
    by (rule sat_mono) (auto simp: applied_range_def split: sum.splits intro: ranged_new [OF that])
  have effect: "sat (applyReplicationEffect sha op) d (\<lambda>r d'. t_repl_ops d' = t_repl_ops d \<and> t_repl_cursors d' = t_repl_cursors d)"
    by (rule keeps_sat [OF keeps_effect]) simp_all
  have continue: "sat (bindM (sql_insert t_repl_ops_update chk_repl_ops (envelope_row op)) (\<lambda>_.
          bindM (sql_upsert t_repl_cursors t_repl_cursors_update chk_repl_cursors rc_origin \<lparr>rc_origin = origin, rc_sequence = Ro_Sequence op\<rparr>
                   (\<lambda>c. c\<lparr>rc_sequence := Ro_Sequence op\<rparr>)) (\<lambda>_.
          apply_loop cfg sha et now origin operations (Ro_Sequence op)))) d0 ?Q"
    if "t_repl_ops d0 = t_repl_ops d" "Ro_Sequence op = Suc (cursor_of d origin)" "Ro_Origin op = origin" for d0
    by (intro sat_intro) (auto simp: that(1) cursor_upserted cursor_inserted intro!: sat_intro new [OF _ _ that(2,3)] simp del: exists_where_iff)
  have fresh: "sat (tryM (applyReplicationEffect sha op) (\<lambda>r. case r of Inl e \<Rightarrow> quarantineReplication op (et e) now
      | Inr _ \<Rightarrow> bindM (sql_insert t_repl_ops_update chk_repl_ops (envelope_row op)) (\<lambda>_.
          bindM (sql_upsert t_repl_cursors t_repl_cursors_update chk_repl_cursors rc_origin \<lparr>rc_origin = origin, rc_sequence = Ro_Sequence op\<rparr>
                   (\<lambda>c. c\<lparr>rc_sequence := Ro_Sequence op\<rparr>)) (\<lambda>_.
          apply_loop cfg sha et now origin operations (Ro_Sequence op))))) d ?Q"
    if "Ro_Sequence op = Suc (cursor_of d origin)" "Ro_Origin op = origin"
    by (rule sat_try, rule sat_mono [OF effect]) (auto intro: sat_quarantine continue [OF _ that] split: sum.split)
  have old: "sat (bindM (rowM ErrNoRows r) (\<lambda>r. if ro_cluster_id r \<noteq> Ro_ClusterID op \<or> ro_kind r \<noteq> Ro_Kind op \<or> ro_payload r \<noteq> Ro_Payload op
        then failM (ErrText ''replication operation ID collision'') else apply_loop cfg sha et now origin operations (cursor_of d origin))) d ?Q"
    if found: "r = List.find (\<lambda>r. ro_origin r = origin \<and> ro_sequence r = Ro_Sequence op) (t_repl_ops d)"
      and covered: "Ro_Sequence op \<le> cursor_of d origin" "Ro_Origin op = origin" "Ro_Sequence op \<noteq> 0" for r
  proof -
    have ack: "acknowledged origin d op" if "r = Some x" "ro_cluster_id x = Ro_ClusterID op" "ro_kind x = Ro_Kind op" "ro_payload x = Ro_Payload op" for x
      using that found covered by (simp add: acknowledged_def)
    show ?thesis by (intro sat_intro) (auto intro!: sat_intro known intro: ack)
  qed
  show ?case unfolding apply_loop.simps
    by (intro sat_if sat_fail sat_quarantine applied_range_err fresh sat_bind sat_query; (simp only: sum.case, rule old)?) auto
qed

text \<open>A second delivery of acknowledged operations finds their envelopes.\<close>

lemma apply_loop_known:
  "list_all (acknowledged origin d) operations \<Longrightarrow>
   apply_loop cfg sha et now origin operations (cursor_of d origin) (up d) = (Inr (Commit ()), up d)"
  by (induction operations) (auto simp: acknowledged_def sql_simps)

text \<open>C21: a range of operations is applied once.  When the application of a range returns, the new envelopes in the log are
  exactly those of the next sequence numbers of that origin up to the new cursor, and delivering the same range
  again, on a healthy engine, returns and changes nothing.  When it fails, nothing has changed, unless an
  operation was quarantined.\<close>

theorem range_applied_once:
  assumes "ApplyReplicationOperations cfg sha error_text (op # operations) now w = (r, w')"
  shows "case r of
      Inl e \<Rightarrow> e = ErrReplicationQuarantined \<or> wdb w' = wdb w
    | Inr _ \<Rightarrow> ApplyReplicationOperations cfg sha error_text (op # operations) now' (up (wdb w')) = (Inr (), up (wdb w')) \<and>
        (\<exists>rs. t_repl_ops (wdb w') = t_repl_ops (wdb w) @ rs \<and>
           map ro_sequence rs = [Suc (cursor_of (wdb w) (Ro_Origin op))..<Suc (cursor_of (wdb w') (Ro_Origin op))] \<and>
           list_all (\<lambda>r. ro_origin r = Ro_Origin op) rs)"
proof -
  let ?Q = "\<lambda>r d'. case r of Inl e \<Rightarrow> e = ErrReplicationQuarantined \<or> d' = wdb w | Inr _ \<Rightarrow> ranged (Ro_Origin op) (op # operations) (wdb w) d'"
  have "sat (ApplyReplicationOperations cfg sha error_text (op # operations) now) (wdb w) ?Q"
    unfolding ApplyReplicationOperations_def list.case cursor_of_def [symmetric]
    by (rule sat_tx, simp, rule sat_bind, rule sat_query, simp, simp only: sum.case, rule sat_mono [OF sat_apply_loop])
       (auto simp: applied_range_def split: sum.splits)
  from satD [OF this assms] have r: "?Q r (wdb w')" .
  have "ApplyReplicationOperations cfg sha error_text (op # operations) now' (up (wdb w')) = (Inr (), up (wdb w'))"
    if "ranged (Ro_Origin op) (op # operations) (wdb w) (wdb w')"
    using apply_loop_known [of "Ro_Origin op" "wdb w'" "op # operations" cfg sha error_text now'] that
    unfolding ApplyReplicationOperations_def list.case cursor_of_def [symmetric] by (simp add: ranged_def sql_simps del: apply_loop.simps)
  then show ?thesis using r by (auto simp: ranged_def split: sum.splits)
qed

section \<open>From one node to the other\<close>

text \<open>Field names of small letters and underscores match only themselves.\<close>

definition small :: "char \<Rightarrow> bool" where
  "small c \<longleftrightarrow> c \<in> set ''abcdefghijklmnopqrstuvwxyz_''"

lemma small_letters [simp]:
  "small CHR ''a''" "small CHR ''b''" "small CHR ''c''" "small CHR ''d''" "small CHR ''e''" "small CHR ''f''" "small CHR ''g''" "small CHR ''h''" "small CHR ''i''" "small CHR ''j''" "small CHR ''k''" "small CHR ''l''" "small CHR ''m''"
  "small CHR ''n''" "small CHR ''o''" "small CHR ''p''" "small CHR ''q''" "small CHR ''r''" "small CHR ''s''" "small CHR ''t''" "small CHR ''u''" "small CHR ''v''" "small CHR ''w''" "small CHR ''x''" "small CHR ''y''" "small CHR ''z''" "small CHR ''_''"
  by (simp_all add: small_def)

lemma small_code: "small c \<Longrightarrow> of_char c = (95 :: nat) \<or> 97 \<le> (of_char c :: nat) \<and> of_char c \<le> (122 :: nat)"
  unfolding small_def by (simp only: list.set insert_iff empty_iff, elim disjE) simp_all

lemma small_ascii: "small c \<Longrightarrow> of_char c < (128 :: nat)"
  by (auto dest: small_code)

lemma runes_ascii: "list_all (\<lambda>b. b < 128) bs \<Longrightarrow> length bs \<le> n \<Longrightarrow> runes_of n bs = bs"
proof (induction n arbitrary: bs)
  case (Suc n)
  then show ?case by (cases bs) auto
qed simp

lemma matches_small:
  assumes "list_all small f" and "list_all small k"
  shows "matches f k \<longleftrightarrow> f = k"
proof -
  let ?up = "\<lambda>r :: nat. if 97 \<le> r \<and> r \<le> 122 then r - 32 else if r = 8490 then 75 else if r = 383 then 83 else r"
  have f: "fold_name x = map (\<lambda>c. ?up (of_char c)) x" if "list_all small x" for x
    using that runes_ascii [of "map of_char x" "length x"] by (simp add: fold_name_def runes_def list_all_iff small_ascii)
  have u: "r = r'" if "?up r = ?up r'" "r = 95 \<or> 97 \<le> r \<and> r \<le> 122" "r' = 95 \<or> 97 \<le> r' \<and> r' \<le> 122" for r r'
    using that by (auto split: if_splits)
  have "c = e" if "?up (of_char c) = ?up (of_char e)" "small c" "small e" for c e
    using u [OF that(1) small_code [OF that(2)] small_code [OF that(3)]] by simp
  then have "inj_on (\<lambda>c. ?up (of_char c)) (set f \<union> set k)" using assms by (auto intro!: inj_onI simp: list_all_iff)
  then have "map (\<lambda>c. ?up (of_char c)) k = map (\<lambda>c. ?up (of_char c)) f \<longleftrightarrow> k = f" by (intro inj_on_map_eq_map) (simp add: Un_commute)
  then show ?thesis unfolding matches_def f [OF assms(1)] f [OF assms(2)] by auto
qed

lemma str_field_none: "\<forall>(k, v) \<in> set ms. \<not> matches f k \<Longrightarrow> str_field f ms cur = cur"
  by (induction ms arbitrary: cur) (auto split: json.split)

lemma str_field_mem:
  "distinct (map (\<lambda>m. fold_name (fst m)) ms) \<Longrightarrow> (k, JStr x) \<in> set ms \<Longrightarrow> matches f k \<Longrightarrow> str_field f ms cur = x"
proof (induction ms arbitrary: cur)
  case (Cons m ms)
  show ?case
  proof (cases "m = (k, JStr x)")
    case True
    with Cons.prems have "\<forall>(k', v) \<in> set ms. \<not> matches f k'" by (force simp: matches_def)
    with True Cons.prems show ?thesis by (simp add: str_field_none)
  next
    case False
    with Cons.prems have "distinct (map (\<lambda>m. fold_name (fst m)) ms)" and "(k, JStr x) \<in> set ms" by auto
    with Cons.prems show ?thesis by (cases m) (simp add: Cons.IH)
  qed
qed simp

lemma int_field_none: "\<forall>(k, v) \<in> set ms. \<not> matches f k \<Longrightarrow> int_field f ms cur = cur"
  by (induction ms arbitrary: cur) auto

lemma int_field_mem:
  "distinct (map (\<lambda>m. fold_name (fst m)) ms) \<Longrightarrow> (k, v) \<in> set ms \<Longrightarrow> matches f k \<Longrightarrow> int_of v = Some i \<Longrightarrow> int_field f ms cur = i"
proof (induction ms arbitrary: cur)
  case (Cons m ms)
  show ?case
  proof (cases "m = (k, v)")
    case True
    with Cons.prems have "\<forall>(k', v) \<in> set ms. \<not> matches f k'" by (force simp: matches_def)
    with True Cons.prems show ?thesis by (simp add: int_field_none)
  next
    case False
    with Cons.prems have "distinct (map (\<lambda>m. fold_name (fst m)) ms)" and "(k, v) \<in> set ms" by auto
    with Cons.prems show ?thesis by (cases m) (simp add: Cons.IH)
  qed
qed simp

lemma parse_int64_show:
  assumes "- (2 ^ 63) \<le> i" and "i < 2 ^ 63"
  shows "parse_int64 (show_int i) = Some i"
proof -
  have d: "list_all is_digit (show_nat n)" for n using show_nat_all_digits [of n] by (simp add: list_all_iff)
  have "take 1 (show_nat n) \<noteq> ''-''" for n
    using d [of n] show_nat_nonempty [of n] by (cases "show_nat n") (auto simp: is_digit_def)
  then show ?thesis using assms d show_nat_nonempty read_show_nat
    by (auto simp: parse_int64_def show_int_def Let_def simp del: read_nat.simps)
qed

text \<open>The operation that \<open>CreateFromWebhook\<close> logs for a new notification.\<close>

definition created_payload :: "string \<Rightarrow> string \<Rightarrow> IncomingNotification \<Rightarrow> gotime \<Rightarrow> (string \<times> json) list" where
  "created_payload i channelName input now = replicated_fields i input @
     [(''external_key'', JStr (In_ExternalKey input)), (''channel_name'', JStr channelName),
      (''created_at'', JNum (show_int (UnixMilli now))), (''updated_at'', JNum (show_int (UnixMilli now)))]"

definition payload_utf8 :: "string \<Rightarrow> string \<Rightarrow> IncomingNotification \<Rightarrow> bool" where
  "payload_utf8 i channelName input \<longleftrightarrow> list_all utf8 [i, channelName, In_State input, In_Text input, In_Username input, In_IconURL input,
     In_Card input, In_Attachments input, In_RawPayload input, In_ExternalKey input]"

lemma created_keys:
  "map fst (created_payload i channelName input now) = [''notification_id'', ''state'', ''text'', ''username'', ''icon_url'', ''card_json'',
     ''attachments_json'', ''raw_payload_json'', ''external_key'', ''channel_name'', ''created_at'', ''updated_at'']"
  by (simp add: created_payload_def replicated_fields_def)

lemma created_keys_distinct: "distinct (map (\<lambda>m. fold_name (fst m)) (created_payload i channelName input now))"
proof -
  let ?ks = "map fst (created_payload i channelName input now)"
  have "list_all (list_all small) ?ks" and d: "distinct ?ks" unfolding created_keys by simp_all
  then have "inj_on fold_name (set ?ks)" using matches_small unfolding inj_on_def list_all_iff matches_def by metis
  with d have "distinct (map fold_name ?ks)" by (simp only: distinct_map simp_thms)
  then show ?thesis by (simp add: comp_def)
qed

lemma created_members:
  assumes "payload_utf8 i channelName input"
  shows "Unmarshal (Marshal (JObj (sort_key fst (created_payload i channelName input now)))) = Some (JObj (sort_key fst (created_payload i channelName input now)))"
proof (rule Unmarshal_Marshal)
  have keys: "list_all utf8 (map fst (created_payload i channelName input now))" unfolding created_keys by code_simp
  show "wf (JObj (sort_key fst (created_payload i channelName input now)))"
    using assms keys by (auto simp: list_all_iff payload_utf8_def created_payload_def replicated_fields_def)
  have "\<forall>(k, v) \<in> set (created_payload i channelName input now). nesting v = 0" by (simp add: created_payload_def replicated_fields_def)
  then have "fold max (map (\<lambda>(k, v). nesting v) (sort_key fst (created_payload i channelName input now))) 0 \<le> 0"
    by (intro fold_max_le) auto
  then show "nesting (JObj (sort_key fst (created_payload i channelName input now))) \<le> maxNestingDepth" by (simp add: maxNestingDepth_def)
qed

lemma distinct_map_sort: "distinct (map g (sort_key f xs)) = distinct (map g xs)"
  by (simp add: distinct_map)

lemma decode_created:
  assumes "payload_utf8 i channelName input" and "- (2 ^ 63) \<le> UnixMilli now" and "UnixMilli now < 2 ^ 63"
  shows "decode_notification (Marshal (JObj (sort_key fst (created_payload i channelName input now)))) =
    Some \<lparr>Rn_NotificationID = i, Rn_State = In_State input, Rn_Text = In_Text input, Rn_Username = In_Username input, Rn_IconURL = In_IconURL input,
      Rn_CardJSON = In_Card input, Rn_AttachmentsJSON = In_Attachments input, Rn_RawPayloadJSON = In_RawPayload input, Rn_ExternalKey = In_ExternalKey input,
      Rn_ChannelName = channelName, Rn_CreatedAt = UnixMilli now, Rn_UpdatedAt = UnixMilli now, Rn_EventID = []\<rparr>"
proof -
  let ?ms = "sort_key fst (created_payload i channelName input now)"
  note u = created_members [OF assms(1), of now]
  have m: "members_of (Marshal (JObj ?ms)) = ?ms" and ok: "struct_ok (Marshal (JObj ?ms))"
    unfolding members_of_def struct_ok_def u by simp_all
  have d: "distinct (map (\<lambda>m. fold_name (fst m)) ?ms)" unfolding distinct_map_sort by (rule created_keys_distinct)
  have p: "parse_int64 (show_int (UnixMilli now)) = Some (UnixMilli now)" using assms(2,3) by (rule parse_int64_show)
  have mem: "x \<in> set ?ms \<longleftrightarrow> x \<in> set (created_payload i channelName input now)" for x by simp
  have "list_all (list_all small) (string_fields @ int_fields)" "list_all (list_all small) (map fst (created_payload i channelName input now))"
    unfolding created_keys string_fields_def int_fields_def by simp_all
  then have names: "matches f k \<longleftrightarrow> f = k" if "f \<in> set string_fields \<union> set int_fields" "(k, v) \<in> set (created_payload i channelName input now)" for f k v
    using that by (intro matches_small) (auto simp: list_all_iff)
  have "list_all (\<lambda>(k, v). (\<exists>x. v = JStr x) \<and> k \<notin> set int_fields \<or> k \<notin> set string_fields \<and> int_of v = Some (UnixMilli now)) (created_payload i channelName input now)"
    by (simp add: created_payload_def replicated_fields_def int_of_def p int_fields_def string_fields_def)
  then have vals: "(\<exists>x. v = JStr x) \<and> k \<notin> set int_fields \<or> k \<notin> set string_fields \<and> int_of v = Some (UnixMilli now)"
    if "(k, v) \<in> set (created_payload i channelName input now)" for k v
    using that unfolding list_all_iff by blast
  have "str_typed f ?ms" if "f \<in> set string_fields" for f
    unfolding str_typed_def list_all_iff
  proof (clarsimp)
    fix k v
    assume kv: "(k, v) \<in> set (created_payload i channelName input now)" "matches f k"
    with names [of f k v] that have "k \<in> set string_fields" by simp
    with vals [OF kv(1)] show "case v of JStr x \<Rightarrow> True | JNull \<Rightarrow> True | _ \<Rightarrow> False" by auto
  qed
  moreover have "int_typed f ?ms" if "f \<in> set int_fields" for f
    unfolding int_typed_def list_all_iff set_sort case_prod_beta not_None_eq
  proof (intro ballI impI, goal_cases)
    case (1 m)
    obtain k v where m: "m = (k, v)" by (cases m)
    with 1 have kv: "(k, v) \<in> set (created_payload i channelName input now)" "matches f k" by simp_all
    with names [of f k v] that have "k \<in> set int_fields" by simp
    with vals [OF kv(1)] have "int_of v = Some (UnixMilli now)" by blast
    with m show ?case by simp
  qed
  ultimately have typed: "list_all (\<lambda>f. str_typed f ?ms) string_fields" "list_all (\<lambda>f. int_typed f ?ms) int_fields"
    by (simp_all add: list_all_iff)
  have "matches f f" for f by (simp add: matches_def)
  then have s: "str_field f ?ms [] = x" if "(f, JStr x) \<in> set (created_payload i channelName input now)" for f x
    using that by (intro str_field_mem [OF d]) simp_all
  have n: "int_field f ?ms 0 = UnixMilli now" if "(f, JNum (show_int (UnixMilli now))) \<in> set (created_payload i channelName input now)" for f
    using that by (intro int_field_mem [OF d, where v = "JNum (show_int (UnixMilli now))"]) (simp_all add: matches_def int_of_def p)
  have "list_all (\<lambda>k. ''event_id'' \<noteq> k) (map fst (created_payload i channelName input now))" unfolding created_keys by simp
  then have "\<not> matches ''event_id'' k" if "(k, v) \<in> set (created_payload i channelName input now)" for k v
    using names [of "''event_id''" k v] that by (force simp: string_fields_def list_all_iff)
  then have e: "str_field ''event_id'' ?ms [] = []" by (intro str_field_none) auto
  have strings: "str_field ''notification_id'' ?ms [] = i"
    "str_field ''state'' ?ms [] = In_State input"
    "str_field ''text'' ?ms [] = In_Text input"
    "str_field ''username'' ?ms [] = In_Username input"
    "str_field ''icon_url'' ?ms [] = In_IconURL input"
    "str_field ''card_json'' ?ms [] = In_Card input"
    "str_field ''attachments_json'' ?ms [] = In_Attachments input"
    "str_field ''raw_payload_json'' ?ms [] = In_RawPayload input"
    "str_field ''external_key'' ?ms [] = In_ExternalKey input"
    "str_field ''channel_name'' ?ms [] = channelName"
    by (rule s, simp add: created_payload_def replicated_fields_def)+
  have ints: "int_field ''created_at'' ?ms 0 = UnixMilli now" "int_field ''updated_at'' ?ms 0 = UnixMilli now"
    by (rule n, simp add: created_payload_def)+
  show ?thesis unfolding decode_notification_def Let_def m using ok typed by (simp only: strings ints e simp_thms if_True)
qed

text \<open>The row an append adds to the log.\<close>

definition logged :: "string \<Rightarrow> string \<Rightarrow> string \<Rightarrow> (string \<times> json) list \<Rightarrow> db \<Rightarrow> repl_op_row \<Rightarrow> db \<Rightarrow> bool" where
  "logged kind cid aid payload d r d' \<longleftrightarrow> d' = t_repl_ops_update (\<lambda>xs. xs @ [r]) d \<and> ro_kind r = kind \<and> ro_channel_id r = cid \<and> ro_actor_id r = aid \<and>
     ro_payload r = Marshal (JObj (sort_key fst payload))"

lemma sat_append_logged:
  assumes "\<And>e. Q (Inl e) d" and "\<And>r d'. logged kind cid aid payload d r d' \<Longrightarrow> Q (Inr ()) d'" and "replicationClusterID cfg \<noteq> []"
  shows "sat (appendReplicationOperation cfg kind cid at aid payload now) d Q"
proof -
  have ok: "Q (Inr ()) (t_repl_ops_update (\<lambda>xs. xs @ [r]) d)"
    if "ro_kind r = kind" "ro_channel_id r = cid" "ro_actor_id r = aid" "ro_payload r = Marshal (JObj (sort_key fst payload))" for r
    using that by (intro assms(2) [of r]) (simp add: logged_def)
  show ?thesis unfolding appendReplicationOperation_def Let_def
    by (intro sat_intro; auto intro!: sat_intro ok simp: assms(1,3) simp del: Marshal.simps)
qed

definition creation_logged :: "string \<Rightarrow> string \<Rightarrow> string \<Rightarrow> string \<Rightarrow> IncomingNotification \<Rightarrow> gotime \<Rightarrow> db \<Rightarrow> db \<Rightarrow> bool" where
  "creation_logged i cid wid cname input now d d' \<longleftrightarrow> t_notifications d' = t_notifications d @ [created_row i cid wid input now] \<and>
     (\<exists>r. t_repl_ops d' = t_repl_ops d @ [r] \<and> ro_kind r = ''notification.created'' \<and> ro_channel_id r = cid \<and> ro_actor_id r = wid \<and>
        ro_payload r = Marshal (JObj (sort_key fst (created_payload i cname input now))))"

lemma creation_logged_frame [simp]:
  "creation_logged i cid wid cname input now d (t_monitors_update f d') = creation_logged i cid wid cname input now d d'"
  "creation_logged i cid wid cname input now d (t_incidents_update g d') = creation_logged i cid wid cname input now d d'"
  by (simp_all add: creation_logged_def)

lemma sat_create_logged:
  assumes "replicationClusterID cfg \<noteq> []"
  shows "sat (create_notification cfg sha wid cid cname input now rnd1 rnd2) d
    (\<lambda>r d'. \<forall>n. r = Inr (Commit n) \<longrightarrow> creation_logged (Nt_ID n) cid wid cname input now d d')"
proof -
  let ?i = "if In_ExternalKey input \<noteq> [] then notificationIDForExternalKey sha wid (In_ExternalKey input) else newID ''ntf_'' now rnd1"
  let ?I = "\<lambda>d'. t_notifications d' = t_notifications d @ [created_row ?i cid wid input now] \<and> t_repl_ops d' = t_repl_ops d"
  let ?J = "creation_logged ?i cid wid cname input now d"
  let ?Q = "\<lambda>(r :: err + Notification fin) d'. \<forall>n. r = Inr (Commit n) \<longrightarrow> creation_logged (Nt_ID n) cid wid cname input now d d'"
  have log: "?J d2" if "logged ''notification.created'' cid wid (created_payload ?i cname input now) d1 r d2" "?I d1" for d1 d2 r
    using that by (auto simp: logged_def creation_logged_def)
  note fin = sat_keeps_bind [where I = ?J and Q = ?Q]
  show ?thesis unfolding create_notification_def Let_def created_payload_def [symmetric]
    by (rule sat_bind, rule sat_insert, simp, simp, simp only: sum.case,
        rule sat_keeps_bind [where I = ?I], (intro keeps_intro; simp), simp, simp,
        rule sat_bind, rule sat_append_logged [OF _ _ assms], simp, simp only: sum.case,
        rule fin, (intro keeps_intro; simp), erule (1) log, simp,
        rule fin, (intro keeps_intro; simp), assumption, simp,
        rule sat_return) (simp add: notification_of_def)
qed

lemma sat_apply_created:
  assumes "Ro_Kind op = ''notification.created''" and "decode_notification (Ro_Payload op) = Some p" and "notifs d (Rn_NotificationID p) = None"
  shows "sat (applyReplicationEffect sha op) d (\<lambda>r d'. r = Inr () \<longrightarrow> t_notifications d' = t_notifications d @ [row_of (incoming_of op p)] \<and>
    ((\<forall>w \<in> set (t_webhooks d). w_id w \<noteq> Ro_ActorID op) \<longrightarrow>
       (\<exists>w \<in> set (t_webhooks d'). w_id w = Ro_ActorID op \<and> w_token_hash w = sha (Ro_ActorID op) \<and> w_revoked_at w = None)) \<and>
    ((\<forall>c \<in> set (t_channels d). c_id c \<noteq> Ro_ChannelID op) \<longrightarrow> (\<exists>c \<in> set (t_channels d'). c_id c = Ro_ChannelID op \<and> c_visibility c = ''public'')))"
  unfolding applyReplicationEffect_def assms(2) apply_created_def merge_creation_def
  using assms(1,3) by (intro sat_intro) (auto intro!: sat_intro simp: notifs_def split: sum.splits option.splits)

text \<open>C20: a new notification reaches the other nodes as it is.  The operation that is logged with a new notification,
  applied at a node that does not know the notification, adds there exactly the row of the first node: the
  decoder of the payload inverts its encoder for valid UTF-8 and times within 64 bits.\<close>

theorem creation_replicates:
  assumes "create_notification cfg sha wid cid cname input now rnd1 rnd2 w = (Inr (Commit n), w')" and "replicationClusterID cfg \<noteq> []"
    and "payload_utf8 (Nt_ID n) cname input" and "- (2 ^ 63) \<le> UnixMilli now" and "UnixMilli now < 2 ^ 63"
    and "applyReplicationEffect sha' (row_operation (last (t_repl_ops (wdb w')))) v = (Inr (), v')"
    and "notifs (wdb v) (Nt_ID n) = None"
  shows "t_notifications (wdb v') = t_notifications (wdb v) @ [last (t_notifications (wdb w'))]"
proof -
  let ?op = "row_operation (last (t_repl_ops (wdb w')))"
  from satD [OF sat_create_logged [OF assms(2)] assms(1)]
  have c: "creation_logged (Nt_ID n) cid wid cname input now (wdb w) (wdb w')" by simp
  then have op: "Ro_Kind ?op = ''notification.created''" "Ro_ChannelID ?op = cid" "Ro_ActorID ?op = wid"
      "Ro_Payload ?op = Marshal (JObj (sort_key fst (created_payload (Nt_ID n) cname input now)))"
    by (auto simp: creation_logged_def row_operation_def)
  note p = decode_created [OF assms(3-5), folded op(4)]
  from satD [OF sat_apply_created [OF op(1) p] assms(6)] assms(7)
  have "t_notifications (wdb v') = t_notifications (wdb v) @ [row_of (incoming_of ?op (the (decode_notification (Ro_Payload ?op))))]"
    unfolding p by simp
  moreover have "row_of (incoming_of ?op (the (decode_notification (Ro_Payload ?op)))) = created_row (Nt_ID n) cid wid input now"
    unfolding p by (simp add: row_of_def incoming_of_def created_row_def op)
  moreover have "last (t_notifications (wdb w')) = created_row (Nt_ID n) cid wid input now" using c by (simp add: creation_logged_def)
  ultimately show ?thesis by simp
qed

text \<open>The rows that an operation creates for a webhook and a channel that the node does not know yet: the identifier of the
  webhook is accepted as its token, and the channel is public, whatever it is on the node of origin.\<close>

theorem placeholder_rows:
  assumes "applyReplicationEffect sha op w = (Inr (), w')" and "Ro_Kind op = ''notification.created''"
    and "decode_notification (Ro_Payload op) = Some p" and "notifs (wdb w) (Rn_NotificationID p) = None"
    and "\<forall>h \<in> set (t_webhooks (wdb w)). w_id h \<noteq> Ro_ActorID op" and "\<forall>c \<in> set (t_channels (wdb w)). c_id c \<noteq> Ro_ChannelID op"
  shows "(\<exists>h \<in> set (t_webhooks (wdb w')). w_id h = Ro_ActorID op \<and> w_token_hash h = sha (Ro_ActorID op) \<and> w_revoked_at h = None) \<and>
    (\<exists>c \<in> set (t_channels (wdb w')). c_id c = Ro_ChannelID op \<and> c_visibility c = ''public'')"
  using satD [OF sat_apply_created [OF assms(2-4)] assms(1)] assms(5,6) by blast

section \<open>Examples\<close>

lemma matches_code [code]: "matches f k = (if list_all small f \<and> list_all small k then f = k else fold_name k = fold_name f)"
  using matches_small [of f k] by (auto simp: matches_def)

definition state_operation :: ReplicationOperation where
  "state_operation = \<lparr>Ro_Version = 1, Ro_ClusterID = ''cluster-1'', Ro_Origin = ''node-b-2'', Ro_Sequence = 1, Ro_PhysicalMS = 5, Ro_Logical = 0,
     Ro_Kind = ''notification.state'', Ro_ChannelID = ''c1'', Ro_ActorType = ''user'', Ro_ActorID = ''u'',
     Ro_Payload = Marshal (JObj [(''notification_id'', JStr ''n1''), (''state'', JStr ''firing'')]), Ro_CreatedAt = 5000000\<rparr>"

text \<open>An update from another node sets the state, whatever the state is here: it takes a resolved notification back to received.\<close>

lemma update_lowers_state:
  "map n_state (t_notifications notification_db) = [''resolved''] \<and>
   map n_state (t_notifications (wdb (snd (applyReplicationEffect id (state_operation\<lparr>Ro_Kind := ''notification.updated'',
     Ro_Payload := Marshal (JObj [(''notification_id'', JStr ''n1''), (''state'', JStr ''received'')])\<rparr>) (up notification_db))))) = [''received'']"
  by code_simp

definition state_db :: db where
  "state_db = notification_db\<lparr>t_repl_ops := [envelope_row state_operation], t_repl_cursors := [\<lparr>rc_origin = ''node-b-2'', rc_sequence = 1\<rparr>]\<rparr>"

lemma state_run: "ApplyReplicationOperations demo_config id (\<lambda>_. []) [state_operation] 0 (up notification_db) = (Inr (), up state_db)"
proof -
  have e: "applyReplicationEffect id state_operation (up notification_db) = (Inr (), up notification_db)" by code_simp
  have f: "\<not> maxReplicationPayloadBytes < len (Ro_Payload state_operation)" "Valid (Ro_Payload state_operation)"
    "Ro_Version state_operation = replicationProtocolVersion" "Ro_ClusterID state_operation = replicationClusterID demo_config"
    "Ro_Origin state_operation = ''node-b-2''" "Ro_Sequence state_operation = Suc 0"
    "t_repl_cursors notification_db = []" "t_repl_ops notification_db = []" "chk_repl_ops notification_db (envelope_row state_operation) = None"
    by code_simp+
  show ?thesis unfolding ApplyReplicationOperations_def state_db_def
    by (simp add: sql_simps e f chk_repl_cursors_def violation_def)
qed

theorem range_applied_once_witness:
  "ApplyReplicationOperations demo_config id (\<lambda>_. []) [state_operation] 9 (up state_db) = (Inr (), up state_db) \<and> map ro_sequence (t_repl_ops state_db) = [1]"
  using range_applied_once [OF state_run, where now' = 9] by (simp add: state_db_def envelope_row_def state_operation_def)

definition origin_run :: "(err + Notification fin) \<times> db world" where
  "origin_run = create_notification demo_config id ''w1'' ''c1'' ''ops'' (plain_input [] ''firing'' []) 5000000 1 2 (up import_db)"

definition replica_run :: "(err + unit) \<times> db world" where
  "replica_run = applyReplicationEffect id (row_operation (last (t_repl_ops (wdb (snd origin_run))))) (up empty_db)"

theorem creation_replicates_witness:
  "map n_text (t_notifications (wdb (snd replica_run))) = [''t''] \<and> t_notifications (wdb (snd replica_run)) = [last (t_notifications (wdb (snd origin_run)))]"
proof -
  have "map_sum id (\<lambda>f. case f of Commit n \<Rightarrow> payload_utf8 (Nt_ID n) ''ops'' (plain_input [] ''firing'' []) \<and> notifs empty_db (Nt_ID n) = None | _ \<Rightarrow> False) (fst origin_run) = Inr True"
    by code_simp
  then obtain f where f: "origin_run = (Inr f, snd origin_run)"
      "case f of Commit n \<Rightarrow> payload_utf8 (Nt_ID n) ''ops'' (plain_input [] ''firing'' []) \<and> notifs empty_db (Nt_ID n) = None | _ \<Rightarrow> False"
    by (blast dest: run_Inr)
  then obtain n where n: "create_notification demo_config id ''w1'' ''c1'' ''ops'' (plain_input [] ''firing'' []) 5000000 1 2 (up import_db) = (Inr (Commit n), snd origin_run)"
      "payload_utf8 (Nt_ID n) ''ops'' (plain_input [] ''firing'' [])" "notifs empty_db (Nt_ID n) = None"
    unfolding origin_run_def [symmetric] by (cases f) auto
  have r: "fst replica_run = Inr ()" by code_simp
  have a: "applyReplicationEffect id (row_operation (last (t_repl_ops (wdb (snd origin_run))))) (up empty_db) = (Inr (), snd replica_run)"
    using prod.collapse [of replica_run] unfolding r unfolding replica_run_def by simp
  have "t_notifications (wdb (snd replica_run)) = t_notifications (wdb (up empty_db)) @ [last (t_notifications (wdb (snd origin_run)))]"
    using n(3) by (intro creation_replicates [OF n(1) _ n(2) _ _ a]) (simp_all add: demo_config_def UnixMilli_def)
  moreover have "n_text (last (t_notifications (wdb (snd origin_run)))) = ''t''" by code_simp
  ultimately show ?thesis by (simp add: empty_db_def)
qed

definition node_b_config :: config where
  "node_b_config = demo_config\<lparr>replicationNodeID := ''node-b-2''\<rparr>"

definition node_a :: "db world" where
  "node_a = up (import_db\<lparr>t_notifications := [plain_notification ''n1'' ''c1'' ''resolved'' ''k'']\<rparr>)"

definition node_b :: "db world" where
  "node_b = up (import_db\<lparr>t_notifications := [(plain_notification ''n1'' ''c1'' ''firing'' ''k'')\<lparr>n_text := ''t''\<rparr>]\<rparr>)"

definition built_a :: "(err + ReplicationSnapshot) \<times> db world" where
  "built_a = BuildReplicationSnapshot demo_config (\<lambda>s. ''k'') 0 node_a"

definition built_b :: "(err + ReplicationSnapshot) \<times> db world" where
  "built_b = BuildReplicationSnapshot node_b_config (\<lambda>s. ''k'') 0 node_b"

definition exchanged_a :: "(err + unit) \<times> db world" where
  "exchanged_a = ApplyReplicationSnapshot demo_config (\<lambda>s. ''k'') (projr (fst built_b)) 0 0 (snd built_a)"

definition exchanged_b :: "(err + unit) \<times> db world" where
  "exchanged_b = ApplyReplicationSnapshot node_b_config (\<lambda>s. ''k'') (projr (fst built_a)) 0 0 (snd built_b)"

theorem snapshot_convergence_witness:
  "notifs (wdb (snd exchanged_a)) = notifs (wdb (snd exchanged_b)) \<and> map_option Sn_State (notifs (wdb (snd exchanged_b)) ''n1'') = Some ''resolved'' \<and>
   map_option Sn_Text (notifs (wdb (snd exchanged_a)) ''n1'') = Some ''t''"
proof -
  have d: "map_sum id Ss_Digest (fst built_a) = Inr ''6b''" "map_sum id Ss_Digest (fst built_b) = Inr ''6b''" by code_simp+
  note b = run_projr [OF d(1)] run_projr [OF d(2)]
  have "fst exchanged_a = Inr ()" "fst exchanged_b = Inr ()" by code_simp+
  then have e: "exchanged_a = (Inr (), snd exchanged_a)" "exchanged_b = (Inr (), snd exchanged_b)" by (metis prod.collapse)+
  have k: "keyed n_id (t_notifications (wdb node_a))" "keyed n_id (t_notifications (wdb node_b))" "utf8_rows (wdb node_a)" "utf8_rows (wdb node_b)" by code_simp+
  have "notifs (wdb (snd exchanged_a)) = notifs (wdb (snd exchanged_b))"
    using snapshot_convergence [OF b [unfolded built_a_def built_b_def] e [unfolded exchanged_a_def exchanged_b_def built_a_def built_b_def] k]
    unfolding exchanged_a_def exchanged_b_def built_a_def built_b_def by simp
  moreover have "map_option Sn_State (notifs (wdb (snd exchanged_b)) ''n1'') = Some ''resolved''" "map_option Sn_Text (notifs (wdb (snd exchanged_a)) ''n1'') = Some ''t''"
    by code_simp+
  ultimately show ?thesis by simp
qed

end
