(* ===== verification/AgentQueue.thy ===== *)
theory AgentQueue
  imports Access
begin

text \<open>
  The durable command queue of agent_queue.go: a human message in a channel that is bound to an agent
  becomes a command; bridges of that agent claim commands under a lease of sixty seconds, renew the
  lease, and complete the command; operators cancel or reconcile it.  One definition per operation,
  every statement of it included, in the order of the source.  The invariant is that a command with a
  live lease is the head of its channel's queue.
\<close>

section \<open>Operations\<close>

record AgentCommand =
  Cmd_CancelRequested :: bool
  Cmd_ID :: string
  Cmd_ChannelID :: string
  Cmd_MessageID :: string
  Cmd_AuthorID :: string
  Cmd_Author :: string
  Cmd_Text :: string
  Cmd_State :: string
  Cmd_TurnID :: string
  Cmd_Result :: string
  Cmd_CreatedAt :: int
  Cmd_UpdatedAt :: int

definition active_states :: "string set" where
  "active_states = {''queued'', ''running'', ''cancelling'', ''interrupted''}"

definition held_states :: "string set" where
  "held_states = {''running'', ''cancelling'', ''interrupted''}"

definition final_states :: "string set" where
  "final_states = {''completed'', ''failed'', ''cancelled''}"

lemma in_states [simp]:
  "s \<in> active_states \<longleftrightarrow> s = ''queued'' \<or> s = ''running'' \<or> s = ''cancelling'' \<or> s = ''interrupted''"
  "s \<in> held_states \<longleftrightarrow> s = ''running'' \<or> s = ''cancelling'' \<or> s = ''interrupted''"
  "s \<in> final_states \<longleftrightarrow> s = ''completed'' \<or> s = ''failed'' \<or> s = ''cancelled''"
  by (simp_all add: active_states_def held_states_def final_states_def)

text \<open>\<open>ORDER BY created_at, id\<close>.\<close>

definition queue_key :: "command_row \<Rightarrow> int \<times> string" where
  "queue_key q = (q_created_at q, q_id q)"

definition AgentCommandPending :: "Agent \<Rightarrow> string \<Rightarrow> gotime \<Rightarrow> bool store" where
  "AgentCommandPending agent channel now =
     bindM (ChannelIDByName channel) (\<lambda>channelID.
     bindM (RequireChannelOperator (UserWithID (Agent_UserID agent)) channelID) (\<lambda>_.
     bindM (query (\<lambda>d. exists_where (\<lambda>b. b_channel_id b = channelID \<and> b_agent_id b = Agent_ID agent) (t_bindings d))) (\<lambda>bound.
     bindM (requireM bound (ErrText ''an administrator must bind this channel to the agent first'')) (\<lambda>_.
     query (\<lambda>d. case first_by queue_key (filter (\<lambda>q. q_channel_id q = channelID \<and> q_agent_id q = Agent_ID agent \<and>
                         q_state q \<in> active_states) (t_commands d)) of
                  None \<Rightarrow> False
                | Some q \<Rightarrow> q_lease_until q \<le> UnixMilli now)))))"

text \<open>\<open>BindAgent\<close> calls \<open>AgentByName\<close> (agents.go), passed here as an operation of the store.\<close>

definition BindAgent :: "(string \<Rightarrow> Agent store) \<Rightarrow> User \<Rightarrow> string \<Rightarrow> string \<Rightarrow> gotime \<Rightarrow> gotime \<Rightarrow> 64 word \<Rightarrow> unit store" where
  "BindAgent AgentByName user channelID agentName now now2 rnd =
     bindM (requireM (User_IsAdmin user) ErrForbidden) (\<lambda>_.
     bindM (AgentByName agentName) (\<lambda>a.
     bindM (requireM (Agent_Enabled a) ErrForbidden) (\<lambda>_.
     bindM (RequireChannelOperator (UserWithID (Agent_UserID a)) channelID) (\<lambda>_.
     tx (bindM (sql_insert_ignore t_bindings t_bindings_update chk_bindings b_channel_id
                  \<lparr>b_channel_id = channelID, b_agent_id = Agent_ID a, b_created_at = UnixMilli now\<rparr>) (\<lambda>count.
         bindM (query (\<lambda>d. map_option b_agent_id (List.find (\<lambda>b. b_channel_id b = channelID) (t_bindings d)))) (\<lambda>r.
         bindM (rowM ErrNoRows r) (\<lambda>bound.
         bindM (requireM (bound = Agent_ID a) ErrAlreadyExists) (\<lambda>_.
         bindM (whenM (count = 1) (recordQueueControl user ''agent.binding.create'' (channelID @ '':'' @ Agent_ID a) now2 rnd)) (\<lambda>_.
         returnM (Commit ())))))))))))"

text \<open>The rows of the \<open>SELECT\<close> in \<open>enqueueCommand\<close>: at most one, since \<open>channel_messages.id\<close>,
  \<open>agent_bindings.channel_id\<close> and \<open>users.id\<close> are primary keys.\<close>

definition enqueue_row :: "db \<Rightarrow> string \<Rightarrow> command_row option" where
  "enqueue_row d messageID =
     (case List.find (\<lambda>m. msg_id m = messageID) (t_messages d) of
        None \<Rightarrow> None
      | Some m \<Rightarrow>
        (case List.find (\<lambda>b. b_channel_id b = msg_channel_id m) (t_bindings d) of
           None \<Rightarrow> None
         | Some b \<Rightarrow>
           (case List.find (\<lambda>u. u_id u = msg_author_user_id m) (t_users d) of
              None \<Rightarrow> None
            | Some u \<Rightarrow>
              (if msg_parent_id m = None \<and> msg_deleted_at m = None \<and> u_disabled_at u = None \<and>
                  \<not> exists_where (\<lambda>a. ag_user_id a = u_id u) (t_agents d) \<and>
                  \<not> exists_where (\<lambda>t. bt_user_id t = u_id u) (t_bot_tokens d) \<and>
                  (u_is_admin u \<or> has_role d (u_id u) (msg_channel_id m)) \<and>
                  \<not> exists_where (\<lambda>q. q_message_id q = msg_id m) (t_commands d)
               then Some \<lparr>q_id = ''cmd_'' @ msg_id m, q_channel_id = msg_channel_id m, q_agent_id = b_agent_id b,
                          q_message_id = msg_id m, q_author_id = msg_author_user_id m, q_state = ''queued'',
                          q_lease_owner = [], q_lease_until = 0, q_turn_id = [], q_result = [],
                          q_cancel_requested = False, q_created_at = msg_created_at m, q_updated_at = msg_created_at m\<rparr>
               else None))))"

definition enqueueCommand :: "string \<Rightarrow> unit store" where
  "enqueueCommand messageID =
     bindM (sql_insert_select t_commands_update chk_commands (\<lambda>d. enqueue_row d messageID)) (\<lambda>_. returnM ())"

definition agentCommand :: "string \<Rightarrow> AgentCommand store" where
  "agentCommand i =
     bindM (query (\<lambda>d.
       case List.find (\<lambda>q. q_id q = i) (t_commands d) of
         None \<Rightarrow> None
       | Some q \<Rightarrow>
         (case (List.find (\<lambda>m. msg_id m = q_message_id q) (t_messages d), List.find (\<lambda>u. u_id u = q_author_id q) (t_users d)) of
            (Some m, Some u) \<Rightarrow>
              Some \<lparr>Cmd_CancelRequested = q_cancel_requested q, Cmd_ID = q_id q, Cmd_ChannelID = q_channel_id q,
                    Cmd_MessageID = q_message_id q, Cmd_AuthorID = q_author_id q, Cmd_Author = u_username u,
                    Cmd_Text = msg_text m, Cmd_State = q_state q, Cmd_TurnID = q_turn_id q, Cmd_Result = q_result q,
                    Cmd_CreatedAt = q_created_at q, Cmd_UpdatedAt = q_updated_at q\<rparr>
          | _ \<Rightarrow> None)))
       (rowM ErrNoRows)"

definition expire_commands :: "string \<Rightarrow> gotime \<Rightarrow> unit store" where
  "expire_commands channelID nw =
     bindM (sql_update t_commands t_commands_update
              (\<lambda>d q. q_channel_id q = channelID \<and> q_state q = ''queued'' \<and> \<not> user_operates d (q_author_id q) (q_channel_id q))
              (\<lambda>q. q\<lparr>q_state := ''cancelled'', q_result := ''Author no longer has command permission.'', q_updated_at := UnixMilli nw\<rparr>)) (\<lambda>_.
     bindM (sql_update t_commands t_commands_update
              (\<lambda>_ q. q_channel_id q = channelID \<and> q_state q \<in> {''running'', ''cancelling''} \<and> q_lease_until q < UnixMilli nw)
              (\<lambda>q. q\<lparr>q_state := ''interrupted'', q_updated_at := UnixMilli nw\<rparr>)) (\<lambda>_.
     returnM ()))"

definition lease_head :: "string \<Rightarrow> string \<Rightarrow> gotime \<Rightarrow> string option fin store" where
  "lease_head channelID owner nw =
     bindM (query (\<lambda>d. first_by queue_key (filter (\<lambda>q. q_channel_id q = channelID \<and> q_state q \<in> active_states) (t_commands d)))) (\<lambda>r.
     case r of
       None \<Rightarrow> returnM (Commit None)
     | Some q \<Rightarrow>
         (if q_lease_until q > UnixMilli nw then returnM (Commit None)
          else bindM (sql_update t_commands t_commands_update (\<lambda>_ x. q_id x = q_id q)
                 (\<lambda>x. x\<lparr>q_state := (if q_state q = ''queued'' then ''running'' else q_state q), q_lease_owner := owner,
                        q_lease_until := UnixMilli nw + 60000, q_updated_at := UnixMilli nw\<rparr>)) (\<lambda>_.
               returnM (Commit (Some (q_id q))))))"

definition claim_tx :: "Agent \<Rightarrow> string \<Rightarrow> string \<Rightarrow> gotime \<Rightarrow> string option store" where
  "claim_tx agent channelID owner nw =
     tx (bindM (sql_update t_bindings t_bindings_update
                  (\<lambda>_ b. b_channel_id b = channelID \<and> b_agent_id b = Agent_ID agent) (\<lambda>b. b)) (\<lambda>n.
         bindM (requireM (n = 1) (ErrText ''an administrator must bind this channel to the agent first'')) (\<lambda>_.
         bindM (expire_commands channelID nw) (\<lambda>_.
         lease_head channelID owner nw))))"

definition ClaimAgentCommand :: "Agent \<Rightarrow> string \<Rightarrow> string \<Rightarrow> gotime \<Rightarrow> AgentCommand option store" where
  "ClaimAgentCommand agent channel owner nw =
     bindM (requireM (8 \<le> len owner \<and> len owner \<le> 128) (ErrText ''invalid bridge lease owner'')) (\<lambda>_.
     bindM (ChannelIDByName channel) (\<lambda>channelID.
     bindM (RequireChannelOperator (UserWithID (Agent_UserID agent)) channelID) (\<lambda>_.
     bindM (claim_tx agent channelID owner nw) (\<lambda>r.
     case r of None \<Rightarrow> returnM None | Some i \<Rightarrow> bindM (agentCommand i) (\<lambda>c. returnM (Some c))))))"

definition RenewAgentCommand :: "Agent \<Rightarrow> string \<Rightarrow> string \<Rightarrow> string \<Rightarrow> gotime \<Rightarrow> AgentCommand store" where
  "RenewAgentCommand agent i owner turnID nw =
     bindM (agentCommand i) (\<lambda>c.
     bindM (RequireChannelOperator (UserWithID (Agent_UserID agent)) (Cmd_ChannelID c)) (\<lambda>_.
     bindM (RequireChannelOperator (UserWithID (Cmd_AuthorID c)) (Cmd_ChannelID c)) (\<lambda>_.
     bindM (requireM (len turnID \<le> 200) (ErrText ''invalid turn id'')) (\<lambda>_.
     bindM (sql_update t_commands t_commands_update
              (\<lambda>_ q. q_id q = i \<and> q_agent_id q = Agent_ID agent \<and> q_lease_owner q = owner \<and> q_lease_until q > UnixMilli nw \<and>
                     q_state q \<in> held_states \<and> (q_turn_id q = [] \<or> turnID = [] \<or> q_turn_id q = turnID))
              (\<lambda>q. q\<lparr>q_lease_until := UnixMilli nw + 60000, q_turn_id := (if turnID = [] then q_turn_id q else turnID),
                     q_updated_at := UnixMilli nw\<rparr>)) (\<lambda>n.
     bindM (requireM (n = 1) ErrForbidden) (\<lambda>_.
     agentCommand i))))))"

definition reply_row :: "Agent \<Rightarrow> AgentCommand \<Rightarrow> string \<Rightarrow> string \<Rightarrow> string \<Rightarrow> int \<Rightarrow> message_row" where
  "reply_row agent c i state result ms =
     \<lparr>msg_id = ''msg_reply_'' @ i, msg_channel_id = Cmd_ChannelID c, msg_author_user_id = Agent_UserID agent,
      msg_parent_id = Some (Cmd_MessageID c), msg_root_id = Cmd_MessageID c,
      msg_text = (if result = [] then ''Agent command '' @ state @ ''.'' else result),
      msg_idempotency_key = ''agent-command:'' @ i, msg_created_at = ms, msg_updated_at = ms, msg_deleted_at = None\<rparr>"

definition CompleteAgentCommand :: "Agent \<Rightarrow> string \<Rightarrow> string \<Rightarrow> string \<Rightarrow> string \<Rightarrow> gotime \<Rightarrow> string store" where
  "CompleteAgentCommand agent i owner state result0 nw =
     bindM (requireM (state \<in> final_states) ErrInvalidTransition) (\<lambda>_.
     bindM (returnM (TrimSpace result0)) (\<lambda>result.
     bindM (requireM (len result \<le> 4000) (ErrText ''result too long'')) (\<lambda>_.
     bindM (agentCommand i) (\<lambda>c.
     bindM (RequireChannelOperator (UserWithID (Agent_UserID agent)) (Cmd_ChannelID c)) (\<lambda>_.
     tx (bindM (sql_update t_commands t_commands_update
                  (\<lambda>_ q. q_id q = i \<and> q_agent_id q = Agent_ID agent \<and> q_lease_owner q = owner \<and>
                         q_lease_until q > UnixMilli nw \<and> q_state q \<in> held_states)
                  (\<lambda>q. q\<lparr>q_state := state, q_result := result, q_updated_at := UnixMilli nw, q_lease_until := 0\<rparr>)) (\<lambda>n.
         bindM (requireM (n = 1) ErrForbidden) (\<lambda>_.
         bindM (sql_insert_ignore t_messages t_messages_update chk_messages msg_id
                  (reply_row agent c i state result (UnixMilli nw))) (\<lambda>_.
         returnM (Commit (''msg_reply_'' @ i)))))))))))"

definition AgentCommands :: "User \<Rightarrow> string \<Rightarrow> AgentCommand list store" where
  "AgentCommands user channelID =
     bindM (channelReadable user channelID) (\<lambda>allowed.
     bindM (requireM allowed ErrForbidden) (\<lambda>_.
     bindM (query (\<lambda>d. map q_id (take 100 (rev (sort_key queue_key
              (filter (\<lambda>q. q_channel_id q = channelID) (t_commands d))))))) (\<lambda>ids.
     foldM (\<lambda>i values. bindM (agentCommand i) (\<lambda>c. returnM (values @ [c\<lparr>Cmd_TurnID := []\<rparr>]))) ids [])))"

text \<open>The two readings of the clock in the \<open>reconciled\<close> branch are separate arguments.\<close>

definition control_update :: "string \<Rightarrow> string \<Rightarrow> gotime \<Rightarrow> gotime \<Rightarrow> nat store" where
  "control_update i action now1 now2 =
     (if action = ''cancel'' then
        sql_update t_commands t_commands_update
          (\<lambda>_ q. q_id q = i \<and> q_state q \<in> {''queued'', ''running'', ''interrupted''})
          (\<lambda>q. q\<lparr>q_state := (if q_state q = ''queued'' then ''cancelled'' else ''cancelling''),
                 q_cancel_requested := True, q_updated_at := UnixMilli now1\<rparr>)
      else if action = ''reconciled'' then
        sql_update t_commands t_commands_update
          (\<lambda>_ q. q_id q = i \<and> (q_state q = ''interrupted'' \<or>
                   (q_state q \<in> {''running'', ''cancelling''} \<and> q_lease_until q < UnixMilli now2)))
          (\<lambda>q. q\<lparr>q_state := ''cancelled'', q_result := ''Human verified runtime stopped; command closed without replay.'',
                 q_updated_at := UnixMilli now1\<rparr>)
      else failM ErrInvalidTransition)"

definition ControlAgentCommand :: "User \<Rightarrow> string \<Rightarrow> string \<Rightarrow> gotime \<Rightarrow> gotime \<Rightarrow> gotime \<Rightarrow> 64 word \<Rightarrow> unit store" where
  "ControlAgentCommand user i action now1 now2 now3 rnd =
     bindM (agentCommand i) (\<lambda>c.
     bindM (RequireChannelOperator user (Cmd_ChannelID c)) (\<lambda>_.
     tx (bindM (control_update i action now1 now2) (\<lambda>n.
         bindM (requireM (n = 1) ErrInvalidTransition) (\<lambda>_.
         bindM (recordQueueControl user (''agent.command.'' @ action) i now3 rnd) (\<lambda>_.
         returnM (Commit ())))))))"

section \<open>The invariant of the queue\<close>

definition active :: "command_row \<Rightarrow> bool" where
  "active q \<longleftrightarrow> q_state q \<in> active_states"

definition queue_head :: "command_row list \<Rightarrow> command_row \<Rightarrow> bool" where
  "queue_head qs q \<longleftrightarrow> (\<forall>q' \<in> set qs. q_channel_id q' = q_channel_id q \<and> active q' \<longrightarrow> queue_key q \<le> queue_key q')"

definition live :: "int \<Rightarrow> command_row \<Rightarrow> bool" where
  "live ms q \<longleftrightarrow> active q \<and> ms < q_lease_until q"

definition queue_inv :: "command_row list \<Rightarrow> int \<Rightarrow> bool" where
  "queue_inv qs ms \<longleftrightarrow> keyed q_id qs \<and> (\<forall>q \<in> set qs. q_state q = ''queued'' \<longrightarrow> q_lease_until q = 0) \<and>
     (\<forall>q \<in> set qs. live ms q \<longrightarrow> queue_head qs q)"


text \<open>What an \<open>UPDATE\<close> of one command has to respect: it keeps the identity and the place in the queue,
  revives nothing, leases nothing that is queued, and gives a lease only to the head or to a command
  that had one.\<close>

definition cmd_ok :: "command_row list \<Rightarrow> int \<Rightarrow> command_row \<Rightarrow> command_row \<Rightarrow> bool" where
  "cmd_ok qs ms q q' \<longleftrightarrow> q_id q' = q_id q \<and> q_channel_id q' = q_channel_id q \<and> q_created_at q' = q_created_at q \<and>
     (active q' \<longrightarrow> active q) \<and> (q_state q' = ''queued'' \<longrightarrow> q_lease_until q' = 0) \<and>
     (live ms q' \<longrightarrow> live ms q \<or> queue_head qs q)"

lemma cmd_okD:
  assumes "cmd_ok qs ms q q'"
  shows "q_id q' = q_id q" "q_channel_id q' = q_channel_id q" "queue_key q' = queue_key q" "active q' \<Longrightarrow> active q"
    "q_state q' = ''queued'' \<Longrightarrow> q_lease_until q' = 0" "live ms q' \<Longrightarrow> live ms q \<or> queue_head qs q"
  using assms by (auto simp: cmd_ok_def queue_key_def)

lemma live_mono: "ms0 \<le> ms \<Longrightarrow> live ms q \<Longrightarrow> live ms0 q"
  by (auto simp: live_def)

lemma queue_inv_upd:
  assumes inv: "queue_inv qs ms0" and le: "ms0 \<le> ms"
    and ok: "\<And>q. q \<in> set qs \<Longrightarrow> P q \<Longrightarrow> cmd_ok qs ms q (f q)"
  shows "queue_inv (upd_where P f qs) ms"
  unfolding queue_inv_def
proof (intro conjI ballI impI)
  let ?g = "\<lambda>q. if P q then f q else q"
  from inv have key: "keyed q_id qs" by (simp add: queue_inv_def)
  with ok show "keyed q_id (upd_where P f qs)" by (intro keyed_upd_where) (auto dest: cmd_okD)
  have g: "q_channel_id (?g q) = q_channel_id q" "queue_key (?g q) = queue_key q" "active (?g q) \<Longrightarrow> active q"
    if "q \<in> set qs" for q using ok [OF that] by (cases "P q"; auto dest: cmd_okD)+
  have head: "queue_head (upd_where P f qs) (?g q)" if "q \<in> set qs" "queue_head qs q" for q
    using that g unfolding queue_head_def set_upd_where by fastforce
  fix q' assume "q' \<in> set (upd_where P f qs)"
  then obtain q where q: "q \<in> set qs" "q' = ?g q" by (auto simp: set_upd_where)
  show "q_lease_until q' = 0" if "q_state q' = ''queued''"
    using that q ok [of q] inv by (auto simp: queue_inv_def dest: cmd_okD split: if_splits)
  show "queue_head (upd_where P f qs) q'" if l: "live ms q'"
  proof -
    have "live ms q \<or> queue_head qs q" using l q ok [of q] by (auto dest: cmd_okD split: if_splits)
    then have "queue_head qs q" using inv le q(1) by (auto simp: queue_inv_def dest: live_mono)
    with head q show ?thesis by simp
  qed
qed





section \<open>The operations keep the invariant\<close>

abbreviation queue_ok :: "int \<Rightarrow> db \<Rightarrow> bool" where
  "queue_ok ms d \<equiv> queue_inv (t_commands d) ms"

lemma sat_agentCommand [sat_intro]:
  "Q (Inl ErrDatabase) d \<Longrightarrow> Q (Inl ErrNoRows) d \<Longrightarrow>
   (\<And>c q. q \<in> set (t_commands d) \<Longrightarrow> q_id q = i \<Longrightarrow> Cmd_ID c = i \<Longrightarrow> Cmd_ChannelID c = q_channel_id q \<Longrightarrow>
      Cmd_AuthorID c = q_author_id q \<Longrightarrow> Cmd_State c = q_state q \<Longrightarrow> Cmd_MessageID c = q_message_id q \<Longrightarrow>
      Q (Inr c) d) \<Longrightarrow>
   sat (agentCommand i) d Q"
  unfolding agentCommand_def
  by (intro sat_intro) (auto intro!: sat_intro split: option.splits dest!: find_SomeD)

lemma keeps_agentCommand [keeps_intro]: "keeps I (agentCommand i)"
  unfolding agentCommand_def by (intro keeps_intro)

lemma keeps_command_update [keeps_intro]:
  assumes "\<And>d q. q \<in> set (t_commands d) \<Longrightarrow> P d q \<Longrightarrow> cmd_ok (t_commands d) ms q (f q)"
  shows "keeps (queue_ok ms) (sql_update t_commands t_commands_update P f)"
  using assms by (auto intro!: keeps_update queue_inv_upd)

text \<open>Cancelling and interrupting revives nothing and gives no lease.\<close>

lemma keeps_expire_commands [keeps_intro]: "keeps (queue_ok (UnixMilli nw)) (expire_commands cid nw)"
  unfolding expire_commands_def by (intro keeps_intro) (auto simp: cmd_ok_def active_def live_def)

text \<open>Only the head of the queue is leased, and only when its lease is over.\<close>

lemma head_of_query:
  assumes "first_by queue_key (filter (\<lambda>q. q_channel_id q = cid \<and> q_state q \<in> active_states) qs) = Some q"
  shows "q \<in> set qs" "active q" "q_channel_id q = cid" "queue_head qs q"
  using first_by_SomeD [OF assms] by (auto simp: active_def queue_head_def)

lemma lease_update_ok:
  assumes "queue_inv qs ms" and "q \<in> set qs" and "active q" and "queue_head qs q" and "st \<noteq> ''queued''"
  shows "queue_inv (upd_where (\<lambda>x. q_id x = q_id q) (\<lambda>x. x\<lparr>q_state := st, q_lease_owner := owner, q_lease_until := u, q_updated_at := ms\<rparr>) qs) ms"
proof -
  have "x = q" if "x \<in> set qs" "q_id x = q_id q" for x
    using assms(1,2) that by (auto simp: queue_inv_def intro: keyed_unique)
  with assms show ?thesis
    by (intro queue_inv_upd [OF assms(1)]) (auto simp: cmd_ok_def active_def)
qed

lemma keeps_lease_head [keeps_intro]: "keeps (queue_ok (UnixMilli nw)) (lease_head cid owner nw)"
proof (rule keepsI)
  fix d assume inv: "queue_ok (UnixMilli nw) d"
  show "sat (lease_head cid owner nw) d (\<lambda>r. queue_ok (UnixMilli nw))"
    unfolding lease_head_def
    by (intro sat_intro, auto intro!: sat_intro lease_update_ok simp: inv simp del: in_states)
      (erule head_of_query)+
qed

lemma keeps_claim_tx [keeps_intro]: "keeps (queue_ok (UnixMilli nw)) (claim_tx agent cid owner nw)"
  unfolding claim_tx_def by (intro keeps_intro) simp





section \<open>Runs of the queue\<close>

datatype queue_op =
    Claim Agent string string
  | Renew Agent string string string
  | Complete Agent string string string string
  | Control User string string gotime gotime "64 word"
  | Enqueue string

fun queue_exec :: "queue_op \<Rightarrow> gotime \<Rightarrow> unit store" where
  "queue_exec (Claim a c ow) nw = bindM (ClaimAgentCommand a c ow nw) (\<lambda>_. returnM ())"
| "queue_exec (Renew a i ow turn) nw = bindM (RenewAgentCommand a i ow turn nw) (\<lambda>_. returnM ())"
| "queue_exec (Complete a i ow st res) nw = bindM (CompleteAgentCommand a i ow st res nw) (\<lambda>_. returnM ())"
| "queue_exec (Control user i act now2 now3 rnd) nw = ControlAgentCommand user i act nw now2 now3 rnd"
| "queue_exec (Enqueue m) nw = enqueueCommand m"








text \<open>A small database: one channel bound to one agent, an operator and two messages.\<close>

definition demo_channel :: channel_row where
  "demo_channel = \<lparr>c_id = ''c1'', c_name = ''ops'', c_display_name = [], c_description = [], c_accent_color = [],
     c_visibility = ''private'', c_created_at = 0\<rparr>"

definition demo_user :: "string \<Rightarrow> bool \<Rightarrow> user_row" where
  "demo_user i adm = \<lparr>u_id = i, u_username = i, u_password_hash = ''h'', u_created_at = 0, u_is_admin = adm,
     u_oidc_subject = None, u_disabled_at = None\<rparr>"

definition demo_message :: "string \<Rightarrow> int \<Rightarrow> message_row" where
  "demo_message i at = \<lparr>msg_id = i, msg_channel_id = ''c1'', msg_author_user_id = ''u1'', msg_parent_id = None,
     msg_root_id = i, msg_text = ''restart'', msg_idempotency_key = [], msg_created_at = at, msg_updated_at = at,
     msg_deleted_at = None\<rparr>"

definition demo_agent_row :: agent_row where
  "demo_agent_row = \<lparr>ag_id = ''a1'', ag_name = ''bot'', ag_display_name = [], ag_description = [], ag_owner_user_id = ''u1'',
     ag_user_id = ''u2'', ag_enabled = True, ag_created_at = 0, ag_revoked_at = None, ag_oauth_subject = None\<rparr>"

definition demo_agent :: Agent where
  "demo_agent = \<lparr>Agent_ID = ''a1'', Agent_Name = ''bot'', Agent_DisplayName = [], Agent_Description = [], Agent_Owner = ''u1'',
     Agent_Username = ''u2'', Agent_Enabled = True, Agent_IsAdmin = True, Agent_CreatedAt = 0, Agent_LastUsedAt = None,
     Agent_Channels = [], Agent_UserID = ''u2'', Agent_OAuthSubject = []\<rparr>"

definition demo_db :: db where
  "demo_db = empty_db\<lparr>t_channels := [demo_channel], t_users := [demo_user ''u1'' True, demo_user ''u2'' True],
     t_agents := [demo_agent_row], t_bindings := [\<lparr>b_channel_id = ''c1'', b_agent_id = ''a1'', b_created_at = 0\<rparr>],
     t_messages := [demo_message ''m1'' 1, demo_message ''m2'' 2]\<rparr>"

lemmas demo_defs = demo_db_def demo_channel_def demo_user_def demo_message_def demo_agent_row_def demo_agent_def empty_db_def

text \<open>The demo database after both messages are queued, and after a claim at second one.\<close>

definition demo_queued :: db where
  "demo_queued = wdb (snd (queue_exec (Enqueue ''m2'') 0 (snd (queue_exec (Enqueue ''m1'') 0 (up demo_db)))))"

definition demo_claimed :: db where
  "demo_claimed = wdb (snd (queue_exec (Claim demo_agent ''ops'' ''bridge-1'') Second (up demo_queued)))"

definition demo_command :: "string \<Rightarrow> int \<Rightarrow> command_row" where
  "demo_command m at = \<lparr>q_id = ''cmd_'' @ m, q_channel_id = ''c1'', q_agent_id = ''a1'', q_message_id = m, q_author_id = ''u1'',
     q_state = ''queued'', q_lease_owner = [], q_lease_until = 0, q_turn_id = [], q_result = [], q_cancel_requested = False,
     q_created_at = at, q_updated_at = at\<rparr>"

lemma demo_queued_code [code]: "demo_queued = demo_db\<lparr>t_commands := [demo_command ''m1'' 1, demo_command ''m2'' 2]\<rparr>"
  by code_simp

lemma demo_claimed_code [code]:
  "demo_claimed = demo_db\<lparr>t_commands := [(demo_command ''m1'' 1)\<lparr>q_state := ''running'', q_lease_owner := ''bridge-1'',
     q_lease_until := 61000, q_updated_at := 1000\<rparr>, demo_command ''m2'' 2]\<rparr>"
  by code_simp




text \<open>The order of arrival is needed.  A message stamped at 1 whose transaction begins only after the command of the
  message stamped at 2 was leased becomes the head of the queue, and the next claim leases it as well.\<close>

definition late_arrival :: db where
  "late_arrival = wdb (snd (queue_exec (Claim demo_agent ''ops'' ''bridge-2'') (2 * Second)
     (snd (queue_exec (Enqueue ''m1'') Second
       (snd (queue_exec (Claim demo_agent ''ops'' ''bridge-1'') Second
         (snd (queue_exec (Enqueue ''m2'') 0 (up demo_db)))))))))"

lemma late_arrival_breaks_exclusion:
  "map q_id (filter (live (UnixMilli (2 * Second))) (t_commands late_arrival)) = [''cmd_m2'', ''cmd_m1'']"
  by code_simp

section \<open>What a claim takes\<close>

definition expire_row :: "db \<Rightarrow> string \<Rightarrow> int \<Rightarrow> command_row \<Rightarrow> command_row" where
  "expire_row d cid ms q =
     (if q_channel_id q \<noteq> cid then q
      else if q_state q = ''queued'' \<and> \<not> user_operates d (q_author_id q) cid
      then q\<lparr>q_state := ''cancelled'', q_result := ''Author no longer has command permission.'', q_updated_at := ms\<rparr>
      else if q_state q \<in> {''running'', ''cancelling''} \<and> q_lease_until q < ms
      then q\<lparr>q_state := ''interrupted'', q_updated_at := ms\<rparr>
      else q)"

lemma expire_row_keeps [simp]:
  "q_id (expire_row d cid ms q) = q_id q" "q_channel_id (expire_row d cid ms q) = q_channel_id q"
  "q_lease_until (expire_row d cid ms q) = q_lease_until q" "q_created_at (expire_row d cid ms q) = q_created_at q"
  "queue_key (expire_row d cid ms q) = queue_key q" "q_author_id (expire_row d cid ms q) = q_author_id q"
  by (simp_all add: expire_row_def queue_key_def)

lemma expire_row_active: "active (expire_row d cid ms q) \<Longrightarrow> active q"
  by (auto simp: expire_row_def active_def split: if_splits)

lemma expire_row_allowed:
  "active (expire_row d cid ms q) \<Longrightarrow> q_channel_id q = cid \<Longrightarrow> q_state q = ''queued'' \<Longrightarrow> user_operates d (q_author_id q) cid"
  by (auto simp: expire_row_def active_def split: if_splits)

lemma expire_row_queued:
  "q_channel_id q = cid \<Longrightarrow> q_state (expire_row d cid ms q) = ''queued'' \<Longrightarrow> user_operates d (q_author_id q) cid"
  by (auto simp: expire_row_def split: if_splits)

definition expired :: "db \<Rightarrow> string \<Rightarrow> int \<Rightarrow> db" where
  "expired d cid ms = t_commands_update (map (expire_row d cid ms)) d"

lemma expire_twice:
  "upd_where (\<lambda>q. q_channel_id q = cid \<and> q_state q \<in> {''running'', ''cancelling''} \<and> q_lease_until q < ms)
     (\<lambda>q. q\<lparr>q_state := ''interrupted'', q_updated_at := ms\<rparr>)
   (upd_where (\<lambda>q. q_channel_id q = cid \<and> q_state q = ''queued'' \<and> \<not> user_operates d (q_author_id q) (q_channel_id q))
     (\<lambda>q. q\<lparr>q_state := ''cancelled'', q_result := ''Author no longer has command permission.'', q_updated_at := ms\<rparr>) qs) =
   map (expire_row d cid ms) qs"
  unfolding upd_where_def map_map comp_def
proof (rule map_cong [OF refl], goal_cases)
  case (1 q)
  show ?case
    by (cases "q_channel_id q = cid"; cases "q_state q = ''queued''") (simp_all add: expire_row_def)
qed

lemma sat_expired:
  "sat (expire_commands cid nw) d (\<lambda>r d'. case r of Inl e \<Rightarrow> True | Inr _ \<Rightarrow> d' = expired d cid (UnixMilli nw))"
proof -
  let ?ms = "UnixMilli nw"
  let ?P = "\<lambda>q. q_channel_id q = cid \<and> q_state q = ''queued'' \<and> \<not> user_operates d (q_author_id q) (q_channel_id q)"
  let ?f = "\<lambda>q. q\<lparr>q_state := ''cancelled'', q_result := ''Author no longer has command permission.'', q_updated_at := ?ms\<rparr>"
  show ?thesis unfolding expire_commands_def
  proof (rule sat_seq [where R = "\<lambda>_ d'. d' = t_commands_update (upd_where ?P ?f) d"], goal_cases)
    case 1
    show ?case by (intro sat_intro) simp_all
  next
    case (2 a d')
    show ?case unfolding 2
      by (intro sat_intro) (auto intro!: sat_return simp: expired_def expire_twice [symmetric] comp_def)
  qed
qed

text \<open>The lease that a successful claim leaves.\<close>

definition leased_by :: "string \<Rightarrow> int \<Rightarrow> command_row \<Rightarrow> bool" where
  "leased_by owner ms q \<longleftrightarrow> q_lease_owner q = owner \<and> q_lease_until q = ms + 60000 \<and> q_state q \<in> held_states"

text \<open>What the transaction of a claim does to the queue when it takes command \<open>i\<close>: the command was active,
  its lease was over, its author may still command if it had not started, and afterwards it is
  leased to the caller and no active command of the channel comes before it.\<close>

definition takes :: "db \<Rightarrow> string \<Rightarrow> string \<Rightarrow> int \<Rightarrow> db \<Rightarrow> string \<Rightarrow> bool" where
  "takes d cid owner ms d' i \<longleftrightarrow>
     (\<exists>q \<in> set (t_commands d). q_id q = i \<and> q_channel_id q = cid \<and> active q \<and> q_lease_until q \<le> ms \<and>
        (q_state q = ''queued'' \<longrightarrow> user_operates d (q_author_id q) cid) \<and>
        (\<exists>q' \<in> set (t_commands d'). q_id q' = i \<and> q_channel_id q' = cid \<and> leased_by owner ms q' \<and>
           queue_head (t_commands d') q'))"

lemma sat_lease_head_takes:
  assumes key: "keyed q_id (t_commands d)"
    and author: "\<And>q. q \<in> set (t_commands d) \<Longrightarrow> q_channel_id q = cid \<Longrightarrow> q_state q = ''queued'' \<Longrightarrow> user_operates d (q_author_id q) cid"
  shows "sat (lease_head cid owner nw) d (\<lambda>r d'. case r of Inl e \<Rightarrow> True
     | Inr f \<Rightarrow> (\<exists>x. f = Commit x \<and> (\<forall>i. x = Some i \<longrightarrow> takes d cid owner (UnixMilli nw) d' i)))"
proof -
  { fix q st
    let ?qs = "t_commands d"
    let ?f = "\<lambda>x. x\<lparr>q_state := st, q_lease_owner := owner, q_lease_until := UnixMilli nw + 60000, q_updated_at := UnixMilli nw\<rparr>"
    assume "first_by queue_key (filter (\<lambda>q. q_channel_id q = cid \<and> q_state q \<in> active_states) ?qs) = Some q"
      and "q_lease_until q \<le> UnixMilli nw" and "st \<in> held_states"
    note q = head_of_query [OF this(1)] and rest = this(2,3)
    have "?f q \<in> set (upd_where (\<lambda>x. q_id x = q_id q) ?f ?qs)" using q(1) by (auto simp: set_upd_where)
    moreover have "queue_head (upd_where (\<lambda>x. q_id x = q_id q) ?f ?qs) (?f q)"
      using q(1,2,4) key by (auto simp: set_upd_where queue_head_def queue_key_def dest: keyed_unique [OF key, of _ q])
    ultimately have "takes d cid owner (UnixMilli nw) (t_commands_update (upd_where (\<lambda>x. q_id x = q_id q) ?f) d) (q_id q)"
      unfolding takes_def using q rest author by (intro bexI [of _ q] conjI bexI [of _ "?f q"]) (auto simp: leased_by_def) }
  note takes = this
  show ?thesis unfolding lease_head_def
    by (intro sat_intro, auto intro!: sat_intro takes simp del: in_states)
      (simp, drule head_of_query(2), auto simp: active_def)
qed

lemma sat_claim_tx:
  assumes key: "keyed q_id (t_commands d)"
  shows "sat (claim_tx agent cid owner nw) d (\<lambda>r d'. \<forall>i. r = Inr (Some i) \<longrightarrow> takes d cid owner (UnixMilli nw) d' i)"
proof -
  let ?ms = "UnixMilli nw"
  let ?d1 = "expired d cid ?ms"
  have k1: "keyed q_id (t_commands ?d1)" using key by (simp add: expired_def keyed_def comp_def)
  have op: "user_operates ?d1 = user_operates d"
    by (intro ext) (simp add: expired_def user_operates_def has_role_def)
  have author: "user_operates ?d1 (q_author_id q) cid" if "q \<in> set (t_commands ?d1)" "q_channel_id q = cid" "q_state q = ''queued''" for q
  proof -
    from that(1) obtain q0 where "q0 \<in> set (t_commands d)" and "q = expire_row d cid ?ms q0" by (auto simp: expired_def)
    with that(2,3) show ?thesis unfolding op by (simp add: expire_row_queued)
  qed
  have earlier: "takes d cid owner ?ms d' i" if taken: "takes ?d1 cid owner ?ms d' i" for d' i
  proof -
    from taken obtain q1 where q1: "q1 \<in> set (t_commands ?d1)" "q_id q1 = i" "q_channel_id q1 = cid" "active q1"
        "q_lease_until q1 \<le> ?ms"
      and after: "\<exists>q' \<in> set (t_commands d'). q_id q' = i \<and> q_channel_id q' = cid \<and> leased_by owner ?ms q' \<and> queue_head (t_commands d') q'"
      unfolding takes_def by blast
    from q1(1) obtain q where q: "q \<in> set (t_commands d)" "q1 = expire_row d cid ?ms q" by (auto simp: expired_def)
    show ?thesis unfolding takes_def
      using q1(2-5) after unfolding q(2)
      by (intro bexI [OF _ q(1)]) (simp add: expire_row_active expire_row_allowed)
  qed
  have body: "sat (bindM (expire_commands cid nw) (\<lambda>_. lease_head cid owner nw)) d
     (\<lambda>r d'. case r of Inl e \<Rightarrow> True | Inr f \<Rightarrow> (\<exists>x. f = Commit x \<and> (\<forall>i. x = Some i \<longrightarrow> takes d cid owner ?ms d' i)))"
  proof (rule sat_seq [where R = "\<lambda>_ d'. d' = ?d1"], goal_cases)
    case 1
    show ?case by (rule sat_mono [OF sat_expired]) (auto split: sum.splits)
  next
    case (2 a d')
    show ?case unfolding 2
      by (rule sat_mono [OF sat_lease_head_takes [OF k1 author]]) (auto split: sum.splits intro: earlier)
  qed
  have touch: "t_bindings_update (upd_where P (\<lambda>b. b)) d = d" for P by (simp add: upd_where_def)
  show ?thesis unfolding claim_tx_def
  proof (rule sat_tx, simp, rule sat_seq [where R = "\<lambda>_ d'. d' = d"], goal_cases)
    case 1
    show ?case by (intro sat_intro) (simp_all add: touch)
  next
    case (2 n d')
    show ?case unfolding 2
      by (rule sat_seq [where R = "\<lambda>_ d'. d' = d"], (intro sat_intro; simp), hypsubst, rule sat_mono [OF body])
        (auto split: sum.splits)
  qed
qed

text \<open>C5: what a claim takes.  A claim that returns a command took one whose lease was over, whose author
  may still command if it had not started yet, and that is now leased to the caller for sixty seconds
  and first among the active commands of the channel; the caller's agent is an operator there.\<close>

theorem claim_takes_head:
  assumes "ClaimAgentCommand agent channel owner nw w = (Inr (Some c), w')"
    and "keyed q_id (t_commands (wdb w))"
  shows "\<exists>ch \<in> set (t_channels (wdb w)). c_name ch = channel \<and> operates (wdb w) (Agent_UserID agent) (c_id ch) \<and>
     takes (wdb w) (c_id ch) owner (UnixMilli nw) (wdb w') (Cmd_ID c)"
proof -
  let ?d = "wdb w"
  let ?G = "\<lambda>i d'. \<exists>ch \<in> set (t_channels ?d). c_name ch = channel \<and> operates ?d (Agent_UserID agent) (c_id ch) \<and>
     takes ?d (c_id ch) owner (UnixMilli nw) d' i"
  have "sat (ClaimAgentCommand agent channel owner nw) ?d (\<lambda>r d'. \<forall>c. r = Inr (Some c) \<longrightarrow> ?G (Cmd_ID c) d')"
    unfolding ClaimAgentCommand_def
    by (intro sat_intro, auto intro!: sat_intro sat_mono [OF sat_claim_tx [OF assms(2)]]
        split: sum.splits option.splits simp: UserWithID_def) blast
  from satD [OF this assms(1)] show ?thesis by blast
qed

definition demo_claim :: "AgentCommand" where
  "demo_claim = \<lparr>Cmd_CancelRequested = False, Cmd_ID = ''cmd_m1'', Cmd_ChannelID = ''c1'', Cmd_MessageID = ''m1'', Cmd_AuthorID = ''u1'',
     Cmd_Author = ''u1'', Cmd_Text = ''restart'', Cmd_State = ''running'', Cmd_TurnID = [], Cmd_Result = [], Cmd_CreatedAt = 1,
     Cmd_UpdatedAt = 1000\<rparr>"

theorem claim_takes_head_witness:
  "\<exists>ch \<in> set (t_channels demo_queued). c_name ch = ''ops'' \<and> operates demo_queued (Agent_UserID demo_agent) (c_id ch) \<and>
     takes demo_queued (c_id ch) ''bridge-1'' (UnixMilli Second) demo_claimed (Cmd_ID demo_claim)"
proof -
  have "ClaimAgentCommand demo_agent ''ops'' ''bridge-1'' Second (up demo_queued) = (Inr (Some demo_claim), up demo_claimed)"
    by code_simp
  from claim_takes_head [OF this] show ?thesis by (simp, code_simp)
qed

lemma one_updated:
  assumes "keyed q_id qs" and "q \<in> set qs" and "count_where (\<lambda>x. q_id x = q_id q \<and> P x) qs = 1"
  shows "P q" "f q \<in> set (upd_where (\<lambda>x. q_id x = q_id q \<and> P x) f qs)"
proof -
  from keyed_count_one [OF assms(1,3)] obtain q' where "q' \<in> set qs" "q_id q' = q_id q" "P q'" by blast
  with assms show "P q" by (auto dest: keyed_unique)
  with assms(2) show "f q \<in> set (upd_where (\<lambda>x. q_id x = q_id q \<and> P x) f qs)"
    by (auto simp: set_upd_where intro!: image_eqI [where x = q])
qed

definition completes :: "Agent \<Rightarrow> string \<Rightarrow> string \<Rightarrow> string \<Rightarrow> string \<Rightarrow> int \<Rightarrow> db \<Rightarrow> db \<Rightarrow> bool" where
  "completes agent i owner st result ms d d' \<longleftrightarrow> st \<in> final_states \<and>
     (\<exists>q \<in> set (t_commands d). q_id q = i \<and> q_agent_id q = Agent_ID agent \<and> q_lease_owner q = owner \<and>
        ms < q_lease_until q \<and> q_state q \<in> held_states \<and> operates d (Agent_UserID agent) (q_channel_id q) \<and>
        q\<lparr>q_state := st, q_result := result, q_updated_at := ms, q_lease_until := 0\<rparr> \<in> set (t_commands d')) \<and>
     (\<exists>m \<in> set (t_messages d'). msg_id m = ''msg_reply_'' @ i)"

lemma completesI:
  assumes "keyed q_id (t_commands d)" and "q \<in> set (t_commands d)" and "q_id q = i"
    and "st \<in> final_states" and "operates d (Agent_UserID agent) (q_channel_id q)"
    and "count_where (\<lambda>q. q_id q = i \<and> q_agent_id q = Agent_ID agent \<and> q_lease_owner q = owner \<and> ms < q_lease_until q \<and> q_state q \<in> held_states) (t_commands d) = 1"
    and "t_commands d' = upd_where (\<lambda>q. q_id q = i \<and> q_agent_id q = Agent_ID agent \<and> q_lease_owner q = owner \<and> ms < q_lease_until q \<and> q_state q \<in> held_states)
      (\<lambda>q. q\<lparr>q_state := st, q_result := result, q_updated_at := ms, q_lease_until := 0\<rparr>) (t_commands d)"
    and "\<exists>m \<in> set (t_messages d'). msg_id m = ''msg_reply_'' @ i"
  shows "completes agent i owner st result ms d d'"
proof -
  let ?H = "\<lambda>q. q_agent_id q = Agent_ID agent \<and> q_lease_owner q = owner \<and> ms < q_lease_until q \<and> q_state q \<in> held_states"
  let ?f = "\<lambda>q. q\<lparr>q_state := st, q_result := result, q_updated_at := ms, q_lease_until := 0\<rparr>"
  have "?H q" and "?f q \<in> set (t_commands d')"
    using assms one_updated(1) [OF assms(1,2), of ?H] one_updated(2) [OF assms(1,2), of ?H ?f] by (simp_all del: in_states)
  with assms show ?thesis unfolding completes_def by blast
qed

lemma msg_id_reply_row [simp]: "msg_id (reply_row agent c i st result ms) = ''msg_reply_'' @ i"
  by (simp add: reply_row_def)

text \<open>C6: completing a command needs a live lease and is all or nothing.  A completion that returns leaves the
  command in the requested final state with no lease, was called by the agent and bridge that held the
  lease while the agent is an operator of the channel, and posts the reply; a completion that fails
  changes nothing.\<close>

theorem complete_needs_lease:
  assumes "CompleteAgentCommand agent i owner st res nw w = (r, w')" and "keyed q_id (t_commands (wdb w))"
  shows "case r of
      Inl e \<Rightarrow> wdb w' = wdb w
    | Inr rid \<Rightarrow> rid = ''msg_reply_'' @ i \<and> completes agent i owner st (TrimSpace res) (UnixMilli nw) (wdb w) (wdb w')"
proof -
  have "sat (CompleteAgentCommand agent i owner st res nw) (wdb w) (\<lambda>r d'. case r of
      Inl e \<Rightarrow> d' = wdb w
    | Inr rid \<Rightarrow> rid = ''msg_reply_'' @ i \<and> completes agent i owner st (TrimSpace res) (UnixMilli nw) (wdb w) d')"
    unfolding CompleteAgentCommand_def
    by (intro sat_intro, auto intro!: sat_intro simp: UserWithID_def simp del: in_states)
      (erule completesI [OF assms(2)]; fastforce simp del: in_states)+
  from satD [OF this assms(1)] show ?thesis .
qed

theorem complete_needs_lease_witness:
  "completes demo_agent ''cmd_m1'' ''bridge-1'' ''completed'' ''done'' (UnixMilli (2 * Second)) demo_claimed
     (wdb (snd (CompleteAgentCommand demo_agent ''cmd_m1'' ''bridge-1'' ''completed'' '' done '' (2 * Second) (up demo_claimed))))"
proof -
  have r: "fst (CompleteAgentCommand demo_agent ''cmd_m1'' ''bridge-1'' ''completed'' '' done '' (2 * Second) (up demo_claimed)) =
      Inr ''msg_reply_cmd_m1''"
    by code_simp
  note c = complete_needs_lease [OF surjective_pairing, where agent = demo_agent and i = "''cmd_m1''" and owner = "''bridge-1''"
      and st = "''completed''" and res = "'' done ''" and nw = "2 * Second" and w = "up demo_claimed", unfolded r]
  have "TrimSpace '' done '' = ''done''" by code_simp
  moreover have "keyed q_id (t_commands demo_claimed)" by code_simp
  ultimately show ?thesis using c by simp
qed

section \<open>Finished commands stay as they are\<close>

definition holds_row :: "command_row \<Rightarrow> db \<Rightarrow> bool" where
  "holds_row q d \<longleftrightarrow> keyed q_id (t_commands d) \<and> q \<in> set (t_commands d)"

lemma holds_row_frame [simp]:
  "holds_row q (t_audit_update f d) = holds_row q d"
  "holds_row q (t_messages_update g d) = holds_row q d"
  "holds_row q (t_bindings_update h d) = holds_row q d"
  by (simp_all add: holds_row_def)

lemma holds_row_update:
  assumes "holds_row q d" and "\<not> P q" and "\<And>x. q_id (f x) = q_id x"
  shows "holds_row q (t_commands_update (upd_where P f) d)"
  using assms by (auto simp: holds_row_def set_upd_where image_iff intro!: keyed_upd_where)

lemma keeps_holds_update [keeps_intro]:
  assumes "\<And>d. \<not> P d q" and "\<And>x. q_id (f x) = q_id x"
  shows "keeps (holds_row q) (sql_update t_commands t_commands_update P f)"
  using assms by (auto intro!: keeps_update holds_row_update)

lemma keeps_holds_lease:
  assumes "\<not> active q"
  shows "keeps (holds_row q) (lease_head cid owner nw)"
proof (rule keepsI)
  fix d assume h: "holds_row q d"
  have "holds_row q (t_commands_update (upd_where (\<lambda>x. q_id x = q_id h0) f) d)"
    if "first_by queue_key (filter (\<lambda>q. q_channel_id q = cid \<and> q_state q \<in> active_states) (t_commands d)) = Some h0"
      and "\<And>x. q_id (f x) = q_id x" for h0 f
  proof -
    note h0 = head_of_query [OF that(1)]
    have "q_id q \<noteq> q_id h0"
    proof
      assume "q_id q = q_id h0"
      with h h0(1) have "q = h0" by (auto simp: holds_row_def dest: keyed_unique)
      with assms h0(2) show False by simp
    qed
    with h that(2) show ?thesis by (intro holds_row_update) auto
  qed
  then show "sat (lease_head cid owner nw) d (\<lambda>r. holds_row q)"
    unfolding lease_head_def by (intro sat_intro) (auto intro!: sat_intro simp: h simp del: in_states)
qed

text \<open>C7: a finished command is never touched again.  No operation of the queue, at any time and with any
  faults, changes the row of a command that is completed, failed or cancelled: it is not claimed, not
  renewed, not cancelled and its result is not overwritten.\<close>

theorem finished_is_final:
  assumes "q \<in> set (t_commands (wdb w))" and "q_state q \<in> final_states" and "keyed q_id (t_commands (wdb w))"
  shows "q \<in> set (t_commands (wdb (snd (queue_exec op nw w))))"
proof -
  have na: "\<not> active q" and nq: "q_state q \<notin> active_states" "q_state q \<notin> held_states"
    using assms(2) by (auto simp: active_def)
  have ins: "holds_row q (t_commands_update (\<lambda>xs. xs @ [r]) d)" if "holds_row q d" "chk_commands d r = None" for r d
    using that by (auto simp: holds_row_def keyed_snoc chk_commands_def)
  note lease = keeps_holds_lease [OF na]
  have "keeps (holds_row q) (ClaimAgentCommand a c ow nw)" for a c ow
    unfolding ClaimAgentCommand_def claim_tx_def expire_commands_def
    by (intro keeps_intro lease) (use nq in \<open>auto intro!: holds_row_update\<close>)
  moreover have "keeps (holds_row q) (RenewAgentCommand a i ow turn nw)" for a i ow turn
    unfolding RenewAgentCommand_def by (intro keeps_intro) (use nq in \<open>auto intro!: holds_row_update\<close>)
  moreover have "keeps (holds_row q) (CompleteAgentCommand a i ow st res nw)" for a i ow st res
    unfolding CompleteAgentCommand_def by (intro keeps_intro) (use nq in \<open>auto intro!: holds_row_update\<close>)
  moreover have "keeps (holds_row q) (ControlAgentCommand user i act nw now2 now3 rnd)" for user i act now2 now3 rnd
    unfolding ControlAgentCommand_def control_update_def
    by (intro keeps_intro) (use nq in \<open>auto intro!: holds_row_update\<close>)
  moreover have "keeps (holds_row q) (enqueueCommand m)" for m
    unfolding enqueueCommand_def by (intro keeps_intro ins)
  ultimately have "keeps (holds_row q) (queue_exec op nw)"
    by (cases op; hypsubst; unfold queue_exec.simps; (intro keeps_bind keeps_return)?; blast)
  then have "holds_row q (wdb (snd (queue_exec op nw w)))"
    by (rule keeps_run [where I = "holds_row q"]) (simp add: holds_row_def assms)
  then show ?thesis by (simp add: holds_row_def)
qed

theorem finished_is_final_witness:
  "hd (t_commands (wdb (snd (queue_exec (Complete demo_agent ''cmd_m1'' ''bridge-1'' ''failed'' []) (2 * Second) (up demo_claimed)))))
   \<in> set (t_commands (wdb (snd (queue_exec (Control LocalInboxUser ''cmd_m1'' ''cancel'' 0 0 0) (3 * Second)
       (snd (queue_exec (Complete demo_agent ''cmd_m1'' ''bridge-1'' ''failed'' []) (2 * Second) (up demo_claimed)))))))"
  by (rule finished_is_final; code_simp)

section \<open>Progress\<close>

lemma expire_up: "expire_commands cid nw (up d) = (Inr (), up (expired d cid (UnixMilli nw)))"
proof -
  have "expired d cid (UnixMilli nw) = t_commands_update (\<lambda>qs. map (expire_row d cid (UnixMilli nw)) qs) d"
    by (simp add: expired_def)
  then show ?thesis
    unfolding expire_twice [symmetric] by (simp add: expire_commands_def sql_simps comp_def)
qed

lemma lease_up:
  assumes "first_by queue_key (filter (\<lambda>q. q_channel_id q = cid \<and> q_state q \<in> active_states) (t_commands d)) = Some q"
    and "q_lease_until q \<le> UnixMilli nw"
  shows "\<exists>f. (\<forall>x. q_id (f x) = q_id x \<and> q_message_id (f x) = q_message_id x \<and> q_author_id (f x) = q_author_id x) \<and>
     lease_head cid owner nw (up d) = (Inr (Commit (Some (q_id q))), up (t_commands_update (upd_where (\<lambda>x. q_id x = q_id q) f) d))"
  using assms by (auto simp: lease_head_def sql_simps simp del: in_states
      intro!: exI [where x = "\<lambda>x. x\<lparr>q_state := (if q_state q = ''queued'' then ''running'' else q_state q), q_lease_owner := owner,
                        q_lease_until := UnixMilli nw + 60000, q_updated_at := UnixMilli nw\<rparr>"])

lemma expire_row_refs [simp]:
  "q_message_id (expire_row d cid ms q) = q_message_id q"
  by (simp add: expire_row_def)

text \<open>The references of the commands table.\<close>

definition command_refs :: "db \<Rightarrow> bool" where
  "command_refs d \<longleftrightarrow> (\<forall>q \<in> set (t_commands d). (\<exists>m \<in> set (t_messages d). msg_id m = q_message_id q) \<and>
     (\<exists>u \<in> set (t_users d). u_id u = q_author_id q))"

lemma agentCommand_up:
  assumes "command_refs d" and "q \<in> set (t_commands d)" and "q_id q = i"
  shows "\<exists>c. agentCommand i (up d) = (Inr c, up d)"
proof -
  obtain q' where q': "List.find (\<lambda>q. q_id q = i) (t_commands d) = Some q'"
    using assms(2,3) by (cases "List.find (\<lambda>q. q_id q = i) (t_commands d)") (auto simp: find_None_iff)
  with find_SomeD [OF this] assms(1)
  have "List.find (\<lambda>m. msg_id m = q_message_id q') (t_messages d) \<noteq> None" "List.find (\<lambda>u. u_id u = q_author_id q') (t_users d) \<noteq> None"
    by (auto simp: command_refs_def find_None_iff)
  with q' show ?thesis by (auto simp: agentCommand_def sql_simps)
qed

definition claimable :: "db \<Rightarrow> string \<Rightarrow> int \<Rightarrow> bool" where
  "claimable d cid ms \<longleftrightarrow> (case first_by queue_key (filter (\<lambda>q. q_channel_id q = cid \<and> q_state q \<in> active_states)
       (map (expire_row d cid ms) (t_commands d))) of None \<Rightarrow> False | Some q \<Rightarrow> q_lease_until q \<le> ms)"

text \<open>C8: a queue does not starve.  On a healthy engine, when the channel exists and is bound to the agent,
  the agent is an operator there, the oldest command that is still permitted has no live lease, and the commands refer to
  messages and authors that exist, a claim with a valid owner returns a command.\<close>

theorem claim_progress:
  assumes "8 \<le> len owner" and "len owner \<le> 128"
    and "List.find (\<lambda>c. c_name c = channel) (t_channels d) = Some ch"
    and "operates d (Agent_UserID agent) (c_id ch)"
    and "count_where (\<lambda>b. b_channel_id b = c_id ch \<and> b_agent_id b = Agent_ID agent) (t_bindings d) = 1"
    and "claimable d (c_id ch) (UnixMilli nw)"
    and "command_refs d"
  shows "\<exists>c d'. ClaimAgentCommand agent channel owner nw (up d) = (Inr (Some c), up d')"
proof -
  let ?d1 = "expired d (c_id ch) (UnixMilli nw)"
  from assms(6) obtain q where
    q: "first_by queue_key (filter (\<lambda>q. q_channel_id q = c_id ch \<and> q_state q \<in> active_states) (t_commands ?d1)) = Some q"
      "q_lease_until q \<le> UnixMilli nw"
    by (auto simp: claimable_def expired_def split: option.splits)
  from lease_up [OF q, of owner] obtain f where f: "\<And>x. q_id (f x) = q_id x \<and> q_message_id (f x) = q_message_id x \<and> q_author_id (f x) = q_author_id x"
    and l: "lease_head (c_id ch) owner nw (up ?d1) =
       (Inr (Commit (Some (q_id q))), up (t_commands_update (upd_where (\<lambda>x. q_id x = q_id q) f) ?d1))" by blast
  let ?d2 = "t_commands_update (upd_where (\<lambda>x. q_id x = q_id q) f) ?d1"
  have "command_refs ?d1" using assms(7) by (auto simp: command_refs_def expired_def)
  then have "command_refs ?d2" using f by (auto simp: command_refs_def set_upd_where)
  moreover have "f q \<in> set (t_commands ?d2)" using head_of_query(1) [OF q(1)] by (auto simp: set_upd_where)
  ultimately obtain c where c: "agentCommand (q_id q) (up ?d2) = (Inr c, up ?d2)"
    using f agentCommand_up [of ?d2 "f q" "q_id q"] by auto
  have touch: "t_bindings_update (upd_where P (\<lambda>b. b)) d = d" for P by (simp add: upd_where_def)
  have "claim_tx agent (c_id ch) owner nw (up d) = (Inr (Some (q_id q)), up ?d2)"
    using assms(5) l by (simp add: claim_tx_def sql_simps touch expire_up)
  with c assms(1-4) show ?thesis
    by (auto simp: ClaimAgentCommand_def ChannelIDByName_def RequireChannelOperator_def sql_simps UserWithID_def operates_def)
qed

theorem claim_progress_witness:
  "\<exists>c d'. ClaimAgentCommand demo_agent ''ops'' ''bridge-1'' Second (up demo_queued) = (Inr (Some c), up d')"
  by (rule claim_progress [where ch = demo_channel]; code_simp)

end
