(* ===== verification/Inbox.thy ===== *)
theory Inbox
  imports Notifications AgentQueue
begin

text \<open>
  What a reader sees, in \<open>internal/store/store.go\<close>, \<open>timeline.go\<close> and \<open>incidents.go\<close>: the query over notifications
  with its search, filters and pages, unread counts, the channel list, read marks, settings, push subscriptions and
  notification preferences.  The expression \<open>json_extract(card, '$.severity')\<close> of the engine is an argument: the
  text it yields for a card, if any.  Texts have no NUL characters.
\<close>

section \<open>Search\<close>

text \<open>\<open>strings.ReplaceAll\<close> for one character.\<close>

definition ReplaceAllChar :: "string \<Rightarrow> char \<Rightarrow> string \<Rightarrow> string" where
  "ReplaceAllChar s old new = concat (map (\<lambda>c. if c = old then new else [c]) s)"

definition escapeLike :: "string \<Rightarrow> string" where
  "escapeLike v =
     (let v = ReplaceAllChar v (CHR 0x5C) [CHR 0x5C, CHR 0x5C];
          v = ReplaceAllChar v (CHR ''%'') [CHR 0x5C, CHR ''%''] in
      ReplaceAllChar v (CHR ''_'') [CHR 0x5C, CHR ''_''])"

text \<open>\<open>LIKE \<dots> ESCAPE '\'\<close>: ASCII letters match in both cases, an underscore matches one character, which may have
  several bytes.\<close>

definition same_letter :: "char \<Rightarrow> char \<Rightarrow> bool" where
  "same_letter a b \<longleftrightarrow> nocase [a] = nocase [b]"

function like :: "string \<Rightarrow> string \<Rightarrow> bool" where
  "like [] s = (s = [])"
| "like (c # p) s =
     (if c = CHR ''%'' then like p s \<or> (case s of [] \<Rightarrow> False | x # t \<Rightarrow> like (c # p) t)
      else if c = CHR 0x5C then (case (p, s) of (e # q, x # t) \<Rightarrow> same_letter e x \<and> like q t | _ \<Rightarrow> False)
      else case s of [] \<Rightarrow> False
        | x # t \<Rightarrow> if c = CHR ''_'' then like p (drop (snd (rune_at s) - 1) t) else same_letter c x \<and> like p t)"
  by pat_completeness auto
termination by (relation "measure (\<lambda>(p, s). length p + length s)") auto

definition contains_pattern :: "string \<Rightarrow> string" where
  "contains_pattern search = ''%'' @ escapeLike search @ ''%''"

section \<open>Read state\<close>

text \<open>The time up to which a user has read a channel, and the marks of a user on a notification.\<close>

definition read_at :: "db \<Rightarrow> string \<Rightarrow> string \<Rightarrow> int" where
  "read_at d user cid = (if user = [] then 0
     else case List.find (\<lambda>r. r_user_id r = user \<and> r_channel_id r = cid) (t_read d) of None \<Rightarrow> 0 | Some r \<Rightarrow> r_read_at r)"

definition marks :: "db \<Rightarrow> string \<Rightarrow> string \<Rightarrow> user_state_row option" where
  "marks d user nid = (if user = [] then None else List.find (\<lambda>s. us_user_id s = user \<and> us_notification_id s = nid) (t_user_state d))"

definition is_unread :: "db \<Rightarrow> string \<Rightarrow> notification_row \<Rightarrow> bool" where
  "is_unread d user n \<longleftrightarrow> (case marks d user (n_id n) of
       None \<Rightarrow> n_updated_at n > max (read_at d user (n_channel_id n)) 0
     | Some s \<Rightarrow> us_unread s \<or> n_updated_at n > max (read_at d user (n_channel_id n)) (us_read_at s))"

definition dismissed :: "db \<Rightarrow> string \<Rightarrow> notification_row \<Rightarrow> bool" where
  "dismissed d user n \<longleftrightarrow> (case marks d user (n_id n) of None \<Rightarrow> False | Some s \<Rightarrow> us_dismissed_at s \<noteq> None)"

definition pref_level :: "db \<Rightarrow> string \<Rightarrow> string \<Rightarrow> string" where
  "pref_level d user cid = (case List.find (\<lambda>p. p_user_id p = user \<and> p_channel_id p = cid) (t_prefs d) of None \<Rightarrow> ''all'' | Some p \<Rightarrow> p_level p)"

definition visible :: "db \<Rightarrow> bool \<Rightarrow> string \<Rightarrow> channel_row \<Rightarrow> bool" where
  "visible d admin user c \<longleftrightarrow> admin \<or> c_visibility c = ''public'' \<or> is_member d user (c_id c)"

section \<open>The card of one notification\<close>

definition NotificationCardForReader :: "string \<Rightarrow> User \<Rightarrow> string store" where
  "NotificationCardForReader i user =
     (if User_ID user = [] then failM ErrNotificationNotFound
      else bindM (query (\<lambda>d. case List.find (\<lambda>n. n_id n = i) (t_notifications d) of
               None \<Rightarrow> None
             | Some n \<Rightarrow> (case List.find (\<lambda>c. c_id c = n_channel_id n) (t_channels d) of
                 None \<Rightarrow> None
               | Some c \<Rightarrow> if visible d (User_IsAdmin user) (User_ID user) c then Some (n_card n) else None))) (rowM ErrNotificationNotFound))"

text \<open>A card is returned only to a reader of its channel, and the refusal does not tell whether the notification exists.\<close>

lemma card_for_reader:
  "sat (NotificationCardForReader i user) d (\<lambda>r d'. d' = d \<and> (case r of
      Inr v \<Rightarrow> \<exists>n \<in> set (t_notifications d). \<exists>c \<in> set (t_channels d). n_id n = i \<and> n_card n = v \<and> c_id c = n_channel_id n \<and> visible d (User_IsAdmin user) (User_ID user) c
    | Inl e \<Rightarrow> e \<in> {ErrNotificationNotFound, ErrDatabase}))"
  unfolding NotificationCardForReader_def
  by (cases "User_ID user = []"; simp only: if_True if_False)
     (intro sat_intro; auto split: option.splits if_splits dest!: find_SomeD intro!: sat_intro, (intro bexI conjI; simp)?)+

section \<open>The query over notifications\<close>

record NotificationQuery =
  Nq_ID :: string
  Nq_Limit :: int
  Nq_Search :: string
  Nq_Channel :: string
  Nq_Channels :: "string list"
  Nq_State :: string
  Nq_ShowDismissed :: bool
  Nq_DismissedOnly :: bool
  Nq_Severity :: string
  Nq_UnreadOnly :: bool
  Nq_ExcludeMuted :: bool
  Nq_OrderByUpdated :: bool
  Nq_UpdatedSince :: int
  Nq_BeforeAt :: int
  Nq_BeforeID :: string
  Nq_UserID :: string
  Nq_UserAdmin :: bool

definition empty_query :: NotificationQuery where
  "empty_query = \<lparr>Nq_ID = [], Nq_Limit = 0, Nq_Search = [], Nq_Channel = [], Nq_Channels = [], Nq_State = [], Nq_ShowDismissed = False,
     Nq_DismissedOnly = False, Nq_Severity = [], Nq_UnreadOnly = False, Nq_ExcludeMuted = False, Nq_OrderByUpdated = False, Nq_UpdatedSince = 0,
     Nq_BeforeAt = 0, Nq_BeforeID = [], Nq_UserID = [], Nq_UserAdmin = False\<rparr>"

text \<open>\<open>FROM notifications n JOIN channels c ON c.id = n.channel_id\<close>.\<close>

definition joined :: "db \<Rightarrow> (notification_row \<times> channel_row) list" where
  "joined d = concat (map (\<lambda>n. case List.find (\<lambda>c. c_id c = n_channel_id n) (t_channels d) of None \<Rightarrow> [] | Some c \<Rightarrow> [(n, c)]) (t_notifications d))"

definition found_by :: "string \<Rightarrow> notification_row \<Rightarrow> channel_row \<Rightarrow> bool" where
  "found_by search n c \<longleftrightarrow> list_ex (like (contains_pattern search)) [n_text n, n_username n, c_name c, n_card n, n_attachments n]"

definition order_key :: "NotificationQuery \<Rightarrow> notification_row \<Rightarrow> int \<times> string" where
  "order_key q n = (if Nq_OrderByUpdated q then n_updated_at n else n_created_at n, n_id n)"

definition selected :: "(string \<Rightarrow> string option) \<Rightarrow> NotificationQuery \<Rightarrow> db \<Rightarrow> notification_row \<times> channel_row \<Rightarrow> bool" where
  "selected severity q d nc \<longleftrightarrow> (case nc of (n, c) \<Rightarrow>
     (Nq_UserID q \<noteq> [] \<longrightarrow> (if Nq_DismissedOnly q then dismissed d (Nq_UserID q) n else Nq_ShowDismissed q \<or> \<not> dismissed d (Nq_UserID q) n)) \<and>
     (Nq_UserID q \<noteq> [] \<and> \<not> Nq_UserAdmin q \<longrightarrow> visible d False (Nq_UserID q) c) \<and>
     (Nq_ExcludeMuted q \<and> Nq_UserID q \<noteq> [] \<longrightarrow> pref_level d (Nq_UserID q) (c_id c) \<noteq> ''muted'') \<and>
     (TrimSpace (Nq_Search q) \<noteq> [] \<longrightarrow> found_by (TrimSpace (Nq_Search q)) n c) \<and>
     (Nq_ID q \<noteq> [] \<longrightarrow> n_id n = Nq_ID q) \<and>
     (if Nq_Channel q \<noteq> [] then c_name c = Nq_Channel q else Nq_Channels q \<noteq> [] \<longrightarrow> c_name c \<in> set (Nq_Channels q)) \<and>
     (Nq_State q \<noteq> [] \<longrightarrow> n_state n = Nq_State q) \<and>
     (Nq_Severity q \<noteq> [] \<longrightarrow> severity (n_card n) = Some (Nq_Severity q)) \<and>
     (Nq_UnreadOnly q \<and> Nq_UserID q \<noteq> [] \<longrightarrow> is_unread d (Nq_UserID q) n) \<and>
     (Nq_UpdatedSince q > 0 \<longrightarrow> n_updated_at n \<ge> Nq_UpdatedSince q) \<and>
     (Nq_BeforeAt q > 0 \<and> Nq_BeforeID q \<noteq> [] \<longrightarrow> order_key q n < (Nq_BeforeAt q, Nq_BeforeID q)))"

text \<open>\<open>ORDER BY key DESC\<close>; rows with equal keys stay in their order.\<close>

definition sort_desc :: "('r \<Rightarrow> 'k :: linorder) \<Rightarrow> 'r list \<Rightarrow> 'r list" where
  "sort_desc key xs = rev (sort_key key (rev xs))"

text \<open>Whether an attachment offers an approval: the decoder fills a slice of structs, and refuses a value of another
  shape.\<close>

definition action_ok :: "json \<Rightarrow> bool" where
  "action_ok v \<longleftrightarrow> (case v of JNull \<Rightarrow> True | JObj ms \<Rightarrow> str_typed ''id'' ms \<and> str_typed ''name'' ms | _ \<Rightarrow> False)"

definition attachment_ok :: "json \<Rightarrow> bool" where
  "attachment_ok v \<longleftrightarrow> (case v of JNull \<Rightarrow> True
     | JObj ms \<Rightarrow> list_all (\<lambda>(k, x). matches ''actions'' k \<longrightarrow> (case x of JNull \<Rightarrow> True | JArr vs \<Rightarrow> list_all action_ok vs | _ \<Rightarrow> False)) ms
     | _ \<Rightarrow> False)"

fun decode_actions :: "json list \<Rightarrow> (string \<times> string) list \<Rightarrow> (string \<times> string) list" where
  "decode_actions [] old = []"
| "decode_actions (v # vs) old =
     (let cur = (case old of [] \<Rightarrow> ([], []) | p # _ \<Rightarrow> p) in
      (case v of JObj ms \<Rightarrow> (str_field ''id'' ms (fst cur), str_field ''name'' ms (snd cur)) | _ \<Rightarrow> cur) # decode_actions vs (tl old))"

definition attachment_actions :: "json \<Rightarrow> (string \<times> string) list" where
  "attachment_actions v = (case v of
       JObj ms \<Rightarrow> fold (\<lambda>(k, x) old. if matches ''actions'' k then (case x of JArr vs \<Rightarrow> decode_actions vs old | _ \<Rightarrow> []) else old) ms []
     | _ \<Rightarrow> [])"

definition has_text :: "nat list \<Rightarrow> nat list \<Rightarrow> bool" where
  "has_text p s \<longleftrightarrow> list_ex (\<lambda>i. take (length p) (drop i s) = p) [0..<Suc (length s)]"

definition approval_label :: "string \<times> string \<Rightarrow> bool" where
  "approval_label a \<longleftrightarrow> (let label = map ToLowerRune (runes (TrimSpace (fst a @ '' '' @ snd a))) in
     has_text (map of_char ''approv'') label \<or> has_text (map of_char ''reject'') label)"

definition mattermostApprovalRequested :: "string \<Rightarrow> bool" where
  "mattermostApprovalRequested raw = (case Unmarshal raw of
       Some (JArr vs) \<Rightarrow> list_all attachment_ok vs \<and> list_ex (\<lambda>v. list_ex approval_label (attachment_actions v)) vs
     | _ \<Rightarrow> False)"

definition operates_for :: "db \<Rightarrow> NotificationQuery \<Rightarrow> string \<Rightarrow> bool" where
  "operates_for d q cid \<longleftrightarrow> Nq_UserAdmin q \<or> Nq_UserID q \<noteq> [] \<and> has_role d (Nq_UserID q) cid"

definition view_of :: "NotificationQuery \<Rightarrow> db \<Rightarrow> notification_row \<times> channel_row \<Rightarrow> Notification" where
  "view_of q d nc = (case nc of (n, c) \<Rightarrow>
     let operate = operates_for d q (n_channel_id n);
         root = exists_where (\<lambda>p. mp_notification_id p = n_id n \<and> mp_root_id p = []) (t_posts d) in
     \<lparr>Nt_IncidentKey = (case List.find (\<lambda>i. i_notification_id i = n_id n) (t_incidents d) of None \<Rightarrow> [] | Some i \<Rightarrow> i_incident_key i),
      Nt_ID = n_id n, Nt_ChannelID = c_id c, Nt_ChannelName = c_name c, Nt_Text = n_text n, Nt_Username = n_username n,
      Nt_IconURL = n_icon_url n, Nt_Attachments = n_attachments n, Nt_State = n_state n, Nt_CreatedAt = OfUnixMilli (n_created_at n),
      Nt_UpdatedAt = OfUnixMilli (n_updated_at n), Nt_EventCount = count_where (\<lambda>e. e_notification_id e = n_id n) (t_events d), Nt_Card = n_card n,
      Nt_Agent = (case n_agent_id n of None \<Rightarrow> [] | Some k \<Rightarrow> (case List.find (\<lambda>a. ag_id a = k) (t_agents d) of None \<Rightarrow> [] | Some a \<Rightarrow> ag_name a)),
      Nt_Unread = (Nq_UserID q \<noteq> [] \<and> is_unread d (Nq_UserID q) n), Nt_CanOperate = operate,
      Nt_CanApprove = (operate \<and> root \<and> mattermostApprovalRequested (n_attachments n)), Nt_CompatRoot = root\<rparr>)"

definition query_limit :: "int \<Rightarrow> int" where
  "query_limit limit = (if limit \<le> 0 \<or> limit > 201 then 100 else limit)"

definition QueryNotifications :: "(string \<Rightarrow> string option) \<Rightarrow> NotificationQuery \<Rightarrow> Notification list store" where
  "QueryNotifications severity q = query (\<lambda>d. map (view_of q d) (take (nat (query_limit (Nq_Limit q)))
     (sort_desc (order_key q \<circ> fst) (filter (selected severity q d) (joined d)))))"

definition ListNotifications :: "(string \<Rightarrow> string option) \<Rightarrow> int \<Rightarrow> Notification list store" where
  "ListNotifications severity limit = QueryNotifications severity (empty_query\<lparr>Nq_Limit := limit\<rparr>)"

section \<open>Incidents\<close>

record Incident =
  Ic_Key :: string
  Ic_ChannelID :: string
  Ic_Channel :: string
  Ic_Count :: nat
  Ic_Firing :: nat
  Ic_UpdatedAt :: int

text \<open>The notifications with an incident key, in channels that the user may see.\<close>

definition incident_rows :: "db \<Rightarrow> User \<Rightarrow> ((string \<times> channel_row) \<times> notification_row) list" where
  "incident_rows d user = concat (map (\<lambda>i. map (\<lambda>(n, c). ((i_incident_key i, c), n))
     (filter (\<lambda>(n, c). n_id n = i_notification_id i \<and> visible d (User_IsAdmin user) (User_ID user) c) (joined d))) (t_incidents d))"

definition incident_of :: "((string \<times> channel_row) \<times> notification_row) list \<Rightarrow> string \<times> channel_row \<Rightarrow> Incident" where
  "incident_of rows g = (let ns = map snd (filter (\<lambda>r. fst r = g) rows) in
     \<lparr>Ic_Key = fst g, Ic_ChannelID = c_id (snd g), Ic_Channel = c_name (snd g), Ic_Count = length ns,
      Ic_Firing = count_where (\<lambda>n. n_state n = ''firing'') ns,
      Ic_UpdatedAt = (case map n_updated_at ns of [] \<Rightarrow> 0 | t # ts \<Rightarrow> fold max ts t)\<rparr>)"

definition Incidents :: "User \<Rightarrow> Incident list store" where
  "Incidents user = query (\<lambda>d. let rows = incident_rows d user in
     take 200 (sort_desc Ic_UpdatedAt (map (incident_of rows) (remdups (map fst rows)))))"

definition IncidentNotifications :: "(string \<Rightarrow> string option) \<Rightarrow> User \<Rightarrow> string \<Rightarrow> string \<Rightarrow> Notification list store" where
  "IncidentNotifications severity user channelID key =
     bindM (channelReadable user channelID) (\<lambda>allowed.
     bindM (requireM allowed ErrForbidden) (\<lambda>_.
     bindM (query (\<lambda>d. take 200 (map snd (sort_desc id (concat (map (\<lambda>i. map (\<lambda>n. (n_updated_at n, n_id n))
              (filter (\<lambda>n. n_id n = i_notification_id i \<and> n_channel_id n = channelID) (t_notifications d)))
              (filter (\<lambda>i. i_incident_key i = key) (t_incidents d)))))))) (\<lambda>ids.
     foldM (\<lambda>i values. bindM (QueryNotifications severity (empty_query\<lparr>Nq_ID := i, Nq_UserID := User_ID user, Nq_UserAdmin := User_IsAdmin user, Nq_ShowDismissed := True\<rparr>))
              (\<lambda>v. returnM (values @ v))) ids [])))"

section \<open>Unread counts\<close>

text \<open>Messages and shared command responses that a user has not read; one's own messages are read.\<close>

definition unread_message :: "db \<Rightarrow> string \<Rightarrow> message_row \<Rightarrow> bool" where
  "unread_message d user m \<longleftrightarrow> user \<noteq> [] \<and> msg_deleted_at m = None \<and> msg_author_user_id m \<noteq> user \<and> msg_created_at m > read_at d user (msg_channel_id m)"

text \<open>\<open>FROM slash_command_responses r JOIN slash_command_executions e ON e.id = r.execution_id\<close>.\<close>

definition responses :: "db \<Rightarrow> (slash_response_row \<times> slash_exec_row) list" where
  "responses d = concat (map (\<lambda>r. case List.find (\<lambda>e. se_id e = sr_execution_id r) (t_slash_execs d) of None \<Rightarrow> [] | Some e \<Rightarrow> [(r, e)]) (t_slash_responses d))"

definition unread_response :: "db \<Rightarrow> string \<Rightarrow> slash_response_row \<times> slash_exec_row \<Rightarrow> bool" where
  "unread_response d user re \<longleftrightarrow> (case re of (r, e) \<Rightarrow> user \<noteq> [] \<and> sr_response_type r = ''in_channel'' \<and> sr_created_at r > read_at d user (se_channel_id e))"

definition in_channels :: "db \<Rightarrow> (channel_row \<Rightarrow> bool) \<Rightarrow> string \<Rightarrow> bool" where
  "in_channels d P cid \<longleftrightarrow> exists_where (\<lambda>c. c_id c = cid \<and> P c) (t_channels d)"

definition sees :: "db \<Rightarrow> User \<Rightarrow> channel_row \<Rightarrow> bool" where
  "sees d user c \<longleftrightarrow> User_ID user = [] \<or> visible d (User_IsAdmin user) (User_ID user) c"

definition audible :: "db \<Rightarrow> string \<Rightarrow> channel_row \<Rightarrow> bool" where
  "audible d user c \<longleftrightarrow> pref_level d user (c_id c) \<noteq> ''muted''"

text \<open>An error of this query is taken as zero.\<close>

definition messageUnreadCount :: "User \<Rightarrow> nat store" where
  "messageUnreadCount user =
     tryM (query (\<lambda>d. count_where (\<lambda>m. unread_message d (User_ID user) m \<and> in_channels d (\<lambda>c. audible d (User_ID user) c \<and> sees d user c) (msg_channel_id m)) (t_messages d)))
       (\<lambda>r. case r of Inl _ \<Rightarrow> returnM 0 | Inr count \<Rightarrow> returnM count)"

definition commandUnreadCount :: "User \<Rightarrow> nat store" where
  "commandUnreadCount user =
     (if User_ID user = [] then returnM 0
      else query (\<lambda>d. count_where (\<lambda>re. unread_response d (User_ID user) re \<and>
             in_channels d (\<lambda>c. audible d (User_ID user) c \<and> sees d user c) (se_channel_id (snd re))) (responses d)))"

definition UnreadCount :: "User \<Rightarrow> nat store" where
  "UnreadCount user =
     (if User_ID user = [] then returnM 0
      else bindM (query (\<lambda>d. count_where (\<lambda>(n, c). is_unread d (User_ID user) n \<and> \<not> dismissed d (User_ID user) n \<and>
             audible d (User_ID user) c \<and> visible d (User_IsAdmin user) (User_ID user) c) (joined d))) (\<lambda>count.
      bindM (messageUnreadCount user) (\<lambda>messageUnread.
      bindM (commandUnreadCount user) (\<lambda>commandUnread.
      returnM (count + messageUnread + commandUnread)))))"

record channelMessageCount =
  Cm_Total :: nat
  Cm_Unread :: nat

text \<open>Counts of the visible channels; a Go map is an association list.\<close>

definition channelMessageCounts :: "User \<Rightarrow> (string \<times> channelMessageCount) list store" where
  "channelMessageCounts user = query (\<lambda>d. map (\<lambda>c. (c_id c,
     \<lparr>Cm_Total = count_where (\<lambda>m. msg_channel_id m = c_id c \<and> msg_deleted_at m = None) (t_messages d),
      Cm_Unread = count_where (\<lambda>m. msg_channel_id m = c_id c \<and> unread_message d (User_ID user) m) (t_messages d)\<rparr>))
     (filter (sees d user) (t_channels d)))"

definition channelCommandCounts :: "User \<Rightarrow> (string \<times> channelMessageCount) list store" where
  "channelCommandCounts user = query (\<lambda>d. map (\<lambda>c. (c_id c,
     \<lparr>Cm_Total = count_where (\<lambda>(r, e). se_channel_id e = c_id c \<and> (sr_response_type r = ''in_channel'' \<or> User_ID user \<noteq> [] \<and> se_user_id e = User_ID user)) (responses d),
      Cm_Unread = count_where (\<lambda>(r, e). se_channel_id e = c_id c \<and> unread_response d (User_ID user) (r, e)) (responses d)\<rparr>))
     (filter (sees d user) (t_channels d)))"

section \<open>The channel list\<close>

definition channel_view :: "db \<Rightarrow> User \<Rightarrow> channel_row \<Rightarrow> ChannelSummary" where
  "channel_view d user c =
     (let ns = filter (\<lambda>n. n_channel_id n = c_id c \<and> \<not> dismissed d (User_ID user) n) (t_notifications d) in
      (channel_summary (c_id c) (c_name c) (c_display_name c) (c_description c) (c_accent_color c) (c_visibility c))
        \<lparr>Cs_NotificationLevel := (if User_ID user = [] then ''all'' else pref_level d (User_ID user) (c_id c)), Cs_TotalCount := length ns,
         Cs_UnreadCount := count_where (\<lambda>n. User_ID user \<noteq> [] \<and> is_unread d (User_ID user) n) ns,
         Cs_FiringCount := count_where (\<lambda>n. n_state n = ''firing'') ns\<rparr>)"

definition add_messages :: "(string \<times> channelMessageCount) list \<Rightarrow> ChannelSummary \<Rightarrow> ChannelSummary" where
  "add_messages counts ch = (case map_of counts (Cs_ID ch) of None \<Rightarrow> ch
     | Some n \<Rightarrow> ch\<lparr>Cs_TotalMessages := Cm_Total n, Cs_TotalCount := Cs_TotalCount ch + Cm_Total n, Cs_UnreadCount := Cs_UnreadCount ch + Cm_Unread n\<rparr>)"

definition add_commands :: "(string \<times> channelMessageCount) list \<Rightarrow> ChannelSummary \<Rightarrow> ChannelSummary" where
  "add_commands counts ch = (case map_of counts (Cs_ID ch) of None \<Rightarrow> ch
     | Some n \<Rightarrow> ch\<lparr>Cs_TotalCount := Cs_TotalCount ch + Cm_Total n, Cs_UnreadCount := Cs_UnreadCount ch + Cm_Unread n\<rparr>)"

definition ListChannels :: "User \<Rightarrow> ChannelSummary list store" where
  "ListChannels user =
     bindM (query (\<lambda>d. map (channel_view d user)
       (sort_key (\<lambda>c. (nocase (c_display_name c), nocase (c_name c))) (filter (sees d user) (t_channels d))))) (\<lambda>channels.
     bindM (channelMessageCounts user) (\<lambda>messageCounts.
     bindM (channelCommandCounts user) (\<lambda>commandCounts.
     returnM (map (add_commands commandCounts) (map (add_messages messageCounts) channels)))))"

section \<open>Read marks\<close>

text \<open>The latest moment of anything a reader could have seen in a channel, at least the given time.\<close>

definition seen_until :: "db \<Rightarrow> int \<Rightarrow> string \<Rightarrow> int" where
  "seen_until d at cid = max (max at (fold max (map n_updated_at (filter (\<lambda>n. n_channel_id n = cid) (t_notifications d))) 0))
     (max (fold max (map msg_created_at (filter (\<lambda>m. msg_channel_id m = cid \<and> msg_deleted_at m = None) (t_messages d))) 0)
          (fold max (map (\<lambda>(r, e). sr_created_at r) (filter (\<lambda>(r, e). se_channel_id e = cid \<and> sr_response_type r = ''in_channel'') (responses d))) 0))"

definition read_mark :: "db \<Rightarrow> string \<Rightarrow> int \<Rightarrow> string \<Rightarrow> read_row" where
  "read_mark d user at cid = \<lparr>r_user_id = user, r_channel_id = cid, r_read_at = seen_until d at cid\<rparr>"

definition put_mark :: "read_row \<Rightarrow> read_row list \<Rightarrow> read_row list" where
  "put_mark r rs = (if exists_where (\<lambda>x. (r_user_id x, r_channel_id x) = (r_user_id r, r_channel_id r)) rs
     then upd_where (\<lambda>x. (r_user_id x, r_channel_id x) = (r_user_id r, r_channel_id r)) (\<lambda>x. x\<lparr>r_read_at := max (r_read_at x) (r_read_at r)\<rparr>) rs
     else rs @ [r])"

text \<open>One statement for all channels; a user that does not exist has no marks yet and cannot get one.\<close>

definition mark_channels :: "string \<Rightarrow> int \<Rightarrow> unit store" where
  "mark_channels user at = stmt (\<lambda>d.
     if list_ex (\<lambda>c. chk_read d (read_mark d user at (c_id c)) \<in> {Some ForeignKeyViolation, Some CheckViolation}) (t_channels d)
     then Inl (ErrConstraint ForeignKeyViolation)
     else Inr ((), t_read_update (fold (\<lambda>c. put_mark (read_mark d user at (c_id c))) (t_channels d)) d))"

definition MarkAllRead :: "string \<Rightarrow> gotime \<Rightarrow> unit store" where
  "MarkAllRead userID readAt =
     bindM (requireM (userID \<noteq> []) (ErrText ''user is required'')) (\<lambda>_.
     tx (bindM (mark_channels userID (UnixMilli readAt)) (\<lambda>_.
         bindM (sql_update t_user_state t_user_state_update (\<lambda>_ s. us_user_id s = userID) (\<lambda>s. s\<lparr>us_unread := False\<rparr>)) (\<lambda>_.
         returnM (Commit ())))))"

definition MarkChannelRead :: "User \<Rightarrow> string \<Rightarrow> gotime \<Rightarrow> unit store" where
  "MarkChannelRead user channelID readAt =
     bindM (requireM (\<not> (User_ID user = [] \<or> channelID = [])) (ErrText ''user and channel are required'')) (\<lambda>_.
     tx (bindM (sql_upsert_select t_read t_read_update (\<lambda>_. True) chk_read (\<lambda>r. (r_user_id r, r_channel_id r))
                  (\<lambda>d. if in_channels d (visible d (User_IsAdmin user) (User_ID user)) channelID
                        then Some (read_mark d (User_ID user) (UnixMilli readAt) channelID) else None)
                  (\<lambda>r x. x\<lparr>r_read_at := max (r_read_at x) (r_read_at r)\<rparr>)) (\<lambda>changed.
         bindM (requireM (changed \<noteq> 0) ErrForbidden) (\<lambda>_.
         bindM (sql_update t_user_state t_user_state_update
                  (\<lambda>d s. us_user_id s = User_ID user \<and> exists_where (\<lambda>n. n_id n = us_notification_id s \<and> n_channel_id n = channelID) (t_notifications d))
                  (\<lambda>s. s\<lparr>us_unread := False\<rparr>)) (\<lambda>_.
         returnM (Commit ()))))))"

section \<open>Settings\<close>

definition Setting :: "string \<Rightarrow> string option store" where
  "Setting key = query (\<lambda>d. map_option st_value (List.find (\<lambda>s. st_key s = key) (t_settings d)))"

definition SaveSettings :: "(string \<times> string) list \<Rightarrow> unit store" where
  "SaveSettings values = tx (bindM (foldM (\<lambda>(key, v) _. sql_upsert t_settings t_settings_update chk_settings st_key \<lparr>st_key = key, st_value = v\<rparr>
       (\<lambda>s. s\<lparr>st_value := v\<rparr>)) values 0) (\<lambda>_. returnM (Commit ())))"

section \<open>Push subscriptions\<close>

record PushSubscription =
  Ps_UserID :: string
  Ps_Endpoint :: string
  Ps_P256DH :: string
  Ps_Auth :: string
  Ps_CreatedAt :: gotime

definition nullif :: "string \<Rightarrow> string option" where
  "nullif s = (if s = [] then None else Some s)"

text \<open>Who may take over an endpoint: its owner, a user when it has none, or a user who presents its keys.\<close>

definition may_take :: "PushSubscription \<Rightarrow> push_row \<Rightarrow> bool" where
  "may_take s p \<longleftrightarrow> pu_user_id p = nullif (Ps_UserID s) \<or>
     Ps_UserID s \<noteq> [] \<and> (pu_user_id p = None \<or> pu_p256dh p = Ps_P256DH s \<and> pu_auth p = Ps_Auth s)"

definition SavePushSubscription :: "PushSubscription \<Rightarrow> gotime \<Rightarrow> unit store" where
  "SavePushSubscription s now =
     bindM (stmt (\<lambda>d. let user_ok = ref_ok (\<lambda>k. exists_where (\<lambda>u. u_id u = k) (t_users d)) (nullif (Ps_UserID s)) in
       case List.find (\<lambda>p. pu_endpoint p = Ps_Endpoint s) (t_push d) of
         Some p \<Rightarrow> (if \<not> may_take s p then Inr (0, d)
                   else if \<not> user_ok then Inl (ErrConstraint ForeignKeyViolation)
                   else Inr (1, t_push_update (upd_where (\<lambda>x. pu_endpoint x = Ps_Endpoint s)
                     (\<lambda>x. x\<lparr>pu_p256dh := Ps_P256DH s, pu_auth := Ps_Auth s, pu_user_id := nullif (Ps_UserID s)\<rparr>)) d))
       | None \<Rightarrow> (if \<not> user_ok then Inl (ErrConstraint ForeignKeyViolation)
                  else Inr (1, t_push_update (\<lambda>xs. xs @ [\<lparr>pu_endpoint = Ps_Endpoint s, pu_p256dh = Ps_P256DH s, pu_auth = Ps_Auth s,
                     pu_created_at = UnixMilli now, pu_user_id = nullif (Ps_UserID s)\<rparr>]) d)))) (\<lambda>changed.
     requireM (changed \<noteq> (0 :: nat)) ErrInvalidCredentials)"

definition RemoveUserPushSubscription :: "string \<Rightarrow> string \<Rightarrow> unit store" where
  "RemoveUserPushSubscription userID endpoint =
     bindM (sql_delete t_push t_push_update (\<lambda>_ p. pu_endpoint p = endpoint \<and> (case pu_user_id p of None \<Rightarrow> [] | Some u \<Rightarrow> u) = userID)) (\<lambda>deleted.
     requireM (deleted \<noteq> 0) ErrInvalidCredentials)"

definition subscription_of :: "push_row \<Rightarrow> PushSubscription" where
  "subscription_of p = \<lparr>Ps_UserID = (case pu_user_id p of None \<Rightarrow> [] | Some u \<Rightarrow> u), Ps_Endpoint = pu_endpoint p, Ps_P256DH = pu_p256dh p, Ps_Auth = pu_auth p,
     Ps_CreatedAt = OfUnixMilli (pu_created_at p)\<rparr>"

definition subscriptions :: "(db \<Rightarrow> push_row \<Rightarrow> bool) \<Rightarrow> PushSubscription list store" where
  "subscriptions P = query (\<lambda>d. map subscription_of (sort_key pu_created_at (filter (P d) (t_push d))))"

definition ListPushSubscriptions :: "PushSubscription list store" where
  "ListPushSubscriptions = subscriptions (\<lambda>_ _. True)"

text \<open>The readers of a channel as the statements on push subscriptions see them.\<close>

definition push_reader :: "db \<Rightarrow> (user_row \<Rightarrow> channel_row \<Rightarrow> bool) \<Rightarrow> string \<Rightarrow> push_row \<Rightarrow> bool" where
  "push_reader d P cid p \<longleftrightarrow> exists_where (\<lambda>u. Some (u_id u) = pu_user_id p \<and>
     exists_where (\<lambda>c. c_id c = cid \<and> P u c \<and> visible d (u_is_admin u) (u_id u) c) (t_channels d)) (t_users d)"

definition ListPushSubscriptionsForNotification :: "(string \<Rightarrow> string option) \<Rightarrow> string \<Rightarrow> bool \<Rightarrow> PushSubscription list store" where
  "ListPushSubscriptionsForNotification severity notificationID includeAnonymous = subscriptions (\<lambda>d p.
     includeAnonymous \<and> pu_user_id p = None \<or>
     exists_where (\<lambda>n. n_id n = notificationID \<and> push_reader d (\<lambda>u c. pref_level d (u_id u) (c_id c) \<noteq> ''muted'' \<and>
       (pref_level d (u_id u) (c_id c) \<noteq> ''critical'' \<or> severity (n_card n) = Some ''critical'')) (n_channel_id n) p) (t_notifications d))"

definition ListPushSubscriptionsForChannelMessage :: "string \<Rightarrow> PushSubscription list store" where
  "ListPushSubscriptionsForChannelMessage messageID = subscriptions (\<lambda>d p.
     exists_where (\<lambda>m. msg_id m = messageID \<and> msg_deleted_at m = None \<and>
       push_reader d (\<lambda>u c. u_id u \<noteq> msg_author_user_id m \<and> pref_level d (u_id u) (c_id c) = ''all'') (msg_channel_id m) p) (t_messages d))"

definition ListPushSubscriptionsForCommandResponse :: "string \<Rightarrow> PushSubscription list store" where
  "ListPushSubscriptionsForCommandResponse responseID = subscriptions (\<lambda>d p.
     list_ex (\<lambda>(r, e). sr_id r = responseID \<and> sr_response_type r = ''in_channel'' \<and>
       push_reader d (\<lambda>u c. u_id u \<noteq> se_user_id e \<and> pref_level d (u_id u) (c_id c) = ''all'') (se_channel_id e) p) (responses d))"

section \<open>Notification preferences\<close>

definition SetChannelNotificationPreference :: "User \<Rightarrow> string \<Rightarrow> string \<Rightarrow> gotime \<Rightarrow> unit store" where
  "SetChannelNotificationPreference actor channelID level now =
     bindM (requireM (\<not> (level \<noteq> ''all'' \<and> level \<noteq> ''critical'' \<and> level \<noteq> ''muted'')) (ErrText ''invalid notification preference'')) (\<lambda>_.
     bindM (sql_upsert_select t_prefs t_prefs_update (\<lambda>_. True) chk_prefs (\<lambda>p. (p_user_id p, p_channel_id p))
              (\<lambda>d. if in_channels d (visible d (User_IsAdmin actor) (User_ID actor)) channelID
                    then Some \<lparr>p_user_id = User_ID actor, p_channel_id = channelID, p_level = level, p_updated_at = UnixMilli now\<rparr> else None)
              (\<lambda>r p. p\<lparr>p_level := p_level r, p_updated_at := p_updated_at r\<rparr>)) (\<lambda>changed.
     requireM (changed \<noteq> 0) ErrForbidden))"

definition ChannelNotificationPreference :: "User \<Rightarrow> string \<Rightarrow> string store" where
  "ChannelNotificationPreference actor channelID =
     bindM (query (\<lambda>d. if in_channels d (visible d (User_IsAdmin actor) (User_ID actor)) channelID
                        then Some (pref_level d (User_ID actor) channelID) else None)) (rowM ErrForbidden)"

section \<open>What a search finds\<close>

definition escaped :: "char \<Rightarrow> string" where
  "escaped c = (if c = CHR 0x5C \<or> c = CHR ''%'' \<or> c = CHR ''_'' then [CHR 0x5C, c] else [c])"

lemma escapeLike_Cons: "escapeLike (c # s) = escaped c @ escapeLike s"
  by (simp add: escapeLike_def ReplaceAllChar_def escaped_def)

lemma escapeLike_Nil [simp]: "escapeLike [] = []"
  by (simp add: escapeLike_def ReplaceAllChar_def)

definition letter :: "char \<Rightarrow> char" where
  "letter c = hd (nocase [c])"

lemma nocase_letter: "nocase s = map letter s"
  by (simp add: nocase_def letter_def)

lemma same_letter_iff: "same_letter a b \<longleftrightarrow> letter a = letter b"
  by (simp add: same_letter_def nocase_letter)

declare like.simps [simp del]

lemma like_any: "like (CHR ''%'' # p) t \<longleftrightarrow> (\<exists>u v. t = u @ v \<and> like p v)"
proof (induction t)
  case Nil
  then show ?case by (simp add: like.simps)
next
  case (Cons x t)
  have "like (CHR ''%'' # p) (x # t) \<longleftrightarrow> like p (x # t) \<or> like (CHR ''%'' # p) t" by (subst like.simps) simp
  also have "\<dots> \<longleftrightarrow> (\<exists>u v. x # t = u @ v \<and> like p v)" unfolding Cons.IH by (metis append_Cons append_Nil append_eq_Cons_conv)
  finally show ?case .
qed

lemma like_escaped: "like (escaped c @ p) t \<longleftrightarrow> (\<exists>x v. t = x # v \<and> same_letter c x \<and> like p v)"
  by (cases t) (auto simp: escaped_def like.simps)

lemma like_escapeLike: "like (escapeLike s @ p) t \<longleftrightarrow> (\<exists>u v. t = u @ v \<and> nocase u = nocase s \<and> like p v)"
proof (induction s arbitrary: t)
  case (Cons c s)
  have "like (escapeLike (c # s) @ p) t \<longleftrightarrow> (\<exists>x v. t = x # v \<and> same_letter c x \<and> like (escapeLike s @ p) v)"
    by (simp add: escapeLike_Cons like_escaped)
  also have "\<dots> \<longleftrightarrow> (\<exists>x u v. t = (x # u) @ v \<and> same_letter c x \<and> nocase u = nocase s \<and> like p v)" unfolding Cons.IH by auto
  also have "\<dots> \<longleftrightarrow> (\<exists>u v. t = u @ v \<and> nocase u = nocase (c # s) \<and> like p v)"
  proof -
    have "nocase u = nocase (c # s) \<longleftrightarrow> (\<exists>x u'. u = x # u' \<and> same_letter c x \<and> nocase u' = nocase s)" for u
      by (cases u) (auto simp: nocase_letter same_letter_iff)
    then have "(\<exists>u v. t = u @ v \<and> nocase u = nocase (c # s) \<and> like p v) \<longleftrightarrow>
        (\<exists>u v. t = u @ v \<and> (\<exists>x u'. u = x # u' \<and> same_letter c x \<and> nocase u' = nocase s) \<and> like p v)" by (simp only:)
    then show ?thesis by blast
  qed
  finally show ?case .
qed (simp add: nocase_letter)

lemma like_contains: "like (contains_pattern s) t \<longleftrightarrow> sublist (nocase s) (nocase t)"
proof -
  have "like (contains_pattern s) t \<longleftrightarrow> (\<exists>u v x y. t = u @ v \<and> v = x @ y \<and> nocase x = nocase s)"
    by (simp add: contains_pattern_def like_any like_escapeLike like.simps(1) del: append_assoc)
  also have "\<dots> \<longleftrightarrow> (\<exists>u x y. t = u @ x @ y \<and> nocase x = nocase s)" by auto
  also have "\<dots> \<longleftrightarrow> (\<exists>u y. nocase t = u @ nocase s @ y)"
  proof
    assume "\<exists>u y. nocase t = u @ nocase s @ y"
    then obtain u0 y where "map letter t = u0 @ (map letter s @ y)" unfolding nocase_letter by blast
    then obtain u r where 1: "t = u @ r" "map letter r = map letter s @ y" by (metis map_eq_append_conv)
    from 1(2) obtain x y' where "r = x @ y'" "map letter s = map letter x" by (metis map_eq_append_conv)
    with 1(1) show "\<exists>u x y. t = u @ x @ y \<and> nocase x = nocase s" unfolding nocase_letter by metis
  qed (auto simp: nocase_letter, blast)
  finally show ?thesis by (simp add: sublist_def)
qed

text \<open>C23: what a search finds.  The pattern that is built from a search text matches a value exactly when the
  value contains the text, up to the case of ASCII letters: percent signs, underscores and backslashes in the search
  stand for themselves.\<close>

theorem search_contains: "like (contains_pattern s) t \<longleftrightarrow> sublist (nocase s) (nocase t)"
  by (rule like_contains)

section \<open>Unread totals\<close>

lemma count_where_Cons: "count_where P (x # xs) = (if P x then 1 else 0) + count_where P xs"
  by (simp add: count_where_def)

lemma count_where_cong: "(\<And>x. x \<in> set xs \<Longrightarrow> P x = Q x) \<Longrightarrow> count_where P xs = count_where Q xs"
  unfolding count_where_def by (metis filter_cong)

lemma sum_indicator: "distinct ks \<Longrightarrow> (\<Sum>k \<leftarrow> ks. if P \<and> a = k then 1 else 0) = (if P \<and> a \<in> set ks then 1 else 0 :: nat)"
  by (induction ks) auto

text \<open>Counting rows by the channel they lie in.\<close>

lemma count_by_channel:
  assumes "distinct ks"
  shows "(\<Sum>k \<leftarrow> ks. count_where (\<lambda>x. P x \<and> f x = k) xs) = count_where (\<lambda>x. P x \<and> f x \<in> set ks) xs"
proof (induction xs)
  case Nil
  then show ?case by (simp add: count_where_def)
next
  case (Cons x xs)
  then show ?case using assms by (simp add: count_where_Cons sum_list_addf sum_indicator)
qed

lemma count_joined:
  "count_where (\<lambda>(n, c). A n \<and> B c) (joined d) =
   count_where (\<lambda>n. A n \<and> (case List.find (\<lambda>c. c_id c = n_channel_id n) (t_channels d) of None \<Rightarrow> False | Some c \<Rightarrow> B c)) (t_notifications d)"
proof -
  have "count_where (\<lambda>(n, c). A n \<and> B c) (concat (map (\<lambda>n. case List.find (\<lambda>c. c_id c = n_channel_id n) (t_channels d) of None \<Rightarrow> [] | Some c \<Rightarrow> [(n, c)]) ns)) =
      count_where (\<lambda>n. A n \<and> (case List.find (\<lambda>c. c_id c = n_channel_id n) (t_channels d) of None \<Rightarrow> False | Some c \<Rightarrow> B c)) ns" for ns
    by (induction ns) (auto simp: count_where_def split: option.split)
  then show ?thesis by (simp add: joined_def)
qed

lemma find_channel:
  "keyed c_id (t_channels d) \<Longrightarrow>
   (case List.find (\<lambda>c. c_id c = k) (t_channels d) of None \<Rightarrow> False | Some c \<Rightarrow> B c) \<longleftrightarrow> k \<in> c_id ` set (filter B (t_channels d))"
  by (cases "List.find (\<lambda>c. c_id c = k) (t_channels d)")
     (auto dest: find_NoneD dest!: find_SomeD dest: keyed_unique)

lemma in_channels_iff: "in_channels d P k \<longleftrightarrow> k \<in> c_id ` set (filter P (t_channels d))"
  by (auto simp: in_channels_def)

definition summary :: "db \<Rightarrow> User \<Rightarrow> channel_row \<Rightarrow> ChannelSummary" where
  "summary d user c = (let ch = channel_view d user c;
     m = count_where (\<lambda>m. msg_channel_id m = c_id c \<and> msg_deleted_at m = None) (t_messages d);
     r = count_where (\<lambda>(r, e). se_channel_id e = c_id c \<and> (sr_response_type r = ''in_channel'' \<or> User_ID user \<noteq> [] \<and> se_user_id e = User_ID user)) (responses d) in
     ch\<lparr>Cs_TotalMessages := m, Cs_TotalCount := Cs_TotalCount ch + m + r,
        Cs_UnreadCount := Cs_UnreadCount ch + count_where (\<lambda>m. msg_channel_id m = c_id c \<and> unread_message d (User_ID user) m) (t_messages d) +
          count_where (\<lambda>(r, e). se_channel_id e = c_id c \<and> unread_response d (User_ID user) (r, e)) (responses d)\<rparr>)"

lemma map_of_keyed: "keyed c_id cs \<Longrightarrow> c \<in> set cs \<Longrightarrow> map_of (map (\<lambda>c. (c_id c, g c)) cs) (c_id c) = Some (g c)"
  by (intro map_of_is_SomeI) (auto simp: keyed_def comp_def)

lemma ListChannels_up:
  assumes "keyed c_id (t_channels d)"
  shows "ListChannels user (up d) =
    (Inr (map (summary d user) (sort_key (\<lambda>c. (nocase (c_display_name c), nocase (c_name c))) (filter (sees d user) (t_channels d)))), up d)"
proof -
  have k: "keyed c_id (filter (sees d user) (t_channels d))" using assms by (simp add: keyed_def distinct_map_filter)
  note lookup = map_of_keyed [OF k]
  have "Cs_ID (channel_view d user c) = c_id c" for c by (simp add: channel_view_def channel_summary_def Let_def)
  then show ?thesis
    by (auto simp: ListChannels_def channelMessageCounts_def channelCommandCounts_def sql_simps add_messages_def add_commands_def lookup summary_def Let_def)
qed

lemma sum_counts: "distinct (map c_id cs) \<Longrightarrow> (\<Sum>c \<leftarrow> cs. count_where (\<lambda>x. P x \<and> f x = c_id c) xs) = count_where (\<lambda>x. P x \<and> f x \<in> c_id ` set cs) xs"
  using count_by_channel [of "map c_id cs" P f xs] by (simp add: comp_def)

lemma sum_insort: "(\<Sum>y \<leftarrow> insort_key k x xs. f y) = f x + (\<Sum>y \<leftarrow> xs. f y :: nat)"
  by (induction xs) auto

lemma sum_sort: "(\<Sum>y \<leftarrow> sort_key k xs. f y) = (\<Sum>y \<leftarrow> xs. f y :: nat)"
  by (induction xs) (auto simp: sum_insort)

text \<open>C24: one unread number.  The total number of unread entries of a signed-in user is the sum of the numbers that
  the channel list shows for the channels that the user has not muted.\<close>

theorem unread_total:
  assumes "User_ID user \<noteq> []" and "keyed c_id (t_channels d)"
  shows "\<exists>channels. ListChannels user (up d) = (Inr channels, up d) \<and>
    UnreadCount user (up d) = (Inr (\<Sum>ch \<leftarrow> filter (\<lambda>ch. Cs_NotificationLevel ch \<noteq> ''muted'') channels. Cs_UnreadCount ch), up d)"
proof (intro exI conjI)
  let ?u = "User_ID user"
  let ?key = "\<lambda>c. (nocase (c_display_name c), nocase (c_name c))"
  show "ListChannels user (up d) = (Inr (map (summary d user) (sort_key ?key (filter (sees d user) (t_channels d)))), up d)"
    by (rule ListChannels_up [OF assms(2)])
  let ?cs = "filter (\<lambda>c. audible d ?u c \<and> sees d user c) (t_channels d)"
  have dist: "distinct (map c_id ?cs)" using assms(2) by (simp add: keyed_def distinct_map_filter)
  let ?n = "\<lambda>c. count_where (\<lambda>n. (is_unread d ?u n \<and> \<not> dismissed d ?u n) \<and> n_channel_id n = c_id c) (t_notifications d)"
  let ?m = "\<lambda>c. count_where (\<lambda>m. unread_message d ?u m \<and> msg_channel_id m = c_id c) (t_messages d)"
  let ?r = "\<lambda>c. count_where (\<lambda>re. unread_response d ?u re \<and> se_channel_id (snd re) = c_id c) (responses d)"
  have un: "Cs_UnreadCount (summary d user c) = ?n c + ?m c + ?r c" for c
    using assms(1) by (auto simp: summary_def channel_view_def Let_def count_where_def conj_commute conj_left_commute case_prod_beta')
  have level: "Cs_NotificationLevel (summary d user c) = pref_level d ?u (c_id c)" for c
    using assms(1) by (simp add: summary_def channel_view_def Let_def)
  have "filter (\<lambda>ch. Cs_NotificationLevel ch \<noteq> ''muted'') (map (summary d user) (sort_key ?key (filter (sees d user) (t_channels d)))) =
      map (summary d user) (sort_key ?key ?cs)"
    by (simp add: filter_map comp_def level audible_def filter_sort conj_commute)
  then have "(\<Sum>ch \<leftarrow> filter (\<lambda>ch. Cs_NotificationLevel ch \<noteq> ''muted'') (map (summary d user) (sort_key ?key (filter (sees d user) (t_channels d)))). Cs_UnreadCount ch) =
      (\<Sum>c \<leftarrow> sort_key ?key ?cs. ?n c + ?m c + ?r c)"
    by (simp add: comp_def un)
  also have "\<dots> = (\<Sum>c \<leftarrow> ?cs. ?n c + ?m c + ?r c)"
    by (rule sum_sort)
  also have "\<dots> = (\<Sum>c \<leftarrow> ?cs. ?n c) + (\<Sum>c \<leftarrow> ?cs. ?m c) + (\<Sum>c \<leftarrow> ?cs. ?r c)" by (simp add: sum_list_addf)
  finally have sum: "(\<Sum>ch \<leftarrow> filter (\<lambda>ch. Cs_NotificationLevel ch \<noteq> ''muted'') (map (summary d user) (sort_key ?key (filter (sees d user) (t_channels d)))). Cs_UnreadCount ch) =
      count_where (\<lambda>n. (is_unread d ?u n \<and> \<not> dismissed d ?u n) \<and> n_channel_id n \<in> c_id ` set ?cs) (t_notifications d) +
      count_where (\<lambda>m. unread_message d ?u m \<and> msg_channel_id m \<in> c_id ` set ?cs) (t_messages d) +
      count_where (\<lambda>re. unread_response d ?u re \<and> se_channel_id (snd re) \<in> c_id ` set ?cs) (responses d)"
    unfolding sum_counts [OF dist] .
  have see: "visible d (User_IsAdmin user) ?u c = sees d user c" for c using assms(1) by (simp add: sees_def)
  have n: "count_where (\<lambda>(n, c). is_unread d ?u n \<and> \<not> dismissed d ?u n \<and> audible d ?u c \<and> visible d (User_IsAdmin user) ?u c) (joined d) =
      count_where (\<lambda>n. (is_unread d ?u n \<and> \<not> dismissed d ?u n) \<and> n_channel_id n \<in> c_id ` set ?cs) (t_notifications d)"
    using count_joined [of "\<lambda>n. is_unread d ?u n \<and> \<not> dismissed d ?u n" "\<lambda>c. audible d ?u c \<and> sees d user c" d]
    unfolding find_channel [OF assms(2)] see by simp
  show "UnreadCount user (up d) = (Inr (\<Sum>ch \<leftarrow> filter (\<lambda>ch. Cs_NotificationLevel ch \<noteq> ''muted'')
      (map (summary d user) (sort_key ?key (filter (sees d user) (t_channels d)))). Cs_UnreadCount ch), up d)"
    unfolding sum using assms(1) n
    by (simp add: UnreadCount_def messageUnreadCount_def commandUnreadCount_def sql_simps in_channels_iff)
qed

section \<open>Reading everything\<close>

text \<open>A channel is read up to a time: the user has a mark, and every mark has at least that time.\<close>

definition marked :: "string \<Rightarrow> string \<Rightarrow> int \<Rightarrow> read_row list \<Rightarrow> bool" where
  "marked user cid t rs \<longleftrightarrow> (\<exists>r \<in> set rs. r_user_id r = user \<and> r_channel_id r = cid) \<and>
     (\<forall>r \<in> set rs. r_user_id r = user \<and> r_channel_id r = cid \<longrightarrow> t \<le> r_read_at r)"

lemma put_mark_marked: "marked (r_user_id r) (r_channel_id r) (r_read_at r) (put_mark r rs)"
  by (auto simp: marked_def put_mark_def ball_upd_where bex_upd_where)

lemma put_mark_keeps: "marked user cid t rs \<Longrightarrow> marked user cid t (put_mark r rs)"
  by (auto simp: marked_def put_mark_def ball_upd_where bex_upd_where intro!: bexI)

lemma fold_mark_keeps: "marked user cid t rs \<Longrightarrow> marked user cid t (fold (\<lambda>c. put_mark (f c)) cs rs)"
  by (induction cs arbitrary: rs) (auto intro: put_mark_keeps)

lemma fold_marks:
  "c \<in> set cs \<Longrightarrow> marked user (c_id c) (seen_until d at (c_id c)) (fold (\<lambda>c. put_mark (read_mark d user at (c_id c))) cs rs)"
proof (induction cs arbitrary: rs)
  case (Cons x cs)
  have "marked user (c_id x) (seen_until d at (c_id x)) (put_mark (read_mark d user at (c_id x)) rs)"
    using put_mark_marked [of "read_mark d user at (c_id x)" rs] by (simp add: read_mark_def)
  with Cons show ?case by (auto intro: fold_mark_keeps)
qed simp

lemma marked_read_at: "user \<noteq> [] \<Longrightarrow> marked user cid t (t_read d) \<Longrightarrow> t \<le> read_at d user cid"
  by (auto simp: read_at_def marked_def find_None_iff dest!: find_SomeD split: option.split)

lemma seen_notification: "n \<in> set (t_notifications d) \<Longrightarrow> n_channel_id n = cid \<Longrightarrow> n_updated_at n \<le> seen_until d at cid"
  by (auto simp: seen_until_def le_max_iff_disj le_fold_max)

lemma seen_message: "m \<in> set (t_messages d) \<Longrightarrow> msg_channel_id m = cid \<Longrightarrow> msg_deleted_at m = None \<Longrightarrow> msg_created_at m \<le> seen_until d at cid"
  by (auto simp: seen_until_def le_max_iff_disj le_fold_max)

lemma seen_response:
  "(r, e) \<in> set (responses d) \<Longrightarrow> se_channel_id e = cid \<Longrightarrow> sr_response_type r = ''in_channel'' \<Longrightarrow> sr_created_at r \<le> seen_until d at cid"
  unfolding seen_until_def le_max_iff_disj le_fold_max by force

definition all_read :: "db \<Rightarrow> string \<Rightarrow> bool" where
  "all_read d user \<longleftrightarrow> (\<forall>c \<in> set (t_channels d). marked user (c_id c) (seen_until d 0 (c_id c)) (t_read d)) \<and>
     (\<forall>s \<in> set (t_user_state d). us_user_id s = user \<longrightarrow> \<not> us_unread s)"

lemma seen_until_mono: "seen_until d 0 cid \<le> seen_until d at cid"
proof -
  have "0 \<le> fold max xs (0 :: int)" for xs by (simp add: le_fold_max)
  then show ?thesis by (auto simp: seen_until_def le_max_iff_disj)
qed

lemma marked_mono: "marked user cid t rs \<Longrightarrow> s \<le> t \<Longrightarrow> marked user cid s rs"
  by (auto simp: marked_def)

lemma MarkAllRead_sat: "sat (MarkAllRead user at) d (\<lambda>r d'. r = Inr () \<longrightarrow> user \<noteq> [] \<and> all_read d' user)"
proof -
  let ?marks = "\<lambda>d. fold (\<lambda>c. put_mark (read_mark d user (UnixMilli at) (c_id c))) (t_channels d)"
  let ?after = "\<lambda>d. t_user_state_update (upd_where (\<lambda>s. us_user_id s = user) (\<lambda>s. s\<lparr>us_unread := False\<rparr>)) (t_read_update (?marks d) d)"
  have same: "seen_until (?after d) 0 = seen_until d 0" for d
    by (simp add: seen_until_def responses_def fun_eq_iff)
  have "all_read (?after d) user" for d
    unfolding all_read_def same
    by (auto simp: ball_upd_where intro!: marked_mono [OF fold_marks seen_until_mono])
  then show ?thesis
    unfolding MarkAllRead_def mark_channels_def by (intro sat_intro) (auto intro!: sat_intro split: if_splits)
qed

lemma all_read_nothing:
  assumes "all_read d user" and "user \<noteq> []"
  shows "c \<in> set (t_channels d) \<Longrightarrow> n \<in> set (t_notifications d) \<Longrightarrow> n_channel_id n = c_id c \<Longrightarrow> \<not> is_unread d user n"
    and "m \<in> set (t_messages d) \<Longrightarrow> in_channels d P (msg_channel_id m) \<Longrightarrow> \<not> unread_message d user m"
    and "re \<in> set (responses d) \<Longrightarrow> in_channels d P (se_channel_id (snd re)) \<Longrightarrow> \<not> unread_response d user re"
proof -
  have read: "seen_until d 0 (c_id c) \<le> read_at d user (c_id c)" if "c \<in> set (t_channels d)" for c
    using assms that by (auto simp: all_read_def intro: marked_read_at)
  then have within: "seen_until d 0 cid \<le> read_at d user cid" if "in_channels d P cid" for cid P
    using that by (auto simp: in_channels_iff)
  { assume c: "c \<in> set (t_channels d)" and n: "n \<in> set (t_notifications d)" "n_channel_id n = c_id c"
    have "n_updated_at n \<le> read_at d user (n_channel_id n)" using read [OF c] seen_notification [OF n, of 0] n(2) by simp
    then show "\<not> is_unread d user n" using assms(1)
      by (auto simp: is_unread_def marks_def all_read_def dest: find_SomeD split: option.split) }
  { assume m: "m \<in> set (t_messages d)" and c: "in_channels d P (msg_channel_id m)"
    from within [OF c] seen_message [OF m refl, of 0] show "\<not> unread_message d user m" by (auto simp: unread_message_def) }
  { assume re: "re \<in> set (responses d)" and c: "in_channels d P (se_channel_id (snd re))"
    from re within [OF c] seen_response [of "fst re" "snd re" d _ 0] show "\<not> unread_response d user re" by (cases re) (auto simp: unread_response_def) }
qed

lemma joined_in: "(n, c) \<in> set (joined d) \<Longrightarrow> n \<in> set (t_notifications d) \<and> c \<in> set (t_channels d) \<and> n_channel_id n = c_id c"
  by (auto simp: joined_def dest!: find_SomeD [OF sym] split: option.splits)

lemma UnreadCount_sat:
  assumes "all_read d (User_ID user)" and "User_ID user \<noteq> []"
  shows "sat (UnreadCount user) d (\<lambda>r _. \<forall>k. r = Inr k \<longrightarrow> k = 0)"
  unfolding UnreadCount_def messageUnreadCount_def commandUnreadCount_def
  using all_read_nothing [OF assms] assms(2)
  by (intro sat_intro) (auto intro!: sat_intro dest!: joined_in)

text \<open>C25: reading everything.  After a user has marked everything as read, the next count of unread entries that
  succeeds is zero: nothing that was in the store at that moment, with whatever time stamp, is left unread.\<close>

theorem mark_all_read_clears:
  assumes "MarkAllRead (User_ID user) at w = (Inr (), w')" and "UnreadCount user w' = (Inr k, w'')"
  shows "k = 0"
proof -
  have "User_ID user \<noteq> []" "all_read (wdb w') (User_ID user)" using satD [OF MarkAllRead_sat assms(1)] by auto
  from satD [OF UnreadCount_sat [OF this(2,1)] assms(2)] show ?thesis by simp
qed

section \<open>A reader with unread entries\<close>

definition reader :: User where
  "reader = \<lparr>User_ID = ''u2'', User_Username = ''u2'', User_IsAdmin = False\<rparr>"

definition reader_db :: db where
  "reader_db = empty_db\<lparr>t_users := [demo_user ''u1'' True, demo_user ''u2'' False], t_channels := [demo_channel\<lparr>c_visibility := ''public''\<rparr>, demo_channel\<lparr>c_id := ''c2'', c_name := ''dev'', c_visibility := ''public''\<rparr>],
     t_prefs := [\<lparr>p_user_id = ''u2'', p_channel_id = ''c2'', p_level = ''muted'', p_updated_at = 0\<rparr>],
     t_notifications := [plain_notification ''n1'' ''c1'' ''firing'' ''k''\<lparr>n_updated_at := 9\<rparr>, plain_notification ''n2'' ''c2'' ''firing'' ''l''\<lparr>n_updated_at := 4\<rparr>],
     t_messages := [demo_message ''m1'' 1]\<rparr>"

theorem unread_total_witness:
  "\<exists>channels. ListChannels reader (up reader_db) = (Inr channels, up reader_db) \<and>
     UnreadCount reader (up reader_db) = (Inr (\<Sum>ch \<leftarrow> filter (\<lambda>ch. Cs_NotificationLevel ch \<noteq> ''muted'') channels. Cs_UnreadCount ch), up reader_db)"
proof -
  have "User_ID reader \<noteq> []" "keyed c_id (t_channels reader_db)" by code_simp+
  then show ?thesis by (rule unread_total)
qed

theorem mark_all_read_clears_witness:
  "fst (UnreadCount reader (up reader_db)) = Inr 2 \<and> fst (UnreadCount reader (snd (MarkAllRead ''u2'' 0 (up reader_db)))) = Inr 0"
proof -
  let ?m = "MarkAllRead ''u2'' 0 (up reader_db)"
  have "fst ?m = Inr ()" by code_simp
  then have m: "MarkAllRead (User_ID reader) 0 (up reader_db) = (Inr (), snd ?m)" by (simp add: reader_def prod_eq_iff)
  have "map_sum id (\<lambda>_. ()) (fst (UnreadCount reader (snd ?m))) = Inr ()" by code_simp
  then obtain k where k: "UnreadCount reader (snd ?m) = (Inr k, snd (UnreadCount reader (snd ?m)))" by (blast dest: run_Inr)
  with mark_all_read_clears [OF m k] have "fst (UnreadCount reader (snd ?m)) = Inr 0" by (metis fst_conv)
  moreover have "fst (UnreadCount reader (up reader_db)) = Inr 2" by code_simp
  ultimately show ?thesis by blast
qed

end
