(* ===== verification/Timeline.thy ===== *)
theory Timeline
  imports Inbox
begin

text \<open>
  Channel messages and the merged channel timeline of \<open>internal/store/timeline.go\<close>: creation of messages and replies
  with idempotency keys, the reads of messages and threads, command responses, and the pages of the timeline that
  merges notifications, messages and command responses.  \<open>severity\<close> stands for \<open>json_extract(card, '$.severity')\<close>,
  as in \<open>Inbox\<close>.
\<close>

section \<open>Data\<close>

record ChannelMessage =
  Ch_ID :: string
  Ch_ChannelID :: string
  Ch_ChannelName :: string
  Ch_AuthorUserID :: string
  Ch_Author :: string
  Ch_ParentID :: string
  Ch_RootID :: string
  Ch_Text :: string
  Ch_CreatedAt :: gotime
  Ch_ReplyCount :: nat

record CommandTimelineItem =
  Ct_ID :: string
  Ct_ExecutionID :: string
  Ct_ChannelID :: string
  Ct_ChannelName :: string
  Ct_ResponseType :: string
  Ct_Text :: string
  Ct_Username :: string
  Ct_AuthorIcon :: string
  Ct_Props :: string
  Ct_Attachments :: string
  Ct_Author :: string
  Ct_InvokerUserID :: string
  Ct_Invoker :: string
  Ct_CreatedAt :: gotime
  Ct_Payload :: string

record TimelineItem =
  Ti_Kind :: string
  Ti_Message :: "ChannelMessage option"
  Ti_Notification :: "Notification option"
  Ti_Command :: "CommandTimelineItem option"
  Ti_CreatedAtMilli :: int
  Ti_ID :: string

record CreateMessageInput =
  Mi_ChannelID :: string
  Mi_Text :: string
  Mi_ParentID :: string
  Mi_IdempotencyKey :: string

definition maxMessageLength :: int where
  "maxMessageLength = 4000"

section \<open>Reading messages\<close>

text \<open>The columns every statement on messages selects, joined with the channel and the author.\<close>

definition message_view :: "db \<Rightarrow> message_row \<Rightarrow> ChannelMessage option" where
  "message_view d m =
     (case (List.find (\<lambda>c. c_id c = msg_channel_id m) (t_channels d), List.find (\<lambda>u. u_id u = msg_author_user_id m) (t_users d)) of
        (Some c, Some u) \<Rightarrow> Some
          \<lparr>Ch_ID = msg_id m, Ch_ChannelID = msg_channel_id m, Ch_ChannelName = c_name c, Ch_AuthorUserID = msg_author_user_id m,
           Ch_Author = u_username u, Ch_ParentID = (case msg_parent_id m of None \<Rightarrow> [] | Some p \<Rightarrow> p), Ch_RootID = msg_root_id m,
           Ch_Text = msg_text m, Ch_CreatedAt = OfUnixMilli (msg_created_at m),
           Ch_ReplyCount = count_where (\<lambda>r. msg_root_id r = msg_id m \<and> msg_id r \<noteq> msg_id m \<and> msg_deleted_at r = None) (t_messages d)\<rparr>
      | _ \<Rightarrow> None)"

definition message_views :: "db \<Rightarrow> message_row list \<Rightarrow> ChannelMessage list" where
  "message_views d ms = List.map_filter (message_view d) ms"

text \<open>A statement for one message: the first row, or \<open>sql.ErrNoRows\<close>, which becomes \<open>ErrMessageNotFound\<close>.\<close>

definition scanChannelMessage :: "(db \<Rightarrow> message_row \<Rightarrow> bool) \<Rightarrow> ChannelMessage store" where
  "scanChannelMessage P =
     bindM (query (\<lambda>d. case message_views d (filter (P d) (t_messages d)) of [] \<Rightarrow> None | m # _ \<Rightarrow> Some m)) (rowM ErrMessageNotFound)"

definition messageByID :: "string \<Rightarrow> ChannelMessage store" where
  "messageByID i = scanChannelMessage (\<lambda>_ m. msg_id m = i \<and> msg_deleted_at m = None)"

definition messageByIdempotencyKey :: "string \<Rightarrow> string \<Rightarrow> string \<Rightarrow> ChannelMessage store" where
  "messageByIdempotencyKey userID channelID key = scanChannelMessage
     (\<lambda>_ m. msg_channel_id m = channelID \<and> msg_author_user_id m = userID \<and> msg_idempotency_key m = key \<and> msg_deleted_at m = None)"

definition ChannelMessageByID :: "User \<Rightarrow> string \<Rightarrow> ChannelMessage store" where
  "ChannelMessageByID actor i =
     bindM (messageByID i) (\<lambda>message.
     bindM (channelReadable actor (Ch_ChannelID message)) (\<lambda>readable.
     bindM (requireM readable ErrForbidden) (\<lambda>_. returnM message)))"

definition ListChannelMessagesAfter :: "User \<Rightarrow> string \<Rightarrow> int \<Rightarrow> int \<Rightarrow> string \<Rightarrow> (ChannelMessage list \<times> bool) store" where
  "ListChannelMessagesAfter actor channelID limit afterAt afterID =
     bindM (channelReadable actor channelID) (\<lambda>readable.
     bindM (requireM readable ErrForbidden) (\<lambda>_.
     let limit = (if limit \<le> 0 \<or> limit > 100 then 50 else limit);
         ascending = (afterAt > 0 \<and> afterID \<noteq> []) in
     bindM (query (\<lambda>d.
       let ms = filter (\<lambda>m. msg_channel_id m = channelID \<and> msg_deleted_at m = None \<and>
                  \<not> exists_where (\<lambda>a. ag_user_id a = msg_author_user_id m) (t_agents d) \<and> message_view d m \<noteq> None) (t_messages d);
           key = (\<lambda>m. (msg_created_at m, msg_id m)) in
       message_views d (take (nat (limit + 1))
         (if ascending then sort_key key (filter (\<lambda>m. key m > (afterAt, afterID)) ms) else sort_desc key ms)))) (\<lambda>messages.
     let hasMore = (ascending \<and> len messages > limit);
         messages = (if len messages > limit then take (nat limit) messages else messages) in
     returnM (if ascending then messages else rev messages, hasMore))))"

definition listChannelMessages :: "User \<Rightarrow> string \<Rightarrow> string \<Rightarrow> bool \<Rightarrow> int \<Rightarrow> int \<Rightarrow> string \<Rightarrow> ChannelMessage list store" where
  "listChannelMessages actor channelID search unreadOnly limit beforeAt beforeID =
     query (\<lambda>d. take (nat limit) (sort_desc (\<lambda>m. (UnixMilli (Ch_CreatedAt m), Ch_ID m))
       (filter (\<lambda>v. (TrimSpace search \<noteq> [] \<longrightarrow> like (nocase (contains_pattern (TrimSpace search))) (nocase (Ch_Text v)) \<or>
                        like (nocase (contains_pattern (TrimSpace search))) (nocase (Ch_Author v))) \<and>
                    (beforeAt > 0 \<and> beforeID \<noteq> [] \<longrightarrow> (UnixMilli (Ch_CreatedAt v), Ch_ID v) < (beforeAt, beforeID)))
         (message_views d (filter (\<lambda>m. msg_channel_id m = channelID \<and> msg_deleted_at m = None \<and>
           (unreadOnly \<and> User_ID actor \<noteq> [] \<longrightarrow> msg_author_user_id m \<noteq> User_ID actor \<and>
              msg_created_at m > read_at d (User_ID actor) (msg_channel_id m))) (t_messages d))))))"

definition ListChannelThread :: "User \<Rightarrow> string \<Rightarrow> string \<Rightarrow> ChannelMessage list store" where
  "ListChannelThread actor channelID rootID =
     bindM (channelReadable actor channelID) (\<lambda>readable.
     bindM (requireM readable ErrForbidden) (\<lambda>_.
     bindM (whenM (rootID \<noteq> []) (bindM (messageByID rootID) (\<lambda>root. requireM (Ch_ChannelID root = channelID) ErrForbidden))) (\<lambda>_.
     query (\<lambda>d. message_views d (sort_key (\<lambda>m. (msg_created_at m, msg_id m))
       (filter (\<lambda>m. msg_channel_id m = channelID \<and> msg_root_id m = rootID \<and> msg_id m \<noteq> rootID \<and> msg_deleted_at m = None) (t_messages d)))))))"

section \<open>Writing messages\<close>

definition IsAlreadyExists :: "err \<Rightarrow> bool" where
  "IsAlreadyExists e \<longleftrightarrow> e = ErrAlreadyExists \<or> e = ErrConstraint UniqueViolation"

definition message_row_of :: "string \<Rightarrow> User \<Rightarrow> CreateMessageInput \<Rightarrow> string \<Rightarrow> gotime \<Rightarrow> message_row" where
  "message_row_of i actor input rootID now =
     \<lparr>msg_id = i, msg_channel_id = Mi_ChannelID input, msg_author_user_id = User_ID actor, msg_parent_id = nullif (Mi_ParentID input),
      msg_root_id = rootID, msg_text = TrimSpace (Mi_Text input), msg_idempotency_key = Mi_IdempotencyKey input,
      msg_created_at = UnixMilli now, msg_updated_at = UnixMilli now, msg_deleted_at = None\<rparr>"

text \<open>The root of the thread a new message belongs to.\<close>

definition thread_root :: "CreateMessageInput \<Rightarrow> string \<Rightarrow> string store" where
  "thread_root input i =
     (if Mi_ParentID input = [] then returnM i
      else bindM (messageByID (Mi_ParentID input)) (\<lambda>parent.
           bindM (requireM (Ch_ChannelID parent = Mi_ChannelID input) ErrForbidden) (\<lambda>_.
           returnM (if Ch_RootID parent = [] then Ch_ID parent else Ch_RootID parent))))"

text \<open>The insertion and the queueing of a command share a transaction; when another message has the idempotency key
  already, the transaction is rolled back and that message returned.\<close>

definition store_message :: "User \<Rightarrow> CreateMessageInput \<Rightarrow> gotime \<Rightarrow> 64 word \<Rightarrow> ChannelMessage store" where
  "store_message actor input now rnd =
     (let i = newID ''msg_'' now rnd in
      bindM (thread_root input i) (\<lambda>rootID.
      bindM (tx (tryM (sql_insert t_messages_update chk_messages (message_row_of i actor input rootID now)) (\<lambda>r. case r of
                   Inl e \<Rightarrow> (if Mi_IdempotencyKey input \<noteq> [] \<and> IsAlreadyExists e then returnM (Rollback False) else failM e)
                 | Inr _ \<Rightarrow> bindM (enqueueCommand i) (\<lambda>_. returnM (Commit True))))) (\<lambda>stored.
      if stored then messageByID i
      else messageByIdempotencyKey (User_ID actor) (Mi_ChannelID input) (Mi_IdempotencyKey input))))"

definition createChannelMessage :: "User \<Rightarrow> CreateMessageInput \<Rightarrow> gotime \<Rightarrow> 64 word \<Rightarrow> ChannelMessage store" where
  "createChannelMessage actor input now rnd =
     (let text = TrimSpace (Mi_Text input) in
      bindM (requireM (text \<noteq> []) (ErrText ''message text is required'')) (\<lambda>_.
      bindM (requireM (\<not> len text > maxMessageLength) (ErrText ''message text is too long'')) (\<lambda>_.
      if Mi_IdempotencyKey input \<noteq> []
      then tryM (messageByIdempotencyKey (User_ID actor) (Mi_ChannelID input) (Mi_IdempotencyKey input)) (\<lambda>r. case r of
             Inr existing \<Rightarrow> returnM existing
           | Inl _ \<Rightarrow> store_message actor input now rnd)
      else store_message actor input now rnd)))"

definition CreateChannelMessage :: "User \<Rightarrow> CreateMessageInput \<Rightarrow> gotime \<Rightarrow> 64 word \<Rightarrow> ChannelMessage store" where
  "CreateChannelMessage actor input now rnd =
     bindM (channelReadable actor (Mi_ChannelID input)) (\<lambda>readable.
     bindM (requireM readable ErrForbidden) (\<lambda>_.
     createChannelMessage actor input now rnd))"

definition CreateChannelMessageFromAgent :: "Agent \<Rightarrow> string \<Rightarrow> string \<Rightarrow> CreateMessageInput \<Rightarrow> gotime \<Rightarrow> 64 word \<Rightarrow> ChannelMessage store" where
  "CreateChannelMessageFromAgent agent channelName runID input now rnd =
     bindM (query (\<lambda>d. map_option c_id (List.find (\<lambda>c. c_name c = TrimSpace channelName) (t_channels d)))) (\<lambda>r.
     bindM (rowM ErrForbidden r) (\<lambda>channelID.
     bindM (whenM (\<not> Agent_IsAdmin agent)
              (bindM (query (\<lambda>d. has_role d (Agent_UserID agent) channelID)) (\<lambda>allowed. requireM allowed ErrForbidden))) (\<lambda>_.
     bindM (whenM (runID \<noteq> [])
              (bindM (query (\<lambda>d. map_option run_state (List.find (\<lambda>r. run_id r = runID \<and> run_agent_id r = Agent_ID agent) (t_runs d)))) (\<lambda>r.
               bindM (rowM ErrRunNotFound r) (\<lambda>state. requireM (state = ''running'') ErrInvalidTransition)))) (\<lambda>_.
     createChannelMessage \<lparr>User_ID = Agent_UserID agent, User_Username = Agent_Username agent, User_IsAdmin = Agent_IsAdmin agent\<rparr>
       (input\<lparr>Mi_ChannelID := channelID\<rparr>) now rnd))))"

section \<open>The timeline\<close>

definition timeline_key :: "TimelineItem \<Rightarrow> int \<times> string" where
  "timeline_key i = (Ti_CreatedAtMilli i, Ti_ID i)"

definition notification_item :: "Notification \<Rightarrow> TimelineItem" where
  "notification_item n = \<lparr>Ti_Kind = ''notification'', Ti_Message = None, Ti_Notification = Some n, Ti_Command = None,
     Ti_CreatedAtMilli = UnixMilli (Nt_UpdatedAt n), Ti_ID = Nt_ID n\<rparr>"

definition message_item :: "ChannelMessage \<Rightarrow> TimelineItem" where
  "message_item m = \<lparr>Ti_Kind = ''message'', Ti_Message = Some m, Ti_Notification = None, Ti_Command = None,
     Ti_CreatedAtMilli = UnixMilli (Ch_CreatedAt m), Ti_ID = Ch_ID m\<rparr>"

definition command_item :: "CommandTimelineItem \<Rightarrow> TimelineItem" where
  "command_item c = \<lparr>Ti_Kind = ''command'', Ti_Message = None, Ti_Notification = None, Ti_Command = Some c,
     Ti_CreatedAtMilli = UnixMilli (Ct_CreatedAt c), Ti_ID = Ct_ID c\<rparr>"

definition mergeTimeline :: "Notification list \<Rightarrow> ChannelMessage list \<Rightarrow> CommandTimelineItem list \<Rightarrow> TimelineItem list" where
  "mergeTimeline notifications messages commands =
     sort_desc timeline_key (map notification_item notifications @ map message_item messages @ map command_item commands)"

definition mergeTimelinePage :: "Notification list \<Rightarrow> ChannelMessage list \<Rightarrow> CommandTimelineItem list \<Rightarrow> int \<Rightarrow> TimelineItem list" where
  "mergeTimelinePage notifications messages commands limit =
     (let merged = mergeTimeline notifications messages commands in
      if len merged > limit then take (nat limit) merged else merged)"

text \<open>A response joined with its execution, the command, the channel and the invoker.\<close>

definition command_view :: "db \<Rightarrow> slash_response_row \<times> slash_exec_row \<Rightarrow> CommandTimelineItem option" where
  "command_view d re = (case re of (r, e) \<Rightarrow>
     (case (List.find (\<lambda>s. sc_id s = se_command_id e) (t_slash d), List.find (\<lambda>c. c_id c = se_channel_id e) (t_channels d),
            List.find (\<lambda>u. u_id u = se_user_id e) (t_users d)) of
        (Some sc, Some c, Some u) \<Rightarrow> Some
          \<lparr>Ct_ID = sr_id r, Ct_ExecutionID = se_id e, Ct_ChannelID = se_channel_id e, Ct_ChannelName = c_name c, Ct_ResponseType = sr_response_type r,
           Ct_Text = sr_text r, Ct_Username = [], Ct_AuthorIcon = [], Ct_Props = [], Ct_Attachments = [],
           Ct_Author = (if sc_username sc = [] then sc_display_name sc else sc_username sc), Ct_InvokerUserID = se_user_id e, Ct_Invoker = u_username u,
           Ct_CreatedAt = OfUnixMilli (sr_created_at r), Ct_Payload = sr_payload r\<rparr>
      | _ \<Rightarrow> None))"

definition listChannelCommandResponses :: "string \<Rightarrow> User \<Rightarrow> string \<Rightarrow> bool \<Rightarrow> int \<Rightarrow> int \<Rightarrow> string \<Rightarrow> CommandTimelineItem list store" where
  "listChannelCommandResponses channelID actor search unreadOnly limit beforeAt beforeID =
     query (\<lambda>d. take (nat limit) (sort_desc (\<lambda>v. (UnixMilli (Ct_CreatedAt v), Ct_ID v))
       (filter (\<lambda>v. (TrimSpace search \<noteq> [] \<longrightarrow> like (nocase (contains_pattern (TrimSpace search))) (nocase (Ct_Text v)) \<or>
                        like (nocase (contains_pattern (TrimSpace search))) (nocase (Ct_Author v)) \<or>
                        like (nocase (contains_pattern (TrimSpace search))) (nocase (Ct_Invoker v))) \<and>
                    (beforeAt > 0 \<and> beforeID \<noteq> [] \<longrightarrow> (UnixMilli (Ct_CreatedAt v), Ct_ID v) < (beforeAt, beforeID)))
         (List.map_filter (command_view d) (filter (\<lambda>(r, e). se_channel_id e = channelID \<and>
           (sr_response_type r = ''in_channel'' \<or> se_user_id e = User_ID actor) \<and>
           (unreadOnly \<and> User_ID actor \<noteq> [] \<longrightarrow> sr_response_type r = ''in_channel'' \<and>
              sr_created_at r > read_at d (User_ID actor) (se_channel_id e))) (responses d))))))"

definition timeline_query :: "User \<Rightarrow> string \<Rightarrow> string \<Rightarrow> string \<Rightarrow> bool \<Rightarrow> int \<Rightarrow> int \<Rightarrow> string \<Rightarrow> NotificationQuery" where
  "timeline_query actor channelName search state unreadOnly pageSize beforeAt beforeID =
     (let q = empty_query\<lparr>Nq_Channel := channelName, Nq_Search := search, Nq_Limit := pageSize, Nq_BeforeAt := beforeAt, Nq_BeforeID := beforeID,
                Nq_UserID := User_ID actor, Nq_UserAdmin := User_IsAdmin actor, Nq_OrderByUpdated := True, Nq_UnreadOnly := unreadOnly\<rparr> in
      if state = ''dismissed'' then q\<lparr>Nq_DismissedOnly := True\<rparr> else q\<lparr>Nq_State := state\<rparr>)"

definition ListChannelTimelineFiltered :: "(string \<Rightarrow> string option) \<Rightarrow> User \<Rightarrow> string \<Rightarrow> string \<Rightarrow> string \<Rightarrow> bool \<Rightarrow> int \<Rightarrow> int \<Rightarrow> string \<Rightarrow>
    (TimelineItem list \<times> bool) store" where
  "ListChannelTimelineFiltered severity actor channelID search state unreadOnly limit beforeAt beforeID =
     bindM (channelReadable actor channelID) (\<lambda>readable.
     bindM (requireM readable ErrForbidden) (\<lambda>_.
     bindM (channelNameByID channelID) (\<lambda>channelName.
     let limit = (if limit \<le> 0 \<or> limit > 200 then 100 else limit); pageSize = limit + 1 in
     bindM (QueryNotifications severity (timeline_query actor channelName search state unreadOnly pageSize beforeAt beforeID)) (\<lambda>notifications.
     if state \<noteq> [] then returnM (mergeTimelinePage notifications [] [] limit, len notifications > limit)
     else
       bindM (listChannelMessages actor channelID search unreadOnly pageSize beforeAt beforeID) (\<lambda>messages.
       bindM (listChannelCommandResponses channelID actor search unreadOnly pageSize beforeAt beforeID) (\<lambda>commands.
       let merged = mergeTimeline notifications messages commands; hasMore = (len merged > limit) in
       returnM (if len merged > limit then take (nat limit) merged else merged, hasMore)))))))"

definition ListChannelTimeline :: "(string \<Rightarrow> string option) \<Rightarrow> User \<Rightarrow> string \<Rightarrow> string \<Rightarrow> int \<Rightarrow> int \<Rightarrow> string \<Rightarrow> (TimelineItem list \<times> bool) store" where
  "ListChannelTimeline severity actor channelID search limit beforeAt beforeID =
     ListChannelTimelineFiltered severity actor channelID search [] False limit beforeAt beforeID"

section \<open>Merging sorted lists\<close>

text \<open>Insertion into a descending list, before equal keys; a stable sort is a fold of it.\<close>

fun insert_desc :: "('r \<Rightarrow> 'k :: linorder) \<Rightarrow> 'r \<Rightarrow> 'r list \<Rightarrow> 'r list" where
  "insert_desc key x [] = [x]"
| "insert_desc key x (y # ys) = (if key y \<le> key x then x # y # ys else y # insert_desc key x ys)"

fun insert_after :: "('r \<Rightarrow> 'k :: linorder) \<Rightarrow> 'r \<Rightarrow> 'r list \<Rightarrow> 'r list" where
  "insert_after key x [] = [x]"
| "insert_after key x (y # ys) = (if key x < key y then x # y # ys else y # insert_after key x ys)"

lemma insort_insert_after: "insort_key key y (insert_after key x zs) = insert_after key x (insort_key key y zs)"
  by (induction zs) auto

lemma sort_snoc: "sort_key key (ys @ [x]) = insert_after key x (sort_key key ys)"
  by (induction ys) (auto simp: insort_insert_after)

lemma insert_desc_snoc:
  "insert_desc key x (ys @ [y]) = (if \<exists>z \<in> set ys. key z \<le> key x then insert_desc key x ys @ [y] else ys @ insert_desc key x [y])"
  by (induction ys) auto

lemma insert_desc_end: "\<forall>z \<in> set zs. \<not> key z \<le> key x \<Longrightarrow> insert_desc key x zs = zs @ [x]"
  by (induction zs) auto

lemma rev_insert_after: "sorted (map key zs) \<Longrightarrow> rev (insert_after key x zs) = insert_desc key x (rev zs)"
proof (induction zs)
  case (Cons z zs)
  then show ?case by (auto simp: insert_desc_snoc insert_desc_end not_less intro: order_trans)
qed simp

lemma sort_desc_Nil [simp]: "sort_desc key [] = []"
  by (simp add: sort_desc_def)

lemma sort_desc_Cons: "sort_desc key (x # xs) = insert_desc key x (sort_desc key xs)"
  by (simp add: sort_desc_def sort_snoc rev_insert_after)

fun merge_desc :: "('r \<Rightarrow> 'k :: linorder) \<Rightarrow> 'r list \<Rightarrow> 'r list \<Rightarrow> 'r list" where
  "merge_desc key (x # xs) (y # ys) = (if key y \<le> key x then x # merge_desc key xs (y # ys) else y # merge_desc key (x # xs) ys)"
| "merge_desc key xs [] = xs"
| "merge_desc key [] ys = ys"

lemma merge_desc_Nil [simp]: "merge_desc key [] ys = ys"
  by (cases ys) auto

lemma insert_merge: "insert_desc key x (merge_desc key xs ys) = merge_desc key (insert_desc key x xs) ys"
proof (induction key xs ys rule: merge_desc.induct)
  case (3 key y ys)
  then show ?case by (induction ys) auto
qed auto

lemma sort_desc_append: "sort_desc key (xs @ ys) = merge_desc key (sort_desc key xs) (sort_desc key ys)"
  by (induction xs) (auto simp: sort_desc_Cons insert_merge)

lemma take_merge: "k \<le> m \<Longrightarrow> k \<le> n \<Longrightarrow> take k (merge_desc key (take m xs) (take n ys)) = take k (merge_desc key xs ys)"
proof (induction key xs ys arbitrary: k m n rule: merge_desc.induct)
  case (1 key x xs y ys)
  show ?case
  proof (cases k)
    case (Suc k')
    with 1(3,4) obtain m' n' where mn: "m = Suc m'" "n = Suc n'" "k' \<le> m'" "k' \<le> n'" by (metis Suc_le_D Suc_le_mono)
    have "take k' (merge_desc key (take m' xs) (take n (y # ys))) = take k' (merge_desc key xs (y # ys))" if "key y \<le> key x"
      using 1(1) [OF that, of k' m' n] mn by simp
    moreover have "take k' (merge_desc key (take m (x # xs)) (take n' ys)) = take k' (merge_desc key (x # xs) ys)" if "\<not> key y \<le> key x"
      using 1(2) [OF that, of k' m n'] mn by simp
    ultimately show ?thesis using Suc mn by simp
  qed simp
qed (auto simp: min_def)

lemma take_merge_right: "take k (merge_desc key xs (take k ys)) = take k (merge_desc key xs ys)"
  using take_merge [of k "max k (length xs)" k key xs ys] by simp

lemma length_sort_desc [simp]: "length (sort_desc key xs) = length xs"
  by (simp add: sort_desc_def)

lemma set_sort_desc [simp]: "set (sort_desc key xs) = set xs"
  by (simp add: sort_desc_def)

lemma sorted_sort_desc: "sorted_wrt (\<lambda>x y. key y \<le> key x) (sort_desc key xs)"
  unfolding sort_desc_def sorted_wrt_rev using sorted_sort_key [of key "rev xs"] by (simp add: sorted_map)

lemma sort_desc_id: "sorted_wrt (\<lambda>x y. key y \<le> key x) xs \<Longrightarrow> sort_desc key xs = xs"
proof (induction xs)
  case (Cons x xs)
  then show ?case by (cases xs) (auto simp: sort_desc_Cons)
qed simp

lemma sort_desc_take: "sort_desc key (take k (sort_desc key xs)) = take k (sort_desc key xs)"
  by (rule sort_desc_id) (simp add: sorted_wrt_take sorted_sort_desc)

lemma filter_sort_desc: "filter P (sort_desc key xs) = sort_desc key (filter P xs)"
  by (simp add: sort_desc_def rev_filter [symmetric] filter_sort)

lemma insert_desc_map: "(\<And>y. y \<in> set (x # xs) \<Longrightarrow> key (f y) = key' y) \<Longrightarrow> insert_desc key (f x) (map f xs) = map f (insert_desc key' x xs)"
  by (induction xs) auto

lemma sort_desc_map: "(\<And>y. y \<in> set xs \<Longrightarrow> key (f y) = key' y) \<Longrightarrow> sort_desc key (map f xs) = map f (sort_desc key' xs)"
proof (induction xs)
  case (Cons x xs)
  then have "sort_desc key (map f (x # xs)) = insert_desc key (f x) (map f (sort_desc key' xs))" by (simp add: sort_desc_Cons)
  also have "\<dots> = map f (sort_desc key' (x # xs))"
    unfolding sort_desc_Cons using Cons.prems by (intro insert_desc_map) auto
  finally show ?case .
qed simp

text \<open>The first entries of a merge are those of the merge of the first entries.\<close>

lemma take_three:
  assumes "k \<le> m"
  shows "take k (sort_desc key (take m (sort_desc key xs) @ take m (sort_desc key ys) @ take m (sort_desc key zs))) = take k (sort_desc key (xs @ ys @ zs))"
proof -
  let ?s = "sort_desc key"
  have "take k (?s (take m (?s xs) @ take m (?s ys) @ take m (?s zs))) =
      take k (merge_desc key (take m (?s xs)) (merge_desc key (take m (?s ys)) (take m (?s zs))))"
    by (simp add: sort_desc_append sort_desc_take)
  also have "\<dots> = take k (merge_desc key (take m (?s xs)) (take k (merge_desc key (take m (?s ys)) (take m (?s zs)))))"
    by (rule take_merge_right [symmetric])
  also have "\<dots> = take k (merge_desc key (take m (?s xs)) (take k (merge_desc key (?s ys) (?s zs))))"
    using assms by (simp add: take_merge)
  also have "\<dots> = take k (merge_desc key (?s xs) (merge_desc key (?s ys) (?s zs)))"
    using assms by (simp add: take_merge)
  finally show ?thesis by (simp add: sort_desc_append)
qed
section \<open>The whole timeline\<close>

text \<open>What the timeline of a channel holds, without pages: the entries of the channel that the reader may see and that
  the filters let through, in descending order of time and identifier.\<close>

definition finds :: "string \<Rightarrow> string \<Rightarrow> bool" where
  "finds search t \<longleftrightarrow> sublist (nocase (TrimSpace search)) (nocase t)"

definition listed_notifications :: "db \<Rightarrow> User \<Rightarrow> string \<Rightarrow> string \<Rightarrow> string \<Rightarrow> bool \<Rightarrow> Notification list" where
  "listed_notifications d actor cid search state unreadOnly =
     map (view_of (empty_query\<lparr>Nq_UserID := User_ID actor, Nq_UserAdmin := User_IsAdmin actor\<rparr>) d)
       (filter (\<lambda>(n, c). n_channel_id n = cid \<and> (User_ID actor \<noteq> [] \<longrightarrow> (dismissed d (User_ID actor) n \<longleftrightarrow> state = ''dismissed'')) \<and>
          list_ex (finds search) [n_text n, n_username n, c_name c, n_card n, n_attachments n] \<and>
          (state \<noteq> [] \<and> state \<noteq> ''dismissed'' \<longrightarrow> n_state n = state) \<and>
          (unreadOnly \<and> User_ID actor \<noteq> [] \<longrightarrow> is_unread d (User_ID actor) n)) (joined d))"

definition listed_messages :: "db \<Rightarrow> User \<Rightarrow> string \<Rightarrow> string \<Rightarrow> bool \<Rightarrow> ChannelMessage list" where
  "listed_messages d actor cid search unreadOnly =
     filter (\<lambda>v. finds search (Ch_Text v) \<or> finds search (Ch_Author v)) (message_views d
       (filter (\<lambda>m. msg_channel_id m = cid \<and> msg_deleted_at m = None \<and> (unreadOnly \<and> User_ID actor \<noteq> [] \<longrightarrow> unread_message d (User_ID actor) m)) (t_messages d)))"

definition listed_commands :: "db \<Rightarrow> User \<Rightarrow> string \<Rightarrow> string \<Rightarrow> bool \<Rightarrow> CommandTimelineItem list" where
  "listed_commands d actor cid search unreadOnly =
     filter (\<lambda>v. finds search (Ct_Text v) \<or> finds search (Ct_Author v) \<or> finds search (Ct_Invoker v)) (List.map_filter (command_view d)
       (filter (\<lambda>(r, e). se_channel_id e = cid \<and> (sr_response_type r = ''in_channel'' \<or> se_user_id e = User_ID actor) \<and>
          (unreadOnly \<and> User_ID actor \<noteq> [] \<longrightarrow> unread_response d (User_ID actor) (r, e))) (responses d)))"

definition timeline :: "db \<Rightarrow> User \<Rightarrow> string \<Rightarrow> string \<Rightarrow> string \<Rightarrow> bool \<Rightarrow> TimelineItem list" where
  "timeline d actor cid search state unreadOnly =
     sort_desc timeline_key (map notification_item (listed_notifications d actor cid search state unreadOnly) @
       (if state \<noteq> [] then [] else map message_item (listed_messages d actor cid search unreadOnly) @ map command_item (listed_commands d actor cid search unreadOnly)))"

definition after_cursor :: "int \<Rightarrow> string \<Rightarrow> int \<times> string \<Rightarrow> bool" where
  "after_cursor beforeAt beforeID k \<longleftrightarrow> (beforeAt > 0 \<and> beforeID \<noteq> [] \<longrightarrow> k < (beforeAt, beforeID))"

definition page_size :: "int \<Rightarrow> nat" where
  "page_size limit = nat (if limit \<le> 0 \<or> limit > 200 then 100 else limit)"

text \<open>Folding the case of a pattern and of a text changes nothing.\<close>

lemma letter_special: "letter c = e \<longleftrightarrow> c = e" if "e \<in> {CHR 0x5C, CHR ''%'', CHR ''_''}" for c e
proof -
  have "letter c = (if of_char c \<in> {65..90 :: nat} then char_of (of_char c + 32 :: nat) else c)" by (simp add: letter_def nocase_def)
  moreover have "char_of (of_char c + 32 :: nat) \<noteq> e" if "of_char c \<in> {65..90 :: nat}"
  proof
    assume "char_of (of_char c + 32 :: nat) = e"
    then have "of_char (char_of (of_char c + 32 :: nat)) = (of_char e :: nat)" by simp
    with that \<open>e \<in> _\<close> show False by auto
  qed
  moreover have "c \<noteq> e" if "of_char c \<in> {65..90 :: nat}" using that \<open>e \<in> _\<close> by auto
  ultimately show ?thesis by auto
qed

lemma letter_letter: "letter (letter c) = letter c"
  by (auto simp: letter_def nocase_def)

lemma nocase_nocase: "nocase (nocase s) = nocase s"
  by (simp add: nocase_letter letter_letter)

lemma nocase_escapeLike: "nocase (escapeLike s) = escapeLike (nocase s)"
proof (induction s)
  case (Cons c s)
  have "letter (CHR 0x5C) = CHR 0x5C" by (simp add: letter_special)
  then have "map letter (escaped c) = escaped (letter c)" by (auto simp: escaped_def letter_special)
  then have "nocase (escapeLike (c # s)) = escaped (letter c) @ nocase (escapeLike s)" by (simp add: escapeLike_Cons nocase_letter)
  with Cons show ?case by (simp add: nocase_letter escapeLike_Cons)
qed (simp add: nocase_letter)

lemma like_nocase: "like (nocase (contains_pattern s)) (nocase t) \<longleftrightarrow> sublist (nocase s) (nocase t)"
proof -
  have "letter (CHR ''%'') = CHR ''%''" by (simp add: letter_special)
  then have "nocase (contains_pattern s) = contains_pattern (nocase s)"
    using nocase_escapeLike [of s] by (simp add: contains_pattern_def nocase_letter)
  then show ?thesis by (simp add: like_contains nocase_nocase)
qed

lemma finds_empty: "TrimSpace search = [] \<Longrightarrow> finds search t"
  by (simp add: finds_def nocase_letter)

lemma search_message: "(TrimSpace search \<noteq> [] \<longrightarrow> like (nocase (contains_pattern (TrimSpace search))) (nocase a) \<or> B) \<longleftrightarrow> finds search a \<or> (TrimSpace search \<noteq> [] \<longrightarrow> B)"
  by (auto simp: like_nocase finds_def [symmetric] finds_empty)

lemma found_by_finds: "(TrimSpace search \<noteq> [] \<longrightarrow> found_by (TrimSpace search) n c) \<longleftrightarrow> list_ex (finds search) [n_text n, n_username n, c_name c, n_card n, n_attachments n]"
  by (auto simp: found_by_def like_contains finds_def [symmetric] finds_empty)
lemma bindM_ok: "m w = (Inr a, w') \<Longrightarrow> bindM m f w = f a w'"
  by (simp add: bindM_def)

lemma requireM_True: "requireM True e = returnM ()"
  by (simp add: requireM_def)

lemma bindM_returnM: "bindM (returnM a) f = f a"
  by (simp add: bindM_def returnM_def fun_eq_iff)

lemma take_items:
  assumes "\<And>x. key (f x) = k x"
  shows "map f (take m (sort_desc k (filter (P \<circ> k) xs))) = take m (sort_desc key (filter (P \<circ> key) (map f xs)))"
  by (simp add: filter_map comp_def assms take_map sort_desc_map [where key' = k] assms)

lemma view_of_cong: "Nq_UserID q = Nq_UserID q' \<Longrightarrow> Nq_UserAdmin q = Nq_UserAdmin q' \<Longrightarrow> view_of q d = view_of q' d"
  by (simp add: view_of_def operates_for_def fun_eq_iff)

text \<open>What the three sources of a page return: the first entries after the cursor.\<close>

abbreviation "readable_channel d actor cid c \<equiv>
  List.find (\<lambda>c. c_id c = cid) (t_channels d) = Some c \<and> (User_ID actor \<noteq> [] \<longrightarrow> visible d (User_IsAdmin actor) (User_ID actor) c)"

lemma joined_find: "(n, c) \<in> set (joined d) \<Longrightarrow> List.find (\<lambda>c. c_id c = n_channel_id n) (t_channels d) = Some c"
  by (auto simp: joined_def split: option.splits)

lemma selected_timeline:
  assumes c: "readable_channel d actor cid c" and name: "c_name c \<noteq> []" and keyed: "keyed c_name (t_channels d)" and x: "(n, c') \<in> set (joined d)"
  shows "selected severity (timeline_query actor (c_name c) search state unreadOnly m beforeAt beforeID) d (n, c') \<longleftrightarrow>
    (n_channel_id n = cid \<and> (User_ID actor \<noteq> [] \<longrightarrow> (dismissed d (User_ID actor) n \<longleftrightarrow> state = ''dismissed'')) \<and>
      list_ex (finds search) [n_text n, n_username n, c_name c', n_card n, n_attachments n] \<and>
      (state \<noteq> [] \<and> state \<noteq> ''dismissed'' \<longrightarrow> n_state n = state) \<and>
      (unreadOnly \<and> User_ID actor \<noteq> [] \<longrightarrow> is_unread d (User_ID actor) n)) \<and> after_cursor beforeAt beforeID (n_updated_at n, n_id n)"
proof -
  note x' = joined_find [OF x]
  have same: "c_name c' = c_name c \<longleftrightarrow> n_channel_id n = cid"
    using find_SomeD [OF x'] find_SomeD [OF conjunct1 [OF c]] x' c keyed_unique [OF keyed] by (metis option.inject)
  have "n_channel_id n = cid \<Longrightarrow> c' = c" using x' c by simp
  then show ?thesis
    unfolding selected_def timeline_query_def after_cursor_def using c name
    by (auto simp: same found_by_finds order_key_def empty_query_def Let_def visible_def)
qed

lemma page_limit: "query_limit (int (page_size limit) + 1) = int (page_size limit) + 1"
  by (auto simp: query_limit_def page_size_def)

lemma QueryNotifications_timeline:
  assumes "readable_channel d actor cid c" "c_name c \<noteq> []" "keyed c_name (t_channels d)"
  shows "QueryNotifications severity (timeline_query actor (c_name c) search state unreadOnly (int (page_size limit) + 1) beforeAt beforeID) (up d) =
    (Inr (take (Suc (page_size limit)) (sort_desc (timeline_key \<circ> notification_item)
       (filter (after_cursor beforeAt beforeID \<circ> (timeline_key \<circ> notification_item)) (listed_notifications d actor cid search state unreadOnly)))), up d)"
proof -
  let ?q = "timeline_query actor (c_name c) search state unreadOnly (int (page_size limit) + 1) beforeAt beforeID"
  let ?v = "view_of (empty_query\<lparr>Nq_UserID := User_ID actor, Nq_UserAdmin := User_IsAdmin actor\<rparr>) d"
  have v: "view_of ?q d = ?v" by (rule view_of_cong) (simp_all add: timeline_query_def Let_def)
  have key: "timeline_key (notification_item (?v nc)) = (n_updated_at (fst nc), n_id (fst nc))" for nc
    by (cases nc) (simp add: timeline_key_def notification_item_def view_of_def Let_def)
  have order: "order_key ?q n = (n_updated_at n, n_id n)" for n by (simp add: order_key_def timeline_query_def Let_def)
  have limit: "nat (query_limit (Nq_Limit ?q)) = Suc (page_size limit)"
    by (simp add: timeline_query_def Let_def page_limit nat_add_distrib)
  let ?k = "\<lambda>nc. (n_updated_at (fst nc), n_id (fst nc))"
  define J where "J = filter (\<lambda>(n, c). n_channel_id n = cid \<and> (User_ID actor \<noteq> [] \<longrightarrow> (dismissed d (User_ID actor) n \<longleftrightarrow> state = ''dismissed'')) \<and>
          list_ex (finds search) [n_text n, n_username n, c_name c, n_card n, n_attachments n] \<and>
          (state \<noteq> [] \<and> state \<noteq> ''dismissed'' \<longrightarrow> n_state n = state) \<and>
          (unreadOnly \<and> User_ID actor \<noteq> [] \<longrightarrow> is_unread d (User_ID actor) n)) (joined d)"
  have sel: "filter (selected severity ?q d) (joined d) = filter (after_cursor beforeAt beforeID \<circ> ?k) J"
    unfolding J_def filter_filter
    by (rule filter_cong [OF refl]) (simp only: split_paired_all selected_timeline [OF assms] prod.case comp_def fst_conv)
  have "map ?v (take m (sort_desc ?k (filter (after_cursor beforeAt beforeID \<circ> ?k) J))) =
      take m (sort_desc (timeline_key \<circ> notification_item) (filter (after_cursor beforeAt beforeID \<circ> (timeline_key \<circ> notification_item)) (map ?v J)))" for m
    by (rule take_items) (simp add: key)
  then show ?thesis
    unfolding QueryNotifications_def listed_notifications_def limit J_def [symmetric]
    by (simp add: query_def stmt_def order comp_def v sel)
qed

lemma query_up: "query f (up d) = (Inr (f d), up d)"
  by (simp add: query_def stmt_def)

lemma listChannelMessages_up:
  "listChannelMessages actor cid search unreadOnly (int k + 1) beforeAt beforeID (up d) =
    (Inr (take (Suc k) (sort_desc (timeline_key \<circ> message_item)
       (filter (after_cursor beforeAt beforeID \<circ> (timeline_key \<circ> message_item)) (listed_messages d actor cid search unreadOnly)))), up d)"
proof -
  have rows: "filter (\<lambda>m. msg_channel_id m = cid \<and> msg_deleted_at m = None \<and> (unreadOnly \<and> User_ID actor \<noteq> [] \<longrightarrow> msg_author_user_id m \<noteq> User_ID actor \<and>
        msg_created_at m > read_at d (User_ID actor) (msg_channel_id m))) (t_messages d) =
      filter (\<lambda>m. msg_channel_id m = cid \<and> msg_deleted_at m = None \<and> (unreadOnly \<and> User_ID actor \<noteq> [] \<longrightarrow> unread_message d (User_ID actor) m)) (t_messages d)"
    by (rule filter_cong) (auto simp: unread_message_def)
  have search: "(TrimSpace search \<noteq> [] \<longrightarrow> finds search a \<or> finds search b) \<longleftrightarrow> finds search a \<or> finds search b" for a b by (auto simp: finds_empty)
  have k: "nat (int k + 1) = Suc k" by simp
  have key: "timeline_key \<circ> message_item = (\<lambda>m. (UnixMilli (Ch_CreatedAt m), Ch_ID m))" by (simp add: fun_eq_iff timeline_key_def message_item_def)
  show ?thesis
    unfolding listChannelMessages_def query_up rows listed_messages_def key k filter_filter like_nocase finds_def [symmetric] search
    by (simp only: after_cursor_def comp_def)
qed

lemma listChannelCommandResponses_up:
  "listChannelCommandResponses cid actor search unreadOnly (int k + 1) beforeAt beforeID (up d) =
    (Inr (take (Suc k) (sort_desc (timeline_key \<circ> command_item)
       (filter (after_cursor beforeAt beforeID \<circ> (timeline_key \<circ> command_item)) (listed_commands d actor cid search unreadOnly)))), up d)"
proof -
  have rows: "filter (\<lambda>(r, e). se_channel_id e = cid \<and> (sr_response_type r = ''in_channel'' \<or> se_user_id e = User_ID actor) \<and>
        (unreadOnly \<and> User_ID actor \<noteq> [] \<longrightarrow> sr_response_type r = ''in_channel'' \<and> sr_created_at r > read_at d (User_ID actor) (se_channel_id e))) (responses d) =
      filter (\<lambda>(r, e). se_channel_id e = cid \<and> (sr_response_type r = ''in_channel'' \<or> se_user_id e = User_ID actor) \<and>
        (unreadOnly \<and> User_ID actor \<noteq> [] \<longrightarrow> unread_response d (User_ID actor) (r, e))) (responses d)"
    by (rule filter_cong) (auto simp: unread_response_def)
  have search: "(TrimSpace search \<noteq> [] \<longrightarrow> finds search a \<or> finds search b \<or> finds search c) \<longleftrightarrow> finds search a \<or> finds search b \<or> finds search c" for a b c
    by (auto simp: finds_empty)
  have k: "nat (int k + 1) = Suc k" by simp
  have key: "timeline_key \<circ> command_item = (\<lambda>m. (UnixMilli (Ct_CreatedAt m), Ct_ID m))" by (simp add: fun_eq_iff timeline_key_def command_item_def)
  show ?thesis
    unfolding listChannelCommandResponses_def query_up rows listed_commands_def key k filter_filter like_nocase finds_def [symmetric] search
    by (simp only: after_cursor_def comp_def)
qed

text \<open>A page: the first entries, and whether there are more.\<close>

lemma page_of_three:
  assumes "k = Suc l"
  shows "let merged = sort_desc key (take k (sort_desc key (filter P xs)) @ take k (sort_desc key (filter P ys)) @ take k (sort_desc key (filter P zs)));
             full = filter P (sort_desc key (xs @ ys @ zs)) in
         take l merged = take l full \<and> (l < length merged \<longleftrightarrow> l < length full)"
proof -
  let ?m = "sort_desc key (take k (sort_desc key (filter P xs)) @ take k (sort_desc key (filter P ys)) @ take k (sort_desc key (filter P zs)))"
  let ?f = "filter P (sort_desc key (xs @ ys @ zs))"
  have *: "take (Suc l) ?m = take (Suc l) ?f" using take_three [of k k key "filter P xs" "filter P ys" "filter P zs"] assms by (simp add: filter_sort_desc)
  have "take l (take (Suc l) ?m) = take l (take (Suc l) ?f)" by (simp only: *)
  then have "take l ?m = take l ?f" by (simp only: take_take) simp
  moreover have "l < length ?m \<longleftrightarrow> l < length ?f" using arg_cong [OF *, of length] by (simp only: length_take) linarith
  ultimately show ?thesis by (simp add: Let_def)
qed

lemma page_limited: "((if len xs > int l then take (nat (int l)) xs else xs), len xs > int l) = (take l xs, l < length xs)"
  by (simp add: len_def)

lemma timeline_page_up:
  assumes "channelReadable actor cid (up d) = (Inr True, up d)"
    and "List.find (\<lambda>c. c_id c = cid) (t_channels d) = Some c" and "c_name c \<noteq> []" and "keyed c_name (t_channels d)"
  shows "ListChannelTimelineFiltered severity actor cid search state unreadOnly limit beforeAt beforeID (up d) =
    (let entries = filter (after_cursor beforeAt beforeID \<circ> timeline_key) (timeline d actor cid search state unreadOnly) in
     (Inr (take (page_size limit) entries, page_size limit < length entries), up d))"
proof -
  let ?k = "page_size limit" and ?P = "after_cursor beforeAt beforeID \<circ> timeline_key"
  have r: "readable_channel d actor cid c"
    using assms(1,2) find_SomeD [OF assms(2)] by (auto simp: channelReadable_def sql_simps visible_def is_member_def count_where_pos split: if_splits)
  note notifications = QueryNotifications_timeline [OF r assms(3,4)]
  have name: "channelNameByID cid (up d) = (Inr (c_name c), up d)" using assms(2) by (simp add: channelNameByID_def sql_simps)
  have lim: "(if limit \<le> 0 \<or> limit > 200 then 100 else limit) = int ?k" by (simp add: page_size_def)
  note map_items = take_items [of timeline_key notification_item "timeline_key \<circ> notification_item", OF comp_apply [symmetric]]
    take_items [of timeline_key message_item "timeline_key \<circ> message_item", OF comp_apply [symmetric]]
    take_items [of timeline_key command_item "timeline_key \<circ> command_item", OF comp_apply [symmetric]]
  let ?n = "map notification_item (listed_notifications d actor cid search state unreadOnly)"
    and ?m = "map message_item (listed_messages d actor cid search unreadOnly)" and ?c = "map command_item (listed_commands d actor cid search unreadOnly)"
  let ?t = "\<lambda>xs. take (Suc ?k) (sort_desc timeline_key (filter ?P xs))"
  note op = ListChannelTimelineFiltered_def lim bindM_ok [where m = "channelReadable _ _", OF assms(1)] requireM_True bindM_returnM
    bindM_ok [where m = "channelNameByID _", OF name] bindM_ok [where m = "QueryNotifications _ _", OF notifications] Let_def
  show ?thesis
  proof (cases "state = []")
    case True
    let ?merged = "sort_desc timeline_key (?t ?n @ ?t ?m @ ?t ?c)"
    have "ListChannelTimelineFiltered severity actor cid search state unreadOnly limit beforeAt beforeID (up d) = (Inr (take ?k ?merged, ?k < length ?merged), up d)"
      by (simp only: op True simp_thms if_False bindM_ok [where m = "listChannelMessages _ _ _ _ _ _ _", OF listChannelMessages_up]
        bindM_ok [where m = "listChannelCommandResponses _ _ _ _ _ _ _", OF listChannelCommandResponses_up] mergeTimeline_def map_items page_limited returnM_def)
    with page_of_three [OF refl, where key = timeline_key and P = ?P and l = ?k and xs = ?n and ys = ?m and zs = ?c] True show ?thesis
      by (simp only: timeline_def Let_def if_False simp_thms)
  next
    case False
    let ?merged = "sort_desc timeline_key (?t ?n)"
    have "ListChannelTimelineFiltered severity actor cid search state unreadOnly limit beforeAt beforeID (up d) = (Inr (take ?k ?merged, ?k < length ?merged), up d)"
      unfolding op mergeTimelinePage_def mergeTimeline_def list.map append_Nil2 map_items
      using False by (simp add: returnM_def len_def comp_assoc)
    with page_of_three [OF refl, where key = timeline_key and P = ?P and l = ?k and xs = ?n and ys = "[]" and zs = "[]"] False show ?thesis
      by (simp add: timeline_def Let_def)
  qed
qed

text \<open>C26: a page of the timeline.  For a channel that the reader may read, the operation returns the first entries,
  up to the limit, of the part of the whole timeline that lies after the cursor, and says there are more exactly when
  entries are left: fetching one entry more than the limit from each of the three sources is enough, and none is
  lost or repeated.\<close>

theorem timeline_page:
  assumes "channelReadable actor cid (up d) = (Inr True, up d)"
    and "List.find (\<lambda>c. c_id c = cid) (t_channels d) = Some c" and "c_name c \<noteq> []" and "keyed c_name (t_channels d)"
  shows "ListChannelTimelineFiltered severity actor cid search state unreadOnly limit beforeAt beforeID (up d) =
    (let entries = filter (after_cursor beforeAt beforeID \<circ> timeline_key) (timeline d actor cid search state unreadOnly) in
     (Inr (take (page_size limit) entries, page_size limit < length entries), up d))"
  by (rule timeline_page_up [OF assms])
section \<open>Reading page after page\<close>

text \<open>A reader who asks for the next page after the last entry as long as there is one.\<close>

fun timeline_walk :: "(string \<Rightarrow> string option) \<Rightarrow> User \<Rightarrow> string \<Rightarrow> string \<Rightarrow> string \<Rightarrow> bool \<Rightarrow> int \<Rightarrow> nat \<Rightarrow> int \<Rightarrow> string \<Rightarrow> TimelineItem list store" where
  "timeline_walk severity actor cid search state unreadOnly limit 0 beforeAt beforeID = returnM []"
| "timeline_walk severity actor cid search state unreadOnly limit (Suc n) beforeAt beforeID =
     bindM (ListChannelTimelineFiltered severity actor cid search state unreadOnly limit beforeAt beforeID) (\<lambda>(items, hasMore).
     if hasMore then bindM (timeline_walk severity actor cid search state unreadOnly limit n (Ti_CreatedAtMilli (last items)) (Ti_ID (last items)))
       (\<lambda>rest. returnM (items @ rest))
     else returnM items)"

lemma page_size_pos: "0 < page_size limit"
  by (simp add: page_size_def)

lemma filter_after:
  fixes key :: "'r \<Rightarrow> 'k :: linorder"
  assumes "sorted_wrt (\<lambda>x y. key y < key x) (xs @ x # ys)"
  shows "filter (\<lambda>i. key i < key x) (xs @ x # ys) = ys"
  using assms by (auto simp: sorted_wrt_append filter_empty_conv filter_id_conv)

lemma strictly_sorted:
  fixes key :: "'r \<Rightarrow> 'k :: linorder"
  shows "sorted_wrt (\<lambda>x y. key y \<le> key x) xs \<Longrightarrow> distinct (map key xs) \<Longrightarrow> sorted_wrt (\<lambda>x y. key y < key x) xs"
  by (induction xs) (auto simp: order.order_iff_strict, metis image_eqI)

lemma walk_from:
  assumes page: "\<And>b i. ListChannelTimelineFiltered severity actor cid search state unreadOnly limit b i (up d) =
      (let entries = filter (after_cursor b i \<circ> timeline_key) T in (Inr (take (page_size limit) entries, page_size limit < length entries), up d))"
    and sorted: "sorted_wrt (\<lambda>x y. timeline_key y < timeline_key x) T"
    and ok: "\<And>x. x \<in> set T \<Longrightarrow> 0 < Ti_CreatedAtMilli x \<and> Ti_ID x \<noteq> []"
  shows "T = P @ R \<Longrightarrow> filter (after_cursor b i \<circ> timeline_key) T = R \<Longrightarrow> length R < n \<Longrightarrow>
    timeline_walk severity actor cid search state unreadOnly limit n b i (up d) = (Inr R, up d)"
proof (induction n arbitrary: P R b i)
  case (Suc n)
  let ?k = "page_size limit"
  note page' = page [of b i, unfolded Let_def Suc.prems(2)]
  show ?case
  proof (cases "?k < length R")
    case True
    define x where "x = last (take ?k R)"
    have k: "take ?k R \<noteq> []" using True page_size_pos by (metis length_0_conv length_take less_numeral_extra(3) min.absorb4)
    then have split: "T = (P @ butlast (take ?k R)) @ x # drop ?k R"
      using Suc.prems(1) by (metis append_Cons append_Nil append_assoc append_butlast_last_id append_take_drop_id x_def)
    have "x \<in> set T" using split by simp
    then have "filter (after_cursor (Ti_CreatedAtMilli x) (Ti_ID x) \<circ> timeline_key) T = filter (\<lambda>i. timeline_key i < timeline_key x) T"
      by (intro filter_cong) (auto simp: after_cursor_def timeline_key_def dest!: ok)
    also have "\<dots> = drop ?k R" using filter_after [of timeline_key "P @ butlast (take ?k R)" x "drop ?k R"] sorted split by simp
    finally have "timeline_walk severity actor cid search state unreadOnly limit n (Ti_CreatedAtMilli x) (Ti_ID x) (up d) = (Inr (drop ?k R), up d)"
      by (rule Suc.IH [of "P @ take ?k R", rotated]) (use Suc.prems(1,3) True page_size_pos [of limit] in auto)
    then show ?thesis using True by (simp add: bindM_def page' x_def returnM_def)
  qed (simp add: bindM_def page' returnM_def)
qed simp

text \<open>C27: reading the whole timeline.  When no two entries have the same time and identifier, and times are positive
  and identifiers not empty, a reader who follows the cursor from the newest page to the last one gets every entry of the
  timeline exactly once and in order, and is finished after at most one page per entry and one more.\<close>

theorem timeline_complete:
  assumes "channelReadable actor cid (up d) = (Inr True, up d)"
    and "List.find (\<lambda>c. c_id c = cid) (t_channels d) = Some c" and "c_name c \<noteq> []" and "keyed c_name (t_channels d)"
    and "distinct (map timeline_key (timeline d actor cid search state unreadOnly))"
    and "list_all (\<lambda>x. 0 < Ti_CreatedAtMilli x \<and> Ti_ID x \<noteq> []) (timeline d actor cid search state unreadOnly)"
    and "length (timeline d actor cid search state unreadOnly) < n"
  shows "timeline_walk severity actor cid search state unreadOnly limit n 0 [] (up d) = (Inr (timeline d actor cid search state unreadOnly), up d)"
proof (rule walk_from [OF timeline_page_up [OF assms(1-4)]])
  show "sorted_wrt (\<lambda>x y. timeline_key y < timeline_key x) (timeline d actor cid search state unreadOnly)"
    by (rule strictly_sorted [OF _ assms(5)]) (simp add: timeline_def sorted_sort_desc)
qed (use assms(6,7) in \<open>auto simp: list_all_iff after_cursor_def\<close>)

section \<open>Idempotent submissions\<close>

text \<open>The message that a lookup by channel, author and key finds.\<close>

definition held :: "db \<Rightarrow> string \<Rightarrow> string \<Rightarrow> string \<Rightarrow> ChannelMessage option" where
  "held d user cid key = (case message_views d (filter (\<lambda>m. msg_channel_id m = cid \<and> msg_author_user_id m = user \<and> msg_idempotency_key m = key \<and> msg_deleted_at m = None)
     (t_messages d)) of [] \<Rightarrow> None | m # _ \<Rightarrow> Some m)"

lemma sat_scan [sat_intro]:
  "Q (Inl ErrDatabase) d \<Longrightarrow> Q (Inl ErrMessageNotFound) d \<Longrightarrow>
   (\<And>m ms. message_views d (filter (P d) (t_messages d)) = m # ms \<Longrightarrow> Q (Inr m) d) \<Longrightarrow> sat (scanChannelMessage P) d Q"
  unfolding scanChannelMessage_def by (intro sat_intro) (auto intro!: sat_intro split: list.splits)

lemma sat_lookup:
  "Q (Inl ErrDatabase) d \<Longrightarrow> Q (Inl ErrMessageNotFound) d \<Longrightarrow> (\<And>m. held d user cid key = Some m \<Longrightarrow> Q (Inr m) d) \<Longrightarrow>
   sat (messageByIdempotencyKey user cid key) d Q"
  unfolding messageByIdempotencyKey_def by (rule sat_scan) (auto simp: held_def)

lemma sat_thread_root: "(\<And>r. Q r d) \<Longrightarrow> sat (thread_root input i) d Q"
  unfolding thread_root_def messageByID_def by (intro sat_intro) (auto intro!: sat_intro)

lemma sat_enqueue: "(\<And>r f. Q r (t_commands_update f d)) \<Longrightarrow> Q (Inl ErrDatabase) d \<Longrightarrow> (\<And>r. Q r d) \<Longrightarrow> sat (enqueueCommand i) d Q"
  unfolding enqueueCommand_def by (intro sat_intro) (auto intro!: sat_intro)

text \<open>A message that was just stored is the one its key finds.\<close>

lemma held_stored:
  assumes "chk_messages d r = None" and "msg_idempotency_key r \<noteq> []" and "msg_deleted_at r = None"
    and "t_messages d' = t_messages d @ [r]"
    and "message_views d' (filter (\<lambda>m. msg_id m = msg_id r \<and> msg_deleted_at m = None) (t_messages d')) = m # ms"
  shows "held d' (msg_author_user_id r) (msg_channel_id r) (msg_idempotency_key r) = Some m"
proof -
  have "\<forall>x \<in> set (t_messages d). msg_id x \<noteq> msg_id r \<and> \<not> (msg_channel_id x = msg_channel_id r \<and> msg_author_user_id x = msg_author_user_id r \<and>
      msg_idempotency_key x = msg_idempotency_key r)"
    using assms(1,2) by (auto simp: chk_messages_def violation_def split: if_splits)
  then have "filter (\<lambda>m. msg_id m = msg_id r \<and> msg_deleted_at m = None) (t_messages d') = [r]"
    "filter (\<lambda>m. msg_channel_id m = msg_channel_id r \<and> msg_author_user_id m = msg_author_user_id r \<and> msg_idempotency_key m = msg_idempotency_key r \<and>
       msg_deleted_at m = None) (t_messages d') = [r]"
    using assms(3,4) by (auto simp: filter_empty_conv)
  with assms(5) show ?thesis by (simp add: held_def)
qed

lemma store_message_sat:
  assumes "Mi_IdempotencyKey input \<noteq> []"
  shows "sat (store_message actor input now rnd) d
    (\<lambda>r d'. \<forall>m. r = Inr m \<longrightarrow> held d' (User_ID actor) (Mi_ChannelID input) (Mi_IdempotencyKey input) = Some m)"
proof -
  let ?i = "newID ''msg_'' now rnd"
  have stored: "held d' (User_ID actor) (Mi_ChannelID input) (Mi_IdempotencyKey input) = Some m"
    if "chk_messages d (message_row_of ?i actor input root now) = None" "t_messages d' = t_messages d @ [message_row_of ?i actor input root now]"
      "message_views d' (filter (\<lambda>m. msg_id m = ?i \<and> msg_deleted_at m = None) (t_messages d')) = m # ms" for root d' m ms
    using held_stored [OF that(1) _ _ that(2)] that(3) assms by (simp add: message_row_of_def)
  define written where "written root d' \<longleftrightarrow> chk_messages d (message_row_of ?i actor input root now) = None \<and>
    t_messages d' = t_messages d @ [message_row_of ?i actor input root now]" for root and d' :: db
  have body: "sat (tx (tryM (sql_insert t_messages_update chk_messages (message_row_of ?i actor input root now)) (\<lambda>r. case r of
      Inl e \<Rightarrow> (if Mi_IdempotencyKey input \<noteq> [] \<and> IsAlreadyExists e then returnM (Rollback False) else failM e)
    | Inr _ \<Rightarrow> bindM (enqueueCommand ?i) (\<lambda>_. returnM (Commit True))))) d
    (\<lambda>r d'. case r of Inl e \<Rightarrow> True | Inr stored \<Rightarrow> stored \<longrightarrow> written root d')" for root
    by (intro sat_intro) (auto intro!: sat_intro sat_enqueue simp: written_def split: sum.split)
  have "sat (if b then messageByID ?i else messageByIdempotencyKey (User_ID actor) (Mi_ChannelID input) (Mi_IdempotencyKey input)) d'
      (\<lambda>r d'. \<forall>m. r = Inr m \<longrightarrow> held d' (User_ID actor) (Mi_ChannelID input) (Mi_IdempotencyKey input) = Some m)"
    if "b \<longrightarrow> written root d'" for b root d'
    using that unfolding messageByID_def written_def by (cases b) (auto intro!: sat_scan sat_lookup stored)
  then show ?thesis
    unfolding store_message_def Let_def
    by (intro sat_bind sat_thread_root) (auto split: sum.split intro!: sat_seq [OF sat_mono [OF body]])
qed

lemma store_message_again:
  assumes "Mi_IdempotencyKey input \<noteq> []" and "held d (User_ID actor) (Mi_ChannelID input) (Mi_IdempotencyKey input) = Some m"
  shows "sat (store_message actor input now rnd) d (\<lambda>r d'. d' = d \<and> (\<forall>m'. r = Inr m' \<longrightarrow> m' = m))"
proof -
  let ?i = "newID ''msg_'' now rnd"
  have taken: "chk_messages d (message_row_of ?i actor input root now) = Some UniqueViolation" for root
  proof -
    have "\<exists>x \<in> set (t_messages d). msg_channel_id x = Mi_ChannelID input \<and> msg_author_user_id x = User_ID actor \<and> msg_idempotency_key x = Mi_IdempotencyKey input"
    proof (rule ccontr)
      assume "\<not> ?thesis"
      then have "filter (\<lambda>m. msg_channel_id m = Mi_ChannelID input \<and> msg_author_user_id m = User_ID actor \<and> msg_idempotency_key m = Mi_IdempotencyKey input \<and>
          msg_deleted_at m = None) (t_messages d) = []" by (auto simp: filter_empty_conv)
      with assms(2) show False by (simp add: held_def message_views_def map_filter_simps)
    qed
    then show ?thesis using assms(1) by (auto simp: chk_messages_def violation_def message_row_of_def)
  qed
  show ?thesis
    unfolding store_message_def Let_def messageByID_def
    by (intro sat_bind sat_thread_root) (auto simp: taken assms IsAlreadyExists_def split: sum.split intro!: sat_intro sat_lookup)
qed
lemma createChannelMessage_sat:
  assumes "Mi_IdempotencyKey input \<noteq> []"
  shows "sat (createChannelMessage actor input now rnd) d
    (\<lambda>r d'. \<forall>m. r = Inr m \<longrightarrow> held d' (User_ID actor) (Mi_ChannelID input) (Mi_IdempotencyKey input) = Some m)"
  unfolding createChannelMessage_def Let_def using assms
  by (intro sat_intro) (auto intro!: sat_intro sat_lookup store_message_sat)

lemma createChannelMessage_again:
  assumes "Mi_IdempotencyKey input \<noteq> []" and "held d (User_ID actor) (Mi_ChannelID input) (Mi_IdempotencyKey input) = Some m"
  shows "sat (createChannelMessage actor input now rnd) d (\<lambda>r d'. d' = d \<and> (\<forall>m'. r = Inr m' \<longrightarrow> m' = m))"
  unfolding createChannelMessage_def Let_def using assms
  by (intro sat_intro) (auto intro!: sat_intro sat_lookup store_message_again)

lemma sat_channelReadable: "(\<And>r. Q r d) \<Longrightarrow> sat (channelReadable user cid) d Q"
  unfolding channelReadable_def by (intro sat_intro) (auto intro!: sat_intro)

text \<open>C28: a repeated submission.  After a message was accepted with an idempotency key, another submission of the same
  author to the same channel with that key, whatever its text and parent and whatever statement fails, stores nothing and,
  when it returns a message, returns the first one.\<close>

theorem resubmission_is_idempotent:
  assumes "CreateChannelMessage actor input now rnd w = (Inr m, w1)" and "Mi_IdempotencyKey input \<noteq> []"
    and "CreateChannelMessage actor input' now' rnd' w1 = (r, w2)"
    and "Mi_ChannelID input' = Mi_ChannelID input" and "Mi_IdempotencyKey input' = Mi_IdempotencyKey input"
  shows "wdb w2 = wdb w1 \<and> (\<forall>m'. r = Inr m' \<longrightarrow> m' = m)"
proof -
  have "sat (CreateChannelMessage actor input now rnd) (wdb w)
    (\<lambda>r d'. \<forall>m. r = Inr m \<longrightarrow> held d' (User_ID actor) (Mi_ChannelID input) (Mi_IdempotencyKey input) = Some m)"
    unfolding CreateChannelMessage_def
    by (intro sat_bind sat_channelReadable) (auto split: sum.split intro!: sat_intro createChannelMessage_sat [OF assms(2)])
  from satD [OF this assms(1)] have held: "held (wdb w1) (User_ID actor) (Mi_ChannelID input') (Mi_IdempotencyKey input') = Some m"
    using assms(4,5) by simp
  have "Mi_IdempotencyKey input' \<noteq> []" using assms(2,5) by simp
  note again = createChannelMessage_again [OF this held]
  have "sat (CreateChannelMessage actor input' now' rnd') (wdb w1) (\<lambda>r d'. d' = wdb w1 \<and> (\<forall>m'. r = Inr m' \<longrightarrow> m' = m))"
    unfolding CreateChannelMessage_def
    by (intro sat_bind sat_channelReadable) (auto split: sum.split intro!: sat_intro again)
  from satD [OF this assms(3)] show ?thesis .
qed
section \<open>A channel with three entries\<close>

definition ops_channel :: channel_row where
  "ops_channel = demo_channel\<lparr>c_visibility := ''public''\<rparr>"

lemma reader_ops:
  "channelReadable reader ''c1'' (up reader_db) = (Inr True, up reader_db)"
  "List.find (\<lambda>c. c_id c = ''c1'') (t_channels reader_db) = Some ops_channel" "c_name ops_channel \<noteq> []" "keyed c_name (t_channels reader_db)"
proof -
  have "fst (channelReadable reader ''c1'' (up reader_db)) = Inr True" by code_simp
  moreover have "snd (channelReadable reader ''c1'' (up reader_db)) = up reader_db" by (simp add: channelReadable_def sql_simps reader_db_def reader_def demo_channel_def)
  ultimately show "channelReadable reader ''c1'' (up reader_db) = (Inr True, up reader_db)" by (simp add: prod_eq_iff)
qed (code_simp+)

theorem timeline_page_witness:
  "ListChannelTimelineFiltered (\<lambda>_. None) reader ''c1'' [] [] False 1 0 [] (up reader_db) =
    (let entries = filter (after_cursor 0 [] \<circ> timeline_key) (timeline reader_db reader ''c1'' [] [] False) in
     (Inr (take (page_size 1) entries, page_size 1 < length entries), up reader_db)) \<and>
   map timeline_key (timeline reader_db reader ''c1'' [] [] False) = [(9, ''n1''), (1, ''m1'')]"
proof
  show "map timeline_key (timeline reader_db reader ''c1'' [] [] False) = [(9, ''n1''), (1, ''m1'')]" by code_simp
qed (rule timeline_page [OF reader_ops])

theorem timeline_complete_witness:
  "timeline_walk (\<lambda>_. None) reader ''c1'' [] [] False 1 3 0 [] (up reader_db) = (Inr (timeline reader_db reader ''c1'' [] [] False), up reader_db)"
proof -
  have "distinct (map timeline_key (timeline reader_db reader ''c1'' [] [] False))" by code_simp
  moreover have "list_all (\<lambda>x. 0 < Ti_CreatedAtMilli x \<and> Ti_ID x \<noteq> []) (timeline reader_db reader ''c1'' [] [] False)" by code_simp
  moreover have "length (timeline reader_db reader ''c1'' [] [] False) < 3" by code_simp
  ultimately show ?thesis by (rule timeline_complete [OF reader_ops])
qed

definition submission :: CreateMessageInput where
  "submission = \<lparr>Mi_ChannelID = ''c1'', Mi_Text = '' hello '', Mi_ParentID = [], Mi_IdempotencyKey = ''k1''\<rparr>"

theorem resubmission_is_idempotent_witness:
  "let first = CreateChannelMessage reader submission 5000000 1 (up reader_db);
       second = CreateChannelMessage reader (submission\<lparr>Mi_Text := ''again''\<rparr>) 7000000 2 (snd first) in
   wdb (snd second) = wdb (snd first) \<and> fst second = fst first \<and> map msg_text (t_messages (wdb (snd second))) = [''restart'', ''hello'']"
proof -
  define first where "first = CreateChannelMessage reader submission 5000000 1 (up reader_db)"
  define second where "second = CreateChannelMessage reader (submission\<lparr>Mi_Text := ''again''\<rparr>) 7000000 2 (snd first)"
  have "map_sum id (\<lambda>_. ()) (fst first) = Inr ()" unfolding first_def by code_simp
  then obtain m where m: "first = (Inr m, snd first)" by (blast dest: run_Inr)
  have "map_sum id (\<lambda>_. ()) (fst second) = Inr ()" unfolding second_def first_def by code_simp
  then obtain m' where m': "second = (Inr m', snd second)" by (blast dest: run_Inr)
  have texts: "map msg_text (t_messages (wdb (snd first))) = [''restart'', ''hello'']" unfolding first_def by code_simp
  from m have 1: "CreateChannelMessage reader submission 5000000 1 (up reader_db) = (Inr m, snd first)" by (simp only: first_def [symmetric])
  from m' have 2: "CreateChannelMessage reader (submission\<lparr>Mi_Text := ''again''\<rparr>) 7000000 2 (snd first) = (Inr m', snd second)" by (simp only: second_def [symmetric])
  have key: "Mi_IdempotencyKey submission \<noteq> []" "Mi_ChannelID (submission\<lparr>Mi_Text := ''again''\<rparr>) = Mi_ChannelID submission"
    "Mi_IdempotencyKey (submission\<lparr>Mi_Text := ''again''\<rparr>) = Mi_IdempotencyKey submission" by (simp_all add: submission_def)
  from resubmission_is_idempotent [OF 1 key(1) 2 key(2,3)] have "wdb (snd second) = wdb (snd first)" "m' = m" by auto
  moreover from m m' \<open>m' = m\<close> have "fst second = fst first" by (metis fst_conv)
  ultimately show ?thesis using texts unfolding Let_def first_def [symmetric] second_def [symmetric] by simp
qed

end
