(* ===== verification/Workflows.thy ===== *)
theory Workflows
  imports Timeline
begin

text \<open>
  Attention and schedules, in \<open>internal/store/workflows.go\<close> and \<open>saved_views.go\<close>: quiet hours, snoozes, the reason
  that decides about a delivery, schedules with leases, saved views and digests.  A time zone is the offset from UTC at
  every instant; the data base of time zones behind \<open>time.LoadLocation\<close> is an argument.
\<close>

section \<open>Clocks and time zones\<close>

text \<open>The offset of local time, in nanoseconds, at an instant.\<close>

type_synonym zone = "gotime \<Rightarrow> int"

definition UTC :: zone where
  "UTC t = 0"

definition LoadLocation :: "(string \<Rightarrow> zone option) \<Rightarrow> string \<Rightarrow> zone option" where
  "LoadLocation tz name = (if name = [] \<or> name = ''UTC'' then Some UTC else tz name)"

definition digit :: "int \<Rightarrow> char" where
  "digit k = ''0123456789'' ! nat (k mod 10)"

definition digit_val :: "char \<Rightarrow> int" where
  "digit_val c = int (of_char c) - 48"

text \<open>\<open>time.Parse("15:04", v)\<close>: the hour has one or two digits, the minute two.\<close>

definition parse_hour :: "string \<Rightarrow> (int \<times> string) option" where
  "parse_hour s = (case s of
      a # b # r \<Rightarrow> if \<not> is_digit a then None else if is_digit b then Some (10 * digit_val a + digit_val b, r) else Some (digit_val a, b # r)
    | [a] \<Rightarrow> if is_digit a then Some (digit_val a, []) else None
    | [] \<Rightarrow> None)"

definition parse_clock :: "string \<Rightarrow> (int \<times> int) option" where
  "parse_clock s = (case parse_hour s of
      Some (h, [c, a, b]) \<Rightarrow> if h < 24 \<and> c = CHR '':'' \<and> is_digit a \<and> is_digit b \<and> 10 * digit_val a + digit_val b < 60
        then Some (h, 10 * digit_val a + digit_val b) else None
    | _ \<Rightarrow> None)"

definition Day :: gotime where
  "Day = 24 * Hour"

definition local_time :: "zone \<Rightarrow> gotime \<Rightarrow> gotime" where
  "local_time z t = t + z t"

text \<open>\<open>t.In(zone).Format("15:04")\<close>.\<close>

definition clock_text :: "zone \<Rightarrow> gotime \<Rightarrow> string" where
  "clock_text z t = (let m = local_time z t mod Day div Minute in
     [digit (m div 60 div 10), digit (m div 60), CHR '':'', digit (m mod 60 div 10), digit (m mod 60)])"

text \<open>\<open>time.Date\<close>: the offset at the local time taken as an instant gives a first guess, and the offset at the guess is
  the one that is used.\<close>

definition of_local :: "zone \<Rightarrow> gotime \<Rightarrow> gotime" where
  "of_local z l = l - z (l - z l)"

text \<open>\<open>t.AddDate(0, 0, 1)\<close>: the same local clock on the next day.\<close>

definition next_day :: "zone \<Rightarrow> gotime \<Rightarrow> gotime" where
  "next_day z t = of_local z (local_time z t + Day)"

section \<open>Quiet hours\<close>

record AttentionPreferences =
  Ap_Timezone :: string
  Ap_QuietStart :: string
  Ap_QuietEnd :: string
  Ap_CriticalBypass :: bool

definition Validate :: "(string \<Rightarrow> zone option) \<Rightarrow> AttentionPreferences \<Rightarrow> err option" where
  "Validate tz p =
     (if LoadLocation tz (Ap_Timezone p) = None then Some (ErrText ''use an IANA timezone such as Europe/Berlin'')
      else if Ap_QuietStart p = [] \<and> Ap_QuietEnd p = [] then None
      else if parse_clock (Ap_QuietStart p) = None \<or> parse_clock (Ap_QuietEnd p) = None then Some (ErrText ''quiet hours must use HH:MM'')
      else if Ap_QuietStart p = Ap_QuietEnd p then Some (ErrText ''quiet hours must have different start and end times'')
      else None)"

definition Quiet :: "(string \<Rightarrow> zone option) \<Rightarrow> AttentionPreferences \<Rightarrow> gotime \<Rightarrow> bool \<Rightarrow> bool" where
  "Quiet tz p now critical =
     (if Ap_QuietStart p = [] \<or> critical \<and> Ap_CriticalBypass p then False
      else case LoadLocation tz (Ap_Timezone p) of None \<Rightarrow> False
        | Some z \<Rightarrow> let v = clock_text z now in
            if Ap_QuietStart p < Ap_QuietEnd p then v \<ge> Ap_QuietStart p \<and> v < Ap_QuietEnd p
            else v \<ge> Ap_QuietStart p \<or> v < Ap_QuietEnd p)"

definition LoadAttentionPreferences :: "string \<Rightarrow> AttentionPreferences store" where
  "LoadAttentionPreferences userID = query (\<lambda>d. case List.find (\<lambda>p. at_user_id p = userID) (t_attention d) of
       None \<Rightarrow> \<lparr>Ap_Timezone = ''UTC'', Ap_QuietStart = [], Ap_QuietEnd = [], Ap_CriticalBypass = False\<rparr>
     | Some p \<Rightarrow> \<lparr>Ap_Timezone = at_timezone p, Ap_QuietStart = at_quiet_start p, Ap_QuietEnd = at_quiet_end p, Ap_CriticalBypass = at_critical_bypass p\<rparr>)"

definition SaveAttentionPreferences :: "(string \<Rightarrow> zone option) \<Rightarrow> string \<Rightarrow> AttentionPreferences \<Rightarrow> unit store" where
  "SaveAttentionPreferences tz userID p = (case Validate tz p of Some e \<Rightarrow> failM e
     | None \<Rightarrow> ignoreM (sql_upsert t_attention t_attention_update chk_attention at_user_id
         \<lparr>at_user_id = userID, at_timezone = Ap_Timezone p, at_quiet_start = Ap_QuietStart p, at_quiet_end = Ap_QuietEnd p, at_critical_bypass = Ap_CriticalBypass p\<rparr>
         (\<lambda>r. r\<lparr>at_timezone := Ap_Timezone p, at_quiet_start := Ap_QuietStart p, at_quiet_end := Ap_QuietEnd p, at_critical_bypass := Ap_CriticalBypass p\<rparr>)))"

section \<open>Schedules\<close>

record WorkflowSchedule =
  Wf_ID :: string
  Wf_UserID :: string
  Wf_Kind :: string
  Wf_Target :: string
  Wf_Config :: string
  Wf_DueAt :: int
  Wf_LeaseToken :: string

text \<open>\<open>ON CONFLICT(user_id,kind,target)\<close>: a new due time ends a lease.\<close>

definition schedule_key :: "schedule_row \<Rightarrow> string \<times> string \<times> string" where
  "schedule_key s = (ws_user_id s, ws_kind s, ws_target s)"

definition put_schedule :: "string \<Rightarrow> string \<Rightarrow> string \<Rightarrow> string \<Rightarrow> int \<Rightarrow> (schedule_row \<Rightarrow> schedule_row) \<Rightarrow> nat store" where
  "put_schedule userID kind target config due change =
     sql_upsert t_schedules t_schedules_update chk_schedules schedule_key
       \<lparr>ws_id = kind @ '':'' @ userID @ '':'' @ target, ws_user_id = userID, ws_kind = kind, ws_target = target, ws_config = config,
        ws_due_at = due, ws_lease_until = 0, ws_lease_token = []\<rparr>
       (\<lambda>s. (change s)\<lparr>ws_due_at := due, ws_lease_until := 0, ws_lease_token := []\<rparr>)"

text \<open>The clock is read twice; the zero time ends a snooze.\<close>

definition Snooze :: "User \<Rightarrow> string \<Rightarrow> gotime option \<Rightarrow> gotime \<Rightarrow> gotime \<Rightarrow> unit store" where
  "Snooze user i until now1 now2 =
     bindM (CanReadNotification i user) (\<lambda>allowed.
     bindM (requireM allowed ErrForbidden) (\<lambda>_.
     bindM (requireM (case until of None \<Rightarrow> True | Some u \<Rightarrow> \<not> (\<not> u > now1 \<or> u > now2 + 30 * 24 * Hour)) (ErrText ''snooze must end within the next 30 days'')) (\<lambda>_.
     tx (case until of
           None \<Rightarrow>
             bindM (sql_delete t_snoozes t_snoozes_update (\<lambda>_ s. sn_user_id s = User_ID user \<and> sn_notification_id s = i)) (\<lambda>_.
             bindM (sql_delete t_schedules t_schedules_update (\<lambda>_ s. ws_user_id s = User_ID user \<and> ws_kind s = ''snooze'' \<and> ws_target s = i)) (\<lambda>_.
             returnM (Commit ())))
         | Some u \<Rightarrow>
             bindM (sql_upsert t_snoozes t_snoozes_update chk_snoozes (\<lambda>s. (sn_user_id s, sn_notification_id s))
                      \<lparr>sn_user_id = User_ID user, sn_notification_id = i, sn_until_at = UnixMilli u\<rparr> (\<lambda>s. s\<lparr>sn_until_at := UnixMilli u\<rparr>)) (\<lambda>_.
             bindM (put_schedule (User_ID user) ''snooze'' i ''{}'' (UnixMilli u) id) (\<lambda>_.
             returnM (Commit ())))))))"

text \<open>A reason comes with an error when access is lost; the operation itself ends in every case.\<close>

definition DeliveryReason :: "(string \<Rightarrow> zone option) \<Rightarrow> User \<Rightarrow> Notification \<Rightarrow> gotime \<Rightarrow> (string \<times> err option) store" where
  "DeliveryReason tz user n now =
     tryM (ChannelNotificationPreference user (Nt_ChannelID n)) (\<lambda>r. case r of
       Inl e \<Rightarrow> returnM (''access_revoked'', Some e)
     | Inr level \<Rightarrow>
         let severity = str_field ''severity'' (members_of (Nt_Card n)) [] in
         if level = ''muted'' then returnM (''channel_muted'', None)
         else if level = ''critical'' \<and> severity \<noteq> ''critical'' then returnM (''critical_only'', None)
         else
           tryM (query (\<lambda>d. exists_where (\<lambda>s. sn_user_id s = User_ID user \<and> sn_notification_id s = Nt_ID n \<and> sn_until_at s > UnixMilli now) (t_snoozes d))) (\<lambda>r. case r of
             Inl e \<Rightarrow> returnM ([], Some e)
           | Inr snoozed \<Rightarrow>
               if snoozed then returnM (''snoozed'', None)
               else tryM (LoadAttentionPreferences (User_ID user)) (\<lambda>r. case r of
                 Inl e \<Rightarrow> returnM ([], Some e)
               | Inr p \<Rightarrow> returnM (if Quiet tz p now (severity = ''critical'') then ''quiet_hours'' else ''eligible'', None))))"

definition candidate_of :: "schedule_row \<Rightarrow> WorkflowSchedule" where
  "candidate_of s = \<lparr>Wf_ID = ws_id s, Wf_UserID = ws_user_id s, Wf_Kind = ws_kind s, Wf_Target = ws_target s, Wf_Config = ws_config s, Wf_DueAt = ws_due_at s, Wf_LeaseToken = []\<rparr>"

text \<open>Leasing one candidate, unless its due time or lease has changed; a lease holds for five minutes.\<close>

definition lease_schedule :: "gotime \<Rightarrow> WorkflowSchedule \<Rightarrow> string \<Rightarrow> nat store" where
  "lease_schedule now v token =
     sql_update t_schedules t_schedules_update (\<lambda>_ s. ws_id s = Wf_ID v \<and> ws_due_at s = Wf_DueAt v \<and> ws_lease_until s < UnixMilli now)
       (\<lambda>s. s\<lparr>ws_lease_until := UnixMilli (now + 5 * Minute), ws_lease_token := token\<rparr>)"

definition claim_candidates :: "gotime \<Rightarrow> WorkflowSchedule list store" where
  "claim_candidates now = query (\<lambda>d. map candidate_of (take 50 (sort_key ws_due_at
     (filter (\<lambda>s. ws_due_at s \<le> UnixMilli now \<and> ws_lease_until s < UnixMilli now) (t_schedules d)))))"

definition lease_next :: "gotime \<Rightarrow> 64 word \<Rightarrow> WorkflowSchedule \<Rightarrow> WorkflowSchedule list \<Rightarrow> WorkflowSchedule list store" where
  "lease_next now rnd v claimed =
     (let v = v\<lparr>Wf_LeaseToken := newID ''lease_'' now rnd\<rparr> in
      bindM (lease_schedule now v (Wf_LeaseToken v)) (\<lambda>count.
      returnM (if count = 1 then claimed @ [v] else claimed)))"

definition ClaimSchedules :: "gotime \<Rightarrow> (nat \<Rightarrow> 64 word) \<Rightarrow> WorkflowSchedule list store" where
  "ClaimSchedules now rnd =
     bindM (claim_candidates now) (\<lambda>candidates. foldM (\<lambda>(k, v). lease_next now (rnd k) v) (enumerate 0 candidates) [])"

definition FinishSchedule :: "WorkflowSchedule \<Rightarrow> gotime option \<Rightarrow> unit store" where
  "FinishSchedule v next = (case next of
      None \<Rightarrow> ignoreM (sql_delete t_schedules t_schedules_update (\<lambda>_ s. ws_id s = Wf_ID v \<and> ws_lease_token s = Wf_LeaseToken v))
    | Some n \<Rightarrow> ignoreM (sql_update t_schedules t_schedules_update (\<lambda>_ s. ws_id s = Wf_ID v \<and> ws_lease_token s = Wf_LeaseToken v)
        (\<lambda>s. s\<lparr>ws_due_at := UnixMilli n, ws_lease_until := 0, ws_lease_token := []\<rparr>)))"

definition WorkflowUser :: "string \<Rightarrow> User store" where
  "WorkflowUser i = bindM (query (\<lambda>d. map_option (\<lambda>u. \<lparr>User_ID = u_id u, User_Username = u_username u, User_IsAdmin = u_is_admin u\<rparr>)
     (List.find (\<lambda>u. u_id u = i \<and> u_disabled_at u = None) (t_users d)))) (rowM ErrNoRows)"

definition UserSchedules :: "string \<Rightarrow> WorkflowSchedule list store" where
  "UserSchedules userID = query (\<lambda>d. map (\<lambda>s. (candidate_of s)\<lparr>Wf_UserID := []\<rparr>) (sort_key ws_due_at (filter (\<lambda>s. ws_user_id s = userID) (t_schedules d))))"

section \<open>Attention alerts\<close>

record AttentionAlert =
  Aa_ID :: string
  Aa_Target :: string
  Aa_Kind :: string
  Aa_Title :: string
  Aa_Body :: string

definition SaveAttentionAlert :: "WorkflowSchedule \<Rightarrow> string \<Rightarrow> string \<Rightarrow> gotime \<Rightarrow> bool store" where
  "SaveAttentionAlert job title body now =
     bindM (sql_insert_ignore t_alerts t_alerts_update chk_alerts al_id
              \<lparr>al_id = ''attention:'' @ Wf_ID job @ '':'' @ show_int (Wf_DueAt job), al_user_id = Wf_UserID job, al_target = Wf_Target job, al_kind = Wf_Kind job,
               al_title = title, al_body = body, al_created_at = UnixMilli now\<rparr>) (\<lambda>count.
     returnM (count = 1))"

definition FindAttentionAlert :: "string \<Rightarrow> string \<Rightarrow> AttentionAlert store" where
  "FindAttentionAlert userID i = bindM (query (\<lambda>d. map_option
     (\<lambda>a. \<lparr>Aa_ID = al_id a, Aa_Target = al_target a, Aa_Kind = al_kind a, Aa_Title = al_title a, Aa_Body = al_body a\<rparr>)
     (List.find (\<lambda>a. al_id a = i \<and> al_user_id a = userID) (t_alerts d)))) (rowM ErrNoRows)"

section \<open>Saved views\<close>

text \<open>A slice may be nil.\<close>

record SavedView =
  Sv_ID :: string
  Sv_Name :: string
  Sv_Channels :: "string list option"
  Sv_Search :: string
  Sv_State :: string
  Sv_Severity :: string
  Sv_Unread :: bool

text \<open>Decoding a definition over a view; a value of the wrong type is an error.\<close>

fun decode_strings :: "json list \<Rightarrow> string list \<Rightarrow> string list" where
  "decode_strings [] old = []"
| "decode_strings (v # vs) old = (case v of JStr x \<Rightarrow> x | _ \<Rightarrow> (case old of [] \<Rightarrow> [] | x # _ \<Rightarrow> x)) # decode_strings vs (tl old)"

definition strings_field :: "string \<Rightarrow> (string \<times> json) list \<Rightarrow> string list option \<Rightarrow> string list option" where
  "strings_field f = fold (\<lambda>(k, v) old. if matches f k then (case v of JArr vs \<Rightarrow> Some (decode_strings vs (case old of None \<Rightarrow> [] | Some xs \<Rightarrow> xs)) | _ \<Rightarrow> None) else old)"

definition bool_field :: "string \<Rightarrow> (string \<times> json) list \<Rightarrow> bool \<Rightarrow> bool" where
  "bool_field f = fold (\<lambda>(k, v) b. if matches f k then (case v of JBool x \<Rightarrow> x | _ \<Rightarrow> b) else b)"

definition view_typed :: "(string \<times> json) list \<Rightarrow> bool" where
  "view_typed ms \<longleftrightarrow> list_all (\<lambda>f. str_typed f ms) [''id'', ''name'', ''q'', ''state'', ''severity''] \<and>
     list_all (\<lambda>(k, v). (matches ''channels'' k \<longrightarrow> (case v of JNull \<Rightarrow> True | JArr vs \<Rightarrow> list_all (\<lambda>x. case x of JStr _ \<Rightarrow> True | JNull \<Rightarrow> True | _ \<Rightarrow> False) vs | _ \<Rightarrow> False)) \<and>
       (matches ''unread'' k \<longrightarrow> (case v of JNull \<Rightarrow> True | JBool _ \<Rightarrow> True | _ \<Rightarrow> False))) ms"

definition decode_view :: "string \<Rightarrow> SavedView \<Rightarrow> SavedView option" where
  "decode_view raw view = (if \<not> struct_ok raw \<or> \<not> view_typed (members_of raw) then None
     else let ms = members_of raw in Some \<lparr>Sv_ID = str_field ''id'' ms (Sv_ID view), Sv_Name = str_field ''name'' ms (Sv_Name view),
       Sv_Channels = strings_field ''channels'' ms (Sv_Channels view), Sv_Search = str_field ''q'' ms (Sv_Search view), Sv_State = str_field ''state'' ms (Sv_State view),
       Sv_Severity = str_field ''severity'' ms (Sv_Severity view), Sv_Unread = bool_field ''unread'' ms (Sv_Unread view)\<rparr>)"

definition encode_view :: "SavedView \<Rightarrow> json" where
  "encode_view v = JObj ([(''id'', JStr (Sv_ID v)), (''name'', JStr (Sv_Name v)),
     (''channels'', case Sv_Channels v of None \<Rightarrow> JNull | Some cs \<Rightarrow> JArr (map JStr cs))] @
     (if Sv_Search v = [] then [] else [(''q'', JStr (Sv_Search v))]) @
     (if Sv_State v = [] then [] else [(''state'', JStr (Sv_State v))]) @
     (if Sv_Severity v = [] then [] else [(''severity'', JStr (Sv_Severity v))]) @ [(''unread'', JBool (Sv_Unread v))])"

definition invalid_json :: err where
  "invalid_json = ErrText ''json''"

definition ListSavedViews :: "string \<Rightarrow> SavedView list store" where
  "ListSavedViews userID =
     bindM (query (\<lambda>d. map (\<lambda>v. decode_view (v_definition v) \<lparr>Sv_ID = v_id v, Sv_Name = v_name v, Sv_Channels = None, Sv_Search = [], Sv_State = [], Sv_Severity = [], Sv_Unread = False\<rparr>)
       (sort_key (\<lambda>v. (nocase (v_name v), v_id v)) (filter (\<lambda>v. v_user_id v = userID) (t_views d))))) (\<lambda>views.
     foldM (\<lambda>v vs. bindM (rowM invalid_json v) (\<lambda>view. returnM (vs @ [view]))) views [])"

definition SaveSavedView :: "string \<Rightarrow> SavedView \<Rightarrow> gotime \<Rightarrow> 64 word \<Rightarrow> SavedView store" where
  "SaveSavedView userID view now rnd =
     (let view = view\<lparr>Sv_Name := TrimSpace (Sv_Name view)\<rparr> in
      bindM (if Sv_ID view \<noteq> [] then returnM view
             else bindM (query (\<lambda>d. List.find (\<lambda>v. v_user_id v = userID \<and> v_name v = Sv_Name view) (t_views d))) (\<lambda>r.
                  returnM (view\<lparr>Sv_ID := (case r of Some v \<Rightarrow> if v_id v = [] then newID ''viw_'' now rnd else v_id v | None \<Rightarrow> newID ''viw_'' now rnd)\<rparr>))) (\<lambda>view.
      tryM (sql_upsert t_views t_views_update chk_views (\<lambda>v. (v_user_id v, v_name v))
              \<lparr>v_id = Sv_ID view, v_user_id = userID, v_name = Sv_Name view, v_definition = Marshal (encode_view view), v_created_at = UnixMilli now, v_updated_at = UnixMilli now\<rparr>
              (\<lambda>v. v\<lparr>v_definition := Marshal (encode_view view), v_updated_at := UnixMilli now\<rparr>)) (\<lambda>r. case r of
        Inl e \<Rightarrow> failM (if IsAlreadyExists e then ErrAlreadyExists else e)
      | Inr _ \<Rightarrow> returnM view)))"

text \<open>The digests of a view are deleted with it.\<close>

definition DeleteSavedView :: "string \<Rightarrow> string \<Rightarrow> unit store" where
  "DeleteSavedView userID i =
     bindM (stmt (\<lambda>d. let gone = (\<lambda>v. v_id v = i \<and> v_user_id v = userID) in
       Inr (count_where gone (t_views d), if exists_where gone (t_views d)
         then t_digests_update (del_where (\<lambda>g. dg_view_id g = i)) (t_views_update (del_where gone) d) else d))) (\<lambda>count.
     requireM (count \<noteq> 0) ErrNoRows)"

section \<open>Digests\<close>

record DigestConfig =
  Dc_Time :: string
  Dc_Timezone :: string

definition Next :: "(string \<Rightarrow> zone option) \<Rightarrow> DigestConfig \<Rightarrow> gotime \<Rightarrow> err + gotime" where
  "Next tz c now = (case LoadLocation tz (Dc_Timezone c) of
      None \<Rightarrow> Inl (ErrText ''invalid timezone'')
    | Some z \<Rightarrow> (case parse_clock (Dc_Time c) of
        None \<Rightarrow> Inl (ErrText ''digest time must use HH:MM'')
      | Some (h, m) \<Rightarrow>
          let l = local_time z now; next = of_local z (l - l mod Day + h * Hour + m * Minute) in
          Inr (if \<not> next > now then next_day z next else next)))"

definition encode_config :: "DigestConfig \<Rightarrow> string" where
  "encode_config c = Marshal (JObj [(''time'', JStr (Dc_Time c)), (''timezone'', JStr (Dc_Timezone c))])"

definition SaveDigest :: "(string \<Rightarrow> zone option) \<Rightarrow> string \<Rightarrow> string \<Rightarrow> DigestConfig \<Rightarrow> gotime \<Rightarrow> unit store" where
  "SaveDigest tz userID viewID c now =
     bindM (query (\<lambda>d. exists_where (\<lambda>v. v_id v = viewID \<and> v_user_id v = userID) (t_views d))) (\<lambda>known.
     bindM (requireM known ErrForbidden) (\<lambda>_.
     if Dc_Time c = []
     then ignoreM (sql_delete t_schedules t_schedules_update (\<lambda>_ s. ws_user_id s = userID \<and> ws_kind s = ''digest'' \<and> ws_target s = viewID))
     else case Next tz c now of Inl e \<Rightarrow> failM e
       | Inr next \<Rightarrow> ignoreM (put_schedule userID ''digest'' viewID (encode_config c) (UnixMilli next) (\<lambda>s. s\<lparr>ws_config := encode_config c\<rparr>))))"

record DigestEntry =
  De_ID :: string
  De_ViewID :: string
  De_Title :: string
  De_Count :: int
  De_CreatedAt :: int

definition digest_query :: "User \<Rightarrow> SavedView \<Rightarrow> NotificationQuery" where
  "digest_query u view =
     (let q = empty_query\<lparr>Nq_UserID := User_ID u, Nq_UserAdmin := User_IsAdmin u, Nq_Channels := (case Sv_Channels view of None \<Rightarrow> [] | Some cs \<Rightarrow> cs),
                Nq_Search := Sv_Search view, Nq_State := Sv_State view, Nq_Severity := Sv_Severity view, Nq_UnreadOnly := Sv_Unread view, Nq_Limit := 201, Nq_OrderByUpdated := True\<rparr> in
      if Nq_State q = ''dismissed'' then q\<lparr>Nq_State := [], Nq_DismissedOnly := True\<rparr> else q)"

text \<open>The loop over the pages of a digest, with a bound on their number; the result is absent when the bound is reached.\<close>

fun count_digest :: "(string \<Rightarrow> string option) \<Rightarrow> nat \<Rightarrow> NotificationQuery \<Rightarrow> gotime \<Rightarrow> nat \<Rightarrow> nat option store" where
  "count_digest severity 0 q now count = returnM None"
| "count_digest severity (Suc n) q now count =
     bindM (QueryNotifications severity q) (\<lambda>values.
     let recent = takeWhile (\<lambda>v. \<not> Nt_UpdatedAt v < now - 24 * Hour) values; stop = (length recent < length values); count = count + length recent in
     if stop \<or> len values < 201 then returnM (Some count)
     else count_digest severity n (q\<lparr>Nq_BeforeAt := UnixMilli (Nt_UpdatedAt (last values)), Nq_BeforeID := Nt_ID (last values)\<rparr>) now count)"

definition CreateDigest :: "(string \<Rightarrow> string option) \<Rightarrow> nat \<Rightarrow> WorkflowSchedule \<Rightarrow> gotime \<Rightarrow> DigestEntry option store" where
  "CreateDigest severity fuel v now =
     bindM (WorkflowUser (Wf_UserID v)) (\<lambda>u.
     bindM (ListSavedViews (User_ID u)) (\<lambda>views.
     bindM (rowM ErrNoRows (List.find (\<lambda>x. Sv_ID x = Wf_Target v) views)) (\<lambda>view.
     bindM (count_digest severity fuel (digest_query u view) now 0) (\<lambda>r. case r of
       None \<Rightarrow> returnM None
     | Some count \<Rightarrow>
         let e = \<lparr>De_ID = Wf_ID v @ '':'' @ show_int (Wf_DueAt v), De_ViewID = Sv_ID view, De_Title = Sv_Name view, De_Count = int count, De_CreatedAt = UnixMilli now\<rparr> in
         bindM (sql_insert_ignore t_digests t_digests_update chk_digests dg_id
                  \<lparr>dg_id = De_ID e, dg_user_id = User_ID u, dg_view_id = De_ViewID e, dg_title = De_Title e, dg_count = De_Count e, dg_created_at = De_CreatedAt e\<rparr>) (\<lambda>_.
         returnM (Some e))))))"

definition Digests :: "string \<Rightarrow> DigestEntry list store" where
  "Digests userID = query (\<lambda>d. map (\<lambda>g. \<lparr>De_ID = dg_id g, De_ViewID = dg_view_id g, De_Title = dg_title g, De_Count = dg_count g, De_CreatedAt = dg_created_at g\<rparr>)
     (take 30 (sort_desc dg_created_at (filter (\<lambda>g. dg_user_id g = userID) (t_digests d)))))"

section \<open>The next digest\<close>

lemma digit_val_range: "is_digit c \<Longrightarrow> 0 \<le> digit_val c \<and> digit_val c \<le> 9"
  by (auto simp: is_digit_def digit_val_def)

lemma parse_clock_range: "parse_clock s = Some (h, m) \<Longrightarrow> 0 \<le> h \<and> h < 24 \<and> 0 \<le> m \<and> m < 60"
  by (auto simp: parse_clock_def parse_hour_def split: option.splits list.splits if_splits dest!: digit_val_range)

lemma clock_in_day: "0 \<le> h \<Longrightarrow> h < 24 \<Longrightarrow> 0 \<le> m \<Longrightarrow> m < 60 \<Longrightarrow> 0 \<le> h * Hour + m * Minute \<and> h * Hour + m * Minute < Day"
  by (simp add: Day_def Hour_def Minute_def Second_def)

lemma next_fixed:
  fixes l :: int
  assumes "0 \<le> c" "c < Day" "n = l - l mod Day + c"
  shows "n \<le> l \<longrightarrow> l < n + Day \<and> n + Day \<le> l + Day" and "l < n \<longrightarrow> n \<le> l + Day" and "n mod Day = c" and "(n + Day) mod Day = c"
proof -
  have d: "0 \<le> l mod Day" "l mod Day < Day" by (simp_all add: Day_def Hour_def Minute_def Second_def)
  then show "n \<le> l \<longrightarrow> l < n + Day \<and> n + Day \<le> l + Day" "l < n \<longrightarrow> n \<le> l + Day" using assms by (linarith, linarith)
  have "n = Day * (l div Day) + c" using assms(3) by (simp add: minus_mod_eq_mult_div [symmetric])
  then show m: "n mod Day = c" using assms(1,2) by simp
  then show "(n + Day) mod Day = c" by simp
qed

text \<open>C29: the next digest.  In a zone with a fixed offset, a digest time that is accepted yields the first instant after
  the present at which the local clock shows it: strictly later, at most a day away, and at that time of the local day.\<close>

theorem next_digest:
  assumes "LoadLocation tz (Dc_Timezone c) = Some z" and "\<And>t. z t = offset" and "parse_clock (Dc_Time c) = Some (h, m)"
  shows "\<exists>t. Next tz c now = Inr t \<and> now < t \<and> t \<le> now + Day \<and> local_time z t mod Day = h * Hour + m * Minute"
proof -
  let ?c = "h * Hour + m * Minute" and ?l = "now + offset"
  define n where "n = ?l - ?l mod Day + ?c"
  have c: "0 \<le> ?c" "?c < Day" using clock_in_day parse_clock_range [OF assms(3)] by auto
  note f = next_fixed [OF c n_def]
  have r: "Next tz c now = Inr (if n \<le> ?l then n - offset + Day else n - offset)"
    using assms by (auto simp: Next_def of_local_def next_day_def local_time_def Let_def n_def not_less algebra_simps)
  have "local_time z (n - offset) mod Day = ?c" "local_time z (n - offset + Day) mod Day = ?c"
    using f(3,4) by (simp_all add: local_time_def assms(2) add.commute)
  with r f(1,2) show ?thesis by (cases "n \<le> ?l") auto
qed

theorem next_digest_witness:
  "\<exists>t. Next (\<lambda>_. None) \<lparr>Dc_Time = ''9:30'', Dc_Timezone = ''UTC''\<rparr> 5 = Inr t \<and> 5 < t \<and> t \<le> 5 + Day \<and> local_time UTC t mod Day = 9 * Hour + 30 * Minute"
proof -
  let ?c = "\<lparr>Dc_Time = ''9:30'', Dc_Timezone = ''UTC''\<rparr>"
  have "LoadLocation (\<lambda>_. None) (Dc_Timezone ?c) = Some UTC" by (simp add: LoadLocation_def)
  moreover have "UTC t = 0" for t by (simp add: UTC_def)
  moreover have "parse_clock (Dc_Time ?c) = Some (9, 30)" by code_simp
  ultimately show ?thesis by (rule next_digest)
qed

text \<open>In a zone west of Greenwich whose clocks skip the hour after midnight, the digest of that hour is put into the past:
  the first guess lies on the evening before, and the day is added to that evening.\<close>

definition skipping :: zone where
  "skipping t = (if t < 3 * Hour then - 3 * Hour else - 2 * Hour)"

lemma next_in_the_past: "Next (\<lambda>_. Some skipping) \<lparr>Dc_Time = ''00:00'', Dc_Timezone = ''America/Sao_Paulo''\<rparr> (25 * Hour + 30 * Minute) = Inr (25 * Hour)"
  by code_simp

section \<open>Leases of schedules\<close>

text \<open>Several nodes claim at once.  The statements of a claim, one SELECT and then one guarded UPDATE per candidate, are
  separate steps, and between two steps of one node any other node may take its own.  A node remembers the time of its claim, the candidates that
  are left and the schedules it has claimed; a claim that meets an error ends with nothing.  The log has the leases granted, the
  schedules finished, and the schedules whose row was rewritten or removed from outside, as a new snooze or digest time does.\<close>

type_synonym claim = "gotime \<times> WorkflowSchedule list \<times> WorkflowSchedule list"

datatype lease_event =
    Granted gotime WorkflowSchedule
  | LeaseFinished WorkflowSchedule
  | Rewritten "string list"

record cluster =
  Cl_World :: "db world"
  Cl_Claims :: "nat \<Rightarrow> claim"
  Cl_Log :: "lease_event list"

datatype cluster_step =
    SelectDue nat gotime
  | LeaseNext nat "64 word"
  | FinishLease WorkflowSchedule "gotime option"
  | Outside "db world"

definition rewritten :: "db \<Rightarrow> db \<Rightarrow> string list" where
  "rewritten d d' = map ws_id (filter (\<lambda>s. s \<notin> set (t_schedules d')) (t_schedules d))"

fun cluster_exec :: "cluster_step \<Rightarrow> cluster \<Rightarrow> cluster" where
  "cluster_exec (SelectDue n now) c =
     (case claim_candidates now (Cl_World c) of (r, w) \<Rightarrow>
        c\<lparr>Cl_World := w, Cl_Claims := (Cl_Claims c)(n := (now, (case r of Inl _ \<Rightarrow> [] | Inr candidates \<Rightarrow> candidates), []))\<rparr>)"
| "cluster_exec (LeaseNext n rnd) c =
     (case Cl_Claims c n of
        (now, [], claimed) \<Rightarrow> c
      | (now, v # todo, claimed) \<Rightarrow>
          (case lease_next now rnd v claimed (Cl_World c) of
             (Inl _, w) \<Rightarrow> c\<lparr>Cl_World := w, Cl_Claims := (Cl_Claims c)(n := (now, [], []))\<rparr>
           | (Inr claimed', w) \<Rightarrow> c\<lparr>Cl_World := w, Cl_Claims := (Cl_Claims c)(n := (now, todo, claimed')),
               Cl_Log := map (Granted now) (drop (length claimed) claimed') @ Cl_Log c\<rparr>))"
| "cluster_exec (FinishLease v next) c =
     (case FinishSchedule v next (Cl_World c) of
        (Inl _, w) \<Rightarrow> c\<lparr>Cl_World := w\<rparr>
      | (Inr _, w) \<Rightarrow> c\<lparr>Cl_World := w, Cl_Log := LeaseFinished v # Cl_Log c\<rparr>)"
| "cluster_exec (Outside w) c =
     (if keyed ws_id (t_schedules (wdb w))
      then c\<lparr>Cl_World := w, Cl_Log := Rewritten (rewritten (wdb (Cl_World c)) (wdb w)) # Cl_Log c\<rparr> else c)"

definition cluster_start :: "db world \<Rightarrow> cluster" where
  "cluster_start w = \<lparr>Cl_World = w, Cl_Claims = (\<lambda>_. (0, [], [])), Cl_Log = []\<rparr>"

text \<open>Who holds a schedule: the latest lease, until it is finished under its token or the row is rewritten.\<close>

fun holder :: "string \<Rightarrow> lease_event list \<Rightarrow> (gotime \<times> WorkflowSchedule) option" where
  "holder i [] = None"
| "holder i (Granted t v # log) = (if Wf_ID v = i then Some (t, v) else holder i log)"
| "holder i (LeaseFinished f # log) =
     (case holder i log of None \<Rightarrow> None
      | Some (t, v) \<Rightarrow> if Wf_ID f = i \<and> Wf_LeaseToken f = Wf_LeaseToken v then None else Some (t, v))"
| "holder i (Rewritten is # log) = (if i \<in> set is then None else holder i log)"

fun spaced :: "lease_event list \<Rightarrow> bool" where
  "spaced [] \<longleftrightarrow> True"
| "spaced (Granted t v # log) \<longleftrightarrow>
     (case holder (Wf_ID v) log of None \<Rightarrow> True | Some (t', _) \<Rightarrow> UnixMilli (t' + 5 * Minute) < UnixMilli t) \<and> spaced log"
| "spaced (_ # log) \<longleftrightarrow> spaced log"

lemma spaced_append: "spaced (newer @ older) \<Longrightarrow> spaced older"
  by (induction newer rule: spaced.induct) auto

definition leased :: "gotime \<Rightarrow> WorkflowSchedule \<Rightarrow> db \<Rightarrow> bool" where
  "leased now v d \<longleftrightarrow> (\<exists>s \<in> set (t_schedules d). ws_id s = Wf_ID v \<and> ws_lease_token s = Wf_LeaseToken v \<and> ws_lease_until s = UnixMilli (now + 5 * Minute))"

definition leases_ok :: "lease_event list \<Rightarrow> db \<Rightarrow> bool" where
  "leases_ok log d \<longleftrightarrow> keyed ws_id (t_schedules d) \<and> spaced log \<and>
     (\<forall>i t v. holder i log = Some (t, v) \<longrightarrow> Wf_ID v = i \<and> leased t v d)"

lemma leases_okI:
  assumes "keyed ws_id (t_schedules d)" and "spaced log" and "\<And>i t v. holder i log = Some (t, v) \<Longrightarrow> Wf_ID v = i \<and> leased t v d"
  shows "leases_ok log d"
  using assms by (auto simp: leases_ok_def)

lemma leased_kept:
  assumes "leased t v d" and "\<And>s. s \<in> set (t_schedules d) \<Longrightarrow> ws_id s = Wf_ID v \<Longrightarrow> ws_lease_token s = Wf_LeaseToken v \<Longrightarrow> s \<in> set (t_schedules d')"
  shows "leased t v d'"
  using assms unfolding leased_def by blast

lemma leases_okD: "leases_ok log d \<Longrightarrow> holder i log = Some (t, v) \<Longrightarrow> Wf_ID v = i \<and> leased t v d"
  by (simp add: leases_ok_def)

definition lease_update :: "gotime \<Rightarrow> WorkflowSchedule \<Rightarrow> db \<Rightarrow> db" where
  "lease_update now v = (\<lambda>d. t_schedules_update (upd_where (\<lambda>s. ws_id s = Wf_ID v \<and> ws_due_at s = Wf_DueAt v \<and> ws_lease_until s < UnixMilli now)
     (\<lambda>s. s\<lparr>ws_lease_until := UnixMilli (now + 5 * Minute), ws_lease_token := Wf_LeaseToken v\<rparr>)) d)"

text \<open>An UPDATE that changes one row leases it, and the row was free; the leases of other schedules stay.\<close>

lemma lease_granted:
  assumes ok: "leases_ok log d"
    and "count_where (\<lambda>s. ws_id s = Wf_ID v \<and> ws_due_at s = Wf_DueAt v \<and> ws_lease_until s < UnixMilli now) (t_schedules d) = 1"
  shows "leases_ok (Granted now v # log) (lease_update now v d)"
proof (rule leases_okI)
  from assms(2) have "0 < count_where (\<lambda>s. ws_id s = Wf_ID v \<and> ws_due_at s = Wf_DueAt v \<and> ws_lease_until s < UnixMilli now) (t_schedules d)" by simp
  then obtain s where s: "s \<in> set (t_schedules d)" "ws_id s = Wf_ID v" "ws_due_at s = Wf_DueAt v" "ws_lease_until s < UnixMilli now"
    unfolding count_where_pos by blast
  have key: "keyed ws_id (t_schedules d)" using ok by (simp add: leases_ok_def)
  then show "keyed ws_id (t_schedules (lease_update now v d))" by (simp add: lease_update_def keyed_upd_where)
  have "UnixMilli (t' + 5 * Minute) < UnixMilli now" if "holder (Wf_ID v) log = Some (t', v')" for t' v'
  proof -
    from ok that obtain r where "r \<in> set (t_schedules d)" "ws_id r = Wf_ID v" "ws_lease_until r = UnixMilli (t' + 5 * Minute)"
      by (fastforce simp: leases_ok_def leased_def)
    with s key show ?thesis by (metis keyed_unique)
  qed
  then show "spaced (Granted now v # log)" using ok by (auto simp: leases_ok_def split: option.splits)
  have "leased now v (lease_update now v d)" using s unfolding leased_def lease_update_def by (auto simp: bex_upd_where intro!: bexI [of _ s])
  moreover have "leased t x (lease_update now v d)" if "Wf_ID x \<noteq> Wf_ID v" "leased t x d" for t x
    using that by (intro leased_kept [OF that(2)]) (auto simp: lease_update_def upd_where_def)
  ultimately show "Wf_ID x = i \<and> leased t x (lease_update now v d)" if "holder i (Granted now v # log) = Some (t, x)" for i t x
    using that ok by (auto simp: leases_ok_def split: if_splits)
qed

lemma lease_missed:
  assumes "leases_ok log d"
    and "count_where (\<lambda>s. ws_id s = Wf_ID v \<and> ws_due_at s = Wf_DueAt v \<and> ws_lease_until s < UnixMilli now) (t_schedules d) \<noteq> 1"
  shows "leases_ok log (lease_update now v d)"
proof -
  have "count_where (\<lambda>s. ws_id s = Wf_ID v \<and> ws_due_at s = Wf_DueAt v \<and> ws_lease_until s < UnixMilli now) (t_schedules d) \<le> 1"
    using assms(1) by (intro keyed_count_le) (simp add: leases_ok_def)
  with assms(2) have "count_where (\<lambda>s. ws_id s = Wf_ID v \<and> ws_due_at s = Wf_DueAt v \<and> ws_lease_until s < UnixMilli now) (t_schedules d) = 0" by linarith
  then have "t_schedules (lease_update now v d) = t_schedules d" unfolding lease_update_def by (auto intro: upd_where_none)
  then have same: "leased t x (lease_update now v d) = leased t x d" for t x by (simp add: leased_def)
  with \<open>t_schedules (lease_update now v d) = t_schedules d\<close> assms(1) show ?thesis unfolding leases_ok_def by simp
qed

lemma sat_lease_next:
  assumes "leases_ok log d"
  shows "sat (lease_next now rnd v claimed) d (\<lambda>r d'. case r of Inl e \<Rightarrow> leases_ok log d'
    | Inr claimed' \<Rightarrow> take (length claimed) claimed' = claimed \<and> leases_ok (map (Granted now) (drop (length claimed) claimed') @ log) d')"
proof -
  define x where "x = v\<lparr>Wf_LeaseToken := newID ''lease_'' now rnd\<rparr>"
  note steps = lease_granted [OF assms, of x now] lease_missed [OF assms, of x now]
  show ?thesis
    unfolding lease_next_def lease_schedule_def x_def [symmetric] Let_def
    by (intro sat_intro) (use steps assms in \<open>auto intro!: sat_intro simp: lease_update_def\<close>)
qed

lemma sat_FinishSchedule:
  assumes ok: "leases_ok log d"
  shows "sat (FinishSchedule v next) d (\<lambda>r d'. leases_ok (case r of Inl _ \<Rightarrow> log | Inr _ \<Rightarrow> LeaseFinished v # log) d')"
proof -
  let ?P = "\<lambda>s. ws_id s = Wf_ID v \<and> ws_lease_token s = Wf_LeaseToken v"
  have fin: "leases_ok (LeaseFinished v # log) d'"
    if "keyed ws_id (t_schedules d')" "\<And>s. s \<in> set (t_schedules d) \<Longrightarrow> \<not> ?P s \<Longrightarrow> s \<in> set (t_schedules d')" for d'
  proof (rule leases_okI)
    show "Wf_ID x = i \<and> leased t x d'" if h: "holder i (LeaseFinished v # log) = Some (t, x)" for i t x
    proof -
      from h have "holder i log = Some (t, x)" and no: "\<not> (Wf_ID v = i \<and> Wf_LeaseToken v = Wf_LeaseToken x)" by (auto split: option.splits if_splits)
      from leases_okD [OF ok this(1)] no show ?thesis by (auto intro!: leased_kept [of t x d] \<open>\<And>s. s \<in> set (t_schedules d) \<Longrightarrow> \<not> ?P s \<Longrightarrow> s \<in> set (t_schedules d')\<close>)
    qed
  qed (use ok that in \<open>simp_all add: leases_ok_def\<close>)
  have "leases_ok (LeaseFinished v # log) (t_schedules_update (del_where ?P) d)"
    using ok by (intro fin) (auto simp: leases_ok_def keyed_del_where)
  moreover have "leases_ok (LeaseFinished v # log) (t_schedules_update (upd_where ?P f) d)" if "\<And>s. ws_id (f s) = ws_id s" for f
    using ok that by (intro fin) (auto simp: leases_ok_def keyed_upd_where set_upd_where image_iff)
  ultimately show ?thesis
    unfolding FinishSchedule_def ignoreM_def using ok by (cases "next"; simp only: option.case) (intro sat_intro; auto intro!: sat_intro)+
qed

text \<open>The invariant of the cluster: the leases are in order, and what a node has claimed was granted to it.\<close>

definition cluster_ok :: "cluster \<Rightarrow> bool" where
  "cluster_ok c \<longleftrightarrow> leases_ok (Cl_Log c) (wdb (Cl_World c)) \<and>
     (\<forall>n now todo claimed. Cl_Claims c n = (now, todo, claimed) \<longrightarrow> (\<forall>v \<in> set claimed. Granted now v \<in> set (Cl_Log c)))"

lemma cluster_exec_ok:
  assumes ok: "cluster_ok c"
  shows "cluster_ok (cluster_exec step c)"
proof (cases step)
  case (SelectDue n now)
  obtain r w where q: "claim_candidates now (Cl_World c) = (r, w)" by fastforce
  have "sat (claim_candidates now) (wdb (Cl_World c)) (\<lambda>r d'. d' = wdb (Cl_World c))" unfolding claim_candidates_def by (intro sat_intro) auto
  from satD [OF this q] ok q SelectDue show ?thesis by (auto simp: cluster_ok_def)
next
  case (LeaseNext n rnd)
  obtain now todo claimed where cl: "Cl_Claims c n = (now, todo, claimed)" using prod_cases3 by blast
  show ?thesis
  proof (cases todo)
    case Nil
    with ok LeaseNext cl show ?thesis by simp
  next
    case (Cons v rest)
    obtain r w where q: "lease_next now rnd v claimed (Cl_World c) = (r, w)" by fastforce
    have "leases_ok (Cl_Log c) (wdb (Cl_World c))" using ok by (simp add: cluster_ok_def)
    note step = satD [OF sat_lease_next [OF this] q]
    show ?thesis
    proof (cases r)
      case (Inl e)
      with step ok LeaseNext cl Cons q show ?thesis by (auto simp: cluster_ok_def)
    next
      case (Inr claimed')
      with step have "take (length claimed) claimed' = claimed" by simp
      then have "set claimed' = set claimed \<union> set (drop (length claimed) claimed')"
        using append_take_drop_id [of "length claimed" claimed'] by (simp flip: set_append)
      with Inr step ok LeaseNext cl Cons q show ?thesis by (auto simp: cluster_ok_def)
    qed
  qed
next
  case (FinishLease v next_at)
  obtain r w where q: "FinishSchedule v next_at (Cl_World c) = (r, w)" by fastforce
  have "leases_ok (Cl_Log c) (wdb (Cl_World c))" using ok by (simp add: cluster_ok_def)
  from satD [OF sat_FinishSchedule [OF this] q] ok q FinishLease show ?thesis by (cases r) (auto simp: cluster_ok_def)
next
  case (Outside w)
  let ?d = "wdb (Cl_World c)"
  have kept: "s \<in> set (t_schedules (wdb w))" if "s \<in> set (t_schedules ?d)" "ws_id s \<notin> set (rewritten ?d (wdb w))" for s
    using that by (auto simp: rewritten_def)
  have "leases_ok (Rewritten (rewritten ?d (wdb w)) # Cl_Log c) (wdb w)" if "keyed ws_id (t_schedules (wdb w))"
  proof (rule leases_okI)
    show "Wf_ID x = i \<and> leased t x (wdb w)" if h: "holder i (Rewritten (rewritten ?d (wdb w)) # Cl_Log c) = Some (t, x)" for i t x
    proof -
      from h have "holder i (Cl_Log c) = Some (t, x)" "i \<notin> set (rewritten ?d (wdb w))" by (auto split: if_splits)
      with ok have "Wf_ID x = i" "leased t x ?d" by (auto simp: cluster_ok_def dest: leases_okD)
      with \<open>i \<notin> _\<close> show ?thesis by (auto intro!: leased_kept [of t x ?d] kept)
    qed
  qed (use ok that in \<open>simp_all add: cluster_ok_def leases_ok_def\<close>)
  with ok Outside show ?thesis by (auto simp: cluster_ok_def)
qed

lemma cluster_run_ok:
  assumes "keyed ws_id (t_schedules (wdb w))"
  shows "cluster_ok (fold cluster_exec steps (cluster_start w))"
proof -
  have "cluster_ok (cluster_start w)" using assms by (simp add: cluster_ok_def cluster_start_def leases_ok_def)
  moreover have "cluster_ok (fold cluster_exec steps c)" if "cluster_ok c" for c
    using that by (induction steps arbitrary: c) (auto intro: cluster_exec_ok)
  ultimately show ?thesis by blast
qed

text \<open>C30: exclusive schedules.  Several nodes claim and finish schedules, their statements interleaved in any way, with clocks of their own and any engine faults, while users rewrite
  or remove schedules.  Every schedule a node claims was leased to it.  Whoever got the last lease of a schedule has its token and its five minutes in the table, until the lease is
  finished under that token or the row is rewritten from outside; and until then nobody else gets a lease of it before the five minutes have passed.\<close>

theorem schedule_leased_once:
  assumes "keyed ws_id (t_schedules (wdb w))" and "c = fold cluster_exec steps (cluster_start w)"
  shows "(\<forall>i t v. holder i (Cl_Log c) = Some (t, v) \<longrightarrow> leased t v (wdb (Cl_World c))) \<and>
    (\<forall>newer older now x t v. Cl_Log c = newer @ Granted now x # older \<and> holder (Wf_ID x) older = Some (t, v) \<longrightarrow> UnixMilli (t + 5 * Minute) < UnixMilli now) \<and>
    (\<forall>n now todo claimed x. Cl_Claims c n = (now, todo, claimed) \<and> x \<in> set claimed \<longrightarrow> Granted now x \<in> set (Cl_Log c))"
proof -
  have ok: "cluster_ok c" unfolding assms(2) using assms(1) by (rule cluster_run_ok)
  then have s: "spaced (Cl_Log c)" by (simp add: cluster_ok_def leases_ok_def)
  have "UnixMilli (t + 5 * Minute) < UnixMilli now" if "Cl_Log c = newer @ Granted now x # older" "holder (Wf_ID x) older = Some (t, v)" for newer older now x t v
    using spaced_append [OF s [unfolded that(1)]] that(2) by simp
  with ok show ?thesis unfolding cluster_ok_def leases_ok_def by blast
qed

definition due_schedule :: "string \<Rightarrow> schedule_row" where
  "due_schedule i = \<lparr>ws_id = i, ws_user_id = ''u2'', ws_kind = ''snooze'', ws_target = i, ws_config = ''{}'', ws_due_at = 1, ws_lease_until = 0, ws_lease_token = []\<rparr>"

definition schedule_db :: db where
  "schedule_db = reader_db\<lparr>t_schedules := [due_schedule ''s1'', due_schedule ''s2'']\<rparr>"

text \<open>Two nodes select the same schedules before either has leased one: each schedule goes to the node that is first.  Six minutes later a third node takes over the first.\<close>

definition race :: "cluster_step list" where
  "race = [SelectDue 0 Second, SelectDue 1 (2 * Second), LeaseNext 0 7, LeaseNext 1 8, LeaseNext 1 9, LeaseNext 0 10, SelectDue 2 (6 * Minute), LeaseNext 2 11]"

definition raced :: cluster where
  "raced = fold cluster_exec race (cluster_start (up schedule_db))"

lemma race_claims: "map (\<lambda>n. map Wf_ID (snd (snd (Cl_Claims raced n)))) [0, 1, 2] = [[''s1''], [''s2''], [''s1'']]"
  by code_simp

theorem schedule_leased_once_witness:
  "\<exists>t v. holder ''s1'' (Cl_Log raced) = Some (t, v) \<and> t = 6 * Minute \<and> leased t v (wdb (Cl_World raced))"
proof -
  have "keyed ws_id (t_schedules (wdb (up schedule_db)))" by code_simp
  from schedule_leased_once [OF this raced_def]
  have h: "holder ''s1'' (Cl_Log raced) = Some (t, v) \<Longrightarrow> leased t v (wdb (Cl_World raced))" for t v by blast
  have "map_option fst (holder ''s1'' (Cl_Log raced)) = Some (6 * Minute)" by code_simp
  then obtain t v where "holder ''s1'' (Cl_Log raced) = Some (t, v)" "t = 6 * Minute" by auto
  with h show ?thesis by blast
qed

text \<open>A claim that no other node interrupts is \<open>ClaimSchedules\<close>.\<close>

lemma lease_rest:
  assumes "foldM (\<lambda>(k, v). lease_next now (rnd k) v) (enumerate k todo) claimed w = (Inr vs, w')"
  shows "\<exists>log. fold cluster_exec (map (\<lambda>k. LeaseNext n (rnd k)) [k..<k + length todo]) \<lparr>Cl_World = w, Cl_Claims = claims(n := (now, todo, claimed)), Cl_Log = log0\<rparr> =
     \<lparr>Cl_World = w', Cl_Claims = claims(n := (now, [], vs)), Cl_Log = log\<rparr>"
  using assms
proof (induction todo arbitrary: k claimed w log0)
  case Nil
  then show ?case by (simp add: returnM_def)
next
  case (Cons v todo)
  obtain r w1 where q: "lease_next now (rnd k) v claimed w = (r, w1)" by fastforce
  with Cons.prems obtain claimed' where r: "r = Inr claimed'" and rest: "foldM (\<lambda>(k, v). lease_next now (rnd k) v) (enumerate (Suc k) todo) claimed' w1 = (Inr vs, w')"
    by (cases r) (auto simp: bindM_def)
  have steps: "[k..<k + length (v # todo)] = k # [Suc k..<Suc k + length todo]" by (simp add: upt_conv_Cons del: upt_Suc)
  have "cluster_exec (LeaseNext n (rnd k)) \<lparr>Cl_World = w, Cl_Claims = claims(n := (now, v # todo, claimed)), Cl_Log = log0\<rparr> =
      \<lparr>Cl_World = w1, Cl_Claims = claims(n := (now, todo, claimed')), Cl_Log = map (Granted now) (drop (length claimed) claimed') @ log0\<rparr>"
    by (simp add: q r)
  with Cons.IH [OF rest, of "map (Granted now) (drop (length claimed) claimed') @ log0"] show ?case unfolding steps by (simp del: cluster_exec.simps fun_upd_apply)
qed

lemma uninterrupted_claim:
  assumes "ClaimSchedules now rnd w = (Inr vs, w')"
  shows "\<exists>k c. c = fold cluster_exec (SelectDue n now # map (\<lambda>j. LeaseNext n (rnd j)) [0..<k]) (cluster_start w) \<and> Cl_World c = w' \<and> Cl_Claims c n = (now, [], vs)"
proof -
  obtain r w1 where q: "claim_candidates now w = (r, w1)" by fastforce
  with assms obtain todo where r: "r = Inr todo" and rest: "foldM (\<lambda>(k, v). lease_next now (rnd k) v) (enumerate 0 todo) [] w1 = (Inr vs, w')"
    by (cases r) (auto simp: ClaimSchedules_def bindM_def)
  from lease_rest [OF rest, of n "\<lambda>_. (0, [], [])" "[]"] q r show ?thesis
    by (intro exI [of _ "length todo"]) (auto simp: cluster_start_def simp del: fun_upd_apply, simp)
qed

section \<open>What a digest counts\<close>

lemma takeWhile_filter:
  assumes "sorted_wrt (\<lambda>x y. P y \<longrightarrow> P x) xs"
  shows "takeWhile P xs = filter P xs"
  using assms
proof (induction xs)
  case (Cons x xs)
  then show ?case by (auto simp: filter_empty_conv)
qed simp

lemma takeWhile_take_shorter: "length (takeWhile P (take k xs)) < length (take k xs) \<Longrightarrow> takeWhile P (take k xs) = takeWhile P xs"
  by (induction xs arbitrary: k) (auto simp: take_Cons split: nat.splits if_splits)

lemma takeWhile_take_all: "length (takeWhile P (take k xs)) = length (take k xs) \<Longrightarrow> takeWhile P xs = take k xs @ takeWhile P (drop k xs)"
  by (induction xs arbitrary: k) (auto simp: take_Cons drop_Cons split: nat.splits if_splits)

text \<open>The pages of a query from a cursor on.\<close>

abbreviation "row_key \<equiv> \<lambda>nc :: notification_row \<times> channel_row. (n_updated_at (fst nc), n_id (fst nc))"

lemma selected_cursor:
  "Nq_OrderByUpdated q \<Longrightarrow> Nq_BeforeAt q = 0 \<Longrightarrow> selected severity (q\<lparr>Nq_BeforeAt := a, Nq_BeforeID := i\<rparr>) d nc \<longleftrightarrow> selected severity q d nc \<and> after_cursor a i (row_key nc)"
  by (cases nc) (simp add: selected_def order_key_def after_cursor_def)

lemma QueryNotifications_page:
  assumes "Nq_OrderByUpdated q" "Nq_BeforeAt q = 0" "Nq_Limit q = 201"
  shows "QueryNotifications severity (q\<lparr>Nq_BeforeAt := a, Nq_BeforeID := i\<rparr>) (up d) =
    (Inr (map (view_of q d) (take 201 (filter (after_cursor a i \<circ> row_key) (sort_desc row_key (filter (selected severity q d) (joined d)))))), up d)"
proof -
  let ?q = "q\<lparr>Nq_BeforeAt := a, Nq_BeforeID := i\<rparr>"
  have "order_key ?q \<circ> fst = row_key" using assms(1) by (simp add: order_key_def fun_eq_iff)
  moreover have "view_of ?q d = view_of q d" by (rule view_of_cong) simp_all
  moreover have "filter (selected severity ?q d) (joined d) = filter (after_cursor a i \<circ> row_key) (filter (selected severity q d) (joined d))"
    unfolding filter_filter using selected_cursor [OF assms(1,2)] by (intro filter_cong) (auto simp: comp_def)
  ultimately show ?thesis
    unfolding QueryNotifications_def query_up filter_sort_desc using assms(3) by (simp add: query_limit_def)
qed

definition recent :: "gotime \<Rightarrow> notification_row \<times> channel_row \<Rightarrow> bool" where
  "recent now nc \<longleftrightarrow> \<not> OfUnixMilli (n_updated_at (fst nc)) < now - 24 * Hour"

lemma count_digest_from:
  assumes q: "Nq_OrderByUpdated q" "Nq_BeforeAt q = 0" "Nq_Limit q = 201" and later: "24 * Hour < now"
    and S: "S = sort_desc row_key (filter (selected severity q d) (joined d))"
    and sorted: "sorted_wrt (\<lambda>x y. row_key y < row_key x) S" and ids: "\<And>nc. nc \<in> set S \<Longrightarrow> n_id (fst nc) \<noteq> []"
  shows "S = P @ R \<Longrightarrow> filter (after_cursor a i \<circ> row_key) S = R \<Longrightarrow> length R < n \<Longrightarrow>
    count_digest severity n (q\<lparr>Nq_BeforeAt := a, Nq_BeforeID := i\<rparr>) now k (up d) = (Inr (Some (k + length (takeWhile (recent now) R))), up d)"
proof (induction n arbitrary: P R a i k)
  case (Suc n)
  let ?v = "view_of q d"
  have page: "QueryNotifications severity (q\<lparr>Nq_BeforeAt := a, Nq_BeforeID := i\<rparr>) (up d) = (Inr (map ?v (take 201 R)), up d)"
    using QueryNotifications_page [OF q, where severity = severity and a = a and i = i and d = d] Suc.prems(2) unfolding S [symmetric] by simp
  have rec: "takeWhile (\<lambda>v. \<not> Nt_UpdatedAt v < now - 24 * Hour) (map ?v xs) = map ?v (takeWhile (recent now) xs)" for xs
    by (simp add: takeWhile_map comp_def recent_def [abs_def] view_of_def case_prod_beta Let_def)
  let ?w = "takeWhile (recent now) (take 201 R)"
  show ?case
  proof (cases "length ?w < length (take 201 R) \<or> length R < 201")
    case True
    then have "?w = takeWhile (recent now) R" using takeWhile_take_shorter [of "recent now" 201 R] by force
    with True page show ?thesis by (auto simp: bindM_ok [where m = "QueryNotifications _ _"] rec Let_def len_def returnM_def)
  next
    case False
    then have all: "length ?w = length (take 201 R)" and long: "201 \<le> length R" using length_takeWhile_le [of "recent now" "take 201 R"] by linarith+
    define x where "x = last (take 201 R)"
    have ne: "take 201 R \<noteq> []" using long by auto
    then have split: "S = (P @ butlast (take 201 R)) @ x # drop 201 R"
      using Suc.prems(1) by (metis append_Cons append_Nil append_assoc append_butlast_last_id append_take_drop_id x_def)
    have "?w = take 201 R" using all takeWhile_eq_take [of "recent now" "take 201 R"] by (metis order_refl take_all)
    then have "x \<in> set ?w" using ne unfolding x_def by (metis last_in_set)
    then have "recent now x" by (auto dest: set_takeWhileD)
    then have pos: "0 < n_updated_at (fst x)" using later by (auto simp: recent_def OfUnixMilli_def)
    have xid: "n_id (fst x) \<noteq> []" using ids split by simp
    have "filter (after_cursor (n_updated_at (fst x)) (n_id (fst x)) \<circ> row_key) S = filter (\<lambda>nc. row_key nc < row_key x) S"
      using pos xid by (intro filter_cong) (auto simp: after_cursor_def)
    also have "\<dots> = drop 201 R" using filter_after [of row_key "P @ butlast (take 201 R)" x "drop 201 R"] sorted split by simp
    finally have "count_digest severity n (q\<lparr>Nq_BeforeAt := n_updated_at (fst x), Nq_BeforeID := n_id (fst x)\<rparr>) now (k + 201) (up d) =
        (Inr (Some (k + 201 + length (takeWhile (recent now) (drop 201 R)))), up d)"
      by (rule Suc.IH [of "P @ take 201 R", rotated]) (use Suc.prems(1,3) long in auto)
    moreover have "UnixMilli (Nt_UpdatedAt (?v x)) = n_updated_at (fst x)" "Nt_ID (?v x) = n_id (fst x)"
      by (simp_all add: view_of_def case_prod_beta Let_def)
    moreover have "last (map ?v (take 201 R)) = ?v x" using ne by (simp add: last_map x_def)
    moreover have "length (takeWhile (recent now) R) = 201 + length (takeWhile (recent now) (drop 201 R))"
      using takeWhile_take_all [OF all] long by (simp add: min_def)
    ultimately show ?thesis using page False all long by (simp add: bindM_ok [where m = "QueryNotifications _ _"] rec Let_def len_def min_def)
  qed
qed simp
lemma joined_notifications: "map fst (joined d) = filter (\<lambda>n. List.find (\<lambda>c. c_id c = n_channel_id n) (t_channels d) \<noteq> None) (t_notifications d)"
proof -
  have "map fst (concat (map (\<lambda>n. case List.find (\<lambda>c. c_id c = n_channel_id n) (t_channels d) of None \<Rightarrow> [] | Some c \<Rightarrow> [(n, c)]) ns)) =
      filter (\<lambda>n. List.find (\<lambda>c. c_id c = n_channel_id n) (t_channels d) \<noteq> None) ns" for ns
    by (induction ns) (auto split: option.split)
  then show ?thesis by (simp add: joined_def)
qed

lemma joined_keyed:
  assumes "keyed n_id (t_notifications d)"
  shows "distinct (map row_key (sort_desc row_key (filter P (joined d))))"
proof -
  have "distinct (map n_id (map fst (joined d)))" unfolding joined_notifications using assms by (simp add: keyed_def distinct_map_filter)
  then have "distinct (map (n_id \<circ> fst) (filter P (joined d)))" by (simp add: distinct_map_filter)
  then have "inj_on (n_id \<circ> fst) (set (filter P (joined d)))" and d: "distinct (filter P (joined d))" unfolding distinct_map by auto
  then have "inj_on row_key (set (filter P (joined d)))" by (auto simp: inj_on_def)
  with d show ?thesis by (simp add: distinct_map sort_desc_def)
qed

lemma digest_query_plain: "Nq_OrderByUpdated (digest_query u view)" "Nq_BeforeAt (digest_query u view) = 0" "Nq_BeforeID (digest_query u view) = []" "Nq_Limit (digest_query u view) = 201"
  by (simp_all add: digest_query_def Let_def empty_query_def)

lemma count_digest_all:
  assumes "24 * Hour < now" "keyed n_id (t_notifications d)" "list_all (\<lambda>n. n_id n \<noteq> []) (t_notifications d)" "length (t_notifications d) < n"
  shows "count_digest severity n (digest_query u view) now 0 (up d) =
    (Inr (Some (count_where (\<lambda>nc. selected severity (digest_query u view) d nc \<and> recent now nc) (joined d))), up d)"
proof -
  let ?q = "digest_query u view"
  define S where "S = sort_desc row_key (filter (selected severity ?q d) (joined d))"
  have strict: "sorted_wrt (\<lambda>x y. row_key y < row_key x) S" unfolding S_def by (rule strictly_sorted [OF sorted_sort_desc joined_keyed [OF assms(2)]])
  have ids: "n_id (fst nc) \<noteq> []" if "nc \<in> set S" for nc
    using that assms(3) joined_in [of "fst nc" "snd nc" d] by (auto simp: S_def list_all_iff)
  have "length (joined d) \<le> length (t_notifications d)" using arg_cong [OF joined_notifications [of d], of length] by simp
  then have len: "length S < n" using assms(4) length_filter_le [of "selected severity ?q d" "joined d"] unfolding S_def length_sort_desc by linarith
  have same: "?q\<lparr>Nq_BeforeAt := 0, Nq_BeforeID := []\<rparr> = ?q" using digest_query_plain(2,3) [of u view] by (cases ?q) simp
  have "sorted_wrt (\<lambda>x y. recent now y \<longrightarrow> recent now x) S"
    by (rule sorted_wrt_mono_rel [OF _ strict]) (auto simp: recent_def OfUnixMilli_def)
  then have "takeWhile (recent now) S = sort_desc row_key (filter (recent now) (filter (selected severity ?q d) (joined d)))"
    by (simp add: takeWhile_filter S_def filter_sort_desc)
  then have "length (takeWhile (recent now) S) = count_where (\<lambda>nc. selected severity ?q d nc \<and> recent now nc) (joined d)"
    by (simp add: count_where_def conj_commute)
  moreover have "filter (after_cursor 0 [] \<circ> row_key) S = S" by (simp add: after_cursor_def)
  ultimately show ?thesis
    using count_digest_from [OF digest_query_plain(1,2,4) assms(1) S_def strict ids, where P = "[]" and R = S and a = 0 and i = "[]" and n = n and k = 0] len same by simp
qed

lemma WorkflowUser_up: "\<exists>r. WorkflowUser i (up d) = (r, up d)"
  unfolding WorkflowUser_def bindM_ok [where m = "query _", OF query_up]
  by (cases "List.find (\<lambda>u. u_id u = i \<and> u_disabled_at u = None) (t_users d)") (simp_all add: returnM_def failM_def)

lemma rows_up: "\<exists>r. foldM (\<lambda>v vs. bindM (rowM e v) (\<lambda>x. returnM (vs @ [x]))) xs b w = (r, w)"
proof (induction xs arbitrary: b)
  case (Cons x xs)
  then show ?case by (cases x) (simp_all add: bindM_def failM_def returnM_def)
qed (simp add: returnM_def)

lemma ListSavedViews_up: "\<exists>r. ListSavedViews i (up d) = (r, up d)"
  unfolding ListSavedViews_def bindM_ok [where m = "query _", OF query_up] by (rule rows_up)

text \<open>C31: what a digest counts.  When notifications have distinct identifiers and the clock is past the first day of the
  epoch, a digest that is created ends its loop over the pages within one round per notification and one more, and counts exactly the
  notifications that the saved view selects for its owner and that were updated within the last day.\<close>

theorem digest_counts:
  assumes "CreateDigest severity fuel v now (up d) = (Inr r, w')" and "length (t_notifications d) < fuel" and "24 * Hour < now"
    and "keyed n_id (t_notifications d)" and "list_all (\<lambda>n. n_id n \<noteq> []) (t_notifications d)"
  shows "\<exists>e u views view. r = Some e \<and> WorkflowUser (Wf_UserID v) (up d) = (Inr u, up d) \<and> ListSavedViews (User_ID u) (up d) = (Inr views, up d) \<and>
    view \<in> set views \<and> Sv_ID view = Wf_Target v \<and>
    De_Count e = int (count_where (\<lambda>nc. selected severity (digest_query u view) d nc \<and> recent now nc) (joined d))"
proof -
  from WorkflowUser_up obtain ru where u: "WorkflowUser (Wf_UserID v) (up d) = (ru, up d)" by blast
  with assms(1) obtain u where ru: "ru = Inr u" by (cases ru) (auto simp: CreateDigest_def bindM_def)
  from ListSavedViews_up obtain rv where vs: "ListSavedViews (User_ID u) (up d) = (rv, up d)" by blast
  with assms(1) u ru obtain views where rv: "rv = Inr views" by (cases rv) (auto simp: CreateDigest_def bindM_def)
  show ?thesis
  proof (cases "List.find (\<lambda>x. Sv_ID x = Wf_Target v) views")
    case None
    with assms(1) u ru vs rv show ?thesis by (simp add: CreateDigest_def bindM_def failM_def)
  next
    case (Some view)
    with assms(1) u ru vs rv have "\<exists>e. r = Some e \<and> De_Count e = int (count_where (\<lambda>nc. selected severity (digest_query u view) d nc \<and> recent now nc) (joined d))"
      by (auto simp: CreateDigest_def bindM_def returnM_def count_digest_all [OF assms(3-5,2)] Let_def split: prod.splits sum.splits)
    with find_SomeD [OF Some] u ru vs rv show ?thesis by blast
  qed
qed

definition digest_db :: db where
  "digest_db = reader_db\<lparr>t_views := [\<lparr>v_id = ''v1'', v_user_id = ''u2'', v_name = ''all'', v_definition = ''{}'', v_created_at = 0, v_updated_at = 0\<rparr>],
     t_notifications := [plain_notification ''n1'' ''c1'' ''firing'' ''k''\<lparr>n_updated_at := 86400001\<rparr>, plain_notification ''n2'' ''c1'' ''firing'' ''l'']\<rparr>"

definition digest_job :: WorkflowSchedule where
  "digest_job = \<lparr>Wf_ID = ''digest:u2:v1'', Wf_UserID = ''u2'', Wf_Kind = ''digest'', Wf_Target = ''v1'', Wf_Config = ''{}'', Wf_DueAt = 86400001, Wf_LeaseToken = []\<rparr>"

definition all_view :: SavedView where
  "all_view = \<lparr>Sv_ID = ''v1'', Sv_Name = ''all'', Sv_Channels = None, Sv_Search = [], Sv_State = [], Sv_Severity = [], Sv_Unread = False\<rparr>"

theorem digest_counts_witness:
  "\<exists>e u views view. fst (CreateDigest (\<lambda>_. None) 3 digest_job (Day + Hour) (up digest_db)) = Inr (Some e) \<and> WorkflowUser ''u2'' (up digest_db) = (Inr u, up digest_db) \<and>
    ListSavedViews (User_ID u) (up digest_db) = (Inr views, up digest_db) \<and> view \<in> set views \<and> Sv_ID view = ''v1'' \<and>
    De_Count e = int (count_where (\<lambda>nc. selected (\<lambda>_. None) (digest_query u view) digest_db nc \<and> recent (Day + Hour) nc) (joined digest_db))"
proof -
  define run where "run = CreateDigest (\<lambda>_. None) 3 digest_job (Day + Hour) (up digest_db)"
  have pre: "length (t_notifications digest_db) < 3" "24 * Hour < Day + Hour" "keyed n_id (t_notifications digest_db)" "list_all (\<lambda>n. n_id n \<noteq> []) (t_notifications digest_db)"
    by code_simp+
  have u: "WorkflowUser ''u2'' (up digest_db) = (Inr reader, up digest_db)"
    by (simp add: WorkflowUser_def sql_simps digest_db_def reader_db_def demo_user_def reader_def)
  have "fst (ListSavedViews ''u2'' (up digest_db)) = Inr [all_view]" by code_simp
  moreover from ListSavedViews_up obtain rv where "ListSavedViews ''u2'' (up digest_db) = (rv, up digest_db)" by blast
  ultimately have vs: "ListSavedViews ''u2'' (up digest_db) = (Inr [all_view], up digest_db)" by simp
  have ids: "Wf_UserID digest_job = ''u2''" "Wf_Target digest_job = ''v1''" "User_ID reader = ''u2''" "Sv_ID all_view = ''v1''"
    by (simp_all add: digest_job_def reader_def all_view_def)
  have "chk_digests digest_db \<lparr>dg_id = a, dg_user_id = ''u2'', dg_view_id = ''v1'', dg_title = b, dg_count = c, dg_created_at = e\<rparr> = None" for a b c e
    by (simp add: chk_digests_def digest_db_def reader_db_def empty_db_def demo_user_def)
  moreover have "t_digests digest_db = []" by (simp add: digest_db_def reader_db_def empty_db_def)
  ultimately have "\<exists>r. fst run = Inr r"
    by (simp add: run_def CreateDigest_def ids u vs bindM_def count_digest_all [OF pre(2-4,1)] sql_insert_ignore_def stmt_def returnM_def Let_def)
  then obtain r where r: "run = (Inr r, snd run)" by (metis prod.collapse)
  then have 1: "CreateDigest (\<lambda>_. None) 3 digest_job (Day + Hour) (up digest_db) = (Inr r, snd run)" by (simp only: run_def [symmetric])
  from digest_counts [OF 1 pre] obtain e u views view where e: "r = Some e" "WorkflowUser (Wf_UserID digest_job) (up digest_db) = (Inr u, up digest_db)"
    "ListSavedViews (User_ID u) (up digest_db) = (Inr views, up digest_db)" "view \<in> set views" "Sv_ID view = Wf_Target digest_job"
    "De_Count e = int (count_where (\<lambda>nc. selected (\<lambda>_. None) (digest_query u view) digest_db nc \<and> recent (Day + Hour) nc) (joined digest_db))" by blast
  have "fst run = Inr (Some e)" using r e(1) by (metis fst_conv)
  then show ?thesis unfolding run_def [symmetric] using e(2-6) ids(1,2) by (intro exI [of _ e] exI [of _ u] exI [of _ views] exI [of _ view]) simp
qed

end
