(* ===== verification/Monitors.thy ===== *)
theory Monitors
  imports Workflows
begin

text \<open>
  Producer monitors, delivery records and desktop arrivals, in \<open>internal/store/monitors.go\<close>, \<open>delivery.go\<close> and
  \<open>desktop_alerts.go\<close>: the heartbeat deadlines of producers, the alert that a missed deadline raises and the one that
  resolves it, who is subscribed to pushes and what was delivered.  SHA-256 is an argument.
\<close>

section \<open>Producer monitors\<close>

record ProducerMonitor =
  Pm_ID :: string
  Pm_ChannelID :: string
  Pm_Name :: string
  Pm_Source :: string
  Pm_PeriodSeconds :: int
  Pm_GraceSeconds :: int
  Pm_Daily :: DigestConfig
  Pm_LastSeen :: int
  Pm_State :: string
  Pm_NotificationID :: string

text \<open>A daily time that cannot be evaluated falls back to the period.\<close>

definition Deadline :: "(string \<Rightarrow> zone option) \<Rightarrow> ProducerMonitor \<Rightarrow> gotime" where
  "Deadline tz m = (let lastSeen = OfUnixMilli (Pm_LastSeen m); period = lastSeen + (Pm_PeriodSeconds m + Pm_GraceSeconds m) * Second in
     if Dc_Time (Pm_Daily m) \<noteq> [] then (case Next tz (Pm_Daily m) lastSeen of Inr next \<Rightarrow> next + Pm_GraceSeconds m * Second | Inl _ \<Rightarrow> period)
     else period)"

definition monitor_valid :: "ProducerMonitor \<Rightarrow> bool" where
  "monitor_valid m \<longleftrightarrow> \<not> (Pm_Name m = [] \<or> Pm_Source m = [] \<or> len (Pm_Name m) > 100 \<or> len (Pm_Source m) > 100 \<or> Pm_PeriodSeconds m < 60 \<or>
     Pm_PeriodSeconds m > 31 * 86400 \<or> Pm_GraceSeconds m < 0 \<or> Pm_GraceSeconds m > 7 * 86400)"

text \<open>The clock is read three times: for the daily time, for the identifier and for the first heartbeat.\<close>

definition SaveMonitor :: "(string \<Rightarrow> zone option) \<Rightarrow> User \<Rightarrow> ProducerMonitor \<Rightarrow> gotime \<Rightarrow> gotime \<Rightarrow> gotime \<Rightarrow> 64 word \<Rightarrow> ProducerMonitor store" where
  "SaveMonitor tz user m now1 now2 now3 rnd =
     bindM (requireM (User_IsAdmin user) ErrForbidden) (\<lambda>_.
     bindM (RequireChannelOperator user (Pm_ChannelID m)) (\<lambda>_.
     let m = m\<lparr>Pm_Name := TrimSpace (Pm_Name m), Pm_Source := TrimSpace (Pm_Source m)\<rparr> in
     bindM (requireM (monitor_valid m) (ErrText ''name, source, interval of 60 seconds to 31 days and grace of 0 to 7 days required'')) (\<lambda>_.
     bindM (if Dc_Time (Pm_Daily m) = [] then returnM () else case Next tz (Pm_Daily m) now1 of Inl e \<Rightarrow> failM e | Inr _ \<Rightarrow> returnM ()) (\<lambda>_.
     let m = m\<lparr>Pm_ID := newID ''mon_'' now2 rnd, Pm_LastSeen := UnixMilli now3, Pm_State := ''healthy''\<rparr> in
     bindM (sql_insert t_monitors_update chk_monitors
              \<lparr>pm_id = Pm_ID m, pm_channel_id = Pm_ChannelID m, pm_name = Pm_Name m, pm_source = Pm_Source m, pm_period_seconds = Pm_PeriodSeconds m,
               pm_grace_seconds = Pm_GraceSeconds m, pm_daily_json = encode_config (Pm_Daily m), pm_last_seen = Pm_LastSeen m, pm_state = Pm_State m, pm_notification_id = []\<rparr>) (\<lambda>_.
     returnM m)))))"

definition decode_config :: "string \<Rightarrow> DigestConfig option" where
  "decode_config raw = (let ms = members_of raw in
     if struct_ok raw \<and> str_typed ''time'' ms \<and> str_typed ''timezone'' ms
     then Some \<lparr>Dc_Time = str_field ''time'' ms [], Dc_Timezone = str_field ''timezone'' ms []\<rparr> else None)"

definition monitor_of :: "monitor_row \<Rightarrow> ProducerMonitor option" where
  "monitor_of r = map_option (\<lambda>c. \<lparr>Pm_ID = pm_id r, Pm_ChannelID = pm_channel_id r, Pm_Name = pm_name r, Pm_Source = pm_source r, Pm_PeriodSeconds = pm_period_seconds r,
     Pm_GraceSeconds = pm_grace_seconds r, Pm_Daily = c, Pm_LastSeen = pm_last_seen r, Pm_State = pm_state r, Pm_NotificationID = pm_notification_id r\<rparr>)
     (decode_config (pm_daily_json r))"

definition Monitors :: "User \<Rightarrow> ProducerMonitor list store" where
  "Monitors user =
     bindM (requireM (User_IsAdmin user) ErrForbidden) (\<lambda>_.
     bindM (query (\<lambda>d. those (map monitor_of (sort_key (\<lambda>r. (pm_name r, pm_id r)) (t_monitors d))))) (rowM invalid_json))"

definition DeleteMonitor :: "User \<Rightarrow> string \<Rightarrow> unit store" where
  "DeleteMonitor user i =
     bindM (requireM (User_IsAdmin user) ErrForbidden) (\<lambda>_.
     ignoreM (sql_delete t_monitors t_monitors_update (\<lambda>_ r. pm_id r = i)))"

section \<open>Transitions\<close>

text \<open>The alert of a monitor, and the notification that says the producer is back: lifecycle state, severity and text.\<close>

definition monitor_message :: "string \<Rightarrow> string \<Rightarrow> string \<times> string \<times> string" where
  "monitor_message source state =
     (if state = ''healthy'' then (''resolved'', ''success'', ''Notifications from '' @ source @ '' have resumed.'')
      else (''firing'', ''warning'', ''Expected notification from '' @ source @ '' did not arrive before its deadline.''))"

definition alert_id :: "string \<Rightarrow> string" where
  "alert_id i = ''ntf_'' @ i"

text \<open>The keys of a map are encoded in alphabetical order.\<close>

definition monitor_card :: "ProducerMonitor \<Rightarrow> string \<Rightarrow> string \<Rightarrow> string" where
  "monitor_card m severity text' = Marshal (JObj [(''severity'', JStr severity), (''source'', JStr ''Tintwire monitor''), (''summary'', JStr text'), (''title'', JStr (Pm_Name m)),
     (''version'', JNum ''1'')])"

definition monitor_notification :: "ProducerMonitor \<Rightarrow> string \<Rightarrow> string \<Rightarrow> string \<Rightarrow> gotime \<Rightarrow> notification_row" where
  "monitor_notification m lifecycle text' raw now =
     \<lparr>n_id = alert_id (Pm_ID m), n_channel_id = Pm_ChannelID m, n_webhook_id = ''whk_'' @ Pm_ID m, n_text = text', n_username = ''Tintwire monitor'', n_icon_url = [],
      n_attachments = ''[]'', n_raw_payload = raw, n_created_at = UnixMilli now, n_external_key = [], n_state = lifecycle, n_updated_at = UnixMilli now, n_card = raw,
      n_agent_id = None, n_agent_run_id = None\<rparr>"

text \<open>The part of the transaction that follows the exchange of the state: a webhook that is revoked from the start, the notification and its event.\<close>

definition raise_alert :: "(string \<Rightarrow> string) \<Rightarrow> ProducerMonitor \<Rightarrow> string \<Rightarrow> gotime \<Rightarrow> 64 word \<Rightarrow> string fin store" where
  "raise_alert sha256 m state now rnd =
     (let nid = alert_id (Pm_ID m) in
      bindM (sql_insert_ignore t_webhooks t_webhooks_update chk_webhooks w_id
               \<lparr>w_id = ''whk_'' @ Pm_ID m, w_token_hash = sha256 (''internal-monitor:'' @ Pm_ID m), w_channel_id = Pm_ChannelID m, w_created_at = UnixMilli now, w_kind = ''monitor'',
                w_revoked_at = Some (UnixMilli now)\<rparr>) (\<lambda>_.
      case monitor_message (Pm_Source m) state of (lifecycle, severity, text') \<Rightarrow>
      let raw = monitor_card m severity text' in
      bindM (sql_upsert t_notifications t_notifications_update chk_notifications n_id (monitor_notification m lifecycle text' raw now)
               (\<lambda>n. n\<lparr>n_text := text', n_raw_payload := raw, n_updated_at := UnixMilli now, n_state := lifecycle, n_card := raw\<rparr>)) (\<lambda>_.
      bindM (whenM (lifecycle = ''firing'') (ignoreM (sql_delete t_user_state t_user_state_update (\<lambda>_ s. us_notification_id s = nid)))) (\<lambda>_.
      bindM (insertNotificationEvent nid lifecycle raw now rnd) (\<lambda>_.
      returnM (Commit nid))))))"

text \<open>The state is exchanged only while it and the last heartbeat are those that were read.\<close>

definition transitionMonitor :: "(string \<Rightarrow> string) \<Rightarrow> ProducerMonitor \<Rightarrow> string \<Rightarrow> gotime \<Rightarrow> 64 word \<Rightarrow> string store" where
  "transitionMonitor sha256 m state now rnd =
     tx (bindM (sql_update t_monitors t_monitors_update (\<lambda>_ r. pm_id r = Pm_ID m \<and> pm_state r = Pm_State m \<and> pm_last_seen r = Pm_LastSeen m)
                  (\<lambda>r. r\<lparr>pm_state := state, pm_notification_id := alert_id (Pm_ID m)\<rparr>)) (\<lambda>count.
         if count \<noteq> 1 then returnM (Rollback []) else raise_alert sha256 m state now rnd))"

definition monitor_state :: "(string \<Rightarrow> zone option) \<Rightarrow> gotime \<Rightarrow> ProducerMonitor \<Rightarrow> string" where
  "monitor_state tz now m = (if now > Deadline tz m then ''missing'' else ''healthy'')"

text \<open>The notifications that were changed come back even when a transition fails, with the error beside them.\<close>

fun check_loop :: "(string \<Rightarrow> zone option) \<Rightarrow> (string \<Rightarrow> string) \<Rightarrow> gotime \<Rightarrow> (string \<Rightarrow> 64 word) \<Rightarrow> ProducerMonitor list \<Rightarrow> string list \<Rightarrow> (string list \<times> err option) store" where
  "check_loop tz sha256 now rnd [] changed = returnM (changed, None)"
| "check_loop tz sha256 now rnd (m # ms) changed =
     (if monitor_state tz now m = Pm_State m then check_loop tz sha256 now rnd ms changed
      else tryM (transitionMonitor sha256 m (monitor_state tz now m) now (rnd (Pm_ID m))) (\<lambda>r. case r of
        Inl e \<Rightarrow> returnM (changed, Some e)
      | Inr i \<Rightarrow> check_loop tz sha256 now rnd ms (if i \<noteq> [] then changed @ [i] else changed)))"

definition CheckMonitors :: "(string \<Rightarrow> zone option) \<Rightarrow> (string \<Rightarrow> string) \<Rightarrow> gotime \<Rightarrow> (string \<Rightarrow> 64 word) \<Rightarrow> (string list \<times> err option) store" where
  "CheckMonitors tz sha256 now rnd =
     tryM (Monitors \<lparr>User_ID = [], User_Username = [], User_IsAdmin = True\<rparr>) (\<lambda>r. case r of
       Inl e \<Rightarrow> returnM ([], Some e)
     | Inr monitors \<Rightarrow> check_loop tz sha256 now rnd monitors [])"

section \<open>Deliveries\<close>

record DeliveryEvent =
  Dv_Device :: string
  Dv_Outcome :: string
  Dv_Attempt :: int
  Dv_CreatedAt :: gotime

definition RecordDelivery :: "(string \<Rightarrow> string) \<Rightarrow> string \<Rightarrow> string \<Rightarrow> string \<Rightarrow> string \<Rightarrow> int \<Rightarrow> gotime \<Rightarrow> 64 word \<Rightarrow> unit store" where
  "RecordDelivery sha256 i userID endpoint outcome attempt now rnd =
     (let device = (if endpoint = [] then [] else hex_bytes (take 6 (sha256 endpoint))) in
      ignoreM (sql_insert t_deliveries_update chk_deliveries
        \<lparr>de_id = newID ''dlv_'' now rnd, de_notification_id = i, de_user_id = userID, de_device = device, de_outcome = outcome, de_attempt = attempt, de_created_at = UnixMilli now\<rparr>))"

definition DeliveryEvents :: "string \<Rightarrow> User \<Rightarrow> DeliveryEvent list store" where
  "DeliveryEvents i user =
     bindM (CanReadNotification i user) (\<lambda>allowed.
     bindM (requireM allowed ErrForbidden) (\<lambda>_.
     query (\<lambda>d. map (\<lambda>v. \<lparr>Dv_Device = de_device v, Dv_Outcome = de_outcome v, Dv_Attempt = de_attempt v, Dv_CreatedAt = OfUnixMilli (de_created_at v)\<rparr>)
       (take 100 (sort_desc (\<lambda>v. (de_created_at v, de_id v)) (filter (\<lambda>v. de_notification_id v = i \<and> de_user_id v = User_ID user) (t_deliveries d)))))))"

definition SubscribedUsers :: "Notification \<Rightarrow> User list store" where
  "SubscribedUsers n = query (\<lambda>d. map (\<lambda>u. \<lparr>User_ID = u_id u, User_Username = u_username u, User_IsAdmin = u_is_admin u\<rparr>)
     (filter (\<lambda>u. exists_where (\<lambda>p. pu_user_id p = Some (u_id u)) (t_push d) \<and> u_disabled_at u = None \<and>
       exists_where (\<lambda>c. c_id c = Nt_ChannelID n \<and> visible d (u_is_admin u) (u_id u) c) (t_channels d)) (t_users d)))"

definition enabled_user :: "db \<Rightarrow> string \<Rightarrow> bool" where
  "enabled_user d i \<longleftrightarrow> exists_where (\<lambda>u. u_id u = i \<and> u_disabled_at u = None) (t_users d)"

definition owned_subscription :: "string \<Rightarrow> push_row \<Rightarrow> PushSubscription" where
  "owned_subscription userID p = (subscription_of p)\<lparr>Ps_UserID := userID, Ps_CreatedAt := 0\<rparr>"

definition UserSubscriptions :: "string \<Rightarrow> PushSubscription list store" where
  "UserSubscriptions userID = query (\<lambda>d. map (owned_subscription userID) (filter (\<lambda>p. pu_user_id p = Some userID \<and> enabled_user d userID) (t_push d)))"

definition UserPushSubscription :: "string \<Rightarrow> string \<Rightarrow> PushSubscription store" where
  "UserPushSubscription userID endpoint =
     bindM (query (\<lambda>d. map_option (owned_subscription userID) (List.find (\<lambda>p. pu_endpoint p = endpoint \<and>
       (case pu_user_id p of None \<Rightarrow> userID = [] | Some u \<Rightarrow> u = userID \<and> enabled_user d u)) (t_push d)))) (rowM ErrInvalidCredentials)"

section \<open>Desktop arrivals\<close>

record DesktopArrival =
  Da_ID :: string
  Da_Kind :: string
  Da_At :: int

text \<open>Notifications, messages of others and attention alerts of the user, each with whether its channel shows it.\<close>

definition arrivals :: "db \<Rightarrow> User \<Rightarrow> DesktopArrival list" where
  "arrivals d user =
     map (\<lambda>(n, c). \<lparr>Da_ID = n_id n, Da_Kind = ''notification'', Da_At = n_updated_at n\<rparr>) (filter (\<lambda>(n, c). visible d (User_IsAdmin user) (User_ID user) c) (joined d)) @
     map (\<lambda>m. \<lparr>Da_ID = msg_id m, Da_Kind = ''message'', Da_At = msg_created_at m\<rparr>)
       (filter (\<lambda>m. msg_deleted_at m = None \<and> msg_author_user_id m \<noteq> User_ID user \<and> in_channels d (visible d (User_IsAdmin user) (User_ID user)) (msg_channel_id m)) (t_messages d)) @
     map (\<lambda>a. \<lparr>Da_ID = al_id a, Da_Kind = ''attention'', Da_At = al_created_at a\<rparr>) (filter (\<lambda>a. al_user_id a = User_ID user) (t_alerts d))"

definition arrival_key :: "DesktopArrival \<Rightarrow> int \<times> string" where
  "arrival_key a = (Da_At a, Da_ID a)"

definition DesktopArrivals :: "User \<Rightarrow> int \<Rightarrow> string \<Rightarrow> DesktopArrival list store" where
  "DesktopArrivals user after afterID = query (\<lambda>d. take 200 (sort_key arrival_key
     (filter (\<lambda>a. Da_At a > after \<or> Da_At a = after \<and> Da_ID a > afterID) (arrivals d user))))"

section \<open>What a check leaves behind\<close>

text \<open>The reference: a monitor whose state is not the one that its deadline asks for gets that state.\<close>

definition overdue :: "(string \<Rightarrow> zone option) \<Rightarrow> gotime \<Rightarrow> ProducerMonitor \<Rightarrow> bool" where
  "overdue tz now m \<longleftrightarrow> monitor_state tz now m \<noteq> Pm_State m"

definition settle :: "(string \<Rightarrow> zone option) \<Rightarrow> gotime \<Rightarrow> monitor_row \<Rightarrow> monitor_row" where
  "settle tz now r = (case monitor_of r of None \<Rightarrow> r
     | Some m \<Rightarrow> if overdue tz now m then r\<lparr>pm_state := monitor_state tz now m, pm_notification_id := alert_id (pm_id r)\<rparr> else r)"

definition lifecycle_of :: "string \<Rightarrow> string" where
  "lifecycle_of state = (if state = ''healthy'' then ''resolved'' else ''firing'')"

lemma alert_id_inject [simp]: "alert_id i = alert_id j \<longleftrightarrow> i = j"
  by (simp add: alert_id_def)

definition announced :: "string \<Rightarrow> string \<Rightarrow> db \<Rightarrow> bool" where
  "announced i state d \<longleftrightarrow> (\<exists>n \<in> set (t_notifications d). n_id n = alert_id i \<and> n_state n = lifecycle_of state)"

definition current :: "ProducerMonitor \<Rightarrow> db \<Rightarrow> bool" where
  "current m d \<longleftrightarrow> (\<exists>r \<in> set (t_monitors d). pm_id r = Pm_ID m \<and> pm_state r = Pm_State m \<and> pm_last_seen r = Pm_LastSeen m)"

text \<open>The effect of a transition that was carried out.\<close>

definition moved :: "ProducerMonitor \<Rightarrow> string \<Rightarrow> db \<Rightarrow> db \<Rightarrow> bool" where
  "moved m state d d' \<longleftrightarrow> t_monitors d' = upd_where (\<lambda>r. pm_id r = Pm_ID m) (\<lambda>r. r\<lparr>pm_state := state, pm_notification_id := alert_id (Pm_ID m)\<rparr>) (t_monitors d) \<and>
     announced (Pm_ID m) state d' \<and> (\<forall>i s. i \<noteq> Pm_ID m \<longrightarrow> announced i s d \<longrightarrow> announced i s d')"

lemma moved_frame [simp]: "moved m s d (t_events_update f d') = moved m s d d'" "moved m s d (t_user_state_update g d') = moved m s d d'"
  by (simp_all add: moved_def announced_def)

lemma keyed_current:
  assumes "keyed pm_id (t_monitors d)"
  shows "count_where (\<lambda>r. pm_id r = Pm_ID m \<and> pm_state r = Pm_State m \<and> pm_last_seen r = Pm_LastSeen m) (t_monitors d) = (if current m d then 1 else 0)"
proof -
  let ?c = "count_where (\<lambda>r. pm_id r = Pm_ID m \<and> pm_state r = Pm_State m \<and> pm_last_seen r = Pm_LastSeen m) (t_monitors d)"
  have "?c \<le> 1" using assms by (rule keyed_count_le)
  moreover have "0 < ?c \<longleftrightarrow> current m d" by (simp add: current_def count_where_pos)
  ultimately show ?thesis by (cases "current m d") auto
qed

lemma upd_where_current:
  assumes "keyed pm_id (t_monitors d)" "current m d"
  shows "upd_where (\<lambda>r. pm_id r = Pm_ID m \<and> pm_state r = Pm_State m \<and> pm_last_seen r = Pm_LastSeen m) f (t_monitors d) = upd_where (\<lambda>r. pm_id r = Pm_ID m) f (t_monitors d)"
proof -
  from assms(2) obtain r where r: "r \<in> set (t_monitors d)" "pm_id r = Pm_ID m" "pm_state r = Pm_State m" "pm_last_seen r = Pm_LastSeen m" by (auto simp: current_def)
  then have "x = r" if "x \<in> set (t_monitors d)" "pm_id x = Pm_ID m" for x using keyed_unique [OF assms(1)] that by simp
  with r show ?thesis unfolding upd_where_def by (intro map_cong refl if_cong) blast
qed

definition restate :: "string \<Rightarrow> string \<Rightarrow> string \<Rightarrow> int \<Rightarrow> notification_row \<Rightarrow> notification_row" where
  "restate state t raw at = (\<lambda>n. n\<lparr>n_text := t, n_raw_payload := raw, n_updated_at := at, n_state := lifecycle_of state, n_card := raw\<rparr>)"

lemma restate_simps [simp]: "n_id (restate state t raw at n) = n_id n" "n_state (restate state t raw at n) = lifecycle_of state"
  by (simp_all add: restate_def)

lemma announced_restate:
  "announced j s' (t_notifications_update (upd_where (\<lambda>n. n_id n = alert_id i) (restate s t raw at)) d) \<longleftrightarrow>
   (if j = i then exists_where (\<lambda>n. n_id n = alert_id i) (t_notifications d) \<and> lifecycle_of s = lifecycle_of s' else announced j s' d)"
  unfolding announced_def by (cases "j = i") (simp_all add: bex_upd_where, (metis alert_id_inject)+)

lemma announced_new:
  "announced j s' (t_notifications_update (\<lambda>xs. xs @ [monitor_notification m (lifecycle_of s) t raw now]) d) \<longleftrightarrow>
   announced j s' d \<or> j = Pm_ID m \<and> lifecycle_of s = lifecycle_of s'"
  by (auto simp: announced_def monitor_notification_def)

lemma moved_upsert:
  assumes "t_monitors d' = upd_where (\<lambda>r. pm_id r = Pm_ID m) (\<lambda>r. r\<lparr>pm_state := s, pm_notification_id := alert_id (Pm_ID m)\<rparr>) (t_monitors d)"
    and "t_notifications d' = t_notifications d"
  shows "exists_where (\<lambda>n. n_id n = alert_id (Pm_ID m)) (t_notifications d') \<Longrightarrow>
      moved m s d (t_notifications_update (upd_where (\<lambda>n. n_id n = alert_id (Pm_ID m)) (restate s t raw at)) d')"
    and "moved m s d (t_notifications_update (\<lambda>xs. xs @ [monitor_notification m (lifecycle_of s) t raw now]) d')"
proof -
  have "announced j s' d' = announced j s' d" for j s' using assms(2) by (simp add: announced_def)
  then show "exists_where (\<lambda>n. n_id n = alert_id (Pm_ID m)) (t_notifications d') \<Longrightarrow>
      moved m s d (t_notifications_update (upd_where (\<lambda>n. n_id n = alert_id (Pm_ID m)) (restate s t raw at)) d')"
    "moved m s d (t_notifications_update (\<lambda>xs. xs @ [monitor_notification m (lifecycle_of s) t raw now]) d')"
    using assms by (simp_all add: moved_def announced_restate announced_new)
qed

lemma monitor_message_lifecycle: "monitor_message source state = (l, sev, t) \<Longrightarrow> l = lifecycle_of state"
  by (auto simp: monitor_message_def lifecycle_of_def split: if_splits)

lemma monitor_notification_id [simp]: "n_id (monitor_notification m l t raw now) = alert_id (Pm_ID m)"
  by (simp add: monitor_notification_def)

lemma raise_sat:
  assumes "t_monitors d2 = upd_where (\<lambda>r. pm_id r = Pm_ID m) (\<lambda>r. r\<lparr>pm_state := s, pm_notification_id := alert_id (Pm_ID m)\<rparr>) (t_monitors d)"
    and "t_notifications d2 = t_notifications d"
  shows "sat (raise_alert sha m s now rnd) d2 (\<lambda>r d'. \<forall>f. r = Inr f \<longrightarrow> f = Commit (alert_id (Pm_ID m)) \<and> moved m s d d')"
proof -
  let ?Q = "\<lambda>r d'. \<forall>f. r = Inr f \<longrightarrow> f = Commit (alert_id (Pm_ID m)) \<and> moved m s d d'"
  obtain l sev t where m: "monitor_message (Pm_Source m) s = (l, sev, t)" by (metis prod_cases3)
  have r: "(\<lambda>n. n\<lparr>n_text := t, n_raw_payload := raw, n_updated_at := at, n_state := lifecycle_of s, n_card := raw\<rparr>) = restate s t raw at" for raw at
    by (simp add: restate_def)
  note step = sat_keeps_bind [where I = "moved m s d" and Q = ?Q]
  have rest: "sat (bindM (whenM b (ignoreM (sql_delete t_user_state t_user_state_update P))) (\<lambda>_. bindM (insertNotificationEvent (alert_id (Pm_ID m)) st raw now rnd)
      (\<lambda>_. returnM (Commit (alert_id (Pm_ID m)))))) d3 ?Q" if "moved m s d d3" for d3 b P st raw
    by (rule step, (intro keeps_intro; simp), rule that, simp, rule step, (intro keeps_intro; simp), assumption, simp, rule sat_return, simp)
  show ?thesis
    unfolding raise_alert_def Let_def m prod.case monitor_message_lifecycle [OF m] r
    by (intro sat_intro) (auto intro!: sat_intro rest moved_upsert simp: assms exists_where_def list_ex_iff, blast+)
qed

lemma transition_sat:
  assumes "keyed pm_id (t_monitors d)"
  shows "sat (transitionMonitor sha m s now rnd) d (\<lambda>r d'. case r of Inl e \<Rightarrow> d' = d
    | Inr i \<Rightarrow> if current m d then i = alert_id (Pm_ID m) \<and> moved m s d d' else i = [] \<and> d' = d)"
  unfolding transitionMonitor_def
  by (intro sat_intro) (auto intro!: sat_intro sat_mono [OF raise_sat [of _ m s d]] simp: keyed_current [OF assms] upd_where_current [OF assms] split: sum.splits)

lemma alert_id_nonempty [simp]: "alert_id i \<noteq> []"
  by (simp add: alert_id_def)

lemma monitor_of_simps:
  "monitor_of r = Some m \<Longrightarrow> Pm_ID m = pm_id r" "monitor_of r = Some m \<Longrightarrow> Pm_State m = pm_state r" "monitor_of r = Some m \<Longrightarrow> Pm_LastSeen m = pm_last_seen r"
  by (auto simp: monitor_of_def)

lemma settle_id [simp]: "pm_id (settle tz now r) = pm_id r"
  by (simp add: settle_def split: option.splits)

text \<open>Settling one monitor after the other.\<close>

definition settle_some :: "(string \<Rightarrow> zone option) \<Rightarrow> gotime \<Rightarrow> string set \<Rightarrow> monitor_row list \<Rightarrow> monitor_row list" where
  "settle_some tz now I = map (\<lambda>r. if pm_id r \<in> I then settle tz now r else r)"

lemma settle_one:
  assumes "keyed pm_id xs" "r \<in> set xs" "monitor_of r = Some m"
  shows "(if overdue tz now m then upd_where (\<lambda>r. pm_id r = Pm_ID m) (\<lambda>r. r\<lparr>pm_state := monitor_state tz now m, pm_notification_id := alert_id (Pm_ID m)\<rparr>) xs else xs) = settle_some tz now {Pm_ID m} xs"
proof -
  have "monitor_of x = Some m" if "x \<in> set xs" "pm_id x = pm_id r" for x using keyed_unique [OF assms(1) that(1) assms(2) that(2)] assms(3) by simp
  then show ?thesis using monitor_of_simps(1) [OF assms(3)] by (auto simp: settle_some_def upd_where_def settle_def intro!: map_idI [symmetric])
qed

lemma settle_some_Un: "I \<inter> J = {} \<Longrightarrow> settle_some tz now I (settle_some tz now J xs) = settle_some tz now (I \<union> J) xs"
  by (auto simp: settle_some_def)

lemma keyed_settle_some: "keyed pm_id (settle_some tz now I xs) = keyed pm_id xs"
proof -
  have "map pm_id (settle_some tz now I xs) = map pm_id xs" by (simp add: settle_some_def)
  then show ?thesis by (simp add: keyed_def)
qed

definition checked :: "(string \<Rightarrow> zone option) \<Rightarrow> gotime \<Rightarrow> ProducerMonitor list \<Rightarrow> db \<Rightarrow> db \<Rightarrow> bool" where
  "checked tz now ms d d' \<longleftrightarrow> t_monitors d' = settle_some tz now (Pm_ID ` set ms) (t_monitors d) \<and>
     (\<forall>m \<in> set ms. overdue tz now m \<longrightarrow> announced (Pm_ID m) (monitor_state tz now m) d') \<and>
     (\<forall>i s. i \<notin> Pm_ID ` set ms \<longrightarrow> announced i s d \<longrightarrow> announced i s d')"

lemma checked_Cons:
  assumes d: "keyed pm_id (t_monitors d)" "r \<in> set (t_monitors d)" "monitor_of r = Some m" "Pm_ID m \<notin> Pm_ID ` set ms"
    and step: "if overdue tz now m then moved m (monitor_state tz now m) d d1 else d1 = d"
    and rest: "checked tz now ms d1 d'"
  shows "checked tz now (m # ms) d d'"
proof -
  have "t_monitors d1 = settle_some tz now {Pm_ID m} (t_monitors d)"
    using step settle_one [OF d(1-3), of tz now] by (auto simp: moved_def split: if_splits)
  then have "t_monitors d' = settle_some tz now (Pm_ID ` set (m # ms)) (t_monitors d)"
    using rest d(4) settle_some_Un [of "Pm_ID ` set ms" "{Pm_ID m}" tz now "t_monitors d"] by (simp add: checked_def)
  with step rest d(4) show ?thesis by (auto simp: checked_def moved_def split: if_splits)
qed

lemma check_loop_sat:
  assumes "keyed pm_id (t_monitors d)" and "distinct (map Pm_ID ms)" and "\<And>m. m \<in> set ms \<Longrightarrow> \<exists>r \<in> set (t_monitors d). monitor_of r = Some m"
  shows "sat (check_loop tz sha now rnd ms changed) d (\<lambda>r d'. \<forall>ids. r = Inr (ids, None) \<longrightarrow>
    ids = changed @ map (\<lambda>m. alert_id (Pm_ID m)) (filter (overdue tz now) ms) \<and> checked tz now ms d d')"
  using assms
proof (induction ms arbitrary: d changed)
  case Nil
  show ?case by (simp, rule sat_return) (simp add: checked_def settle_some_def)
next
  case (Cons m ms)
  let ?s = "monitor_state tz now m"
  from Cons.prems(3) [of m] obtain r where r: "r \<in> set (t_monitors d)" "monitor_of r = Some m" by auto
  have cur: "current m d" using r by (auto simp: current_def monitor_of_simps intro!: bexI [of _ r])
  have other: "\<exists>r \<in> set (settle_some tz now {Pm_ID m} (t_monitors d)). monitor_of r = Some x" if "x \<in> set ms" for x
  proof -
    from Cons.prems(3) [of x] that obtain y where y: "y \<in> set (t_monitors d)" "monitor_of y = Some x" by auto
    with that Cons.prems(2) have "pm_id y \<noteq> Pm_ID m" by (metis monitor_of_simps(1) distinct.simps(2) image_eqI list.set_map list.simps(9))
    with y show ?thesis by (auto simp: settle_some_def intro!: bexI [of _ y] image_eqI [of _ _ y])
  qed
  have step: "sat (check_loop tz sha now rnd ms ch) d1 (\<lambda>r d'. \<forall>ids. r = Inr (ids, None) \<longrightarrow>
      ids = ch @ map (\<lambda>m. alert_id (Pm_ID m)) (filter (overdue tz now) ms) \<and> checked tz now (m # ms) d d')"
    if s: "if overdue tz now m then moved m ?s d d1 else d1 = d" for ch d1
  proof -
    have t: "t_monitors d1 = settle_some tz now {Pm_ID m} (t_monitors d)"
      using s settle_one [OF Cons.prems(1) r, of tz now] by (auto simp: moved_def split: if_splits)
    have "sat (check_loop tz sha now rnd ms ch) d1 (\<lambda>r d'. \<forall>ids. r = Inr (ids, None) \<longrightarrow>
        ids = ch @ map (\<lambda>m. alert_id (Pm_ID m)) (filter (overdue tz now) ms) \<and> checked tz now ms d1 d')"
      by (rule Cons.IH) (use Cons.prems other t in \<open>simp_all add: keyed_settle_some\<close>)
    then show ?thesis by (rule sat_mono) (use checked_Cons [OF Cons.prems(1) r _ s] Cons.prems(2) in auto)
  qed
  show ?case
  proof (cases "overdue tz now m")
    case False
    then show ?thesis using step [of d changed] by (simp add: overdue_def [of tz now m])
  next
    case True
    have "sat (transitionMonitor sha m ?s now (rnd (Pm_ID m))) d (\<lambda>r d'. case r of Inl e \<Rightarrow> True | Inr i \<Rightarrow> i = alert_id (Pm_ID m) \<and> moved m ?s d d')"
      by (rule sat_mono [OF transition_sat [OF Cons.prems(1)]]) (auto simp: cur split: sum.splits)
    then have "sat (transitionMonitor sha m ?s now (rnd (Pm_ID m))) d (\<lambda>r d1. sat (case r of Inl e \<Rightarrow> returnM (changed, Some e)
        | Inr i \<Rightarrow> check_loop tz sha now rnd ms (if i \<noteq> [] then changed @ [i] else changed)) d1 (\<lambda>r d'. \<forall>ids. r = Inr (ids, None) \<longrightarrow>
          ids = changed @ map (\<lambda>m. alert_id (Pm_ID m)) (filter (overdue tz now) (m # ms)) \<and> checked tz now (m # ms) d d'))"
      by (rule sat_mono) (use True step [where ch = "changed @ [alert_id (Pm_ID m)]"] in \<open>auto intro!: sat_return split: sum.splits\<close>)
    then show ?thesis using True by (simp add: overdue_def [of tz now m] sat_try)
  qed
qed

lemma those_Some: "those (map f xs) = Some ys \<longleftrightarrow> map f xs = map Some ys"
  by (induction xs arbitrary: ys) (auto split: option.splits simp: Cons_eq_map_conv)

lemma those_members: "those (map f xs) = Some ys \<Longrightarrow> y \<in> set ys \<Longrightarrow> \<exists>x \<in> set xs. f x = Some y"
  unfolding those_Some by (metis image_iff list.set_map)

lemma those_monitors: "those (map monitor_of xs) = Some ms \<Longrightarrow> map Pm_ID ms = map pm_id xs"
  unfolding those_Some by (induction xs arbitrary: ms) (auto simp: Cons_eq_map_conv monitor_of_simps)

lemma settle_all:
  assumes "\<And>r. r \<in> set xs \<Longrightarrow> pm_id r \<in> I"
  shows "settle_some tz now I xs = map (settle tz now) xs"
  using assms by (simp add: settle_some_def)

lemma Deadline_cong: "Deadline tz (m\<lparr>Pm_State := s, Pm_NotificationID := n\<rparr>) = Deadline tz m"
  by (simp add: Deadline_def Let_def split: sum.splits)

text \<open>A settled monitor has the state that its own deadline asks for.\<close>

lemma settle_settled: "monitor_of (settle tz now r) = Some m \<Longrightarrow> \<not> overdue tz now m"
proof -
  assume m: "monitor_of (settle tz now r) = Some m"
  then obtain m0 where m0: "monitor_of r = Some m0" by (cases "monitor_of r") (auto simp: settle_def)
  show ?thesis
  proof (cases "overdue tz now m0")
    case True
    with m m0 have "m = m0\<lparr>Pm_State := monitor_state tz now m0, Pm_NotificationID := alert_id (pm_id r)\<rparr>"
      by (auto simp: settle_def monitor_of_def)
    then show ?thesis by (simp add: overdue_def monitor_state_def Deadline_cong)
  next
    case False
    with m m0 show ?thesis by (simp add: settle_def)
  qed
qed

lemma overdue_iff: "monitor_of r = Some m \<Longrightarrow> overdue tz now m \<longleftrightarrow> settle tz now r \<noteq> r"
proof -
  assume m: "monitor_of r = Some m"
  have "pm_state (settle tz now r) \<noteq> pm_state r" if "overdue tz now m" using that m by (auto simp: settle_def overdue_def monitor_of_simps)
  moreover have "settle tz now r = r" if "\<not> overdue tz now m" using that m by (simp add: settle_def)
  ultimately show ?thesis by metis
qed

lemma check_sat:
  assumes "keyed pm_id (t_monitors d)"
  shows "sat (CheckMonitors tz sha now rnd) d (\<lambda>r d'. \<forall>ids. r = Inr (ids, None) \<longrightarrow> (\<exists>ms. those (map monitor_of (sort_key (\<lambda>r. (pm_name r, pm_id r)) (t_monitors d))) = Some ms \<and>
    ids = map (\<lambda>m. alert_id (Pm_ID m)) (filter (overdue tz now) ms) \<and> checked tz now ms d d'))"
proof -
  let ?xs = "sort_key (\<lambda>r. (pm_name r, pm_id r)) (t_monitors d)"
  have loop: "sat (check_loop tz sha now rnd ms []) d (\<lambda>r d'. \<forall>ids. r = Inr (ids, None) \<longrightarrow>
      ids = [] @ map (\<lambda>m. alert_id (Pm_ID m)) (filter (overdue tz now) ms) \<and> checked tz now ms d d')" if ms: "those (map monitor_of ?xs) = Some ms" for ms
  proof (rule check_loop_sat)
    have "distinct (map pm_id ?xs)" using assms by (simp add: keyed_def distinct_map)
    then show "distinct (map Pm_ID ms)" using those_monitors [OF ms] by simp
    show "\<exists>r \<in> set (t_monitors d). monitor_of r = Some m" if "m \<in> set ms" for m using those_members [OF ms that] by simp
  qed (rule assms)
  show ?thesis unfolding CheckMonitors_def Monitors_def
    by (intro sat_intro) (use loop in \<open>auto intro!: sat_intro\<close>)
qed

lemma settled_members:
  assumes "those (map monitor_of (sort_key k xs)) = Some ms" "checked tz now ms d d'" "xs = t_monitors d"
  shows "t_monitors d' = map (settle tz now) (t_monitors d)" and "\<And>r. r \<in> set xs \<Longrightarrow> \<exists>m \<in> set ms. monitor_of r = Some m"
    and "set ms = {m. \<exists>r \<in> set xs. monitor_of r = Some m}"
proof -
  have "Some ` set ms = monitor_of ` set xs" using assms(1) unfolding those_Some by (metis list.set_map set_sort)
  then show m: "set ms = {m. \<exists>r \<in> set xs. monitor_of r = Some m}" and e: "\<And>r. r \<in> set xs \<Longrightarrow> \<exists>m \<in> set ms. monitor_of r = Some m" by (auto; metis image_iff option.inject)+
  have "pm_id r \<in> Pm_ID ` set ms" if "r \<in> set xs" for r using e [OF that] monitor_of_simps(1) by (metis image_eqI)
  then show "t_monitors d' = map (settle tz now) (t_monitors d)" using assms(2,3) by (simp add: checked_def settle_all)
qed

text \<open>C33: producer monitors.  A check that reports no error has given every monitor the state that its deadline asks for and changed
  nothing else of it; it returns the notifications of exactly those monitors whose state was wrong, and each of these notifications
  exists and is firing when the producer is missing and resolved when it is back.\<close>

theorem monitors_settled:
  assumes "CheckMonitors tz sha now rnd w = (Inr (ids, None), w')" and "keyed pm_id (t_monitors (wdb w))"
  shows "t_monitors (wdb w') = map (settle tz now) (t_monitors (wdb w)) \<and>
    (\<forall>r \<in> set (t_monitors (wdb w')). \<exists>m. monitor_of r = Some m \<and> \<not> overdue tz now m) \<and>
    set ids = {alert_id (pm_id r) |r. r \<in> set (t_monitors (wdb w)) \<and> settle tz now r \<noteq> r} \<and>
    (\<forall>r \<in> set (t_monitors (wdb w')). alert_id (pm_id r) \<in> set ids \<longrightarrow> announced (pm_id r) (pm_state r) (wdb w'))"
proof -
  let ?xs = "t_monitors (wdb w)"
  from satD [OF check_sat [OF assms(2)] assms(1)] obtain ms where ms: "those (map monitor_of (sort_key (\<lambda>r. (pm_name r, pm_id r)) ?xs)) = Some ms"
      "ids = map (\<lambda>m. alert_id (Pm_ID m)) (filter (overdue tz now) ms)" and ch: "checked tz now ms (wdb w) (wdb w')" by auto
  note s = settled_members [OF ms(1) ch refl]
  have ids: "set ids = {alert_id (pm_id r) |r. r \<in> set ?xs \<and> settle tz now r \<noteq> r}"
  proof (intro equalityI subsetI)
    fix x assume "x \<in> set ids"
    then obtain m where m: "m \<in> set ms" "overdue tz now m" "x = alert_id (Pm_ID m)" by (auto simp: ms(2))
    then obtain r where "r \<in> set ?xs" "monitor_of r = Some m" unfolding s(3) by blast
    with m show "x \<in> {alert_id (pm_id r) |r. r \<in> set ?xs \<and> settle tz now r \<noteq> r}" using overdue_iff monitor_of_simps(1) by fastforce
  next
    fix x assume "x \<in> {alert_id (pm_id r) |r. r \<in> set ?xs \<and> settle tz now r \<noteq> r}"
    then obtain r where r: "r \<in> set ?xs" "settle tz now r \<noteq> r" "x = alert_id (pm_id r)" by blast
    with s(2) obtain m where "m \<in> set ms" "monitor_of r = Some m" by blast
    with r show "x \<in> set ids" by (auto simp: ms(2) overdue_iff monitor_of_simps(1) [symmetric])
  qed
  have "\<exists>m. monitor_of (settle tz now r) = Some m" if "r \<in> set ?xs" for r
    using s(2) [OF that] by (auto simp: settle_def monitor_of_def)
  then have ok: "\<forall>r \<in> set (t_monitors (wdb w')). \<exists>m. monitor_of r = Some m \<and> \<not> overdue tz now m" unfolding s(1) using settle_settled by (simp, blast)
  have "announced (pm_id (settle tz now r)) (pm_state (settle tz now r)) (wdb w')" if r: "r \<in> set ?xs" and i: "alert_id (pm_id r) \<in> set ids" for r
  proof -
    from s(2) [OF r] obtain m where m: "m \<in> set ms" "monitor_of r = Some m" by blast
    from i ids obtain y where y: "y \<in> set ?xs" "pm_id y = pm_id r" "settle tz now y \<noteq> y" by auto
    then have "settle tz now r \<noteq> r" using keyed_unique [OF assms(2) y(1) r y(2)] by simp
    then have o: "overdue tz now m" using overdue_iff [OF m(2)] by simp
    with ch m(1) have "announced (Pm_ID m) (monitor_state tz now m) (wdb w')" by (simp add: checked_def)
    then show ?thesis using o m(2) by (simp add: settle_def monitor_of_simps)
  qed
  with s(1) ids ok show ?thesis by simp
qed

definition backup_monitor :: monitor_row where
  "backup_monitor = \<lparr>pm_id = ''mon_1'', pm_channel_id = ''c1'', pm_name = ''Backup'', pm_source = ''backup'', pm_period_seconds = 60, pm_grace_seconds = 0,
     pm_daily_json = ''{}'', pm_last_seen = 0, pm_state = ''healthy'', pm_notification_id = []\<rparr>"

definition monitor_db :: db where
  "monitor_db = reader_db\<lparr>t_monitors := [backup_monitor, backup_monitor\<lparr>pm_id := ''mon_2'', pm_source := ''cron'', pm_last_seen := 200000\<rparr>]\<rparr>"

text \<open>One of two monitors is overdue after two minutes: its alert fires.\<close>

theorem monitors_settled_witness:
  "fst (CheckMonitors (\<lambda>_. None) id (120 * Second) (\<lambda>_. 1) (up monitor_db)) = Inr ([''ntf_mon_1''], None) \<and>
   announced ''mon_1'' ''missing'' (wdb (snd (CheckMonitors (\<lambda>_. None) id (120 * Second) (\<lambda>_. 1) (up monitor_db))))"
proof -
  define run where "run = CheckMonitors (\<lambda>_. None) id (120 * Second) (\<lambda>_. 1) (up monitor_db)"
  have f: "fst run = Inr ([''ntf_mon_1''], None)" unfolding run_def by code_simp
  then have r: "CheckMonitors (\<lambda>_. None) id (120 * Second) (\<lambda>_. 1) (up monitor_db) = (Inr ([''ntf_mon_1''], None), snd run)" by (simp add: run_def prod_eq_iff)
  have k: "keyed pm_id (t_monitors (wdb (up monitor_db)))" by code_simp
  note t = monitors_settled [OF r k]
  have m: "settle (\<lambda>_. None) (120 * Second) backup_monitor = backup_monitor\<lparr>pm_state := ''missing'', pm_notification_id := ''ntf_mon_1''\<rparr>" by code_simp
  have "backup_monitor \<in> set (t_monitors (wdb (up monitor_db)))" by (simp add: monitor_db_def)
  then have in': "settle (\<lambda>_. None) (120 * Second) backup_monitor \<in> set (t_monitors (wdb (snd run)))" using t [THEN conjunct1] by simp
  have id: "alert_id ''mon_1'' = ''ntf_mon_1''" by code_simp
  have "alert_id (pm_id (settle (\<lambda>_. None) (120 * Second) backup_monitor)) \<in> set [''ntf_mon_1'']" by (simp add: id backup_monitor_def)
  from bspec [OF t [THEN conjunct2, THEN conjunct2, THEN conjunct2] in', rule_format, OF this]
  have "announced ''mon_1'' ''missing'' (wdb (snd run))" unfolding m by (simp add: backup_monitor_def)
  with f show ?thesis unfolding run_def by simp
qed

end
