(* ===== verification/Agents.thy ===== *)
theory Agents
  imports Inbox
begin

text \<open>
  Agents, in \<open>internal/store/agents.go\<close> and \<open>agent_presence.go\<close>: registration with a principal user and a token,
  authentication, revocation, runs and their events, publishing into channels, idempotent tool invocations and
  presence.  SHA-256 and the random bytes of tokens are arguments.
\<close>

section \<open>Registration\<close>

record CreateAgentInput =
  Ca_Name :: string
  Ca_DisplayName :: string
  Ca_Description :: string
  Ca_OwnerUserID :: string
  Ca_IsAdmin :: bool
  Ca_OAuthSubject :: string

definition agentTokenPrefix :: string where
  "agentTokenPrefix = ''twa_''"

definition agent_name_char :: "char \<Rightarrow> bool" where
  "agent_name_char c \<longleftrightarrow> (of_char c :: nat) \<in> {97..122} \<union> {48..57}"

text \<open>\<open>^[a-z0-9][a-z0-9_-]{1,48}$\<close>.\<close>

definition agentNamePattern :: "string \<Rightarrow> bool" where
  "agentNamePattern s \<longleftrightarrow> (case s of [] \<Rightarrow> False | c # r \<Rightarrow> agent_name_char c \<and> 1 \<le> length r \<and> length r \<le> 48 \<and>
     list_all (\<lambda>x. agent_name_char x \<or> x = CHR ''_'' \<or> x = CHR ''-'') r)"

definition newAgentToken :: "(string \<Rightarrow> string) \<Rightarrow> string \<Rightarrow> string \<times> string" where
  "newAgentToken sha256 secret = (let token = agentTokenPrefix @ hex_bytes secret in (token, sha256 token))"

definition trimmed :: "CreateAgentInput \<Rightarrow> CreateAgentInput" where
  "trimmed i = (let n = TrimSpace (Ca_Name i); dn = TrimSpace (Ca_DisplayName i) in
     i\<lparr>Ca_Name := n, Ca_DisplayName := (if dn = [] then n else dn), Ca_Description := TrimSpace (Ca_Description i), Ca_OAuthSubject := TrimSpace (Ca_OAuthSubject i)\<rparr>)"

definition CreateAgent :: "(string \<Rightarrow> string) \<Rightarrow> CreateAgentInput \<Rightarrow> string \<Rightarrow> gotime \<Rightarrow> (nat \<Rightarrow> 64 word) \<Rightarrow> (Agent \<times> string) store" where
  "CreateAgent sha256 input secret now rnd =
     (let input = trimmed input in
      bindM (requireM (agentNamePattern (Ca_Name input)) (ErrText ''agent name must be URL-safe lowercase text'')) (\<lambda>_.
      bindM (requireM (\<not> (len (Ca_DisplayName input) > 100 \<or> len (Ca_Description input) > 500 \<or> len (Ca_OAuthSubject input) > 255))
               (ErrText ''agent metadata is too long'')) (\<lambda>_.
      case newAgentToken sha256 secret of (token, tokenHash) \<Rightarrow>
      let agentID = newID ''agt_'' now (rnd 0); userID = newID ''usr_'' now (rnd 1); credentialID = newID ''acr_'' now (rnd 2); username = ''agent-'' @ Ca_Name input in
      tx (bindM (sql_insert t_users_update chk_users \<lparr>u_id = userID, u_username = username, u_password_hash = [], u_created_at = UnixMilli now,
                   u_is_admin = Ca_IsAdmin input, u_oidc_subject = None, u_disabled_at = None\<rparr>) (\<lambda>_.
          bindM (sql_insert t_agents_update chk_agents \<lparr>ag_id = agentID, ag_name = Ca_Name input, ag_display_name = Ca_DisplayName input, ag_description = Ca_Description input,
                   ag_owner_user_id = Ca_OwnerUserID input, ag_user_id = userID, ag_enabled = True, ag_created_at = UnixMilli now, ag_revoked_at = None,
                   ag_oauth_subject = nullif (Ca_OAuthSubject input)\<rparr>) (\<lambda>_.
          bindM (sql_insert t_credentials_update chk_credentials \<lparr>cr_id = credentialID, cr_agent_id = agentID, cr_token_hash = tokenHash, cr_created_at = UnixMilli now,
                   cr_last_used_at = None, cr_revoked_at = None\<rparr>) (\<lambda>_.
          returnM (Commit (\<lparr>Agent_ID = agentID, Agent_Name = Ca_Name input, Agent_DisplayName = Ca_DisplayName input, Agent_Description = Ca_Description input, Agent_Owner = [],
            Agent_Username = username, Agent_Enabled = True, Agent_IsAdmin = Ca_IsAdmin input, Agent_CreatedAt = now, Agent_LastUsedAt = None, Agent_Channels = [],
            Agent_UserID = userID, Agent_OAuthSubject = TrimSpace (Ca_OAuthSubject input)\<rparr>, token)))))))))"

section \<open>Looking agents up\<close>

definition user_by :: "db \<Rightarrow> string \<Rightarrow> user_row option" where
  "user_by d i = List.find (\<lambda>u. u_id u = i) (t_users d)"

definition agentChannels :: "string \<Rightarrow> string list store" where
  "agentChannels agentID = query (\<lambda>d.
     map (\<lambda>(m, c). c_name c @ '':'' @ m_role m) (sort_key (\<lambda>(m, c). c_name c)
       (concat (map (\<lambda>a. concat (map (\<lambda>m. case List.find (\<lambda>c. c_id c = m_channel_id m) (t_channels d) of None \<Rightarrow> [] | Some c \<Rightarrow> [(m, c)])
         (filter (\<lambda>m. m_user_id m = ag_user_id a) (t_members d)))) (filter (\<lambda>a. ag_id a = agentID) (t_agents d))))))"

text \<open>The columns of an agent joined with its owner and its principal.\<close>

definition agent_of :: "agent_row \<Rightarrow> string \<Rightarrow> user_row \<Rightarrow> Agent" where
  "agent_of a owner p = \<lparr>Agent_ID = ag_id a, Agent_Name = ag_name a, Agent_DisplayName = ag_display_name a, Agent_Description = ag_description a, Agent_Owner = owner,
     Agent_Username = u_username p, Agent_Enabled = ag_enabled a, Agent_IsAdmin = u_is_admin p, Agent_CreatedAt = OfUnixMilli (ag_created_at a), Agent_LastUsedAt = None,
     Agent_Channels = [], Agent_UserID = u_id p, Agent_OAuthSubject = (case ag_oauth_subject a of None \<Rightarrow> [] | Some s \<Rightarrow> s)\<rparr>"

definition agent_view :: "db \<Rightarrow> agent_row \<Rightarrow> Agent option" where
  "agent_view d a = (case (user_by d (ag_owner_user_id a), user_by d (ag_user_id a)) of (Some o', Some p) \<Rightarrow> Some (agent_of a (u_username o') p) | _ \<Rightarrow> None)"

definition AgentForOAuthSubject :: "string \<Rightarrow> (Agent \<times> User) store" where
  "AgentForOAuthSubject subject =
     bindM (query (\<lambda>d. case List.find (\<lambda>a. ag_oauth_subject a = Some subject \<and> ag_revoked_at a = None) (t_agents d) of None \<Rightarrow> None
       | Some a \<Rightarrow> (case user_by d (ag_user_id a) of None \<Rightarrow> None
           | Some p \<Rightarrow> Some (agent_of a (case user_by d (ag_owner_user_id a) of None \<Rightarrow> [] | Some o' \<Rightarrow> u_username o') p)))) (\<lambda>r.
     bindM (rowM ErrInvalidCredentials r) (\<lambda>agent.
     bindM (requireM (Agent_Enabled agent) ErrInvalidCredentials) (\<lambda>_.
     bindM (agentChannels (Agent_ID agent)) (\<lambda>channels.
     returnM (agent\<lparr>Agent_Channels := channels\<rparr>, \<lparr>User_ID = Agent_UserID agent, User_Username = Agent_Username agent, User_IsAdmin = Agent_IsAdmin agent\<rparr>)))))"

definition last_used :: "db \<Rightarrow> string \<Rightarrow> gotime option" where
  "last_used d agentID = (case List.map_filter cr_last_used_at (filter (\<lambda>c. cr_agent_id c = agentID \<and> cr_revoked_at c = None) (t_credentials d)) of
      [] \<Rightarrow> None | t # ts \<Rightarrow> Some (OfUnixMilli (fold max ts t)))"

definition ListAgents :: "Agent list store" where
  "ListAgents =
     bindM (query (\<lambda>d. List.map_filter (\<lambda>a. map_option (\<lambda>v. v\<lparr>Agent_UserID := [], Agent_LastUsedAt := last_used d (ag_id a)\<rparr>) (agent_view d a)) (sort_key ag_name (t_agents d)))) (\<lambda>agents.
     foldM (\<lambda>a done'. bindM (agentChannels (Agent_ID a)) (\<lambda>channels. returnM (done' @ [a\<lparr>Agent_Channels := channels\<rparr>]))) agents [])"

definition AgentByName :: "string \<Rightarrow> Agent store" where
  "AgentByName name =
     bindM (query (\<lambda>d. case List.find (\<lambda>a. ag_name a = TrimSpace name) (t_agents d) of None \<Rightarrow> None | Some a \<Rightarrow> agent_view d a)) (\<lambda>r.
     bindM (rowM ErrAgentNotFound r) (\<lambda>agent.
     bindM (agentChannels (Agent_ID agent)) (\<lambda>channels. returnM (agent\<lparr>Agent_Channels := channels\<rparr>))))"

text \<open>The credential of a token hash, with the agent it belongs to.\<close>

definition credential_agent :: "db \<Rightarrow> string \<Rightarrow> (credential_row \<times> Agent) option" where
  "credential_agent d hash = (case List.find (\<lambda>c. cr_token_hash c = hash \<and> cr_revoked_at c = None) (t_credentials d) of None \<Rightarrow> None
     | Some c \<Rightarrow> (case List.find (\<lambda>a. ag_id a = cr_agent_id c \<and> ag_enabled a \<and> ag_revoked_at a = None) (t_agents d) of None \<Rightarrow> None
         | Some a \<Rightarrow> map_option (\<lambda>v. (c, v\<lparr>Agent_OAuthSubject := []\<rparr>)) (agent_view d a)))"

definition AgentForToken :: "(string \<Rightarrow> string) \<Rightarrow> string \<Rightarrow> gotime \<Rightarrow> (Agent \<times> User) store" where
  "AgentForToken sha256 token now =
     bindM (requireM (prefix agentTokenPrefix token) ErrInvalidCredentials) (\<lambda>_.
     bindM (query (\<lambda>d. credential_agent d (sha256 token))) (\<lambda>r.
     bindM (rowM ErrInvalidCredentials r) (\<lambda>(c, agent).
     bindM (sql_update t_credentials t_credentials_update (\<lambda>_ x. cr_id x = cr_id c) (\<lambda>x. x\<lparr>cr_last_used_at := Some (UnixMilli now)\<rparr>)) (\<lambda>_.
     returnM (agent, \<lparr>User_ID = Agent_UserID agent, User_Username = Agent_Username agent, User_IsAdmin = Agent_IsAdmin agent\<rparr>)))))"

definition coalesce :: "'a option \<Rightarrow> 'a \<Rightarrow> 'a option" where
  "coalesce old new = (case old of None \<Rightarrow> Some new | Some x \<Rightarrow> Some x)"

definition RevokeAgent :: "string \<Rightarrow> gotime \<Rightarrow> unit store" where
  "RevokeAgent name now = (let at = UnixMilli now in
     tx (bindM (query (\<lambda>d. map_option ag_id (List.find (\<lambda>a. ag_name a = TrimSpace name) (t_agents d)))) (\<lambda>r.
         bindM (rowM ErrAgentNotFound r) (\<lambda>agentID.
         bindM (sql_update t_agents t_agents_update (\<lambda>_ a. ag_id a = agentID) (\<lambda>a. a\<lparr>ag_enabled := False, ag_revoked_at := coalesce (ag_revoked_at a) at\<rparr>)) (\<lambda>_.
         bindM (sql_update t_credentials t_credentials_update (\<lambda>_ c. cr_agent_id c = agentID) (\<lambda>c. c\<lparr>cr_revoked_at := coalesce (cr_revoked_at c) at\<rparr>)) (\<lambda>_.
         bindM (sql_update t_runs t_runs_update (\<lambda>_ r. run_agent_id r = agentID \<and> run_state r = ''running'') (\<lambda>r. r\<lparr>run_state := ''cancelled'', run_updated_at := at\<rparr>)) (\<lambda>_.
         returnM (Commit ()))))))))"

section \<open>Runs\<close>

record AgentRun =
  Ar_ID :: string
  Ar_AgentID :: string
  Ar_Agent :: string
  Ar_Initiator :: string
  Ar_Purpose :: string
  Ar_State :: string
  Ar_CreatedAt :: gotime
  Ar_UpdatedAt :: gotime
  Ar_Effects :: nat

record AgentRunEvent =
  Re_ID :: string
  Re_Tool :: string
  Re_Summary :: string
  Re_NotificationID :: string
  Re_CreatedAt :: gotime

definition StartAgentRun :: "string \<Rightarrow> string \<Rightarrow> string \<Rightarrow> gotime \<Rightarrow> 64 word \<Rightarrow> AgentRun store" where
  "StartAgentRun agentID initiatorUserID purpose now rnd =
     (let purpose = TrimSpace purpose; i = newID ''run_'' now rnd in
      bindM (requireM (\<not> (purpose = [] \<or> len purpose > 500)) (ErrText ''run purpose is required and must be at most 500 characters'')) (\<lambda>_.
      bindM (sql_insert t_runs_update chk_runs \<lparr>run_id = i, run_agent_id = agentID, run_initiator_user_id = nullif initiatorUserID, run_purpose = purpose, run_state = ''running'',
               run_created_at = UnixMilli now, run_updated_at = UnixMilli now\<rparr>) (\<lambda>_.
      returnM \<lparr>Ar_ID = i, Ar_AgentID = agentID, Ar_Agent = [], Ar_Initiator = [], Ar_Purpose = purpose, Ar_State = ''running'', Ar_CreatedAt = now, Ar_UpdatedAt = now, Ar_Effects = 0\<rparr>)))"

definition FinishAgentRun :: "string \<Rightarrow> string \<Rightarrow> string \<Rightarrow> gotime \<Rightarrow> unit store" where
  "FinishAgentRun agentID runID state now =
     bindM (requireM (\<not> (state \<noteq> ''completed'' \<and> state \<noteq> ''failed'' \<and> state \<noteq> ''cancelled'')) ErrInvalidTransition) (\<lambda>_.
     bindM (sql_update t_runs t_runs_update (\<lambda>_ r. run_id r = runID \<and> run_agent_id r = agentID \<and> run_state r = ''running'')
              (\<lambda>r. r\<lparr>run_state := state, run_updated_at := UnixMilli now\<rparr>)) (\<lambda>changed.
     whenM (changed = 0)
       (bindM (query (\<lambda>d. exists_where (\<lambda>r. run_id r = runID \<and> run_agent_id r = agentID) (t_runs d))) (\<lambda>known.
        failM (if known then ErrInvalidTransition else ErrRunNotFound)))))"

definition running_run :: "string \<Rightarrow> string \<Rightarrow> unit store" where
  "running_run runID agentID =
     bindM (query (\<lambda>d. map_option run_state (List.find (\<lambda>r. run_id r = runID \<and> run_agent_id r = agentID) (t_runs d)))) (\<lambda>r.
     bindM (rowM ErrRunNotFound r) (\<lambda>state. requireM (state = ''running'') ErrInvalidTransition))"

definition RecordAgentRunEvent :: "string \<Rightarrow> string \<Rightarrow> string \<Rightarrow> string \<Rightarrow> string \<Rightarrow> gotime \<Rightarrow> 64 word \<Rightarrow> unit store" where
  "RecordAgentRunEvent agentID runID tool effect notificationID now rnd =
     (if runID = [] then returnM ()
      else let effect = TrimSpace effect; effect = (if len effect > 1000 then take 1000 effect else effect) in
        bindM (running_run runID agentID) (\<lambda>_.
        bindM (sql_insert t_run_events_update chk_run_events \<lparr>re_id = newID ''rev_'' now rnd, re_run_id = runID, re_tool = tool, re_summary = effect,
                 re_notification_id = nullif notificationID, re_created_at = UnixMilli now\<rparr>) (\<lambda>_.
        ignoreM (sql_update t_runs t_runs_update (\<lambda>_ r. run_id r = runID) (\<lambda>r. r\<lparr>run_updated_at := UnixMilli now\<rparr>)))))"

definition ListAgentRuns :: "string \<Rightarrow> int \<Rightarrow> AgentRun list store" where
  "ListAgentRuns agentID limit = (let limit = (if limit \<le> 0 \<or> limit > 200 then 50 else limit) in
     query (\<lambda>d. take (nat limit) (concat (map (\<lambda>r. case List.find (\<lambda>a. ag_id a = run_agent_id r) (t_agents d) of None \<Rightarrow> [] | Some a \<Rightarrow>
         [\<lparr>Ar_ID = run_id r, Ar_AgentID = agentID, Ar_Agent = ag_name a,
           Ar_Initiator = (case run_initiator_user_id r of None \<Rightarrow> [] | Some k \<Rightarrow> (case user_by d k of None \<Rightarrow> [] | Some u \<Rightarrow> u_username u)),
           Ar_Purpose = run_purpose r, Ar_State = run_state r, Ar_CreatedAt = OfUnixMilli (run_created_at r), Ar_UpdatedAt = OfUnixMilli (run_updated_at r),
           Ar_Effects = count_where (\<lambda>e. re_run_id e = run_id r) (t_run_events d)\<rparr>])
       (sort_desc (\<lambda>r. (run_created_at r, run_id r)) (filter (\<lambda>r. run_agent_id r = agentID) (t_runs d)))))))"

definition ListAgentRunEvents :: "string \<Rightarrow> AgentRunEvent list store" where
  "ListAgentRunEvents runID = query (\<lambda>d. map (\<lambda>e. \<lparr>Re_ID = re_id e, Re_Tool = re_tool e, Re_Summary = re_summary e,
       Re_NotificationID = (case re_notification_id e of None \<Rightarrow> [] | Some k \<Rightarrow> k), Re_CreatedAt = OfUnixMilli (re_created_at e)\<rparr>)
     (take 500 (sort_key (\<lambda>e. (re_created_at e, re_id e)) (filter (\<lambda>e. re_run_id e = runID) (t_run_events d)))))"

section \<open>Publishing\<close>

text \<open>The internal webhook of a channel for writes of agents; its hash is that of random bytes.\<close>

definition agentWebhook :: "(string \<Rightarrow> string) \<Rightarrow> string \<Rightarrow> gotime \<Rightarrow> 64 word \<Rightarrow> string \<Rightarrow> string store" where
  "agentWebhook sha256 channelID now rnd unusable =
     bindM (query (\<lambda>d. map_option w_id (List.find (\<lambda>w. w_channel_id w = channelID \<and> w_kind w = ''agent'') (t_webhooks d)))) (\<lambda>r. case r of
       Some i \<Rightarrow> returnM i
     | None \<Rightarrow> let i = newID ''whk_'' now rnd in
         bindM (sql_insert t_webhooks_update chk_webhooks \<lparr>w_id = i, w_token_hash = sha256 unusable, w_channel_id = channelID, w_created_at = UnixMilli now, w_kind = ''agent'', w_revoked_at = None\<rparr>) (\<lambda>_.
         returnM i))"

definition agent_defaults :: "IncomingNotification \<Rightarrow> IncomingNotification" where
  "agent_defaults input = input\<lparr>In_State := (if In_State input = [] then ''received'' else In_State input),
     In_Attachments := (if In_Attachments input = [] then ''[]'' else In_Attachments input), In_RawPayload := (if In_RawPayload input = [] then ''{}'' else In_RawPayload input)\<rparr>"

definition CreateFromAgent :: "(string \<Rightarrow> string) \<Rightarrow> Agent \<Rightarrow> string \<Rightarrow> string \<Rightarrow> IncomingNotification \<Rightarrow> gotime \<Rightarrow> (nat \<Rightarrow> 64 word) \<Rightarrow> string \<Rightarrow> Notification store" where
  "CreateFromAgent sha256 agent channelName runID input now rnd unusable =
     bindM (requireM (\<not> (In_State input \<noteq> [] \<and> In_State input \<noteq> ''received'' \<and> In_State input \<noteq> ''firing'')) (ErrText ''agents may publish received or firing notifications'')) (\<lambda>_.
     let input = agent_defaults input; username = (if In_Username input = [] then Agent_Name agent else In_Username input) in
     tx (bindM (query (\<lambda>d. map_option c_id (List.find (\<lambda>c. c_name c = TrimSpace channelName) (t_channels d)))) (\<lambda>r.
         bindM (rowM ErrForbidden r) (\<lambda>channelID.
         bindM (whenM (\<not> Agent_IsAdmin agent)
                  (bindM (query (\<lambda>d. has_role d (Agent_UserID agent) channelID)) (\<lambda>allowed. requireM allowed ErrForbidden))) (\<lambda>_.
         bindM (whenM (runID \<noteq> []) (running_run runID (Agent_ID agent))) (\<lambda>_.
         bindM (agentWebhook sha256 channelID now (rnd 0) unusable) (\<lambda>webhookID.
         let i = newID ''ntf_'' now (rnd 1) in
         bindM (sql_insert t_notifications_update chk_notifications
                  \<lparr>n_id = i, n_channel_id = channelID, n_webhook_id = webhookID, n_text = In_Text input, n_username = username, n_icon_url = [], n_attachments = In_Attachments input,
                   n_raw_payload = In_RawPayload input, n_created_at = UnixMilli now, n_external_key = [], n_state = In_State input, n_updated_at = UnixMilli now, n_card = In_Card input,
                   n_agent_id = Some (Agent_ID agent), n_agent_run_id = nullif runID\<rparr>) (\<lambda>_.
         bindM (insertNotificationEvent i (In_State input) (In_RawPayload input) now (rnd 2)) (\<lambda>_.
         bindM (saveIncidentKey i input) (\<lambda>_.
         bindM (beat_monitors channelID username now) (\<lambda>_.
         returnM (Commit ((notification_of i channelID (TrimSpace channelName) (input\<lparr>In_Username := username, In_IconURL := []\<rparr>) now now)\<lparr>Nt_Agent := Agent_Name agent\<rparr>)))))))))))))"

section \<open>The playground\<close>

text \<open>An administrator publishes a notification by hand, through the internal webhook of the channel.\<close>

definition CreatePlaygroundNotification :: "(string \<Rightarrow> string) \<Rightarrow> User \<Rightarrow> string \<Rightarrow> IncomingNotification \<Rightarrow> gotime \<Rightarrow> (nat \<Rightarrow> 64 word) \<Rightarrow> string \<Rightarrow> Notification store" where
  "CreatePlaygroundNotification sha256 user channelID n now rnd unusable =
     bindM (requireM (User_IsAdmin user) ErrForbidden) (\<lambda>_.
     bindM (RequireChannelOperator user channelID) (\<lambda>_.
     bindM (channelNameByID channelID) (\<lambda>channel.
     let n = agent_defaults n; i = newID ''ntf_'' now (rnd 1) in
     tx (bindM (agentWebhook sha256 channelID now (rnd 0) unusable) (\<lambda>hook.
         bindM (sql_insert t_notifications_update chk_notifications
                  \<lparr>n_id = i, n_channel_id = channelID, n_webhook_id = hook, n_text = In_Text n, n_username = In_Username n, n_icon_url = [], n_attachments = In_Attachments n,
                   n_raw_payload = In_RawPayload n, n_created_at = UnixMilli now, n_external_key = [], n_state = In_State n, n_updated_at = UnixMilli now, n_card = In_Card n,
                   n_agent_id = None, n_agent_run_id = None\<rparr>) (\<lambda>_.
         bindM (insertNotificationEvent i (In_State n) (In_RawPayload n) now (rnd 2)) (\<lambda>_.
         bindM (saveIncidentKey i n) (\<lambda>_.
         returnM (Commit (notification_of i channelID channel (n\<lparr>In_IconURL := []\<rparr>) now now))))))))))"

section \<open>Idempotent tool invocations\<close>

text \<open>The outcome of a reservation: a fresh one, or the stored result of a completed invocation.\<close>

definition ReserveAgentToolInvocation :: "string \<Rightarrow> string \<Rightarrow> string \<Rightarrow> string \<Rightarrow> gotime \<Rightarrow> (string \<times> bool) store" where
  "ReserveAgentToolInvocation agentID key tool fingerprint now =
     bindM (sql_delete t_invocations t_invocations_update (\<lambda>_ x. iv_agent_id x = agentID \<and> iv_idempotency_key x = key \<and> iv_status x = ''running'' \<and>
              iv_created_at x < UnixMilli now - 15 * 60 * 1000)) (\<lambda>_.
     tryM (sql_insert t_invocations_update chk_invocations \<lparr>iv_agent_id = agentID, iv_idempotency_key = key, iv_tool = tool, iv_request_fingerprint = fingerprint, iv_status = ''running'',
             iv_result = [], iv_created_at = UnixMilli now\<rparr>) (\<lambda>r. case r of
       Inr _ \<Rightarrow> returnM ([], True)
     | Inl e \<Rightarrow> tryM (query (\<lambda>d. List.find (\<lambda>x. iv_agent_id x = agentID \<and> iv_idempotency_key x = key) (t_invocations d))) (\<lambda>q. case q of
         Inl _ \<Rightarrow> failM e
       | Inr None \<Rightarrow> failM e
       | Inr (Some x) \<Rightarrow>
           bindM (requireM (iv_tool x = tool \<and> iv_request_fingerprint x = fingerprint) ErrImportConflict) (\<lambda>_.
           bindM (requireM (iv_status x = ''completed'') ErrInvalidTransition) (\<lambda>_.
           returnM (iv_result x, False))))))"

definition CompleteAgentToolInvocation :: "string \<Rightarrow> string \<Rightarrow> string \<Rightarrow> unit store" where
  "CompleteAgentToolInvocation agentID key result =
     ignoreM (sql_update t_invocations t_invocations_update (\<lambda>_ x. iv_agent_id x = agentID \<and> iv_idempotency_key x = key) (\<lambda>x. x\<lparr>iv_status := ''completed'', iv_result := result\<rparr>))"

definition ReleaseAgentToolInvocation :: "string \<Rightarrow> string \<Rightarrow> unit store" where
  "ReleaseAgentToolInvocation agentID key =
     ignoreM (sql_delete t_invocations t_invocations_update (\<lambda>_ x. iv_agent_id x = agentID \<and> iv_idempotency_key x = key \<and> iv_status x = ''running''))"

section \<open>Presence\<close>

definition AgentPresenceTTL :: gotime where
  "AgentPresenceTTL = 60 * Second"

record AgentConversation =
  Ac_Name :: string
  Ac_DisplayName :: string
  Ac_Description :: string
  Ac_Channel :: string
  Ac_ChannelDisplayName :: string
  Ac_State :: string
  Ac_AcceptsMessages :: bool
  Ac_LastSeenAt :: gotime
  Ac_ExpiresAt :: gotime

text \<open>An enabled agent whose principal is enabled and operates in the channel.\<close>

definition agent_operates :: "db \<Rightarrow> agent_row \<Rightarrow> string \<Rightarrow> bool" where
  "agent_operates d a cid \<longleftrightarrow> ag_enabled a \<and> exists_where (\<lambda>u. u_id u = ag_user_id a \<and> u_disabled_at u = None \<and> (u_is_admin u \<or> has_role d (ag_user_id a) cid)) (t_users d)"

definition ReportAgentPresence :: "Agent \<Rightarrow> string \<Rightarrow> string \<Rightarrow> gotime \<Rightarrow> unit store" where
  "ReportAgentPresence agent channel state now =
     bindM (requireM (\<not> (state \<noteq> ''ready'' \<and> state \<noteq> ''busy'' \<and> state \<noteq> ''offline'')) (ErrText ''invalid agent availability state'')) (\<lambda>_.
     bindM (ChannelIDByName channel) (\<lambda>channelID.
     bindM (query (\<lambda>d. exists_where (\<lambda>a. ag_id a = Agent_ID agent \<and> agent_operates d a channelID) (t_agents d))) (\<lambda>allowed.
     bindM (requireM allowed ErrForbidden) (\<lambda>_.
     ignoreM (sql_upsert t_presence t_presence_update chk_presence (\<lambda>p. (ap_agent_id p, ap_channel_id p))
       \<lparr>ap_agent_id = Agent_ID agent, ap_channel_id = channelID, ap_state = state, ap_updated_at = UnixMilli now\<rparr> (\<lambda>p. p\<lparr>ap_state := state, ap_updated_at := UnixMilli now\<rparr>))))))"

definition conversation_of :: "gotime \<Rightarrow> presence_row \<Rightarrow> agent_row \<Rightarrow> channel_row \<Rightarrow> AgentConversation" where
  "conversation_of now p a c = (let seen = OfUnixMilli (ap_updated_at p); expires = seen + AgentPresenceTTL; state = (if \<not> now < expires then ''offline'' else ap_state p) in
     \<lparr>Ac_Name = ag_name a, Ac_DisplayName = ag_display_name a, Ac_Description = ag_description a, Ac_Channel = c_name c, Ac_ChannelDisplayName = c_display_name c,
      Ac_State = state, Ac_AcceptsMessages = (state \<noteq> ''offline''), Ac_LastSeenAt = seen, Ac_ExpiresAt = expires\<rparr>)"

definition ListAgentConversations :: "User \<Rightarrow> gotime \<Rightarrow> AgentConversation list store" where
  "ListAgentConversations user now = query (\<lambda>d. map (\<lambda>(p, a, c). conversation_of now p a c) (sort_key (\<lambda>(p, a, c). (ag_display_name a, ag_name a, c_name c))
     (concat (map (\<lambda>p. case (List.find (\<lambda>a. ag_id a = ap_agent_id p) (t_agents d), List.find (\<lambda>c. c_id c = ap_channel_id p) (t_channels d)) of
        (Some a, Some c) \<Rightarrow> if agent_operates d a (c_id c) \<and> visible d (User_IsAdmin user) (User_ID user) c then [(p, a, c)] else []
      | _ \<Rightarrow> []) (t_presence d)))))"

section \<open>Revocation\<close>

datatype agent_op =
    OpCreateAgent CreateAgentInput string gotime "nat \<Rightarrow> 64 word"
  | OpAuthenticate string gotime
  | OpRevokeAgent string gotime
  | OpStartRun string string string gotime "64 word"
  | OpFinishRun string string string gotime
  | OpRunEvent string string string string string gotime "64 word"
  | OpPublish Agent string string IncomingNotification gotime "nat \<Rightarrow> 64 word" string
  | OpReserve string string string string gotime
  | OpComplete string string string
  | OpRelease string string
  | OpPresence Agent string string gotime
  | OpPlayground User string IncomingNotification gotime "nat \<Rightarrow> 64 word" string

fun agent_exec :: "(string \<Rightarrow> string) \<Rightarrow> agent_op \<Rightarrow> unit store" where
  "agent_exec sha (OpCreateAgent input secret now rnd) = ignoreM (CreateAgent sha input secret now rnd)"
| "agent_exec sha (OpAuthenticate token now) = ignoreM (AgentForToken sha token now)"
| "agent_exec sha (OpRevokeAgent name now) = RevokeAgent name now"
| "agent_exec sha (OpStartRun agent initiator purpose now rnd) = ignoreM (StartAgentRun agent initiator purpose now rnd)"
| "agent_exec sha (OpFinishRun agent run state now) = FinishAgentRun agent run state now"
| "agent_exec sha (OpRunEvent agent run tool effect notification now rnd) = RecordAgentRunEvent agent run tool effect notification now rnd"
| "agent_exec sha (OpPublish agent channel run input now rnd unusable) = ignoreM (CreateFromAgent sha agent channel run input now rnd unusable)"
| "agent_exec sha (OpReserve agent key tool fingerprint now) = ignoreM (ReserveAgentToolInvocation agent key tool fingerprint now)"
| "agent_exec sha (OpComplete agent key result) = CompleteAgentToolInvocation agent key result"
| "agent_exec sha (OpRelease agent key) = ReleaseAgentToolInvocation agent key"
| "agent_exec sha (OpPresence agent channel state now) = ReportAgentPresence agent channel state now"
| "agent_exec sha (OpPlayground user channel input now rnd unusable) = ignoreM (CreatePlaygroundNotification sha user channel input now rnd unusable)"

definition retired :: "string \<Rightarrow> db \<Rightarrow> bool" where
  "retired i d \<longleftrightarrow> (\<exists>a \<in> set (t_agents d). ag_id a = i) \<and> (\<forall>a \<in> set (t_agents d). ag_id a = i \<longrightarrow> \<not> ag_enabled a \<and> ag_revoked_at a \<noteq> None)"

lemma retired_frame [simp]:
  "retired i (t_users_update f1 d) = retired i d" "retired i (t_credentials_update f2 d) = retired i d" "retired i (t_runs_update f3 d) = retired i d"
  "retired i (t_run_events_update f4 d) = retired i d" "retired i (t_webhooks_update f5 d) = retired i d" "retired i (t_notifications_update f6 d) = retired i d"
  "retired i (t_events_update f7 d) = retired i d" "retired i (t_incidents_update f8 d) = retired i d" "retired i (t_monitors_update f9 d) = retired i d"
  "retired i (t_invocations_update f10 d) = retired i d" "retired i (t_presence_update f11 d) = retired i d"
  by (simp_all add: retired_def)

lemma retired_insert: "retired i d \<Longrightarrow> chk_agents d r = None \<Longrightarrow> retired i (t_agents_update (\<lambda>xs. xs @ [r]) d)"
  by (auto simp: retired_def chk_agents_def)

lemma retired_revoke:
  "retired i d \<Longrightarrow> retired i (t_agents_update (upd_where P (\<lambda>a. a\<lparr>ag_enabled := False, ag_revoked_at := coalesce (ag_revoked_at a) at\<rparr>)) d)"
  by (auto simp: retired_def ball_upd_where bex_upd_where coalesce_def split: option.splits intro!: bexI)

lemma keeps_agent_exec: "keeps (retired i) (agent_exec sha op)"
  by (cases op; hypsubst; unfold agent_exec.simps CreateAgent_def AgentForToken_def RevokeAgent_def StartAgentRun_def FinishAgentRun_def RecordAgentRunEvent_def running_run_def
        CreateFromAgent_def CreatePlaygroundNotification_def channelNameByID_def RequireChannelOperator_def agentWebhook_def ReserveAgentToolInvocation_def CompleteAgentToolInvocation_def ReleaseAgentToolInvocation_def ReportAgentPresence_def ChannelIDByName_def
        newAgentToken_def Let_def prod.case;
      intro keeps_intro; simp add: retired_insert retired_revoke)

interpretation retired_agents: lasting_always "agent_exec sha" "retired i" for sha i
  by unfold_locales (rule keeps_agent_exec)

lemma RevokeAgent_retires:
  assumes "a \<in> set (t_agents d)" "ag_name a = TrimSpace name" "keyed ag_name (t_agents d)"
  shows "sat (RevokeAgent name now) d (\<lambda>r d'. r = Inr () \<longrightarrow> retired (ag_id a) d')"
proof -
  have f: "List.find (\<lambda>x. ag_name x = TrimSpace name) (t_agents d) = Some a" using assms by (simp add: keyed_find)
  have "retired (ag_id a) (t_agents_update (upd_where (\<lambda>x. ag_id x = ag_id a) (\<lambda>x. x\<lparr>ag_enabled := False, ag_revoked_at := coalesce (ag_revoked_at x) (UnixMilli now)\<rparr>)) d)"
    using assms(1) by (auto simp: retired_def ball_upd_where bex_upd_where coalesce_def split: option.splits)
  then show ?thesis unfolding RevokeAgent_def Let_def by (intro sat_intro) (auto intro!: sat_intro simp: f)
qed

definition unrevoked :: "db \<Rightarrow> string \<Rightarrow> bool" where
  "unrevoked d i \<longleftrightarrow> (\<exists>a \<in> set (t_agents d). ag_id a = i \<and> ag_revoked_at a = None)"

lemma unrevokedI: "a \<in> set (t_agents d) \<Longrightarrow> ag_revoked_at a = None \<Longrightarrow> ag_id a = i \<Longrightarrow> unrevoked d i"
  by (auto simp: unrevoked_def)

lemma credential_agent_active: "credential_agent d hash = Some (c, ag) \<Longrightarrow> unrevoked d (Agent_ID ag)"
  by (auto simp: credential_agent_def agent_view_def agent_of_def intro: unrevokedI dest!: find_SomeD split: option.splits)

lemma AgentForToken_active: "sat (AgentForToken sha token now) d (\<lambda>r d'. \<forall>ag u. r = Inr (ag, u) \<longrightarrow> unrevoked d (Agent_ID ag))"
  unfolding AgentForToken_def by (intro sat_intro) (auto intro!: sat_intro dest!: credential_agent_active)

lemma AgentForOAuthSubject_active: "sat (AgentForOAuthSubject subject) d (\<lambda>r d'. \<forall>ag u. r = Inr (ag, u) \<longrightarrow> unrevoked d (Agent_ID ag))"
  unfolding AgentForOAuthSubject_def agentChannels_def
  by (intro sat_intro) (auto intro!: sat_intro simp: agent_of_def dest!: find_SomeD split: option.splits, (erule unrevokedI; simp)+)

text \<open>C32: revocation of an agent.  After an agent was revoked, whatever operations on agents follow, in any order and with any
  faults, neither a token nor an OAuth subject is accepted for it again.\<close>

theorem revoked_agent_stays_out:
  assumes "RevokeAgent name now w = (Inr (), w1)" and "a \<in> set (t_agents (wdb w))" and "ag_name a = TrimSpace name" and "keyed ag_name (t_agents (wdb w))"
    and "AgentForToken sha token t (history (agent_exec sha) ops w1) = (Inr (ag, u), w2) \<or> AgentForOAuthSubject subject (history (agent_exec sha) ops w1) = (Inr (ag, u), w2)"
  shows "Agent_ID ag \<noteq> ag_id a"
proof -
  have "retired (ag_id a) (wdb w1)" using satD [OF RevokeAgent_retires [OF assms(2-4)] assms(1)] by simp
  then have out: "retired (ag_id a) (wdb (history (agent_exec sha) ops w1))" by (rule retired_agents.lasts_always)
  from assms(5) have "unrevoked (wdb (history (agent_exec sha) ops w1)) (Agent_ID ag)"
    using satD [OF AgentForToken_active] satD [OF AgentForOAuthSubject_active] by blast
  with out show ?thesis by (auto simp: retired_def unrevoked_def)
qed

text \<open>The queue binds the agents of this theory.\<close>

definition BindStoredAgent :: "User \<Rightarrow> string \<Rightarrow> string \<Rightarrow> gotime \<Rightarrow> gotime \<Rightarrow> 64 word \<Rightarrow> unit store" where
  "BindStoredAgent = BindAgent AgentByName"

definition agent_db :: db where
  "agent_db = demo_db\<lparr>t_agents := [demo_agent_row, demo_agent_row\<lparr>ag_id := ''a2'', ag_name := ''ci'', ag_user_id := ''u1''\<rparr>],
     t_credentials := [\<lparr>cr_id = ''k1'', cr_agent_id = ''a1'', cr_token_hash = ''twa_1'', cr_created_at = 0, cr_last_used_at = None, cr_revoked_at = None\<rparr>,
       \<lparr>cr_id = ''k2'', cr_agent_id = ''a2'', cr_token_hash = ''twa_2'', cr_created_at = 0, cr_last_used_at = None, cr_revoked_at = None\<rparr>]\<rparr>"

definition after_revocation :: "agent_op list" where
  "after_revocation = [OpAuthenticate ''twa_1'' 5, OpStartRun ''a2'' [] ''tidy'' 6 1, OpRevokeAgent ''bot'' 7000000]"

text \<open>After the agent of the first token is revoked, its token is refused and that of the other agent still accepted.\<close>

theorem revoked_agent_stays_out_witness:
  "\<exists>ag u. fst (AgentForToken id ''twa_2'' 9 (history (agent_exec id) after_revocation (snd (RevokeAgent ''bot'' 3 (up agent_db))))) = Inr (ag, u) \<and> Agent_ID ag \<noteq> ''a1''"
proof -
  define w1 where "w1 = snd (RevokeAgent ''bot'' 3 (up agent_db))"
  have "fst (RevokeAgent ''bot'' 3 (up agent_db)) = Inr ()" by code_simp
  then have 1: "RevokeAgent ''bot'' 3 (up agent_db) = (Inr (), w1)" by (simp add: w1_def prod_eq_iff)
  define r where "r = AgentForToken id ''twa_2'' 9 (history (agent_exec id) after_revocation w1)"
  have "map_sum id (\<lambda>_. ()) (fst r) = Inr ()" unfolding r_def w1_def by code_simp
  then obtain ag u where r: "r = (Inr (ag, u), snd r)" by (metis run_Inr surj_pair)
  then have 2: "AgentForToken id ''twa_2'' 9 (history (agent_exec id) after_revocation w1) = (Inr (ag, u), snd r) \<or> AgentForOAuthSubject [] (history (agent_exec id) after_revocation w1) = (Inr (ag, u), snd r)"
    by (simp only: r_def [symmetric]) simp
  have "demo_agent_row \<in> set (t_agents (wdb (up agent_db)))" "ag_name demo_agent_row = TrimSpace ''bot''" "keyed ag_name (t_agents (wdb (up agent_db)))" by code_simp+
  from revoked_agent_stays_out [OF 1 this 2] have "Agent_ID ag \<noteq> ''a1''" by (simp add: demo_agent_row_def)
  with r show ?thesis unfolding w1_def [symmetric] r_def [symmetric] by (metis fst_conv)
qed

end
