(* ===== verification/Commands.thy ===== *)
theory Commands
  imports Inbox
begin

text \<open>
  Actions and slash commands, in \<open>internal/store/store.go\<close> and \<open>slash_channel.go\<close>: targets of actions, the reservation and
  completion of action executions, the results shown for Mattermost attachments, the import and lookup of slash commands, and
  executions with their response tokens.
\<close>

section \<open>Action targets\<close>

record ActionTarget =
  At_ID :: string
  At_Name :: string
  At_URL :: string
  At_AuthCipher :: string
  At_AllowPrivate :: bool

definition target_of :: "target_row \<Rightarrow> ActionTarget" where
  "target_of t = \<lparr>At_ID = tg_id t, At_Name = tg_name t, At_URL = tg_url t, At_AuthCipher = tg_auth_cipher t, At_AllowPrivate = tg_allow_private t\<rparr>"

definition SaveActionTarget :: "string \<Rightarrow> string \<Rightarrow> string \<Rightarrow> bool \<Rightarrow> gotime \<Rightarrow> 64 word \<Rightarrow> ActionTarget store" where
  "SaveActionTarget name targetURL authCipher allowPrivate now rnd =
     bindM (sql_upsert t_targets t_targets_update chk_targets tg_name
              \<lparr>tg_id = newID ''act_'' now rnd, tg_name = name, tg_url = targetURL, tg_auth_cipher = authCipher, tg_allow_private = allowPrivate, tg_created_at = UnixMilli now\<rparr>
              (\<lambda>t. t\<lparr>tg_url := targetURL, tg_auth_cipher := authCipher, tg_allow_private := allowPrivate\<rparr>)) (\<lambda>_.
     bindM (query (\<lambda>d. map_option target_of (List.find (\<lambda>t. tg_name t = name) (t_targets d)))) (rowM ErrNoRows))"

definition DeleteActionTarget :: "string \<Rightarrow> unit store" where
  "DeleteActionTarget name =
     bindM (sql_delete t_targets t_targets_update (\<lambda>_ t. tg_name t = name)) (\<lambda>deleted. requireM (deleted \<noteq> 0) ErrNotificationNotFound)"

definition ActionTargetByName :: "string \<Rightarrow> ActionTarget store" where
  "ActionTargetByName name = bindM (query (\<lambda>d. map_option target_of (List.find (\<lambda>t. tg_name t = name) (t_targets d)))) (rowM ErrNotificationNotFound)"

definition ActionTargetByURL :: "string \<Rightarrow> ActionTarget store" where
  "ActionTargetByURL targetURL = bindM (query (\<lambda>d. map_option target_of (List.find (\<lambda>t. tg_url t = targetURL) (t_targets d)))) (rowM ErrNotificationNotFound)"

section \<open>Actions on notifications\<close>

definition operator_guard :: "User \<Rightarrow> string \<Rightarrow> unit store" where
  "operator_guard actor channelID =
     whenM (\<not> User_IsAdmin actor) (bindM (query (\<lambda>d. has_role d (User_ID actor) channelID)) (\<lambda>allowed. requireM allowed ErrForbidden))"

definition NotificationCardForAction :: "string \<Rightarrow> User \<Rightarrow> (string \<times> string) store" where
  "NotificationCardForAction notificationID actor =
     bindM (query (\<lambda>d. List.find (\<lambda>n. n_id n = notificationID) (t_notifications d))) (\<lambda>r.
     bindM (rowM ErrNotificationNotFound r) (\<lambda>n.
     bindM (operator_guard actor (n_channel_id n)) (\<lambda>_. returnM (n_card n, n_state n))))"

record MattermostActionSource =
  Ms_Attachments :: string
  Ms_PostID :: string
  Ms_ChannelID :: string

definition MattermostActionForNotification :: "string \<Rightarrow> User \<Rightarrow> MattermostActionSource store" where
  "MattermostActionForNotification notificationID actor =
     bindM (query (\<lambda>d. case List.find (\<lambda>n. n_id n = notificationID) (t_notifications d) of None \<Rightarrow> None
       | Some n \<Rightarrow> map_option (\<lambda>p. \<lparr>Ms_Attachments = n_attachments n, Ms_PostID = mp_id p, Ms_ChannelID = n_channel_id n\<rparr>)
           (List.find (\<lambda>p. mp_notification_id p = n_id n \<and> mp_root_id p = []) (t_posts d)))) (\<lambda>r.
     bindM (rowM ErrNotificationNotFound r) (\<lambda>source.
     bindM (operator_guard actor (Ms_ChannelID source)) (\<lambda>_. returnM source)))"

record ActionExecution =
  Ae_Key :: string
  Ae_Status :: string
  Ae_ResponseText :: string
  Ae_NotificationID :: string
  Ae_ActionIndex :: int
  Ae_UserID :: string

definition execution_of :: "execution_row \<Rightarrow> ActionExecution" where
  "execution_of x = \<lparr>Ae_Key = ex_operation_key x, Ae_Status = ex_status x, Ae_ResponseText = ex_response_text x, Ae_NotificationID = ex_notification_id x,
     Ae_ActionIndex = ex_action_index x, Ae_UserID = ex_user_id x\<rparr>"

text \<open>A reservation that is still running after a quarter of an hour is dropped first.\<close>

definition ReserveActionExecution :: "ActionExecution \<Rightarrow> gotime \<Rightarrow> (ActionExecution \<times> bool) store" where
  "ReserveActionExecution e now =
     bindM (sql_delete t_executions t_executions_update (\<lambda>_ x. ex_operation_key x = Ae_Key e \<and> ex_status x = ''running'' \<and> ex_created_at x < UnixMilli (now - 15 * Minute))) (\<lambda>_.
     tryM (sql_insert t_executions_update chk_executions
             \<lparr>ex_operation_key = Ae_Key e, ex_notification_id = Ae_NotificationID e, ex_action_index = Ae_ActionIndex e, ex_user_id = Ae_UserID e, ex_status = ''running'',
              ex_response_text = [], ex_created_at = UnixMilli now, ex_completed_at = None\<rparr>) (\<lambda>r. case r of
       Inr _ \<Rightarrow> returnM (e\<lparr>Ae_Status := ''running''\<rparr>, True)
     | Inl err \<Rightarrow> tryM (query (\<lambda>d. map_option execution_of (List.find (\<lambda>x. ex_operation_key x = Ae_Key e) (t_executions d)))) (\<lambda>q. case q of
         Inl _ \<Rightarrow> failM err
       | Inr None \<Rightarrow> failM err
       | Inr (Some existing) \<Rightarrow>
           bindM (requireM (Ae_NotificationID existing = Ae_NotificationID e \<and> Ae_ActionIndex existing = Ae_ActionIndex e \<and> Ae_UserID existing = Ae_UserID e) ErrImportConflict) (\<lambda>_.
           returnM (existing, False)))))"

definition CompleteActionExecution :: "string \<Rightarrow> string \<Rightarrow> string \<Rightarrow> User \<Rightarrow> gotime \<Rightarrow> 64 word \<Rightarrow> unit store" where
  "CompleteActionExecution key status responseText actor now rnd =
     tx (bindM (query (\<lambda>d. map_option ex_notification_id (List.find (\<lambda>x. ex_operation_key x = key) (t_executions d)))) (\<lambda>r.
         bindM (rowM ErrNoRows r) (\<lambda>notificationID.
         bindM (sql_update t_executions t_executions_update (\<lambda>_ x. ex_operation_key x = key)
                  (\<lambda>x. x\<lparr>ex_status := status, ex_response_text := responseText, ex_completed_at := Some (UnixMilli now)\<rparr>)) (\<lambda>_.
         bindM (query (\<lambda>d. map_option n_state (List.find (\<lambda>n. n_id n = notificationID) (t_notifications d)))) (\<lambda>r.
         bindM (rowM ErrNoRows r) (\<lambda>currentState.
         bindM (sql_insert t_events_update chk_events
                  \<lparr>e_id = newID ''evt_'' now rnd, e_notification_id = notificationID, e_state = currentState, e_raw_payload = Marshal (JObj [(''text'', JStr responseText)]),
                   e_created_at = UnixMilli now, e_actor_user_id = Some (User_ID actor)\<rparr>) (\<lambda>_.
         bindM (sql_update t_notifications t_notifications_update (\<lambda>_ n. n_id n = notificationID) (\<lambda>n. n\<lparr>n_updated_at := UnixMilli now\<rparr>)) (\<lambda>_.
         returnM (Commit ())))))))))"

record MattermostActionResult =
  Mr_Status :: string
  Mr_ResponseText :: string
  Mr_Actor :: string
  Mr_ActionIndex :: int
  Mr_CompletedAt :: gotime

text \<open>Attachment and action share one number: actions of attachment \<open>a\<close> start at \<open>10000 + 101 a\<close>.  Successes come first, each group with the latest first.\<close>

definition shown_results :: "db \<Rightarrow> string list \<Rightarrow> execution_row list" where
  "shown_results d ids = sort_key (\<lambda>x. (if ex_status x = ''succeeded'' then 0 else (1 :: int), - the (ex_completed_at x)))
     (filter (\<lambda>x. ex_notification_id x \<in> set ids \<and> ex_action_index x \<ge> 10000 \<and> (ex_status x = ''succeeded'' \<or> ex_status x = ''failed'') \<and> ex_completed_at x \<noteq> None) (t_executions d))"

definition result_of :: "db \<Rightarrow> execution_row \<Rightarrow> MattermostActionResult" where
  "result_of d x = \<lparr>Mr_Status = ex_status x, Mr_ResponseText = ex_response_text x,
     Mr_Actor = (case List.find (\<lambda>u. u_id u = ex_user_id x) (t_users d) of None \<Rightarrow> [] | Some u \<Rightarrow> u_username u),
     Mr_ActionIndex = (ex_action_index x - 10000) mod 101, Mr_CompletedAt = OfUnixMilli (the (ex_completed_at x))\<rparr>"

definition LatestMattermostActionResults :: "string list \<Rightarrow> (string \<Rightarrow> int \<Rightarrow> MattermostActionResult option) store" where
  "LatestMattermostActionResults notificationIDs =
     (if notificationIDs = [] then returnM (\<lambda>_ _. None)
      else query (\<lambda>d. fold (\<lambda>x results. let i = ex_notification_id x; a = (ex_action_index x - 10000) div 101 in
        if results i a = None then results(i := (results i)(a \<mapsto> result_of d x)) else results) (shown_results d notificationIDs) (\<lambda>_ _. None)))"

section \<open>Slash commands\<close>

record SlashCommand =
  Sc_ID :: string
  Sc_Team :: string
  Sc_Trigger :: string
  Sc_DisplayName :: string
  Sc_Description :: string
  Sc_Creator :: string
  Sc_Method :: string
  Sc_URL :: string
  Sc_TokenCipher :: string
  Sc_TokenHash :: string
  Sc_Autocomplete :: bool
  Sc_AllowPrivate :: bool
  Sc_AutocompleteHint :: string
  Sc_AutocompleteDescription :: string
  Sc_Username :: string
  Sc_IconURL :: string

definition command_of :: "slash_row \<Rightarrow> SlashCommand" where
  "command_of c = \<lparr>Sc_ID = sc_id c, Sc_Team = sc_team_name c, Sc_Trigger = sc_trigger_word c, Sc_DisplayName = sc_display_name c, Sc_Description = sc_description c,
     Sc_Creator = sc_creator c, Sc_Method = sc_method c, Sc_URL = sc_url c, Sc_TokenCipher = sc_token_cipher c, Sc_TokenHash = sc_token_hash c,
     Sc_Autocomplete = sc_autocomplete c, Sc_AllowPrivate = sc_allow_private c, Sc_AutocompleteHint = sc_autocomplete_hint c,
     Sc_AutocompleteDescription = sc_autocomplete_description c, Sc_Username = sc_username c, Sc_IconURL = sc_icon_url c\<rparr>"

text \<open>The fields an imported definition has to agree on with the stored one: all but the identifier and the encrypted token.\<close>

definition same_definition :: "SlashCommand \<Rightarrow> SlashCommand \<Rightarrow> bool" where
  "same_definition a b \<longleftrightarrow> Sc_Method a = Sc_Method b \<and> Sc_URL a = Sc_URL b \<and> Sc_TokenHash a = Sc_TokenHash b \<and> Sc_AllowPrivate a = Sc_AllowPrivate b \<and>
     Sc_DisplayName a = Sc_DisplayName b \<and> Sc_Description a = Sc_Description b \<and> Sc_Creator a = Sc_Creator b \<and> Sc_Autocomplete a = Sc_Autocomplete b \<and>
     Sc_AutocompleteHint a = Sc_AutocompleteHint b \<and> Sc_AutocompleteDescription a = Sc_AutocompleteDescription b \<and> Sc_Username a = Sc_Username b \<and> Sc_IconURL a = Sc_IconURL b"

definition slash_command_row :: "SlashCommand \<Rightarrow> string \<Rightarrow> gotime \<Rightarrow> slash_row" where
  "slash_command_row c i now = \<lparr>sc_id = i, sc_team_name = Sc_Team c, sc_trigger_word = Sc_Trigger c, sc_display_name = Sc_DisplayName c, sc_description = Sc_Description c,
     sc_creator = Sc_Creator c, sc_method = Sc_Method c, sc_url = Sc_URL c, sc_token_cipher = Sc_TokenCipher c, sc_token_hash = Sc_TokenHash c,
     sc_allow_private = Sc_AllowPrivate c, sc_autocomplete = Sc_Autocomplete c, sc_autocomplete_hint = Sc_AutocompleteHint c,
     sc_autocomplete_description = Sc_AutocompleteDescription c, sc_username = Sc_Username c, sc_icon_url = Sc_IconURL c, sc_created_at = UnixMilli now\<rparr>"

text \<open>One command of an import: its position chooses the clock readings and the random bits.\<close>

definition import_command :: "(nat \<Rightarrow> gotime \<times> gotime \<times> 64 word) \<Rightarrow> nat \<times> SlashCommand \<Rightarrow> string set \<times> nat \<times> nat \<Rightarrow> (string set \<times> nat \<times> nat) store" where
  "import_command clock kc acc = (case (kc, acc) of ((k, c), seen, created, existing) \<Rightarrow>
     let key = Sc_Team c @ [CHR 0x00] @ Sc_Trigger c in
     bindM (requireM (key \<notin> seen) (import_conflict ''duplicate slash command'')) (\<lambda>_.
     bindM (query (\<lambda>d. map_option command_of (List.find (\<lambda>x. sc_team_name x = Sc_Team c \<and> sc_trigger_word x = Sc_Trigger c) (t_slash d)))) (\<lambda>r. case r of
       Some current \<Rightarrow> bindM (requireM (same_definition current c) (import_conflict ''slash command definition differs'')) (\<lambda>_. returnM (insert key seen, created, existing + 1))
     | None \<Rightarrow> (case clock k of (now1, now2, rnd) \<Rightarrow>
         bindM (sql_insert t_slash_update chk_slash (slash_command_row c (newID ''cmd_'' now1 rnd) now2)) (\<lambda>_. returnM (insert key seen, created + 1, existing))))))"

definition ImportSlashCommands :: "(nat \<Rightarrow> gotime \<times> gotime \<times> 64 word) \<Rightarrow> SlashCommand list \<Rightarrow> (nat \<times> nat) store" where
  "ImportSlashCommands clock commands =
     tx (bindM (foldM (import_command clock) (enumerate 0 commands) ({}, 0, 0)) (\<lambda>(_, created, existing). returnM (Commit (created, existing))))"

text \<open>The channels of a team that an actor may see.\<close>

definition team_channels :: "db \<Rightarrow> string \<Rightarrow> User \<Rightarrow> (alias_row \<times> channel_row) list" where
  "team_channels d team actor = filter (\<lambda>(a, c). visible d (User_IsAdmin actor) (User_ID actor) c)
     (concat (map (\<lambda>a. case List.find (\<lambda>c. c_id c = ma_channel_id a) (t_channels d) of None \<Rightarrow> [] | Some c \<Rightarrow> [(a, c)]) (filter (\<lambda>a. ma_team_name a = team) (t_aliases d))))"

definition SlashCommands :: "string \<Rightarrow> User \<Rightarrow> SlashCommand list store" where
  "SlashCommands team actor = query (\<lambda>d. if team_channels d team actor = [] then []
     else map command_of (sort_key sc_trigger_word (filter (\<lambda>c. sc_team_name c = team) (t_slash d))))"

definition SlashCommandForActor :: "string \<Rightarrow> string \<Rightarrow> string \<Rightarrow> User \<Rightarrow> (SlashCommand \<times> string) store" where
  "SlashCommandForActor team trigger channel actor =
     bindM (query (\<lambda>d. case (List.find (\<lambda>c. sc_team_name c = team \<and> sc_trigger_word c = trigger) (t_slash d),
                             List.find (\<lambda>(a, c). ma_channel_name a = channel) (team_channels d team actor)) of
         (Some sc, Some (a, c)) \<Rightarrow> Some (command_of sc, c_id c) | _ \<Rightarrow> None)) (rowM ErrNotificationNotFound)"

definition TeamForChannel :: "string \<Rightarrow> string store" where
  "TeamForChannel channelID = bindM (query (\<lambda>d. map_option ma_team_name (List.find (\<lambda>a. ma_channel_id a = channelID) (t_aliases d)))) (rowM ErrNotificationNotFound)"

text \<open>Without an alias a trigger counts only when one team defines it.\<close>

definition SlashCommandForChannel :: "string \<Rightarrow> string \<Rightarrow> SlashCommand store" where
  "SlashCommandForChannel channelID trigger =
     tryM (TeamForChannel channelID) (\<lambda>r. case r of
       Inr team \<Rightarrow> bindM (query (\<lambda>d. map_option command_of (List.find (\<lambda>c. sc_team_name c = team \<and> sc_trigger_word c = trigger) (t_slash d)))) (rowM ErrNotificationNotFound)
     | Inl e \<Rightarrow> if e \<noteq> ErrNotificationNotFound then failM e
         else bindM (query (\<lambda>d. (List.find (\<lambda>c. sc_trigger_word c = trigger) (t_slash d), count_where (\<lambda>c. sc_trigger_word c = trigger) (t_slash d)))) (\<lambda>(first, matches).
              bindM (requireM (matches = 1) ErrNotificationNotFound) (\<lambda>_.
              bindM (rowM ErrNotificationNotFound first) (\<lambda>c. returnM (command_of c)))))"

section \<open>Executions and responses\<close>

record SlashCommandExecution =
  Se_ID :: string
  Se_CommandID :: string
  Se_ChannelID :: string
  Se_UserID :: string
  Se_Text :: string
  Se_ResponseTokenHash :: string
  Se_RequestKey :: string
  Se_ExpiresAt :: gotime

record SlashCommandResponse =
  Sr_ID :: string
  Sr_ExecutionID :: string
  Sr_UserID :: string
  Sr_ResponseType :: string
  Sr_Text :: string
  Sr_Payload :: string
  Sr_CreatedAt :: gotime

definition slash_execution_of :: "slash_exec_row \<Rightarrow> SlashCommandExecution" where
  "slash_execution_of e = \<lparr>Se_ID = se_id e, Se_CommandID = se_command_id e, Se_ChannelID = se_channel_id e, Se_UserID = se_user_id e, Se_Text = se_text e,
     Se_ResponseTokenHash = se_response_token_hash e, Se_RequestKey = se_request_key e, Se_ExpiresAt = OfUnixMilli (se_expires_at e)\<rparr>"

definition CreateSlashCommandExecution :: "SlashCommandExecution \<Rightarrow> gotime \<Rightarrow> 64 word \<Rightarrow> (SlashCommandExecution \<times> bool) store" where
  "CreateSlashCommandExecution e now rnd =
     (let e = e\<lparr>Se_ID := newID ''run_'' now rnd\<rparr> in
      tryM (sql_insert t_slash_execs_update chk_slash_execs
              \<lparr>se_id = Se_ID e, se_command_id = Se_CommandID e, se_channel_id = Se_ChannelID e, se_user_id = Se_UserID e, se_text = Se_Text e,
               se_response_token_hash = Se_ResponseTokenHash e, se_request_key = Se_RequestKey e, se_expires_at = UnixMilli (Se_ExpiresAt e), se_response_count = 0,
               se_created_at = UnixMilli now\<rparr>) (\<lambda>r. case r of
        Inr _ \<Rightarrow> returnM (e, True)
      | Inl err \<Rightarrow> tryM (query (\<lambda>d. map_option slash_execution_of (List.find (\<lambda>x. se_request_key x = Se_RequestKey e) (t_slash_execs d)))) (\<lambda>q. case q of
          Inl _ \<Rightarrow> failM err
        | Inr None \<Rightarrow> failM err
        | Inr (Some existing) \<Rightarrow>
            bindM (requireM (Se_CommandID existing = Se_CommandID e \<and> Se_ChannelID existing = Se_ChannelID e \<and> Se_UserID existing = Se_UserID e \<and> Se_Text existing = Se_Text e)
                     ErrImportConflict) (\<lambda>_.
            returnM (existing, False)))))"

definition AddSlashCommandResponse :: "string \<Rightarrow> string \<Rightarrow> string \<Rightarrow> string \<Rightarrow> gotime \<Rightarrow> 64 word \<Rightarrow> SlashCommandResponse store" where
  "AddSlashCommandResponse executionID responseType text' payload now0 rnd =
     (let now = OfUnixMilli (UnixMilli now0); i = newID ''rsp_'' now rnd in
      bindM (query (\<lambda>d. map_option se_user_id (List.find (\<lambda>e. se_id e = executionID) (t_slash_execs d)))) (\<lambda>r.
      bindM (rowM ErrNoRows r) (\<lambda>userID.
      bindM (sql_insert t_slash_responses_update chk_slash_responses
               \<lparr>sr_id = i, sr_execution_id = executionID, sr_user_id = userID, sr_response_type = responseType, sr_text = text', sr_payload = payload, sr_created_at = UnixMilli now\<rparr>) (\<lambda>_.
      returnM \<lparr>Sr_ID = i, Sr_ExecutionID = executionID, Sr_UserID = userID, Sr_ResponseType = responseType, Sr_Text = text', Sr_Payload = payload, Sr_CreatedAt = now\<rparr>))))"

text \<open>A response token is good for five responses before it expires.\<close>

definition UseSlashResponseToken :: "string \<Rightarrow> gotime \<Rightarrow> SlashCommandExecution store" where
  "UseSlashResponseToken tokenHash now =
     tx (bindM (query (\<lambda>d. List.find (\<lambda>e. se_response_token_hash e = tokenHash) (t_slash_execs d))) (\<lambda>r.
         bindM (rowM ErrNotificationNotFound r) (\<lambda>e.
         bindM (requireM (\<not> (UnixMilli now > se_expires_at e \<or> se_response_count e \<ge> 5)) ErrForbidden) (\<lambda>_.
         bindM (sql_update t_slash_execs t_slash_execs_update (\<lambda>_ x. se_id x = se_id e) (\<lambda>x. x\<lparr>se_response_count := se_response_count x + 1\<rparr>)) (\<lambda>_.
         returnM (Commit ((slash_execution_of e)\<lparr>Se_ResponseTokenHash := [], Se_RequestKey := []\<rparr>)))))))"

definition SlashCommandResponses :: "string \<Rightarrow> User \<Rightarrow> SlashCommandResponse list store" where
  "SlashCommandResponses executionID actor = query (\<lambda>d.
     map (\<lambda>(r, e). \<lparr>Sr_ID = sr_id r, Sr_ExecutionID = sr_execution_id r, Sr_UserID = sr_user_id r, Sr_ResponseType = sr_response_type r, Sr_Text = sr_text r, Sr_Payload = sr_payload r,
            Sr_CreatedAt = OfUnixMilli (sr_created_at r)\<rparr>)
       (sort_key (\<lambda>(r, e). (sr_created_at r, sr_id r)) (filter (\<lambda>(r, e). se_id e = executionID \<and>
          in_channels d (\<lambda>c. sr_user_id r = User_ID actor \<or> sr_response_type r = ''in_channel'' \<and> visible d (User_IsAdmin actor) (User_ID actor) c) (se_channel_id e)) (responses d))))"

section \<open>A response token is limited\<close>

datatype slash_op =
    OpImportCommands "nat \<Rightarrow> gotime \<times> gotime \<times> 64 word" "SlashCommand list"
  | OpExecute SlashCommandExecution gotime "64 word"
  | OpRespond string string string string gotime "64 word"
  | OpUseToken string gotime

text \<open>Whether the operation was a successful use of the token.\<close>

fun slash_exec :: "string \<Rightarrow> slash_op \<Rightarrow> bool store" where
  "slash_exec tok (OpImportCommands clock commands) = bindM (ImportSlashCommands clock commands) (\<lambda>_. returnM False)"
| "slash_exec tok (OpExecute e now rnd) = bindM (CreateSlashCommandExecution e now rnd) (\<lambda>_. returnM False)"
| "slash_exec tok (OpRespond i kind text' payload now rnd) = bindM (AddSlashCommandResponse i kind text' payload now rnd) (\<lambda>_. returnM False)"
| "slash_exec tok (OpUseToken hash now) = bindM (UseSlashResponseToken hash now) (\<lambda>_. returnM (hash = tok))"

fun token_uses :: "string \<Rightarrow> slash_op list \<Rightarrow> db world \<Rightarrow> nat" where
  "token_uses tok [] w = 0"
| "token_uses tok (op # ops) w = (case slash_exec tok op w of (r, w') \<Rightarrow> (if r = Inr True then 1 else 0) + token_uses tok ops w')"

text \<open>The uses so far are recorded in the row of the token.\<close>

definition used :: "string \<Rightarrow> nat \<Rightarrow> db \<Rightarrow> bool" where
  "used tok k d \<longleftrightarrow> keyed se_id (t_slash_execs d) \<and> keyed se_response_token_hash (t_slash_execs d) \<and>
     (\<forall>e \<in> set (t_slash_execs d). se_response_token_hash e = tok \<longrightarrow> int k \<le> se_response_count e \<and> se_response_count e \<le> 5) \<and>
     (0 < k \<longrightarrow> (\<exists>e \<in> set (t_slash_execs d). se_response_token_hash e = tok))"

lemma used_frame [simp]: "used tok k (t_slash_update f d) = used tok k d" "used tok k (t_slash_responses_update g d) = used tok k d"
  by (simp_all add: used_def)

lemma used_le: "used tok k d \<Longrightarrow> k \<le> 5"
  by (cases "k = 0") (fastforce simp: used_def)+

lemma used_insert:
  assumes "used tok k d" "chk_slash_execs d r = None" "se_response_count r = 0"
  shows "used tok k (t_slash_execs_update (\<lambda>xs. xs @ [r]) d)"
proof -
  from assms(2) have "\<forall>e \<in> set (t_slash_execs d). se_response_token_hash e \<noteq> se_response_token_hash r \<and> se_id e \<noteq> se_id r"
    by (auto simp: chk_slash_execs_def)
  with assms(1,3) show ?thesis by (cases "k = 0") (auto simp: used_def keyed_snoc)
qed

definition bump :: "string \<Rightarrow> db \<Rightarrow> db" where
  "bump i = t_slash_execs_update (upd_where (\<lambda>x. se_id x = i) (\<lambda>x. x\<lparr>se_response_count := se_response_count x + 1\<rparr>))"

lemma used_bump:
  assumes "used tok k d" "e \<in> set (t_slash_execs d)" "se_response_count e < 5"
  shows "used tok (if se_response_token_hash e = tok then k + 1 else k) (bump (se_id e) d)"
proof -
  let ?xs = "t_slash_execs d" and ?f = "\<lambda>x :: slash_exec_row. if se_id x = se_id e then x\<lparr>se_response_count := se_response_count x + 1\<rparr> else x"
  have k: "keyed se_id ?xs" "keyed se_response_token_hash ?xs" using assms(1) by (simp_all add: used_def)
  have one: "x = e" if "x \<in> set ?xs" "se_id x = se_id e \<or> se_response_token_hash x = se_response_token_hash e" for x
    using that keyed_unique [OF k(1) that(1) assms(2)] keyed_unique [OF k(2) that(1) assms(2)] by blast
  have b: "int k \<le> se_response_count x \<and> se_response_count x \<le> 5" if "x \<in> set ?xs" "se_response_token_hash x = tok" for x using assms(1) that by (simp add: used_def)
  define g k' where "g = ?f" and "k' = (if se_response_token_hash e = tok then k + 1 else k)"
  have bnd: "int k' \<le> se_response_count (g x) \<and> se_response_count (g x) \<le> 5"
    if "x \<in> set ?xs" "se_response_token_hash x = tok" for x
  proof (cases "x = e")
    case True
    with b [OF that] that(2) assms(3) show ?thesis by (auto simp: g_def k'_def)
  next
    case False
    with one [OF that(1)] that(2) have "se_id x \<noteq> se_id e" "se_response_token_hash e \<noteq> tok" by auto
    with b [OF that] show ?thesis by (simp add: g_def k'_def)
  qed
  have ex: "\<exists>x \<in> set ?xs. se_response_token_hash x = tok" if "0 < k'"
    using that assms(1,2) by (auto simp: used_def k'_def split: if_splits)
  have "se_response_token_hash (g x) = se_response_token_hash x" "se_id (g x) = se_id x" for x by (simp_all add: g_def)
  moreover have "t_slash_execs (bump (se_id e) d) = map g ?xs" by (simp add: bump_def upd_where_def g_def)
  ultimately have "used tok k' (bump (se_id e) d)"
    using k bnd ex by (simp add: used_def keyed_def comp_def)
  then show ?thesis by (simp only: k'_def)
qed

lemma use_token_sat:
  assumes "used tok k d"
  shows "sat (UseSlashResponseToken hash now) d (\<lambda>r d'. case r of Inl e \<Rightarrow> d' = d | Inr _ \<Rightarrow> used tok (if hash = tok then k + 1 else k) d')"
proof -
  have "used tok (if hash = tok then k + 1 else k) (bump (se_id e) d)"
    if "List.find (\<lambda>e. se_response_token_hash e = hash) (t_slash_execs d) = Some e" "\<not> 5 \<le> se_response_count e" for e
    using find_SomeD [OF that(1)] used_bump [OF assms, of e] that(2) by auto
  then show ?thesis unfolding UseSlashResponseToken_def by (intro sat_intro) (auto intro!: sat_intro simp: bump_def)
qed

lemma keeps_slash: "keeps (used tok k) (ImportSlashCommands clock cs)" "keeps (used tok k) (CreateSlashCommandExecution e now rnd)"
    "keeps (used tok k) (AddSlashCommandResponse i kind t p now rnd)"
  unfolding ImportSlashCommands_def import_command_def CreateSlashCommandExecution_def AddSlashCommandResponse_def Let_def
  by (intro keeps_intro; simp add: used_insert)+

lemma slash_exec_sat: "used tok k d \<Longrightarrow> sat (slash_exec tok op) d (\<lambda>r d'. used tok (if r = Inr True then k + 1 else k) d')"
proof (cases op)
  case (OpUseToken hash now)
  assume "used tok k d"
  then show ?thesis unfolding OpUseToken slash_exec.simps
    by (intro sat_bind sat_mono [OF use_token_sat]) (auto intro!: sat_return split: sum.splits)
qed (auto intro!: sat_bind sat_return sat_mono [OF keeps_sat [OF keeps_slash(1)]] sat_mono [OF keeps_sat [OF keeps_slash(2)]] sat_mono [OF keeps_sat [OF keeps_slash(3)]] split: sum.splits)

text \<open>Response tokens.  Whatever commands are imported, executed and answered, in whatever order and with whatever faults, a response
  token is accepted at most five times.\<close>

theorem response_token_limit:
  assumes "keyed se_id (t_slash_execs (wdb w))" and "keyed se_response_token_hash (t_slash_execs (wdb w))"
    and "\<forall>e \<in> set (t_slash_execs (wdb w)). 0 \<le> se_response_count e \<and> se_response_count e \<le> 5"
  shows "token_uses tok ops w \<le> 5"
proof -
  have "used tok k (wdb w) \<Longrightarrow> k + token_uses tok ops w \<le> 5" for k
  proof (induction ops arbitrary: k w)
    case Nil
    then show ?case using used_le by simp
  next
    case (Cons op ops)
    obtain r w' where r: "slash_exec tok op w = (r, w')" by (cases "slash_exec tok op w")
    from satD [OF slash_exec_sat [OF Cons.prems] r] Cons.IH [of _ w'] show ?case by (fastforce simp: r)
  qed
  from this [of 0] assms show ?thesis by (simp add: used_def)
qed

definition deploy_command :: slash_row where
  "deploy_command = \<lparr>sc_id = ''cmd_1'', sc_team_name = ''ops'', sc_trigger_word = ''deploy'', sc_display_name = [], sc_description = [], sc_creator = [], sc_method = ''POST'',
     sc_url = ''https://ci'', sc_token_cipher = [], sc_token_hash = [], sc_allow_private = False, sc_autocomplete = False, sc_autocomplete_hint = [],
     sc_autocomplete_description = [], sc_username = [], sc_icon_url = [], sc_created_at = 0\<rparr>"

definition deploy_execution :: SlashCommandExecution where
  "deploy_execution = \<lparr>Se_ID = [], Se_CommandID = ''cmd_1'', Se_ChannelID = ''c1'', Se_UserID = ''u2'', Se_Text = ''prod'', Se_ResponseTokenHash = ''tok'', Se_RequestKey = ''k1'',
     Se_ExpiresAt = 3600 * Second\<rparr>"

definition token_history :: "slash_op list" where
  "token_history = OpExecute deploy_execution Second 1 # replicate 7 (OpUseToken ''tok'' (2 * Second))"

text \<open>Of seven attempts with the token of an execution five are accepted.\<close>

theorem response_token_limit_witness:
  "token_uses ''tok'' token_history (up (reader_db\<lparr>t_slash := [deploy_command]\<rparr>)) = 5 \<and> token_uses ''tok'' token_history (up (reader_db\<lparr>t_slash := [deploy_command]\<rparr>)) \<le> 5"
proof
  show "token_uses ''tok'' token_history (up (reader_db\<lparr>t_slash := [deploy_command]\<rparr>)) = 5" by code_simp
  have "t_slash_execs (wdb (up (reader_db\<lparr>t_slash := [deploy_command]\<rparr>))) = []" by code_simp
  then show "token_uses ''tok'' token_history (up (reader_db\<lparr>t_slash := [deploy_command]\<rparr>)) \<le> 5" by (intro response_token_limit) (simp_all only: keyed_Nil list.set ball_empty)
qed

section \<open>An action is reserved once\<close>

datatype action_op =
    OpReserveAction ActionExecution gotime
  | OpCompleteAction string string string User gotime "64 word"
  | OpSaveTarget string string string bool gotime "64 word"
  | OpDeleteTarget string

fun action_exec :: "action_op \<Rightarrow> unit store" where
  "action_exec (OpReserveAction e now) = ignoreM (ReserveActionExecution e now)"
| "action_exec (OpCompleteAction key status response actor now rnd) = CompleteActionExecution key status response actor now rnd"
| "action_exec (OpSaveTarget name url auth private now rnd) = ignoreM (SaveActionTarget name url auth private now rnd)"
| "action_exec (OpDeleteTarget name) = DeleteActionTarget name"

text \<open>The reservation of a key is recent at a time, or has been completed.\<close>

definition reserved :: "string \<Rightarrow> gotime \<Rightarrow> db \<Rightarrow> bool" where
  "reserved key t d \<longleftrightarrow> (\<exists>x \<in> set (t_executions d). ex_operation_key x = key \<and> (ex_status x = ''running'' \<longrightarrow> UnixMilli t \<le> ex_created_at x))"

lemma reserved_frame [simp]: "reserved key t (t_targets_update f d) = reserved key t d" "reserved key t (t_events_update g d) = reserved key t d" "reserved key t (t_notifications_update h d) = reserved key t d"
  by (simp_all add: reserved_def)

text \<open>Reservations that take place before a time, and completions that end an execution.\<close>

fun before :: "gotime \<Rightarrow> action_op \<Rightarrow> bool" where
  "before t (OpReserveAction e now) = (now \<le> t)"
| "before t (OpCompleteAction key status response actor now rnd) = (status \<noteq> ''running'')"
| "before t _ = True"

lemma reserved_insert: "reserved key t d \<Longrightarrow> reserved key t (t_executions_update (\<lambda>xs. xs @ [r]) d)"
  by (auto simp: reserved_def)

lemma reserved_expire: "reserved key t d \<Longrightarrow> now - 15 * Minute \<le> t \<Longrightarrow>
    reserved key t (t_executions_update (del_where (\<lambda>x. ex_operation_key x = k \<and> ex_status x = ''running'' \<and> ex_created_at x < UnixMilli (now - 15 * Minute))) d)"
  using UnixMilli_mono [of "now - 15 * Minute" t] by (fastforce simp: reserved_def del_where_def)

lemma reserved_complete: "reserved key t d \<Longrightarrow> status \<noteq> ''running'' \<Longrightarrow>
    reserved key t (t_executions_update (upd_where (\<lambda>x. ex_operation_key x = k) (\<lambda>x. x\<lparr>ex_status := status, ex_response_text := response, ex_completed_at := at\<rparr>)) d)"
  by (auto simp: reserved_def bex_upd_where intro!: bexI)

lemma reserved_refuses: "reserved key t d \<Longrightarrow> chk_executions d r = None \<Longrightarrow> ex_operation_key r \<noteq> key"
  by (auto simp: reserved_def chk_executions_def)

lemma reserve_sat:
  assumes "now - 15 * Minute \<le> t"
  shows "reserved key t d \<Longrightarrow> sat (ReserveActionExecution e now) d (\<lambda>r d'. reserved key t d' \<and> (Ae_Key e = key \<longrightarrow> (\<forall>x fresh. r = Inr (x, fresh) \<longrightarrow> \<not> fresh)))"
proof -
  assume "reserved key t d"
  then have "reserved key t (t_executions_update (del_where (\<lambda>x. ex_operation_key x = Ae_Key e \<and> ex_status x = ''running'' \<and> ex_created_at x < UnixMilli (now - 15 * Minute))) d)"
    using assms by (rule reserved_expire)
  with \<open>reserved key t d\<close> show ?thesis unfolding ReserveActionExecution_def
    by (intro sat_seq [where R = "\<lambda>_. reserved key t"] sat_delete) (simp_all, auto intro!: sat_intro simp: reserved_insert, frule (1) reserved_refuses, simp)
qed

lemma keeps_action_exec:
  assumes "before (t + 15 * Minute) op"
  shows "keeps (reserved key t) (action_exec op)"
proof (cases op)
  case (OpReserveAction e now)
  with assms have "now - 15 * Minute \<le> t" by simp
  from reserve_sat [OF this] show ?thesis unfolding OpReserveAction action_exec.simps
    by (intro keepsI sat_ignoreM) (rule sat_mono, assumption, simp split: sum.splits)
qed (use assms in \<open>auto simp: CompleteActionExecution_def SaveActionTarget_def DeleteActionTarget_def reserved_complete intro!: keeps_intro\<close>)

interpretation reservations: lasting action_exec "before (t + 15 * Minute)" "reserved key t" for t key
  by unfold_locales (rule keeps_action_exec)

lemma reserve_reserved: "sat (ReserveActionExecution e now) d (\<lambda>r d'. \<forall>x. r = Inr (x, True) \<longrightarrow> reserved (Ae_Key e) now d')"
  unfolding ReserveActionExecution_def by (intro sat_intro) (auto intro!: sat_intro simp: reserved_def)

lemma complete_reserved:
  assumes "status \<noteq> ''running''"
  shows "sat (CompleteActionExecution key status response actor now rnd) d (\<lambda>r d'. r = Inr () \<longrightarrow> reserved key t d')"
proof -
  have "reserved key t (t_executions_update (upd_where (\<lambda>x. ex_operation_key x = key) (\<lambda>x. x\<lparr>ex_status := status, ex_response_text := response, ex_completed_at := at\<rparr>)) d)"
    if "List.find (\<lambda>x. ex_operation_key x = key) (t_executions d) = Some x" for x at
    using find_SomeD [OF that] assms by (auto simp: reserved_def bex_upd_where)
  then show ?thesis unfolding CompleteActionExecution_def by (intro sat_intro) (auto intro!: sat_intro)
qed

text \<open>C34: actions are carried out once.  After an action was reserved, or its execution completed, no reservation of the same key is new again:
  for a quarter of an hour after the reservation, and without limit after the completion, whatever else is reserved and completed and
  whatever fails.\<close>

theorem action_reserved_once:
  assumes "ReserveActionExecution e now w = (Inr (x, True), w1) \<and> T = now + 15 * Minute \<or>
      CompleteActionExecution (Ae_Key e) status response actor now rnd w = (Inr (), w1) \<and> status \<noteq> ''running''"
    and "list_all (before T) ops" and "now' \<le> T" and "Ae_Key e' = Ae_Key e"
    and "ReserveActionExecution e' now' (history action_exec ops w1) = (Inr (y, fresh), w2)"
  shows "\<not> fresh"
proof -
  have "reserved (Ae_Key e) (T - 15 * Minute) (wdb w1)"
    using assms(1) satD [OF reserve_reserved] satD [OF complete_reserved] by fastforce
  with assms(2) have "reserved (Ae_Key e) (T - 15 * Minute) (wdb (history action_exec ops w1))" by (intro reservations.lasts) simp_all
  from satD [OF reserve_sat [OF _ this] assms(5)] assms(3,4) show ?thesis by simp
qed

definition restart :: ActionExecution where
  "restart = \<lparr>Ae_Key = ''k1'', Ae_Status = [], Ae_ResponseText = [], Ae_NotificationID = ''n1'', Ae_ActionIndex = 0, Ae_UserID = ''u2''\<rparr>"

definition action_db :: db where
  "action_db = reader_db\<lparr>t_notifications := [plain_notification ''n1'' ''c1'' ''firing'' []]\<rparr>"

definition first_click :: "(err + ActionExecution \<times> bool) \<times> db world" where
  "first_click = ReserveActionExecution restart Second (up action_db)"

definition second_click :: "(err + ActionExecution \<times> bool) \<times> db world" where
  "second_click = ReserveActionExecution restart (30 * Second) (history action_exec [OpCompleteAction ''k1'' ''succeeded'' ''done'' reader (20 * Second) 1] (snd first_click))"

text \<open>The second click finds the result of the first.\<close>

theorem action_reserved_once_witness:
  "\<exists>y. fst second_click = Inr (y, False) \<and> Ae_Status y = ''succeeded''"
proof -
  have "map_sum id snd (fst first_click) = Inr True" by code_simp
  from run_Inr [OF this] obtain x where 1: "first_click = (Inr (x, True), snd first_click)" by auto
  have "map_sum id (Ae_Status \<circ> fst) (fst second_click) = Inr ''succeeded''" by code_simp
  from run_Inr [OF this] obtain y fresh where 2: "second_click = (Inr (y, fresh), snd second_click)" "Ae_Status y = ''succeeded''" by auto
  have "\<not> fresh"
  proof (rule action_reserved_once)
    show "ReserveActionExecution restart Second (up action_db) = (Inr (x, True), snd first_click) \<and> Second + 15 * Minute = Second + 15 * Minute \<or>
        CompleteActionExecution (Ae_Key restart) [] [] reader Second 1 (up action_db) = (Inr (), snd first_click) \<and> [] \<noteq> ''running''"
      using 1 unfolding first_click_def by simp
    show "ReserveActionExecution restart (30 * Second) (history action_exec [OpCompleteAction ''k1'' ''succeeded'' ''done'' reader (20 * Second) 1] (snd first_click)) = (Inr (y, fresh), snd second_click)"
      using 2(1) unfolding second_click_def by simp
    show "list_all (before (Second + 15 * Minute)) [OpCompleteAction ''k1'' ''succeeded'' ''done'' reader (20 * Second) 1]" by simp
    show "30 * Second \<le> Second + 15 * Minute" by (simp add: Minute_def Second_def)
  qed simp
  with 2 show ?thesis by (metis fst_conv)
qed

end
