(* ===== verification/Bots.thy ===== *)
theory Bots
  imports Timeline Accounts
begin

text \<open>
  The Mattermost compatibility of the store, in \<open>internal/store/store.go\<close> and \<open>mattermost_bot.go\<close>: bots with tokens, teams and channel
  grants, their posts, reactions and approvals.  SHA-256 and the random bytes of tokens are arguments.
\<close>

section \<open>Bots\<close>

record MattermostPost =
  Mp_ID :: string
  Mp_ChannelID :: string
  Mp_UserID :: string
  Mp_Message :: string
  Mp_RootID :: string
  Mp_CreateAt :: int
  Mp_Props :: string

record MattermostReaction =
  Rc_UserID :: string
  Rc_PostID :: string
  Rc_EmojiName :: string
  Rc_CreateAt :: int

definition alias_of :: "db \<Rightarrow> string \<Rightarrow> string \<Rightarrow> string option" where
  "alias_of d team name = map_option ma_channel_id (List.find (\<lambda>a. ma_team_name a = team \<and> ma_channel_name a = name) (t_aliases d))"

text \<open>The alias of a channel within a team: it must not lead elsewhere, which the two callers
  report with their own errors, and is added when it is missing.\<close>

definition ensure_alias :: "err \<Rightarrow> string \<Rightarrow> string \<Rightarrow> string \<Rightarrow> unit store" where
  "ensure_alias conflict teamName channelName channelID =
     bindM (query (\<lambda>d. alias_of d teamName channelName)) (\<lambda>r. case r of
       Some aliasChannel \<Rightarrow> requireM (aliasChannel = channelID) conflict
     | None \<Rightarrow> ignoreM (sql_insert t_aliases_update chk_aliases \<lparr>ma_team_name = teamName, ma_channel_name = channelName, ma_channel_id = channelID\<rparr>))"

text \<open>The second transaction of an import maps the token to the bot.\<close>

definition map_token :: "string \<Rightarrow> string \<Rightarrow> string \<Rightarrow> string \<Rightarrow> gotime \<Rightarrow> unit store" where
  "map_token hash username teamName channelName now =
     tx (bindM (query (\<lambda>d. map_option u_id (List.find (by_username username) (t_users d)))) (\<lambda>r.
         bindM (rowM (import_conflict ''bot user does not exist'') r) (\<lambda>userID.
         bindM (query (\<lambda>d. map_option c_id (List.find (\<lambda>c. c_name c = channelName) (t_channels d)))) (\<lambda>r.
         bindM (rowM ErrNoRows r) (\<lambda>channelID.
         bindM (ensure_alias (import_conflict ''Mattermost alias is mapped to another channel'') teamName channelName channelID) (\<lambda>_.
         bindM (query (\<lambda>d. List.find (\<lambda>b. bt_token_hash b = hash) (t_bot_tokens d))) (\<lambda>r. case r of
           Some b \<Rightarrow> bindM (requireM (bt_user_id b = userID \<and> bt_channel_id b = channelID \<and> bt_team_name b = teamName) (import_conflict ''bot token mapping differs'')) (\<lambda>_. returnM (Commit ()))
         | None \<Rightarrow>
             bindM (sql_insert t_bot_tokens_update chk_bot_tokens
                      \<lparr>bt_token_hash = hash, bt_user_id = userID, bt_channel_id = channelID, bt_team_name = teamName, bt_created_at = UnixMilli now\<rparr>) (\<lambda>_.
             returnM (Commit ())))))))))"

definition ImportMattermostBot :: "(string \<Rightarrow> string) \<Rightarrow> string \<Rightarrow> string \<Rightarrow> string \<Rightarrow> string \<Rightarrow> gotime \<Rightarrow> gotime \<Rightarrow> 64 word \<Rightarrow> 64 word \<Rightarrow> unit store" where
  "ImportMattermostBot sha256 token username teamName channelName now1 now2 rnd1 rnd2 =
     bindM (BootstrapWebhook sha256 token channelName now1 rnd1 rnd2) (\<lambda>_.
     map_token (sha256 token) username teamName channelName now2)"

definition null_scan :: err where
  "null_scan = ErrText ''converting NULL to string is unsupported''"

text \<open>A token without a webhook of the same hash fails in \<open>Scan\<close>.\<close>

definition AuthenticateMattermostBot :: "(string \<Rightarrow> string) \<Rightarrow> string \<Rightarrow> MattermostBot store" where
  "AuthenticateMattermostBot sha256 token =
     bindM (query (\<lambda>d. case List.find (\<lambda>b. bt_token_hash b = sha256 token) (t_bot_tokens d) of None \<Rightarrow> None
       | Some b \<Rightarrow> (case (List.find (\<lambda>u. u_id u = bt_user_id b) (t_users d), List.find (\<lambda>c. c_id c = bt_channel_id b) (t_channels d)) of
           (Some u, Some c) \<Rightarrow> Some (map_option (\<lambda>w. \<lparr>Bot_User = \<lparr>User_ID = u_id u, User_Username = u_username u, User_IsAdmin = u_is_admin u\<rparr>, Bot_WebhookID = w_id w,
               Bot_ChannelID = c_id c, Bot_ChannelName = c_name c, Bot_TeamName = bt_team_name b\<rparr>) (List.find (\<lambda>w. w_token_hash w = bt_token_hash b) (t_webhooks d)))
         | _ \<Rightarrow> None))) (\<lambda>r.
     bindM (rowM ErrInvalidCredentials r) (rowM null_scan))"

section \<open>Channels of a bot\<close>

definition bot_guard :: "MattermostBot \<Rightarrow> string \<Rightarrow> unit store" where
  "bot_guard mb channelID = bindM (BotChannelAuthorized mb channelID) (\<lambda>ok. requireM ok ErrForbidden)"

definition botChannelByID :: "MattermostBot \<Rightarrow> string \<Rightarrow> string store" where
  "botChannelByID mb channelID =
     bindM (query (\<lambda>d. map_option c_name (List.find (\<lambda>c. c_id c = channelID) (t_channels d)))) (\<lambda>r.
     bindM (rowM ErrNotificationNotFound r) (\<lambda>name.
     bindM (bot_guard mb channelID) (\<lambda>_. returnM name)))"

definition botChannelByTeamAlias :: "MattermostBot \<Rightarrow> string \<Rightarrow> (string \<times> string) store" where
  "botChannelByTeamAlias mb channelName =
     bindM (query (\<lambda>d. case alias_of d (Bot_TeamName mb) channelName of None \<Rightarrow> None
       | Some i \<Rightarrow> map_option (\<lambda>c. (i, c_name c)) (List.find (\<lambda>c. c_id c = i) (t_channels d)))) (\<lambda>r.
     bindM (rowM ErrNotificationNotFound r) (\<lambda>(channelID, name).
     bindM (bot_guard mb channelID) (\<lambda>_. returnM (channelID, name))))"

definition ResolveBotChannel :: "MattermostBot \<Rightarrow> string \<Rightarrow> (string \<times> string) store" where
  "ResolveBotChannel mb channelRef =
     (if channelRef = [] then failM ErrForbidden
      else tryM (botChannelByID mb channelRef) (\<lambda>r. case r of
        Inr name \<Rightarrow> returnM (channelRef, name)
      | Inl e \<Rightarrow> if e = ErrForbidden \<or> e = ErrNotificationNotFound then botChannelByTeamAlias mb channelRef else failM e))"

definition grantMattermostBotChannel :: "string \<Rightarrow> string \<Rightarrow> string \<Rightarrow> gotime \<Rightarrow> unit store" where
  "grantMattermostBotChannel hash teamName channelName now =
     tx (bindM (query (\<lambda>d. List.find (\<lambda>b. bt_token_hash b = hash) (t_bot_tokens d))) (\<lambda>r.
         bindM (rowM ErrInvalidCredentials r) (\<lambda>b.
         bindM (requireM (bt_team_name b = teamName) ErrForbidden) (\<lambda>_.
         bindM (query (\<lambda>d. map_option c_id (List.find (\<lambda>c. c_name c = channelName) (t_channels d)))) (\<lambda>r.
         bindM (rowM ErrNotificationNotFound r) (\<lambda>channelID.
         bindM (ensure_alias ErrImportConflict teamName channelName channelID) (\<lambda>_.
         bindM (sql_insert_ignore t_members t_members_update chk_members (\<lambda>m. (m_user_id m, m_channel_id m))
                  \<lparr>m_user_id = bt_user_id b, m_channel_id = channelID, m_role = ''viewer'', m_created_at = UnixMilli now\<rparr>) (\<lambda>_.
         returnM (Commit ())))))))))"

definition GrantMattermostBotChannel :: "(string \<Rightarrow> string) \<Rightarrow> string \<Rightarrow> string \<Rightarrow> string \<Rightarrow> gotime \<Rightarrow> unit store" where
  "GrantMattermostBotChannel sha256 token teamName channelName now = grantMattermostBotChannel (sha256 token) teamName channelName now"

definition GrantMattermostBotChannelByID :: "string \<Rightarrow> string \<Rightarrow> gotime \<Rightarrow> unit store" where
  "GrantMattermostBotChannelByID i channelName now =
     bindM (query (\<lambda>d. case List.find (\<lambda>w. w_id w = i) (t_webhooks d) of None \<Rightarrow> None
       | Some w \<Rightarrow> List.find (\<lambda>b. bt_token_hash b = w_token_hash w) (t_bot_tokens d))) (\<lambda>r.
     bindM (rowM ErrInvalidCredentials r) (\<lambda>b. grantMattermostBotChannel (bt_token_hash b) (bt_team_name b) channelName now))"

section \<open>Administration of bots\<close>

record MattermostBotSummary =
  Bs_ID :: string
  Bs_Username :: string
  Bs_Team :: string
  Bs_Channel :: string
  Bs_Channels :: "string list"
  Bs_CreatedAt :: gotime

text \<open>A bot joined with its user, its channel and its webhook, and the names of the other channels it was granted.\<close>

definition bot_rows :: "db \<Rightarrow> (bot_token_row \<Rightarrow> bool) \<Rightarrow> (bot_token_row \<times> user_row \<times> channel_row \<times> webhook_row) list" where
  "bot_rows d P = sort_key (\<lambda>(b, u, c, w). (nocase (u_username u), bt_created_at b))
     (concat (map (\<lambda>b. case (List.find (\<lambda>u. u_id u = bt_user_id b) (t_users d), List.find (\<lambda>c. c_id c = bt_channel_id b) (t_channels d), List.find (\<lambda>w. w_token_hash w = bt_token_hash b) (t_webhooks d)) of
        (Some u, Some c, Some w) \<Rightarrow> [(b, u, c, w)] | _ \<Rightarrow> []) (filter P (t_bot_tokens d))))"

definition bot_grants :: "string \<Rightarrow> string \<Rightarrow> string list store" where
  "bot_grants userID channelID = query (\<lambda>d. sort (map c_name (filter (\<lambda>c. c_id c \<noteq> channelID \<and> is_member d userID (c_id c)) (t_channels d))))"

definition listMattermostBots :: "(bot_token_row \<Rightarrow> bool) \<Rightarrow> MattermostBotSummary list store" where
  "listMattermostBots P =
     bindM (query (\<lambda>d. bot_rows d P)) (\<lambda>found.
     foldM (\<lambda>(b, u, c, w) bots. bindM (bot_grants (u_id u) (c_id c)) (\<lambda>channels.
       returnM (bots @ [\<lparr>Bs_ID = w_id w, Bs_Username = u_username u, Bs_Team = bt_team_name b, Bs_Channel = c_name c, Bs_Channels = channels,
         Bs_CreatedAt = OfUnixMilli (bt_created_at b)\<rparr>]))) found [])"

definition ListMattermostBots :: "MattermostBotSummary list store" where
  "ListMattermostBots = listMattermostBots (\<lambda>_. True)"

text \<open>A user without credentials that is neither an agent nor a bot.\<close>

definition reusable :: "db \<Rightarrow> user_row \<Rightarrow> bool" where
  "reusable d u \<longleftrightarrow> u_password_hash u = [] \<and> u_oidc_subject u = None \<and> \<not> exists_where (\<lambda>a. ag_user_id a = u_id u) (t_agents d) \<and>
     \<not> exists_where (\<lambda>b. bt_user_id b = u_id u) (t_bot_tokens d)"

definition bot_user :: "string \<Rightarrow> gotime \<Rightarrow> 64 word \<Rightarrow> unit store" where
  "bot_user username now rnd =
     bindM (query (\<lambda>d. List.find (by_username username) (t_users d))) (\<lambda>r. case r of
       Some u \<Rightarrow> bindM (query (\<lambda>d. exists_where (\<lambda>x. u_id x = u_id u \<and> reusable d x) (t_users d))) (\<lambda>ok. requireM ok (import_conflict ''username is already in use''))
     | None \<Rightarrow> ignoreM (sql_insert t_users_update chk_users (new_user_row (newID ''usr_'' now rnd) username [] False None now)))"

definition CreateMattermostBot :: "(string \<Rightarrow> string) \<Rightarrow> string \<Rightarrow> string \<Rightarrow> string \<Rightarrow> (nat \<Rightarrow> gotime) \<Rightarrow> (nat \<Rightarrow> 64 word) \<Rightarrow> string \<Rightarrow> (MattermostBotSummary \<times> string) store" where
  "CreateMattermostBot sha256 username teamName channelName now rnd secret =
     bindM (bot_user username (now 0) (rnd 0)) (\<lambda>_.
     let token = ''tmb_'' @ hex_bytes secret in
     bindM (ImportMattermostBot sha256 token username teamName channelName (now 1) (now 2) (rnd 1) (rnd 2)) (\<lambda>_.
     tryM (listMattermostBots (\<lambda>b. bt_token_hash b = sha256 token)) (\<lambda>r. case r of
       Inr [b] \<Rightarrow> returnM (b, token)
     | _ \<Rightarrow> failM (ErrText ''created bot not found''))))"

definition RevokeMattermostBot :: "string \<Rightarrow> gotime \<Rightarrow> unit store" where
  "RevokeMattermostBot i now =
     tx (bindM (query (\<lambda>d. map_option w_token_hash (List.find (\<lambda>w. w_id w = i) (t_webhooks d)))) (\<lambda>r.
         bindM (rowM ErrInvalidCredentials r) (\<lambda>hash.
         bindM (sql_delete t_bot_tokens t_bot_tokens_update (\<lambda>_ b. bt_token_hash b = hash)) (\<lambda>changed.
         bindM (requireM (changed \<noteq> 0) ErrInvalidCredentials) (\<lambda>_.
         bindM (sql_update t_webhooks t_webhooks_update (\<lambda>_ w. w_id w = i)
                  (\<lambda>w. w\<lparr>w_revoked_at := (case w_revoked_at w of None \<Rightarrow> Some (UnixMilli now) | Some t \<Rightarrow> Some t)\<rparr>)) (\<lambda>_.
         returnM (Commit ())))))))"

section \<open>Posts of bots\<close>

definition bot_defaults :: "MattermostBot \<Rightarrow> IncomingNotification \<Rightarrow> IncomingNotification" where
  "bot_defaults mb input = input\<lparr>In_State := (if In_State input = [] then ''received'' else In_State input),
     In_Username := (if In_Username input = [] then User_Username (Bot_User mb) else In_Username input),
     In_Attachments := (if In_Attachments input = [] then ''[]'' else In_Attachments input)\<rparr>"

definition CreateBotNotification :: "config \<Rightarrow> MattermostBot \<Rightarrow> string \<Rightarrow> string \<Rightarrow> IncomingNotification \<Rightarrow> gotime \<Rightarrow> 64 word \<Rightarrow> 64 word \<Rightarrow> Notification store" where
  "CreateBotNotification cfg mb channelID channelName input0 now rnd1 rnd2 =
     (let input = bot_defaults mb input0; i = newID ''ntf_'' now rnd1 in
      bindM (requireM (In_State input \<in> {''received'', ''firing'', ''acknowledged'', ''resolved''}) (ErrText ''unsupported notification state'')) (\<lambda>_.
      bindM (requireM (Bot_WebhookID mb \<noteq> []) ErrWebhookNotFound) (\<lambda>_.
      tx (bindM (sql_insert t_notifications_update chk_notifications (created_row i channelID (Bot_WebhookID mb) (input\<lparr>In_ExternalKey := []\<rparr>) now)) (\<lambda>_.
          bindM (insertNotificationEvent i (In_State input) (In_RawPayload input) now rnd2) (\<lambda>_.
          bindM (appendReplicationOperation cfg ''notification.created'' channelID ''bot'' (Bot_WebhookID mb)
                   (replicated_fields i input @ [(''channel_name'', JStr channelName), (''created_at'', JNum (show_int (UnixMilli now))), (''updated_at'', JNum (show_int (UnixMilli now)))]) now) (\<lambda>_.
          returnM (Commit (notification_of i channelID channelName input now now)))))))))"

definition MattermostPostChannel :: "string \<Rightarrow> string store" where
  "MattermostPostChannel postID = bindM (query (\<lambda>d. map_option mp_channel_id (List.find (\<lambda>p. mp_id p = postID) (t_posts d)))) (rowM ErrNotificationNotFound)"

definition with_props :: "string \<Rightarrow> string" where
  "with_props props = (if props = [] then ''{}'' else props)"

text \<open>A post is never stamped earlier than the last post of its channel.\<close>

definition last_post :: "db \<Rightarrow> string \<Rightarrow> int" where
  "last_post d channelID = (case map mp_created_at (filter (\<lambda>p. mp_channel_id p = channelID) (t_posts d)) of [] \<Rightarrow> 0 | t # ts \<Rightarrow> fold max ts t)"

text \<open>Raw JSON inside an encoded value: white space between tokens is dropped, and inside strings the characters that matter to HTML and
  the two line separators U+2028 and U+2029 are escaped.\<close>

fun compact_string :: "string \<Rightarrow> string" and compact :: "string \<Rightarrow> string" where
  "compact [] = []"
| "compact (c # r) = (if c = CHR 0x22 then c # compact_string r else if c \<in> {CHR '' '', CHR 0x09, CHR 0x0A, CHR 0x0D} then compact r else c # compact r)"
| "compact_string [] = []"
| "compact_string [c] = [c]"
| "compact_string (c # c2 # r) =
     (if c = CHR 0x22 then c # compact (c2 # r)
      else if c = CHR 0x5C then c # c2 # compact_string r
      else if c \<in> {CHR ''<'', CHR ''>'', CHR ''&''} then esc_ascii c @ compact_string (c2 # r)
      else if c = CHR 0xE2 \<and> c2 = CHR 0x80 \<and> r \<noteq> [] \<and> hd r \<in> {CHR 0xA8, CHR 0xA9}
        then (if hd r = CHR 0xA8 then [CHR 0x5C] @ ''u2028'' else [CHR 0x5C] @ ''u2029'') @ compact_string (tl r)
      else c # compact_string (c2 # r))"

text \<open>The payload of the event of a reply.  When the properties are not JSON, the encoder fails and its error is dropped, so that the payload
  is nil and the column refuses it.\<close>

definition reply_payload :: "string \<Rightarrow> string \<Rightarrow> string option" where
  "reply_payload message props = (if Unmarshal props = None then None
     else Some (''{'' @ quote ''props'' @ '':'' @ compact props @ '','' @ quote ''text'' @ '':'' @ quote message @ ''}''))"

definition reply_post :: "MattermostBot \<Rightarrow> string \<Rightarrow> string \<Rightarrow> string \<Rightarrow> string \<Rightarrow> string \<Rightarrow> gotime \<Rightarrow> 64 word \<Rightarrow> unit store" where
  "reply_post mb channelID message rootID props i now rnd =
     tx (bindM (query (\<lambda>d. map_option mp_notification_id (List.find (\<lambda>p. mp_id p = rootID \<and> mp_channel_id p = channelID) (t_posts d)))) (\<lambda>r.
         bindM (rowM ErrNotificationNotFound r) (\<lambda>rootNotification.
         bindM (query (\<lambda>d. map_option n_state (List.find (\<lambda>n. n_id n = rootNotification) (t_notifications d)))) (\<lambda>r.
         bindM (rowM ErrNoRows r) (\<lambda>state.
         bindM (rowM (ErrConstraint CheckViolation) (reply_payload message props)) (\<lambda>raw.
         bindM (sql_insert t_events_update chk_events \<lparr>e_id = newID ''evt_'' now rnd, e_notification_id = rootNotification, e_state = state, e_raw_payload = raw,
                  e_created_at = UnixMilli now, e_actor_user_id = Some (User_ID (Bot_User mb))\<rparr>) (\<lambda>_.
         bindM (sql_update t_notifications t_notifications_update (\<lambda>_ n. n_id n = rootNotification) (\<lambda>n. n\<lparr>n_updated_at := UnixMilli now\<rparr>)) (\<lambda>_.
         bindM (sql_insert t_posts_update chk_posts \<lparr>mp_id = i, mp_channel_id = channelID, mp_user_id = User_ID (Bot_User mb), mp_message = message, mp_root_id = rootID,
                  mp_notification_id = rootNotification, mp_props = props, mp_created_at = UnixMilli now\<rparr>) (\<lambda>_.
         returnM (Commit ()))))))))))"

definition legacy_post :: "MattermostBot \<Rightarrow> string \<Rightarrow> string \<Rightarrow> string \<Rightarrow> string \<Rightarrow> string \<Rightarrow> gotime \<Rightarrow> (nat \<Rightarrow> 64 word) \<Rightarrow> MattermostPost store" where
  "legacy_post mb channelID message rootID props notificationID now0 rnd =
     bindM (query (\<lambda>d. last_post d channelID)) (\<lambda>lastCreated.
     let now = after_stamp lastCreated now0; i = newID ''pst_'' now (rnd 0); props = with_props props in
     bindM (if rootID \<noteq> [] then reply_post mb channelID message rootID props i now (rnd 1)
            else ignoreM (sql_insert t_posts_update chk_posts \<lparr>mp_id = i, mp_channel_id = channelID, mp_user_id = User_ID (Bot_User mb), mp_message = message, mp_root_id = [],
                   mp_notification_id = notificationID, mp_props = props, mp_created_at = UnixMilli now\<rparr>)) (\<lambda>_.
     returnM \<lparr>Mp_ID = i, Mp_ChannelID = channelID, Mp_UserID = User_ID (Bot_User mb), Mp_Message = message, Mp_RootID = rootID, Mp_CreateAt = UnixMilli now, Mp_Props = props\<rparr>))"

text \<open>A reply to a native message becomes a native message.\<close>

definition RecordMattermostPost :: "MattermostBot \<Rightarrow> string \<Rightarrow> string \<Rightarrow> string \<Rightarrow> string \<Rightarrow> string \<Rightarrow> gotime \<Rightarrow> gotime \<Rightarrow> (nat \<Rightarrow> 64 word) \<Rightarrow> MattermostPost store" where
  "RecordMattermostPost mb channelID message rootID props notificationID now1 now2 rnd =
     (if rootID = [] then legacy_post mb channelID message rootID props notificationID now2 rnd
      else tryM (messageByID rootID) (\<lambda>r. case r of
        Inr root \<Rightarrow>
          bindM (requireM (Ch_ChannelID root = channelID) ErrNotificationNotFound) (\<lambda>_.
          bindM (createChannelMessage (Bot_User mb) \<lparr>Mi_ChannelID = channelID, Mi_Text = message, Mi_ParentID = rootID, Mi_IdempotencyKey = []\<rparr> now1 (rnd 2)) (\<lambda>reply.
          returnM \<lparr>Mp_ID = Ch_ID reply, Mp_ChannelID = channelID, Mp_UserID = User_ID (Bot_User mb), Mp_Message = Ch_Text reply, Mp_RootID = Ch_RootID reply,
            Mp_CreateAt = UnixMilli (Ch_CreatedAt reply), Mp_Props = with_props props\<rparr>))
      | Inl e \<Rightarrow> if e = ErrMessageNotFound then legacy_post mb channelID message rootID props notificationID now2 rnd else failM e))"

section \<open>What a bot sees\<close>

definition post_view :: "post_row \<Rightarrow> MattermostPost" where
  "post_view p = \<lparr>Mp_ID = mp_id p, Mp_ChannelID = mp_channel_id p, Mp_UserID = mp_user_id p, Mp_Message = mp_message p, Mp_RootID = mp_root_id p, Mp_CreateAt = mp_created_at p, Mp_Props = mp_props p\<rparr>"

definition native_view :: "message_row \<Rightarrow> MattermostPost" where
  "native_view m = \<lparr>Mp_ID = msg_id m, Mp_ChannelID = msg_channel_id m, Mp_UserID = msg_author_user_id m, Mp_Message = msg_text m,
     Mp_RootID = (if msg_parent_id m = None then [] else msg_root_id m), Mp_CreateAt = msg_created_at m, Mp_Props = ''{}''\<rparr>"

definition post_key :: "MattermostPost \<Rightarrow> int \<times> string" where
  "post_key p = (Mp_CreateAt p, Mp_ID p)"

definition ListMattermostPosts :: "string \<Rightarrow> int \<Rightarrow> MattermostPost list store" where
  "ListMattermostPosts channelID since =
     bindM (query (\<lambda>d. map post_view (sort_key (\<lambda>p. (mp_created_at p, mp_id p)) (filter (\<lambda>p. mp_channel_id p = channelID \<and> mp_created_at p > since) (t_posts d))))) (\<lambda>posts.
     bindM (query (\<lambda>d. map native_view (sort_key (\<lambda>m. (msg_created_at m, msg_id m))
       (filter (\<lambda>m. msg_channel_id m = channelID \<and> msg_created_at m > since \<and> msg_deleted_at m = None) (t_messages d))))) (\<lambda>native.
     returnM (sort_key post_key (posts @ native))))"

section \<open>Approvals\<close>

definition approvals :: "string set" where
  "approvals = {''white_check_mark'', ''x''}"

definition RecordMattermostApproval :: "string \<Rightarrow> User \<Rightarrow> string \<Rightarrow> gotime \<Rightarrow> 64 word \<Rightarrow> unit store" where
  "RecordMattermostApproval notificationID actor emoji now rnd =
     bindM (requireM (emoji \<in> approvals) ErrInvalidTransition) (\<lambda>_.
     tx (bindM (query (\<lambda>d. case List.find (\<lambda>p. mp_notification_id p = notificationID \<and> mp_root_id p = []) (t_posts d) of None \<Rightarrow> None
           | Some p \<Rightarrow> map_option (\<lambda>n. (mp_id p, mp_channel_id p, n_state n)) (List.find (\<lambda>n. n_id n = notificationID) (t_notifications d)))) (\<lambda>r.
         bindM (rowM ErrNotificationNotFound r) (\<lambda>(postID, channelID, state).
         bindM (whenM (\<not> User_IsAdmin actor) (bindM (query (\<lambda>d. has_role d (User_ID actor) channelID)) (\<lambda>allowed. requireM allowed ErrForbidden))) (\<lambda>_.
         bindM (sql_delete t_reactions t_reactions_update (\<lambda>_ x. mr_post_id x = postID \<and> mr_user_id x = User_ID actor \<and> mr_emoji_name x \<in> approvals)) (\<lambda>_.
         bindM (sql_insert t_reactions_update chk_reactions \<lparr>mr_post_id = postID, mr_user_id = User_ID actor, mr_emoji_name = emoji, mr_created_at = UnixMilli now\<rparr>) (\<lambda>_.
         bindM (sql_insert t_events_update chk_events \<lparr>e_id = newID ''evt_'' now rnd, e_notification_id = notificationID, e_state = state,
                  e_raw_payload = Marshal (JObj [(''text'', JStr (if emoji = ''x'' then ''Rejected'' else ''Approved''))]), e_created_at = UnixMilli now,
                  e_actor_user_id = Some (User_ID actor)\<rparr>) (\<lambda>_.
         bindM (sql_update t_notifications t_notifications_update (\<lambda>_ n. n_id n = notificationID) (\<lambda>n. n\<lparr>n_updated_at := UnixMilli now\<rparr>)) (\<lambda>_.
         returnM (Commit ()))))))))))"

definition ListMattermostReactions :: "string \<Rightarrow> string \<Rightarrow> MattermostReaction list store" where
  "ListMattermostReactions postID channelID =
     bindM (query (\<lambda>d. exists_where (\<lambda>p. mp_id p = postID \<and> mp_channel_id p = channelID) (t_posts d))) (\<lambda>belongs.
     bindM (requireM belongs ErrNotificationNotFound) (\<lambda>_.
     query (\<lambda>d. map (\<lambda>x. \<lparr>Rc_UserID = mr_user_id x, Rc_PostID = mr_post_id x, Rc_EmojiName = mr_emoji_name x, Rc_CreateAt = mr_created_at x\<rparr>)
       (sort_key (\<lambda>x. (mr_created_at x, mr_user_id x, mr_emoji_name x)) (filter (\<lambda>x. mr_post_id x = postID) (t_reactions d))))))"

section \<open>Revocation of a bot\<close>

datatype bot_op =
    OpImportBot string string string string gotime gotime "64 word" "64 word"
  | OpCreateBot string string string "nat \<Rightarrow> gotime" "nat \<Rightarrow> 64 word" string
  | OpGrantBot string string string gotime
  | OpGrantBotByID string string gotime
  | OpRevokeBot string gotime
  | OpBotNotification config MattermostBot string string IncomingNotification gotime "64 word" "64 word"
  | OpBotPost MattermostBot string string string string string gotime gotime "nat \<Rightarrow> 64 word"
  | OpApproval string User string gotime "64 word"

fun bot_exec :: "(string \<Rightarrow> string) \<Rightarrow> bot_op \<Rightarrow> unit store" where
  "bot_exec sha (OpImportBot token username team channel now1 now2 rnd1 rnd2) = ImportMattermostBot sha token username team channel now1 now2 rnd1 rnd2"
| "bot_exec sha (OpCreateBot username team channel now rnd secret) = ignoreM (CreateMattermostBot sha username team channel now rnd secret)"
| "bot_exec sha (OpGrantBot token team channel now) = GrantMattermostBotChannel sha token team channel now"
| "bot_exec sha (OpGrantBotByID i channel now) = GrantMattermostBotChannelByID i channel now"
| "bot_exec sha (OpRevokeBot i now) = RevokeMattermostBot i now"
| "bot_exec sha (OpBotNotification cfg mb cid name input now rnd1 rnd2) = ignoreM (CreateBotNotification cfg mb cid name input now rnd1 rnd2)"
| "bot_exec sha (OpBotPost mb cid message root props nid now1 now2 rnd) = ignoreM (RecordMattermostPost mb cid message root props nid now1 now2 rnd)"
| "bot_exec sha (OpApproval nid actor emoji now rnd) = RecordMattermostApproval nid actor emoji now rnd"

text \<open>The webhook of the token is there and revoked, and no bot has the token.\<close>

definition shut :: "string \<Rightarrow> db \<Rightarrow> bool" where
  "shut h d \<longleftrightarrow> (\<exists>w \<in> set (t_webhooks d). w_token_hash w = h) \<and> (\<forall>w \<in> set (t_webhooks d). w_token_hash w = h \<longrightarrow> w_revoked_at w \<noteq> None) \<and>
     (\<forall>b \<in> set (t_bot_tokens d). bt_token_hash b \<noteq> h)"

lemma shut_frame [simp]:
  "shut h (t_users_update f1 d) = shut h d" "shut h (t_channels_update f2 d) = shut h d" "shut h (t_settings_update f3 d) = shut h d" "shut h (t_aliases_update f4 d) = shut h d"
  "shut h (t_members_update f5 d) = shut h d" "shut h (t_notifications_update f6 d) = shut h d" "shut h (t_events_update f7 d) = shut h d" "shut h (t_posts_update f8 d) = shut h d"
  "shut h (t_messages_update f9 d) = shut h d" "shut h (t_commands_update f10 d) = shut h d" "shut h (t_reactions_update f11 d) = shut h d" "shut h (t_repl_ops_update f12 d) = shut h d"
  by (simp_all add: shut_def)

lemma shut_webhook: "shut h d \<Longrightarrow> w_token_hash r \<noteq> h \<Longrightarrow> shut h (t_webhooks_update (\<lambda>xs. xs @ [r]) d)"
  by (auto simp: shut_def)

lemma shut_revoke: "shut h d \<Longrightarrow> shut h (t_webhooks_update (upd_where P (\<lambda>w. w\<lparr>w_revoked_at := (case w_revoked_at w of None \<Rightarrow> Some at | Some t \<Rightarrow> Some t)\<rparr>)) d)"
  by (auto simp: shut_def ball_upd_where bex_upd_where split: option.splits)

lemma shut_tokens: "shut h d \<Longrightarrow> shut h (t_bot_tokens_update (del_where P) d)" "shut h d \<Longrightarrow> bt_token_hash b \<noteq> h \<Longrightarrow> shut h (t_bot_tokens_update (\<lambda>xs. xs @ [b]) d)"
  by (auto simp: shut_def del_where_def)

lemma shut_find:
  assumes "shut h d"
  obtains w t where "List.find (\<lambda>w. w_token_hash w = h) (t_webhooks d) = Some w" "w_revoked_at w = Some t"
proof (cases "List.find (\<lambda>w. w_token_hash w = h) (t_webhooks d)")
  case None
  with assms show ?thesis by (auto simp: shut_def dest: find_NoneD)
next
  case (Some w)
  with assms find_SomeD [OF Some] that show ?thesis by (auto simp: shut_def)
qed

text \<open>The token of a revoked webhook cannot be set up again.\<close>

lemma bootstrap_sat: "shut h d \<Longrightarrow> sat (BootstrapWebhook sha token name now rnd1 rnd2) d (\<lambda>r d'. shut h d' \<and> (r = Inr () \<longrightarrow> sha token \<noteq> h))"
proof (cases "sha token = h")
  case True
  assume h: "shut h d"
  from h obtain w t where "List.find (\<lambda>w. w_token_hash w = h) (t_webhooks d) = Some w" "w_revoked_at w = Some t" by (rule shut_find)
  with True h show ?thesis unfolding BootstrapWebhook_def by (intro sat_intro) (auto intro!: sat_intro)
next
  case False
  assume "shut h d"
  with False show ?thesis unfolding BootstrapWebhook_def by (intro sat_intro) (auto intro!: sat_intro simp: shut_webhook incoming_webhook_def)
qed

lemma keeps_ensure_alias [keeps_intro]: "(\<And>d f. I d \<Longrightarrow> I (t_aliases_update f d)) \<Longrightarrow> keeps I (ensure_alias e team name cid)"
  unfolding ensure_alias_def by (intro keeps_intro; simp)

lemma keeps_map_token: "hash \<noteq> h \<Longrightarrow> keeps (shut h) (map_token hash username team name now)"
  unfolding map_token_def by (intro keeps_intro; simp add: shut_tokens)

lemma keeps_import: "keeps (shut h) (ImportMattermostBot sha token username team name now1 now2 rnd1 rnd2)"
proof (rule keepsI)
  fix d assume h: "shut h d"
  show "sat (ImportMattermostBot sha token username team name now1 now2 rnd1 rnd2) d (\<lambda>r d'. shut h d')"
    unfolding ImportMattermostBot_def
    by (rule sat_seq [where R = "\<lambda>_ d'. shut h d' \<and> sha token \<noteq> h"], rule sat_mono [OF bootstrap_sat [OF h]])
       (auto split: sum.splits intro: keeps_sat [OF keeps_map_token])
qed

lemma shut_appended: "appended cfg d d' \<Longrightarrow> shut h d \<Longrightarrow> shut h d'"
  by (auto simp: appended_def)

lemma keeps_create_message: "(\<And>d f. I d \<Longrightarrow> I (t_messages_update f d)) \<Longrightarrow> (\<And>d f. I d \<Longrightarrow> I (t_commands_update f d)) \<Longrightarrow> keeps I (createChannelMessage actor input now rnd)"
  unfolding createChannelMessage_def store_message_def thread_root_def messageByID_def messageByIdempotencyKey_def scanChannelMessage_def enqueueCommand_def Let_def
  by (intro keeps_intro; simp)

lemma keeps_bot_exec: "keeps (shut h) (bot_exec sha op)"
proof (cases op)
  case (OpCreateBot username team channel now rnd secret)
  show ?thesis unfolding OpCreateBot bot_exec.simps CreateMattermostBot_def bot_user_def listMattermostBots_def bot_grants_def Let_def
    by (intro keeps_intro keeps_import; auto intro!: keeps_intro split: list.splits prod.splits)
next
  case (OpBotPost mb cid message root props nid now1 now2 rnd)
  show ?thesis unfolding OpBotPost bot_exec.simps RecordMattermostPost_def legacy_post_def reply_post_def messageByID_def scanChannelMessage_def Let_def
    by (intro keeps_intro keeps_create_message; simp)
qed (hypsubst; unfold bot_exec.simps GrantMattermostBotChannel_def GrantMattermostBotChannelByID_def grantMattermostBotChannel_def RevokeMattermostBot_def CreateBotNotification_def
       RecordMattermostApproval_def Let_def; intro keeps_intro keeps_import; simp add: shut_tokens shut_revoke shut_appended)+

interpretation closed_tokens: lasting_always "bot_exec sha" "shut h" for sha h
  by unfold_locales (rule keeps_bot_exec)

lemma revoke_shuts:
  assumes "keyed w_token_hash (t_webhooks d)" and "w \<in> set (t_webhooks d)" and "keyed w_id (t_webhooks d)"
  shows "sat (RevokeMattermostBot (w_id w) now) d (\<lambda>r d'. r = Inr () \<longrightarrow> shut (w_token_hash w) d')"
proof -
  have f: "List.find (\<lambda>x. w_id x = w_id w) (t_webhooks d) = Some w" using assms(2,3) by (simp add: keyed_find)
  have "x = w" if "x \<in> set (t_webhooks d)" "w_token_hash x = w_token_hash w" for x using keyed_unique [OF assms(1)] assms(2) that by blast
  then have "shut (w_token_hash w) (t_webhooks_update (upd_where (\<lambda>x. w_id x = w_id w) (\<lambda>w. w\<lparr>w_revoked_at := (case w_revoked_at w of None \<Rightarrow> Some (UnixMilli now) | Some t \<Rightarrow> Some t)\<rparr>))
      (t_bot_tokens_update (del_where (\<lambda>b. bt_token_hash b = w_token_hash w)) d))"
    using assms(2) by (auto simp: shut_def ball_upd_where bex_upd_where del_where_def split: option.splits)
  then show ?thesis unfolding RevokeMattermostBot_def by (intro sat_intro) (auto intro!: sat_intro simp: f)
qed

lemma shut_refuses: "shut h d \<Longrightarrow> h = sha token \<Longrightarrow> sat (AuthenticateMattermostBot sha token) d (\<lambda>r d'. \<exists>e. r = Inl e)"
  unfolding AuthenticateMattermostBot_def
  by (intro sat_intro) (auto intro!: sat_intro simp: shut_def dest: find_SomeD split: option.splits)

lemma shut_import:
  assumes "shut h d" and "h = sha token"
  shows "sat (ImportMattermostBot sha token username team name now1 now2 rnd1 rnd2) d (\<lambda>r d'. \<exists>e. r = Inl e)"
  unfolding ImportMattermostBot_def
  by (rule sat_seq [where R = "\<lambda>_ _. False"], rule sat_mono [OF bootstrap_sat [OF assms(1)]]) (auto simp: assms(2) split: sum.splits)

text \<open>C35: revocation of a bot.  Once a bot was revoked, its token is refused for ever: after whatever is done with bots, in whatever order and
  with whatever faults, authenticating with it fails, and so does importing it again, for any user, team and channel.\<close>

theorem revoked_bot_refused:
  assumes "RevokeMattermostBot (w_id h) now w = (Inr (), w1)" and "h \<in> set (t_webhooks (wdb w))" and "w_token_hash h = sha token"
    and "keyed w_id (t_webhooks (wdb w))" and "keyed w_token_hash (t_webhooks (wdb w))"
  shows "(\<exists>e. fst (AuthenticateMattermostBot sha token (history (bot_exec sha) ops w1)) = Inl e) \<and>
    (\<exists>e. fst (ImportMattermostBot sha token username team channel now1 now2 rnd1 rnd2 (history (bot_exec sha) ops w1)) = Inl e)"
proof -
  have "shut (sha token) (wdb w1)" using satD [OF revoke_shuts [OF assms(5,2,4)] assms(1)] assms(3) by simp
  then have closed: "shut (sha token) (wdb (history (bot_exec sha) ops w1))" by (rule closed_tokens.lasts_always)
  show ?thesis
    using sat_run [OF shut_refuses [where sha = sha and token = token, OF closed refl]]
      sat_run [OF shut_import [where sha = sha and token = token, OF closed refl]] by blast
qed

definition bot_db :: db where
  "bot_db = reader_db\<lparr>t_users := t_users reader_db @ [\<lparr>u_id = ''usr_tintwire_local_inbox'', u_username = ''tintwire-local-inbox'', u_password_hash = [], u_created_at = 0,
     u_is_admin = True, u_oidc_subject = None, u_disabled_at = None\<rparr>]\<rparr>"

definition created_bot :: "(err + MattermostBotSummary \<times> string) \<times> db world" where
  "created_bot = CreateMattermostBot id ''builder'' ''ops'' ''ops'' (\<lambda>_. Second) of_nat ''s'' (up bot_db)"

definition revoked_bot :: "(err + unit) \<times> db world" where
  "revoked_bot = RevokeMattermostBot (w_id (last (t_webhooks (wdb (snd created_bot))))) (2 * Second) (snd created_bot)"

text \<open>The token of a revoked bot is refused after it was imported once more.\<close>

theorem revoked_bot_refused_witness:
  "fst revoked_bot = Inr () \<and>
   (\<exists>e. fst (AuthenticateMattermostBot id ''tmb_73'' (history (bot_exec id) [OpImportBot ''tmb_73'' ''builder'' ''ops'' ''ops'' (3 * Second) (4 * Second) 7 8] (snd revoked_bot))) = Inl e) \<and>
   (\<exists>e. fst (ImportMattermostBot id ''tmb_73'' ''builder'' ''ops'' ''ops'' (5 * Second) (6 * Second) 9 10
      (history (bot_exec id) [OpImportBot ''tmb_73'' ''builder'' ''ops'' ''ops'' (3 * Second) (4 * Second) 7 8] (snd revoked_bot))) = Inl e)"
proof
  let ?d = "wdb (snd created_bot)"
  show r: "fst revoked_bot = Inr ()" by code_simp
  have "RevokeMattermostBot (w_id (last (t_webhooks ?d))) (2 * Second) (snd created_bot) = (Inr (), snd revoked_bot)"
    using r unfolding revoked_bot_def by (metis prod.collapse)
  moreover have "length (t_webhooks ?d) = 1" by code_simp
  then obtain h where "t_webhooks ?d = [h]" by (auto simp: length_Suc_conv)
  then have "last (t_webhooks ?d) \<in> set (t_webhooks ?d)" "keyed w_id (t_webhooks ?d)" "keyed w_token_hash (t_webhooks ?d)" by (simp_all add: keyed_def)
  moreover have "w_token_hash (last (t_webhooks ?d)) = id ''tmb_73''" by code_simp
  ultimately show "(\<exists>e. fst (AuthenticateMattermostBot id ''tmb_73'' (history (bot_exec id) [OpImportBot ''tmb_73'' ''builder'' ''ops'' ''ops'' (3 * Second) (4 * Second) 7 8] (snd revoked_bot))) = Inl e) \<and>
   (\<exists>e. fst (ImportMattermostBot id ''tmb_73'' ''builder'' ''ops'' ''ops'' (5 * Second) (6 * Second) 9 10
      (history (bot_exec id) [OpImportBot ''tmb_73'' ''builder'' ''ops'' ''ops'' (3 * Second) (4 * Second) 7 8] (snd revoked_bot))) = Inl e)"
    by (intro revoked_bot_refused)
qed

text \<open>The principal of the local inbox counts as a user without credentials.  A bot of that name is accepted and acts as an administrator.\<close>

lemma inbox_principal_reused:
  "map_sum id snd (fst (CreateMattermostBot id ''tintwire-local-inbox'' ''ops'' ''ops'' (\<lambda>_. Second) of_nat ''s'' (up bot_db))) = Inr ''tmb_73''"
  "map_sum id (User_IsAdmin \<circ> Bot_User) (fst (AuthenticateMattermostBot id ''tmb_73'' (snd (CreateMattermostBot id ''tintwire-local-inbox'' ''ops'' ''ops'' (\<lambda>_. Second) of_nat ''s'' (up bot_db))))) = Inr True"
  by code_simp+

section \<open>Channels and approvals\<close>

text \<open>A channel that a bot resolves is one it may use: every one for an administrator, its default channel, or one it was granted.\<close>

definition bot_may :: "MattermostBot \<Rightarrow> db \<Rightarrow> string \<Rightarrow> bool" where
  "bot_may mb d i \<longleftrightarrow> User_IsAdmin (Bot_User mb) \<or> i = Bot_ChannelID mb \<or> is_member d (User_ID (Bot_User mb)) i"

lemma bot_guard_sat: "sat (bot_guard mb i) d (\<lambda>r d'. (r = Inr () \<longrightarrow> bot_may mb d i) \<and> d' = d)"
  unfolding bot_guard_def BotChannelAuthorized_def by (intro sat_intro) (auto intro!: sat_intro simp: bot_may_def is_member_def count_where_pos)

lemma resolved_channel_allowed:
  assumes "ResolveBotChannel mb ref w = (Inr (cid, name), w')"
  shows "bot_may mb (wdb w) cid"
proof -
  have byid: "sat (botChannelByID mb i) d (\<lambda>r d'. (\<forall>n. r = Inr n \<longrightarrow> bot_may mb d i) \<and> d' = d)" for i d
    unfolding botChannelByID_def by (intro sat_intro) (auto intro!: sat_intro sat_mono [OF bot_guard_sat] split: sum.splits)
  have byalias: "sat (botChannelByTeamAlias mb r) d (\<lambda>r d'. \<forall>i n. r = Inr (i, n) \<longrightarrow> bot_may mb d i)" for r d
    unfolding botChannelByTeamAlias_def by (intro sat_intro) (auto intro!: sat_intro sat_mono [OF bot_guard_sat] split: sum.splits)
  have "sat (ResolveBotChannel mb ref) (wdb w) (\<lambda>r d'. \<forall>i n. r = Inr (i, n) \<longrightarrow> bot_may mb (wdb w) i)"
    unfolding ResolveBotChannel_def by (intro sat_intro sat_mono [OF byid]) (auto intro!: sat_intro sat_mono [OF byalias] split: sum.splits)
  from satD [OF this assms] show ?thesis by blast
qed

text \<open>An approval replaces the earlier decision of the same person: afterwards exactly one of the two reactions is theirs.\<close>

definition decided :: "string \<Rightarrow> User \<Rightarrow> string \<Rightarrow> gotime \<Rightarrow> db \<Rightarrow> db \<Rightarrow> bool" where
  "decided nid actor emoji now d d' \<longleftrightarrow> (\<exists>p \<in> set (t_posts d). mp_notification_id p = nid \<and>
    filter (\<lambda>x. mr_post_id x = mp_id p \<and> mr_user_id x = User_ID actor \<and> mr_emoji_name x \<in> approvals) (t_reactions d') =
    [\<lparr>mr_post_id = mp_id p, mr_user_id = User_ID actor, mr_emoji_name = emoji, mr_created_at = UnixMilli now\<rparr>])"

lemma decidedI:
  assumes "p \<in> set (t_posts d)" "emoji \<in> approvals"
    and "t_reactions d' = del_where (\<lambda>x. mr_post_id x = mp_id p \<and> mr_user_id x = User_ID actor \<and> mr_emoji_name x \<in> approvals) xs @
      [\<lparr>mr_post_id = mp_id p, mr_user_id = User_ID actor, mr_emoji_name = emoji, mr_created_at = UnixMilli now\<rparr>]"
  shows "decided (mp_notification_id p) actor emoji now d d'"
  using assms unfolding decided_def by (intro bexI [of _ p]) (auto simp: del_where_def filter_empty_conv)

lemma one_approval: "RecordMattermostApproval nid actor emoji now rnd w = (Inr (), w') \<Longrightarrow> decided nid actor emoji now (wdb w) (wdb w')"
proof -
  have "sat (RecordMattermostApproval nid actor emoji now rnd) d (\<lambda>r d'. r = Inr () \<longrightarrow> decided nid actor emoji now d d')" for d
    unfolding RecordMattermostApproval_def
    by (intro sat_intro) (auto intro!: sat_intro dest!: find_SomeD split: option.splits, (erule decidedI; simp)+)
  then show "RecordMattermostApproval nid actor emoji now rnd w = (Inr (), w') \<Longrightarrow> decided nid actor emoji now (wdb w) (wdb w')" using satD by fastforce
qed

end
