(* ===== verification/ToolCalls.thy ===== *)
theory ToolCalls
  imports Agents Timeline Accounts "HOL-Library.AList"
begin

text \<open>
  The mutation policy and the rate limits of the server, in \<open>internal/server/mcp.go\<close>, \<open>auth.go\<close>, \<open>server.go\<close> and \<open>push.go\<close>: windows of one minute that
  bound the calls of a key, the lock on failed sign-ins, and the wrapper that gives every mutating tool an idempotency key.
\<close>

section \<open>Rate limits\<close>

record rateWindow =
  w_count :: int
  w_start :: gotime

text \<open>The map of the windows, with one entry for each key.\<close>

type_synonym limiter = "(string \<times> rateWindow) list"

definition newToolLimiter :: limiter where
  "newToolLimiter = []"

definition window_over :: "gotime \<Rightarrow> rateWindow \<Rightarrow> bool" where
  "window_over now v \<longleftrightarrow> now - w_start v \<ge> Minute"

definition delete_expired :: "gotime \<Rightarrow> limiter \<Rightarrow> limiter" where
  "delete_expired now l = filter (\<lambda>(name, v). \<not> window_over now v) l"

definition open_window :: "string \<Rightarrow> gotime \<Rightarrow> limiter \<Rightarrow> limiter" where
  "open_window key now l =
     (let l' = AList.update key \<lparr>w_count = 1, w_start = now\<rparr> l in if length l' > 4096 then delete_expired now l' else l')"

definition allow :: "string \<Rightarrow> int \<Rightarrow> gotime \<Rightarrow> limiter \<Rightarrow> bool \<times> limiter" where
  "allow key limit now l =
     (case map_of l key of
        None \<Rightarrow>
          if length l \<ge> 4096 then
            (let l' = delete_expired now l in if length l' \<ge> 4096 then (False, l') else (True, open_window key now l'))
          else (True, open_window key now l)
      | Some window \<Rightarrow>
          if window_over now window then (True, open_window key now l)
          else if w_count window \<ge> limit then (False, l)
          else (True, AList.update key (window\<lparr>w_count := w_count window + 1\<rparr>) l))"

definition blocked :: "string \<Rightarrow> int \<Rightarrow> gotime \<Rightarrow> limiter \<Rightarrow> bool" where
  "blocked key limit now l = (case map_of l key of None \<Rightarrow> False | Some window \<Rightarrow> \<not> window_over now window \<and> w_count window \<ge> limit)"

definition recordFailure :: "string \<Rightarrow> gotime \<Rightarrow> limiter \<Rightarrow> limiter" where
  "recordFailure key now l =
     (case map_of l key of
        None \<Rightarrow> if length l \<ge> 4096 then l else AList.update key \<lparr>w_count = 1, w_start = now\<rparr> l
      | Some window \<Rightarrow>
          AList.update key (if window_over now window then \<lparr>w_count = 1, w_start = now\<rparr> else window\<lparr>w_count := w_count window + 1\<rparr>) l)"

definition clear :: "string \<Rightarrow> limiter \<Rightarrow> limiter" where
  "clear key l = AList.delete key l"

text \<open>The map has distinct keys and at most 4096 of them, and every window counts at least the call that opened it.\<close>

definition limiter_ok :: "limiter \<Rightarrow> bool" where
  "limiter_ok l \<longleftrightarrow> distinct (map fst l) \<and> length l \<le> 4096 \<and> (\<forall>w \<in> set (map snd l). 1 \<le> w_count w)"

lemma length_update: "distinct (map fst l) \<Longrightarrow> length (AList.update k v l) = (if map_of l k = None then Suc (length l) else length l)"
  by (induction l) (auto simp: map_of_eq_None_iff dest: map_of_SomeD, force)

lemma distinct_delete_expired: "distinct (map fst l) \<Longrightarrow> distinct (map fst (delete_expired now l))"
  by (simp add: delete_expired_def distinct_map_filter)

lemma length_delete_expired: "length (delete_expired now l) \<le> length l"
  by (simp add: delete_expired_def)

lemma map_of_delete_expired:
  "distinct (map fst l) \<Longrightarrow> map_of (delete_expired now l) k = (case map_of l k of None \<Rightarrow> None | Some v \<Rightarrow> if window_over now v then None else Some v)"
  by (induction l) (auto simp: delete_expired_def map_of_eq_None_iff split: option.splits)

lemma values_update: "w \<in> set (map snd (AList.update k v l)) \<Longrightarrow> w = v \<or> w \<in> set (map snd l)"
  by (induction l) (auto split: if_splits)

lemma limiter_ok_update: "limiter_ok l \<Longrightarrow> length l < 4096 \<or> map_of l key \<noteq> None \<Longrightarrow> 1 \<le> w_count v \<Longrightarrow> limiter_ok (AList.update key v l)"
  unfolding limiter_ok_def by (auto simp: length_update distinct_update simp del: set_map dest!: values_update)

lemma open_window_eq: "limiter_ok l \<Longrightarrow> length l < 4096 \<or> map_of l key \<noteq> None \<Longrightarrow> open_window key now l = AList.update key \<lparr>w_count = 1, w_start = now\<rparr> l"
  by (auto simp: open_window_def limiter_ok_def Let_def length_update)

lemma limiter_ok_delete_expired: "limiter_ok l \<Longrightarrow> limiter_ok (delete_expired now l)"
  using length_delete_expired [of now l] by (auto simp: limiter_ok_def distinct_delete_expired) (auto simp: delete_expired_def)

lemma limiter_ok_count: "limiter_ok l \<Longrightarrow> map_of l key = Some w \<Longrightarrow> 1 \<le> w_count w"
  by (force simp: limiter_ok_def dest: map_of_SomeD)

lemma limiter_ok_more: "limiter_ok l \<Longrightarrow> map_of l key = Some w \<Longrightarrow> limiter_ok (AList.update key (w\<lparr>w_count := w_count w + 1\<rparr>) l)"
  using limiter_ok_count [of l key w] by (intro limiter_ok_update) simp_all

lemma values_delete: "w \<in> set (map snd (AList.delete k l)) \<Longrightarrow> w \<in> set (map snd l)"
  by (induction l) (auto split: if_splits)

datatype limiter_op = Allow string int gotime | Failure string gotime | Clear string

fun limiter_exec :: "limiter_op \<Rightarrow> limiter \<Rightarrow> limiter" where
  "limiter_exec (Allow key limit now) l = snd (allow key limit now l)"
| "limiter_exec (Failure key now) l = recordFailure key now l"
| "limiter_exec (Clear key) l = clear key l"

lemma allow_ok: "limiter_ok l \<Longrightarrow> limiter_ok (snd (allow key limit now l))"
  by (auto simp: allow_def Let_def open_window_eq limiter_ok_delete_expired limiter_ok_update limiter_ok_more split: option.splits)

lemma failure_ok: "limiter_ok l \<Longrightarrow> limiter_ok (recordFailure key now l)"
  by (auto simp: recordFailure_def limiter_ok_update limiter_ok_more split: option.splits)

lemma clear_ok: "limiter_ok l \<Longrightarrow> limiter_ok (clear key l)"
  using length_delete_le [of key l] unfolding limiter_ok_def clear_def by (auto simp: distinct_delete simp del: set_map dest!: values_delete)

lemma limiter_exec_ok: "limiter_ok l \<Longrightarrow> limiter_ok (limiter_exec op l)"
  by (cases op) (simp_all add: allow_ok failure_ok clear_ok)

text \<open>How many calls of a key a history accepts.\<close>

fun accepted :: "string \<Rightarrow> limiter_op list \<Rightarrow> limiter \<Rightarrow> nat" where
  "accepted key [] l = 0"
| "accepted key (op # ops) l =
     (case op of Allow k limit now \<Rightarrow> if k = key \<and> fst (allow k limit now l) then 1 else 0 | _ \<Rightarrow> 0) + accepted key ops (limiter_exec op l)"

text \<open>The operations of one minute in which a key is only asked for with one limit: no failure is recorded under it and it is not cleared.\<close>

fun within :: "gotime \<Rightarrow> string \<Rightarrow> int \<Rightarrow> limiter_op \<Rightarrow> bool" where
  "within t key limit (Allow k n now) \<longleftrightarrow> t \<le> now \<and> now < t + Minute \<and> (k = key \<longrightarrow> n = limit)"
| "within t key limit (Failure k now) \<longleftrightarrow> t \<le> now \<and> now < t + Minute \<and> k \<noteq> key"
| "within t key limit (Clear k) \<longleftrightarrow> k \<noteq> key"

text \<open>What the window of a key still accepts, and after it a window that is opened within the minute.\<close>

definition budget :: "gotime \<Rightarrow> string \<Rightarrow> int \<Rightarrow> limiter \<Rightarrow> nat" where
  "budget t key limit l =
     (case map_of l key of None \<Rightarrow> nat limit
      | Some w \<Rightarrow> nat (limit - w_count w) + (if t \<le> w_start w then 0 else nat limit))"

lemma budget_cong: "map_of l' key = map_of l key \<Longrightarrow> budget t key limit l' = budget t key limit l"
  by (simp add: budget_def)

lemma budget_fresh: "budget t key limit (AList.update key \<lparr>w_count = 1, w_start = now\<rparr> l) = nat (limit - 1) + (if t \<le> now then 0 else nat limit)"
  by (simp add: budget_def update_conv')

lemma budget_expired:
  "limiter_ok l \<Longrightarrow> now < t + Minute \<Longrightarrow> budget t key limit (delete_expired now l) \<le> budget t key limit l"
  by (auto simp: budget_def limiter_ok_def map_of_delete_expired window_over_def split: option.splits)

lemma budget_other: "k \<noteq> key \<Longrightarrow> budget t key limit (AList.update k v l) = budget t key limit l"
  by (rule budget_cong) (simp add: update_conv')

lemma budget_asked:
  assumes "limiter_ok l" "t \<le> now" "now < t + Minute" "1 \<le> limit"
  shows "(if fst (allow key limit now l) then 1 else 0) + budget t key limit (snd (allow key limit now l)) \<le> budget t key limit l"
proof (cases "map_of l key")
  case None
  have ok: "limiter_ok (delete_expired now l)" using assms(1) by (rule limiter_ok_delete_expired)
  have none: "map_of (delete_expired now l) key = None" using assms(1) None by (simp add: limiter_ok_def map_of_delete_expired)
  from None none assms show ?thesis
    by (auto simp: allow_def Let_def open_window_eq [OF assms(1)] open_window_eq [OF ok] budget_fresh) (auto simp: budget_def)
next
  case (Some w)
  with assms show ?thesis
    by (auto simp: allow_def open_window_eq [OF assms(1)] budget_fresh) (auto simp: budget_def update_conv' window_over_def)
qed

lemma budget_others:
  assumes "limiter_ok l" "now < t + Minute" "k \<noteq> key"
  shows "budget t key limit (snd (allow k n now l)) \<le> budget t key limit l"
proof -
  have ok: "limiter_ok (delete_expired now l)" using assms(1) by (rule limiter_ok_delete_expired)
  show ?thesis using budget_expired [OF assms(1,2), of key limit] assms(3)
    by (auto simp: allow_def Let_def open_window_eq [OF assms(1)] open_window_eq [OF ok] budget_other split: option.splits)
qed

lemma budget_drops:
  assumes "limiter_ok l" "within t key limit op" "1 \<le> limit"
  shows "accepted key [op] l + budget t key limit (limiter_exec op l) \<le> budget t key limit l"
proof (cases op)
  case (Allow k n now)
  with assms budget_asked [OF assms(1), of t now limit key] budget_others [OF assms(1), of now t k key limit n] show ?thesis
    by (cases "k = key") auto
next
  case (Failure k now)
  with assms show ?thesis by (auto simp: recordFailure_def budget_other split: option.splits)
next
  case (Clear k)
  with assms budget_cong [of "AList.delete k l" key l t limit] show ?thesis by (simp add: clear_def delete_conv')
qed

lemma accepted_budget:
  "limiter_ok l \<Longrightarrow> list_all (within t key limit) ops \<Longrightarrow> 1 \<le> limit \<Longrightarrow> accepted key ops l \<le> budget t key limit l"
proof (induction ops arbitrary: l)
  case (Cons op ops)
  have "accepted key (op # ops) l = accepted key [op] l + accepted key ops (limiter_exec op l)" by simp
  also have "\<dots> \<le> accepted key [op] l + budget t key limit (limiter_exec op l)"
    using Cons.IH [OF limiter_exec_ok [OF Cons.prems(1)]] Cons.prems by simp
  also have "\<dots> \<le> budget t key limit l" using Cons.prems by (intro budget_drops) simp_all
  finally show ?case .
qed simp

lemma limiter_fold_ok: "limiter_ok l \<Longrightarrow> limiter_ok (fold limiter_exec ops l)"
  by (induction ops arbitrary: l) (simp_all add: limiter_exec_ok)

text \<open>C39: rates.  In any minute, whatever happens to other keys, a key is accepted at most twice as often as its limit says, and no more often than
  its limit when it had no window from before that minute; the limiter never holds more than 4096 windows.\<close>

theorem rate_limited:
  assumes "limiter_ok l" and "list_all (within t key limit) ops" and "1 \<le> limit"
  shows "accepted key ops l \<le> 2 * nat limit \<and>
    ((\<forall>w. map_of l key = Some w \<longrightarrow> t \<le> w_start w) \<longrightarrow> accepted key ops l \<le> nat limit) \<and>
    limiter_ok (fold limiter_exec ops l)"
proof -
  have "budget t key limit l \<le> 2 * nat limit" "(\<forall>w. map_of l key = Some w \<longrightarrow> t \<le> w_start w) \<longrightarrow> budget t key limit l \<le> nat limit"
    using assms(3) limiter_ok_count [OF assms(1), of key] by (force simp: budget_def split: option.splits)+
  with accepted_budget [OF assms] limiter_fold_ok [OF assms(1)] show ?thesis by auto
qed

definition busy_minute :: "limiter_op list" where
  "busy_minute = [Allow ''a'' 2 5, Allow ''b'' 7 6, Allow ''a'' 2 7, Failure ''c'' 8, Allow ''a'' 2 9, Clear ''b'']"

theorem rate_limited_witness:
  "accepted ''a'' busy_minute newToolLimiter = 2 \<and> limiter_ok (fold limiter_exec busy_minute newToolLimiter)"
proof -
  have 1: "limiter_ok newToolLimiter" "list_all (within 0 ''a'' 2) busy_minute" by code_simp+
  have "accepted ''a'' busy_minute newToolLimiter = 2" by code_simp
  with rate_limited [OF 1] show ?thesis by simp
qed

section \<open>Failed sign-ins\<close>

datatype login_result = TooMany | Unauthorized | Unable err | Authenticated User

text \<open>The part of the handler \<open>login\<close> between the decoded request and the new session.  The keys are those of the client's address with and without
  the user name, the clock is read before the password is checked and for each record of a failure.\<close>

definition login_check :: "(string \<Rightarrow> string \<Rightarrow> bool) \<Rightarrow> string \<Rightarrow> string \<Rightarrow> string \<Rightarrow> string \<Rightarrow> gotime \<times> gotime \<times> gotime \<Rightarrow> limiter \<Rightarrow> db world \<Rightarrow>
    login_result \<times> limiter \<times> db world" where
  "login_check bc loginKey addressKey username password clock l w =
     (case clock of (now, t1, t2) \<Rightarrow>
      if blocked loginKey 8 now l \<or> blocked addressKey 40 now l then (TooMany, l, w)
      else case AuthenticateUser bc username password w of
        (Inl e, w') \<Rightarrow> if e = ErrInvalidCredentials then (Unauthorized, recordFailure addressKey t2 (recordFailure loginKey t1 l), w') else (Unable e, clear loginKey l, w')
      | (Inr user, w') \<Rightarrow> (Authenticated user, clear loginKey l, w'))"

text \<open>A sequence of attempts with the keys of one client and one name, and how many wrong passwords it tries before something else than a refusal.\<close>

fun rejected :: "(string \<Rightarrow> string \<Rightarrow> bool) \<Rightarrow> string \<Rightarrow> string \<Rightarrow> string \<Rightarrow> (string \<times> gotime \<times> gotime \<times> gotime) list \<Rightarrow> limiter \<Rightarrow> db world \<Rightarrow> nat" where
  "rejected bc loginKey addressKey username [] l w = 0"
| "rejected bc loginKey addressKey username ((password, clock) # as) l w =
     (case login_check bc loginKey addressKey username password clock l w of
        (Unauthorized, l', w') \<Rightarrow> Suc (rejected bc loginKey addressKey username as l' w')
      | (TooMany, l', w') \<Rightarrow> rejected bc loginKey addressKey username as l' w'
      | _ \<Rightarrow> 0)"

definition in_minute :: "gotime \<Rightarrow> string \<times> gotime \<times> gotime \<times> gotime \<Rightarrow> bool" where
  "in_minute t a \<longleftrightarrow> (case a of (_, now, t1, t2) \<Rightarrow> now < t + Minute \<and> t1 < t + Minute)"

lemma recorded_again:
  "map_of l loginKey = Some v \<Longrightarrow> loginKey \<noteq> addressKey \<Longrightarrow> \<not> window_over t1 v \<Longrightarrow>
   map_of (recordFailure addressKey t2 (recordFailure loginKey t1 l)) loginKey = Some (v\<lparr>w_count := w_count v + 1\<rparr>)"
  by (simp add: recordFailure_def update_conv' split: option.splits)

text \<open>Once a failure of this minute is on record, the wrong passwords a client can try for a name within the minute are eight in all.\<close>

lemma failures_locked:
  assumes "map_of l loginKey = Some v" "t \<le> w_start v" "loginKey \<noteq> addressKey" "list_all (in_minute t) as"
  shows "rejected bc loginKey addressKey username as l w \<le> nat (8 - w_count v)"
  using assms
proof (induction as arbitrary: l w v)
  case (Cons a as)
  obtain password now t1 t2 where a: "a = (password, now, t1, t2)" by (cases a)
  have live: "\<not> window_over now v" "\<not> window_over t1 v" using Cons.prems(2,4) by (auto simp: window_over_def in_minute_def a)
  have refused: "rejected bc loginKey addressKey username as l w \<le> nat (8 - w_count v)" for w
    using Cons.prems by (intro Cons.IH) auto
  show ?case
  proof (cases "w_count v \<ge> 8")
    case True
    with live Cons.prems(1) refused show ?thesis by (simp add: a login_check_def blocked_def)
  next
    case False
    let ?l = "recordFailure addressKey t2 (recordFailure loginKey t1 l)"
    have "rejected bc loginKey addressKey username as ?l w \<le> nat (8 - (w_count v + 1))" for w
      using Cons.IH [OF recorded_again [OF Cons.prems(1,3) live(2)], of t2 w] Cons.prems by simp
    moreover have "nat (8 - w_count v) = Suc (nat (8 - (w_count v + 1)))" using False by simp
    ultimately show ?thesis using refused by (auto simp: a login_check_def split: prod.splits sum.splits)
  qed
qed simp

text \<open>When the limiter is full of other keys, failures leave no record and nothing is locked.\<close>

lemma full_limiter_unlocked:
  assumes "length l \<ge> 4096" "map_of l loginKey = None" "map_of l addressKey = None" "login_check bc loginKey addressKey username password clock l w = (r, l', w')"
  shows "r \<noteq> TooMany \<and> (r = Unauthorized \<longrightarrow> l' = l)"
  using assms by (auto simp: login_check_def blocked_def recordFailure_def split: prod.splits sum.splits if_splits)

section \<open>Mutating tools\<close>

text \<open>The result of a tool is a map of values, some of which \<open>encoding/json\<close> may not be able to encode; the encoder sorts its keys.\<close>

type_synonym tool_value = "(string \<times> json option) list"

datatype tool_outcome = toolSuccess tool_value | toolReplay json | toolFailure string

definition encode_value :: "tool_value \<Rightarrow> string option" where
  "encode_value r = map_option (\<lambda>ms. Marshal (JObj ms)) (those (map (\<lambda>(k, v). map_option (Pair k) v) (sort_key fst r)))"

definition operation_char :: "char \<Rightarrow> bool" where
  "operation_char c \<longleftrightarrow> (let b = of_char c :: nat in 48 \<le> b \<and> b \<le> 57 \<or> 65 \<le> b \<and> b \<le> 90 \<or> 97 \<le> b \<and> b \<le> 122) \<or>
     c \<in> {CHR ''.'', CHR ''_'', CHR '':'', CHR ''-''}"

definition operationKeyPattern :: "string \<Rightarrow> bool" where
  "operationKeyPattern key \<longleftrightarrow> 8 \<le> length key \<and> length key \<le> 128 \<and> list_all operation_char key"

definition runIDFromArguments :: "string \<Rightarrow> string" where
  "runIDFromArguments arguments = str_field ''run_id'' (members_of arguments) []"

definition notificationIDFromResult :: "tool_value \<Rightarrow> string" where
  "notificationIDFromResult result = (case map_of result ''id'' of Some (Some (JStr i)) \<Rightarrow> i | _ \<Rightarrow> [])"

definition mcpErrorMessage :: "err \<Rightarrow> string" where
  "mcpErrorMessage e =
     (if errorsIs ErrForbidden e then ''This agent is not allowed to act on that channel.''
      else if errorsIs ErrNotificationNotFound e then ''Notification not found.''
      else if errorsIs ErrMessageNotFound e then ''Message not found.''
      else if errorsIs ErrRunNotFound e then ''Run not found for this agent.''
      else if errorsIs ErrInvalidTransition e then ''That transition is not valid from the current state.''
      else if errorsIs ErrImportConflict e then ''That operation conflicts with an existing record.''
      else if IsAlreadyExists e then ''That record already exists.''
      else ''The operation failed.'')"

text \<open>What is stored for a replay: the result without its publishing token.\<close>

definition replayable :: "tool_value \<Rightarrow> string" where
  "replayable result = (case encode_value (filter (\<lambda>(k, _). k \<noteq> ''publishing_token'') result) of Some s \<Rightarrow> s | None \<Rightarrow> [])"

definition mcpMutate :: "(string \<Rightarrow> string) \<Rightarrow> string \<Rightarrow> string \<Rightarrow> string \<Rightarrow> string \<Rightarrow> (tool_value \<times> string) store \<Rightarrow> gotime \<Rightarrow> gotime \<Rightarrow> 64 word \<Rightarrow> tool_outcome store" where
  "mcpMutate sha agentID tool key arguments doApply now t rnd =
     (if \<not> operationKeyPattern key then returnM (toolFailure ''A stable idempotency_key of 8 to 128 characters is required.'')
      else tryM (ReserveAgentToolInvocation agentID key tool (sha arguments) now) (\<lambda>r. case r of
        Inl e \<Rightarrow> returnM (toolFailure
          (if e = ErrImportConflict then ''This idempotency_key was already used for different arguments.''
           else if e = ErrInvalidTransition then ''An identical call is still in progress. Retry shortly.''
           else ''Unable to record this operation.''))
      | Inr (stored, fresh) \<Rightarrow>
          if \<not> fresh then returnM (toolReplay (case Unmarshal stored of Some v \<Rightarrow> v | None \<Rightarrow> JObj [(''replayed'', JBool True)]))
          else tryM doApply (\<lambda>a. case a of
            Inl e \<Rightarrow> tryM (ReleaseAgentToolInvocation agentID key) (\<lambda>_. returnM (toolFailure (mcpErrorMessage e)))
          | Inr (result, effect) \<Rightarrow>
              bindM (case encode_value result of None \<Rightarrow> returnM () | Some _ \<Rightarrow> tryM (CompleteAgentToolInvocation agentID key (replayable result)) (\<lambda>_. returnM ())) (\<lambda>_.
              bindM (let runID = runIDFromArguments arguments in
                 if effect \<noteq> [] \<and> runID \<noteq> [] \<and> tool \<noteq> ''notifications.set_state.v1''
                 then tryM (RecordAgentRunEvent agentID runID tool effect (notificationIDFromResult result) t rnd) (\<lambda>_. returnM ())
                 else returnM ()) (\<lambda>_.
              returnM (toolSuccess result))))))"

text \<open>A key is answered when the invocations hold a completed call of it; they have one call per agent and key.\<close>

definition answered :: "string \<Rightarrow> string \<Rightarrow> string \<Rightarrow> string \<Rightarrow> db \<Rightarrow> bool" where
  "answered agent key tool fingerprint d \<longleftrightarrow>
     (\<exists>x \<in> set (t_invocations d). iv_agent_id x = agent \<and> iv_idempotency_key x = key) \<and>
     (\<forall>x \<in> set (t_invocations d). iv_agent_id x = agent \<and> iv_idempotency_key x = key \<longrightarrow>
        iv_tool x = tool \<and> iv_request_fingerprint x = fingerprint \<and> iv_status x = ''completed'')"

lemma answered_frame [simp]:
  "answered a k t f (t_users_update f1 d) = answered a k t f d" "answered a k t f (t_credentials_update f2 d) = answered a k t f d" "answered a k t f (t_runs_update f3 d) = answered a k t f d"
  "answered a k t f (t_run_events_update f4 d) = answered a k t f d" "answered a k t f (t_webhooks_update f5 d) = answered a k t f d"
  "answered a k t f (t_notifications_update f6 d) = answered a k t f d" "answered a k t f (t_events_update f7 d) = answered a k t f d"
  "answered a k t f (t_incidents_update f8 d) = answered a k t f d" "answered a k t f (t_monitors_update f9 d) = answered a k t f d"
  "answered a k t f (t_agents_update f10 d) = answered a k t f d" "answered a k t f (t_presence_update f11 d) = answered a k t f d"
  by (simp_all add: answered_def)

lemma answered_insert: "answered a k t f d \<Longrightarrow> chk_invocations d r = None \<Longrightarrow> answered a k t f (t_invocations_update (\<lambda>xs. xs @ [r]) d)"
  by (auto simp: answered_def chk_invocations_def)

lemma answered_delete:
  "answered a k t f d \<Longrightarrow> (\<And>x. P x \<Longrightarrow> iv_status x = ''running'') \<Longrightarrow> answered a k t f (t_invocations_update (del_where P) d)"
  by (force simp: answered_def del_where_def)

lemma answered_complete: "answered a k t f d \<Longrightarrow> answered a k t f (t_invocations_update (upd_where P (\<lambda>x. x\<lparr>iv_status := ''completed'', iv_result := result\<rparr>)) d)"
  by (auto simp: answered_def ball_upd_where bex_upd_where intro!: bexI)

lemma keeps_reserve: "keeps (answered a k t f) (ReserveAgentToolInvocation agent key tool fingerprint now)"
  unfolding ReserveAgentToolInvocation_def by (intro keeps_intro; auto simp: answered_insert intro!: answered_delete)

lemma keeps_complete: "keeps (answered a k t f) (CompleteAgentToolInvocation agent key result)"
  unfolding CompleteAgentToolInvocation_def by (intro keeps_intro; simp add: answered_complete)

lemma keeps_release: "keeps (answered a k t f) (ReleaseAgentToolInvocation agent key)"
  unfolding ReleaseAgentToolInvocation_def by (intro keeps_intro; auto intro!: answered_delete)

lemma keeps_answered: "keeps (answered a k t f) (agent_exec sha op)"
  by (cases op; hypsubst; unfold agent_exec.simps CreateAgent_def AgentForToken_def RevokeAgent_def StartAgentRun_def FinishAgentRun_def RecordAgentRunEvent_def running_run_def
        CreateFromAgent_def CreatePlaygroundNotification_def channelNameByID_def RequireChannelOperator_def agentWebhook_def ReportAgentPresence_def ChannelIDByName_def newAgentToken_def Let_def prod.case;
      intro keeps_intro keeps_reserve keeps_complete keeps_release; simp)

lemma answered_find:
  "answered a k t f d \<Longrightarrow> \<exists>x. List.find (\<lambda>x. iv_agent_id x = a \<and> iv_idempotency_key x = k) (t_invocations d) = Some x \<and>
     iv_tool x = t \<and> iv_request_fingerprint x = f \<and> iv_status x = ''completed''"
  by (cases "List.find (\<lambda>x. iv_agent_id x = a \<and> iv_idempotency_key x = k) (t_invocations d)") (auto simp: answered_def find_None_iff dest: find_SomeD)

lemma answered_refuses: "answered a k t f d \<Longrightarrow> iv_agent_id r = a \<Longrightarrow> iv_idempotency_key r = k \<Longrightarrow> chk_invocations d r \<noteq> None"
  by (auto simp: answered_def chk_invocations_def exists_where_def)

lemma answered_kept:
  assumes "answered a k t f d"
  shows "t_invocations_update (del_where (\<lambda>x. iv_agent_id x = a \<and> iv_idempotency_key x = k \<and> iv_status x = ''running'' \<and> P x)) d = d"
proof -
  have "del_where (\<lambda>x. iv_agent_id x = a \<and> iv_idempotency_key x = k \<and> iv_status x = ''running'' \<and> P x) (t_invocations d) = t_invocations d"
    using assms by (force simp: answered_def del_where_def filter_id_conv)
  then show ?thesis by (cases d) simp
qed

text \<open>A reservation of an answered key is never fresh, and changes nothing.\<close>

lemma reserve_answered:
  assumes "answered a k t f d"
  shows "sat (ReserveAgentToolInvocation a k tool fingerprint now) d
    (\<lambda>r d'. d' = d \<and> (\<forall>s fresh. r = Inr (s, fresh) \<longrightarrow> \<not> fresh \<and> tool = t \<and> fingerprint = f))"
proof -
  obtain x where x: "List.find (\<lambda>x. iv_agent_id x = a \<and> iv_idempotency_key x = k) (t_invocations d) = Some x"
    "iv_tool x = t" "iv_request_fingerprint x = f" using answered_find [OF assms] by blast
  have ins: "chk_invocations d r = None \<Longrightarrow> iv_agent_id r = a \<Longrightarrow> iv_idempotency_key r = k \<Longrightarrow> False" for r
    using answered_refuses [OF assms] by blast
  show ?thesis
    unfolding ReserveAgentToolInvocation_def
    by (intro sat_intro; (simp only: answered_kept [OF assms])?) (auto intro!: sat_intro simp: x dest: ins)
qed

interpretation answered_keys: lasting_always "agent_exec sha" "answered a k t f" for sha a k t f
  by unfold_locales (rule keeps_answered)

lemma mutate_answered:
  assumes "answered a k t f d"
  shows "sat (mcpMutate sha a tool k arguments doApply now time rnd) d
    (\<lambda>r d'. d' = d \<and> (\<exists>out. r = Inr out \<and> (\<forall>v. out \<noteq> toolSuccess v) \<and> (\<forall>v. out = toolReplay v \<longrightarrow> tool = t \<and> sha arguments = f)))"
proof (cases "operationKeyPattern k")
  case True
  show ?thesis
    unfolding mcpMutate_def if_not_P [of "\<not> operationKeyPattern k", OF not_not [THEN iffD2, OF True]]
    by (rule sat_try, rule sat_mono [OF reserve_answered [OF assms]]) (auto intro!: sat_intro split: sum.splits)
next
  case False
  then show ?thesis by (simp add: mcpMutate_def) (intro sat_intro; simp)
qed

text \<open>The operation of a tool does not touch the invocations.\<close>

definition leaves_invocations :: "'a store \<Rightarrow> bool" where
  "leaves_invocations m \<longleftrightarrow> (\<forall>d. \<exists>r d'. m (up d) = (r, up d') \<and> t_invocations d' = t_invocations d)"

lemma keeps_record: "keeps (answered a k t f) (RecordAgentRunEvent agent run tool effect nid now rnd)"
  unfolding RecordAgentRunEvent_def running_run_def Let_def by (intro keeps_intro; simp)

text \<open>A fresh reservation on a healthy engine is the only one of its key.\<close>

definition only_call :: "string \<Rightarrow> string \<Rightarrow> string \<Rightarrow> string \<Rightarrow> db \<Rightarrow> bool" where
  "only_call agent key tool fingerprint d \<longleftrightarrow>
     (\<exists>x \<in> set (t_invocations d). iv_agent_id x = agent \<and> iv_idempotency_key x = key) \<and>
     (\<forall>x \<in> set (t_invocations d). iv_agent_id x = agent \<and> iv_idempotency_key x = key \<longrightarrow> iv_tool x = tool \<and> iv_request_fingerprint x = fingerprint)"

lemma reserve_up:
  obtains (fresh) d' where "ReserveAgentToolInvocation a k tool f now (up d) = (Inr ([], True), up d')" "only_call a k tool f d'"
  | (other) r d' where "ReserveAgentToolInvocation a k tool f now (up d) = (r, up d')" "\<forall>s. r \<noteq> Inr (s, True)"
proof -
  let ?d = "t_invocations_update (del_where (\<lambda>x. iv_agent_id x = a \<and> iv_idempotency_key x = k \<and> iv_status x = ''running'' \<and> iv_created_at x < UnixMilli now - 15 * 60 * 1000)) d"
  let ?r = "\<lparr>iv_agent_id = a, iv_idempotency_key = k, iv_tool = tool, iv_request_fingerprint = f, iv_status = ''running'', iv_result = [], iv_created_at = UnixMilli now\<rparr>"
  show thesis
  proof (cases "chk_invocations ?d ?r")
    case None
    then have "only_call a k tool f (t_invocations_update (\<lambda>xs. xs @ [?r]) ?d)" by (auto simp: only_call_def chk_invocations_def violation_def exists_where_def split: if_splits)
    moreover have "ReserveAgentToolInvocation a k tool f now (up d) = (Inr ([], True), up (t_invocations_update (\<lambda>xs. xs @ [?r]) ?d))"
      using None by (simp add: ReserveAgentToolInvocation_def sql_simps)
    ultimately show ?thesis using fresh by blast
  next
    case (Some c)
    have "\<exists>r d'. ReserveAgentToolInvocation a k tool f now (up d) = (r, up d') \<and> (\<forall>s. r \<noteq> Inr (s, True))"
    proof (cases "List.find (\<lambda>x. iv_agent_id x = a \<and> iv_idempotency_key x = k) (t_invocations ?d)")
      case None
      with Some show ?thesis by (simp add: ReserveAgentToolInvocation_def sql_simps)
    next
      case x: (Some x)
      with Some show ?thesis
        by (cases "iv_tool x = tool \<and> iv_request_fingerprint x = f"; cases "iv_status x = ''completed''") (auto simp: ReserveAgentToolInvocation_def sql_simps)
    qed
    with other show ?thesis by blast
  qed
qed

lemma complete_answers: "only_call a k tool f d \<Longrightarrow> \<exists>d'. CompleteAgentToolInvocation a k result (up d) = (Inr (), up d') \<and> answered a k tool f d'"
  by (auto simp: CompleteAgentToolInvocation_def sql_simps ignoreM_def answered_def only_call_def ball_upd_where bex_upd_where intro!: bexI)

text \<open>A call that succeeds on a healthy engine, with a result that can be encoded, leaves its key answered.\<close>

lemma mutate_answers:
  assumes m: "leaves_invocations doApply" and call: "mcpMutate sha a tool k arguments doApply now t rnd (up d) = (Inr (toolSuccess v), w1)" and enc: "encode_value v \<noteq> None"
  shows "answered a k tool (sha arguments) (wdb w1)"
proof (cases rule: reserve_up [of a k tool "sha arguments" now d])
  case (other r d')
  with call show ?thesis by (auto simp: mcpMutate_def tryM_def returnM_def split: if_splits sum.splits prod.splits)
next
  case (fresh d1)
  have key: "operationKeyPattern k" using call by (auto simp: mcpMutate_def returnM_def split: if_splits)
  from m obtain x d2 where ap: "doApply (up d1) = (x, up d2)" and "t_invocations d2 = t_invocations d1" unfolding leaves_invocations_def by blast
  with fresh(2) have r2: "only_call a k tool (sha arguments) d2" by (simp add: only_call_def)
  show ?thesis
  proof (cases x)
    case (Inl e)
    with call key fresh(1) ap show ?thesis by (auto simp: mcpMutate_def tryM_def returnM_def split: prod.splits)
  next
    case (Inr y)
    obtain result effect where y: "y = (result, effect)" by fastforce
    let ?rec = "let runID = runIDFromArguments arguments in
      if effect \<noteq> [] \<and> runID \<noteq> [] \<and> tool \<noteq> ''notifications.set_state.v1''
      then tryM (RecordAgentRunEvent a runID tool effect (notificationIDFromResult result) t rnd) (\<lambda>_. returnM ()) else returnM ()"
    have rest: "mcpMutate sha a tool k arguments doApply now t rnd (up d) =
      bindM (case encode_value result of None \<Rightarrow> returnM () | Some _ \<Rightarrow> tryM (CompleteAgentToolInvocation a k (replayable result)) (\<lambda>_. returnM ())) (\<lambda>_.
      bindM ?rec (\<lambda>_. returnM (toolSuccess result))) (up d2)"
      using key fresh(1) ap by (simp add: mcpMutate_def tryM_def Inr y)
    have keep: "keeps (answered a k tool (sha arguments)) (bindM ?rec (\<lambda>_. returnM (toolSuccess result)))"
      unfolding Let_def by (intro keeps_intro keeps_record)
    have res: "sat (bindM ?rec (\<lambda>_. returnM (toolSuccess result))) d3 (\<lambda>r _. \<forall>v. r = Inr (toolSuccess v) \<longrightarrow> v = result)" for d3
      unfolding Let_def by (intro sat_intro sat_mono [OF sat_true]) (auto intro!: sat_intro split: sum.splits)
    show ?thesis
    proof (cases "encode_value result")
      case None
      with call rest satD [OF res, of "up d2"] enc show ?thesis by (auto simp: bindM_def returnM_def split: prod.splits sum.splits)
    next
      case (Some s)
      from complete_answers [OF r2, of "replayable result"] obtain d3
        where c: "CompleteAgentToolInvocation a k (replayable result) (up d2) = (Inr (), up d3)" and ans: "answered a k tool (sha arguments) d3" by blast
      with call rest Some have "bindM ?rec (\<lambda>_. returnM (toolSuccess result)) (up d3) = (Inr (toolSuccess v), w1)" by (simp add: bindM_def [of "tryM _ _"] tryM_def [of "CompleteAgentToolInvocation _ _ _"] returnM_def [of "()"])
      with keeps_run [OF keep, of "up d3"] ans show ?thesis by simp
    qed
  qed
qed

text \<open>C38: idempotent tools.  When a call with an idempotency key succeeds on a healthy engine, and its result can be encoded, its operation is not applied again under that
  key: whatever the agents do afterwards, for however long, and whatever statements fail, a further call with the key changes nothing in the database and never reports a new success; the
  stored result is returned only for the same tool and for arguments of the same fingerprint.\<close>

theorem tool_applied_once:
  assumes "leaves_invocations doApply"
    and "mcpMutate sha agent tool key arguments doApply now t rnd (up d) = (Inr (toolSuccess v), w1)" and "encode_value v \<noteq> None"
    and "mcpMutate sha agent tool' key arguments' doApply' now' t' rnd' (history (agent_exec sha) ops (w1\<lparr>faults := fs\<rparr>)) = (r, w')"
  shows "wdb w' = wdb (history (agent_exec sha) ops (w1\<lparr>faults := fs\<rparr>)) \<and>
    (\<exists>out. r = Inr out \<and> (\<forall>u. out \<noteq> toolSuccess u) \<and> (\<forall>u. out = toolReplay u \<longrightarrow> tool' = tool \<and> sha arguments' = sha arguments))"
proof -
  have "answered agent key tool (sha arguments) (wdb (w1\<lparr>faults := fs\<rparr>))" using mutate_answers [OF assms(1-3)] by simp
  from satD [OF mutate_answered [OF answered_keys.lasts_always [OF this]] assms(4)] show ?thesis by simp
qed

definition create_channel :: "(tool_value \<times> string) store" where
  "create_channel = returnM ([(''id'', Some (JStr ''c9'')), (''publishing_token'', Some (JStr ''s''))], [])"

definition first_call :: "tool_outcome store" where
  "first_call = mcpMutate id ''a1'' ''channels.create.v1'' ''key-0001'' ''{}'' create_channel 1 2 3"

text \<open>A first call is answered without the token in the stored result; the second does not run its operation, which would fail.\<close>

theorem tool_applied_once_witness:
  "fst (mcpMutate id ''a1'' ''channels.create.v1'' ''key-0001'' ''{}'' (failM ErrForbidden) 7 8 9 (history (agent_exec id) after_revocation (snd (first_call (up agent_db))))) =
     Inr (toolReplay (JObj [(''id'', JStr ''c9'')])) \<and>
   wdb (snd (mcpMutate id ''a1'' ''channels.create.v1'' ''key-0001'' ''{}'' (failM ErrForbidden) 7 8 9 (history (agent_exec id) after_revocation (snd (first_call (up agent_db)))))) =
     wdb (history (agent_exec id) after_revocation (snd (first_call (up agent_db))))"
proof -
  let ?v = "[(''id'', Some (JStr ''c9'')), (''publishing_token'', Some (JStr ''s''))]"
  have 0: "leaves_invocations create_channel" by (simp add: leaves_invocations_def create_channel_def returnM_def)
  define w where "w = snd (first_call (up agent_db))"
  define again where "again = mcpMutate id ''a1'' ''channels.create.v1'' ''key-0001'' ''{}'' (failM ErrForbidden) 7 8 9 (history (agent_exec id) after_revocation w)"
  have "fst (first_call (up agent_db)) = Inr (toolSuccess ?v)" "faults (snd (first_call (up agent_db))) = []" by code_simp+
  then have 1: "mcpMutate id ''a1'' ''channels.create.v1'' ''key-0001'' ''{}'' create_channel 1 2 3 (up agent_db) = (Inr (toolSuccess ?v), w)" and f: "w\<lparr>faults := []\<rparr> = w"
    by (simp_all add: prod_eq_iff w_def first_call_def)
  have 2: "encode_value ?v \<noteq> None" by code_simp
  have 3: "mcpMutate id ''a1'' ''channels.create.v1'' ''key-0001'' ''{}'' (failM ErrForbidden) 7 8 9 (history (agent_exec id) after_revocation (w\<lparr>faults := []\<rparr>)) = (fst again, snd again)"
    unfolding f by (simp add: again_def)
  have "fst again = Inr (toolReplay (JObj [(''id'', JStr ''c9'')]))" unfolding again_def w_def by code_simp
  with tool_applied_once [OF 0 1 2 3] f have "fst again = Inr (toolReplay (JObj [(''id'', JStr ''c9'')])) \<and> wdb (snd again) = wdb (history (agent_exec id) after_revocation w)" by simp
  then show ?thesis by (simp only: again_def w_def)
qed

text \<open>The healthy engine is needed.  When the statement that records the completion fails, the call is answered with success all the same; sixteen minutes later the
  reservation counts as abandoned, and a second call with the same key is applied again.\<close>

lemma completion_lost:
  "let first = first_call \<lparr>wdb = agent_db, faults = [False, False, True]\<rparr>;
       second = mcpMutate id ''a1'' ''channels.create.v1'' ''key-0001'' ''{}'' create_channel (16 * Minute) 2 3 (snd first)
   in (\<exists>v. fst first = Inr (toolSuccess v)) \<and> fst second = fst first"
proof -
  let ?v = "[(''id'', Some (JStr ''c9'')), (''publishing_token'', Some (JStr ''s''))]"
  have "fst (first_call \<lparr>wdb = agent_db, faults = [False, False, True]\<rparr>) = Inr (toolSuccess ?v)"
    "fst (mcpMutate id ''a1'' ''channels.create.v1'' ''key-0001'' ''{}'' create_channel (16 * Minute) 2 3 (snd (first_call \<lparr>wdb = agent_db, faults = [False, False, True]\<rparr>))) = Inr (toolSuccess ?v)"
    by code_simp+
  then show ?thesis by (simp add: Let_def)
qed

end
