(* ===== verification/Bridge.thy ===== *)
theory Bridge
  imports AgentQueue Json
begin

text \<open>
  The bridge between the command queue and the Codex runtime, in \<open>internal/agentbridge\<close>: \<open>runQueuedCommand\<close> of queue.go with the goroutine it starts
  (\<open>runTurn\<close>, \<open>waitUntilIdle\<close>, \<open>recoverTurn\<close>, \<open>completedReply\<close> of codex.go), and the polling mode of bridge.go with its state file.  The two threads
  are a transition system whose events carry the answers of the server and of the runtime, so that every interleaving and every failure is a list of
  events.  A call and its answer are one event; only the request that starts a turn and its answer are two.
\<close>

section \<open>Replies\<close>

record turn_item =
  It_Type :: string
  It_Text :: string
  It_Phase :: string

record turn =
  Tn_ID :: string
  Tn_Status :: string
  Tn_Error :: "string option"
  Tn_Items :: "turn_item list"

text \<open>What may have become of a turn: \<open>errTurnUnknown\<close>, a cancelled context, or another error with its text.\<close>

datatype turn_error = TurnUnknown | Canceled | TurnFailed string

text \<open>The loop over the items: the last message of the agent, and the last one that is a final answer.\<close>

fun last_messages :: "turn_item list \<Rightarrow> string \<times> string \<Rightarrow> string \<times> string" where
  "last_messages [] acc = acc"
| "last_messages (item # items) (fallback, final) =
     (if It_Type item \<noteq> ''agentMessage'' \<or> TrimSpace (It_Text item) = [] then last_messages items (fallback, final)
      else let fallback = TrimSpace (It_Text item) in
        last_messages items (fallback, if It_Phase item = ''final_answer'' then fallback else final))"

text \<open>The parameters are the thread and the turn of the event, if they decode.  The result is the reply, whether the event is about the turn, and the error.\<close>

definition completedReply :: "(string \<times> turn) option \<Rightarrow> string \<Rightarrow> string \<Rightarrow> string \<times> bool \<times> turn_error option" where
  "completedReply params threadID turnID =
     (case params of
        None \<Rightarrow> ([], False, None)
      | Some (thread, t) \<Rightarrow>
          if thread \<noteq> threadID \<or> Tn_ID t \<noteq> turnID then ([], False, None)
          else if Tn_Status t \<noteq> ''completed'' then
            ([], True, Some (TurnFailed (case Tn_Error t of
               Some m \<Rightarrow> if m \<noteq> [] then m else ''codex turn ended with status '' @ Tn_Status t
             | None \<Rightarrow> ''codex turn ended with status '' @ Tn_Status t)))
          else (case last_messages (Tn_Items t) ([], []) of (fallback, final) \<Rightarrow>
            if final \<noteq> [] then (final, True, None)
            else if fallback = [] then ([], True, Some (TurnFailed ''codex completed without an agent message''))
            else (fallback, True, None)))"

text \<open>A reply is cut to a number of bytes, at the end of a character.\<close>

fun cut_valid :: "string \<Rightarrow> nat \<Rightarrow> nat" where
  "cut_valid s 0 = 0"
| "cut_valid s (Suc n) = (if utf8 (take (Suc n) s) then Suc n else cut_valid s n)"

definition suffix_text :: string where
  "suffix_text = [CHR 0x0A, CHR 0x0A] @ ''[response truncated by Tintwire bridge]''"

definition limitMessage :: "string \<Rightarrow> nat \<Rightarrow> string" where
  "limitMessage value maximum =
     (let value = TrimSpace value in
      if length value \<le> maximum then value
      else TrimSpace (take (cut_valid value (maximum - length suffix_text)) value) @ suffix_text)"

section \<open>The run of a queued command\<close>

record queuedCommand =
  Qc_CancelRequested :: bool
  Qc_ID :: string
  Qc_MessageID :: string
  Qc_Author :: string
  Qc_Text :: string
  Qc_State :: string
  Qc_TurnID :: string

record bridge_config =
  Bc_Channel :: string
  Bc_ThreadID :: string

text \<open>Why \<open>runQueuedCommand\<close> returns an error.\<close>

datatype stop_reason = CallFailed | NoCommand | NoTurn | LeaseLost | UnknownTurn | NotPublished | ContextEnded

text \<open>The position of the main thread.  While it publishes, it holds the final state of the command, the result and the idempotency key, and counts its attempts.\<close>

datatype main_phase = Renewing | Interrupting | Selecting | Cancelling
  | Publishing string string string nat | PublishPause string string string nat | Returned "stop_reason option"

text \<open>The position of the goroutine: none or not yet; in \<open>recoverTurn\<close>; in \<open>waitUntilIdle\<close>; in \<open>runTurn\<close>; its outcome sent.\<close>

datatype turn_phase = NotStarted | Recovering string | RecoverPause string | CheckIdle | WaitIdle
  | StartTurn | AwaitStart | Recording string | Watching string | Stopping string turn_error | Finished

text \<open>The calls with an effect: \<open>commands.renew.v1\<close> with a turn, \<open>commands.complete.v1\<close>, \<open>turn/start\<close> with the message and the prompt,
  \<open>turn/interrupt\<close> with the turn and whether the runtime accepted it.\<close>

datatype bridge_call = CallRenew string | CallComplete string string string | CallStart string string | CallInterrupt string bool

record bridge_run =
  r_main :: main_phase
  r_turn :: turn_phase
  r_command :: queuedCommand
  r_cancelled :: bool
  r_turnID :: string
  r_started :: "string option"
  r_finished :: "(string \<times> turn_error option) option"
  r_stopped :: bool
  r_ctx_done :: bool
  r_calls :: "bridge_call list"

text \<open>A turn as \<open>thread/read\<close> lists it: identifier and status, and the rest of it if it decodes.\<close>

type_synonym raw_turn = "string \<times> string \<times> turn option"

text \<open>Events.  The answer to a renewal is \<open>None\<close> for an error.  Of the goroutine, \<open>TurnStatus\<close> answers the question for the status of the thread, \<open>StartIssued\<close>
  is the request for a turn, \<open>TurnRecorded\<close> the answer to the renewal with the new turn, \<open>TurnInterrupted\<close> the answer to its interrupt.\<close>

datatype event =
    ContextDone
  | Renewed "queuedCommand option option"
  | Interrupted bool
  | SelectDone
  | SelectStarted
  | Tick "queuedCommand option option"
  | SelectFinished string
  | Published bool
  | Waited
  | PublishDone
  | TurnRead "raw_turn list option"
  | TurnWaited
  | TurnCanceled
  | TurnStatus "turn_error + string"
  | StatusChanged string
  | RuntimeStopped string
  | StartIssued
  | StartAnswered "string option"
  | TurnRecorded bool
  | TurnCompleted "(string \<times> turn) option"
  | TurnInterrupted bool

definition calls_add :: "bridge_call \<Rightarrow> bridge_run \<Rightarrow> bridge_run" where
  "calls_add c r = r\<lparr>r_calls := r_calls r @ [c]\<rparr>"

text \<open>The deferred \<open>cancel\<close> stops the context of the turn when the function returns.\<close>

definition return_with :: "stop_reason option \<Rightarrow> bridge_run \<Rightarrow> bridge_run" where
  "return_with e r = r\<lparr>r_main := Returned e, r_stopped := True\<rparr>"

definition send_outcome :: "string \<times> turn_error option \<Rightarrow> bridge_run \<Rightarrow> bridge_run" where
  "send_outcome out r = r\<lparr>r_turn := Finished, r_finished := Some out\<rparr>"

definition prompt_of :: "bridge_config \<Rightarrow> queuedCommand \<Rightarrow> string" where
  "prompt_of cfg c = ''Tintwire message from @'' @ Qc_Author c @ '' in #'' @ Bc_Channel cfg @ '' (message '' @ Qc_MessageID c @ ''):'' @ [CHR 0x0A, CHR 0x0A] @ Qc_Text c"

definition initial_cancel :: "queuedCommand \<Rightarrow> bool" where
  "initial_cancel c \<longleftrightarrow> Qc_CancelRequested c \<or> Qc_State c = ''cancelling''"

text \<open>From the first renewal to the loop (lines 71 to 119).\<close>

definition begin_command :: "queuedCommand \<Rightarrow> bridge_run \<Rightarrow> bridge_run" where
  "begin_command c r0 =
     (let r = r0\<lparr>r_command := c, r_cancelled := initial_cancel c, r_turnID := Qc_TurnID c\<rparr> in
      if Qc_State c = ''interrupted'' \<or> Qc_TurnID c \<noteq> [] then
        if Qc_TurnID c = [] then return_with (Some NoTurn) r
        else if initial_cancel c then r\<lparr>r_main := Interrupting\<rparr>
        else r\<lparr>r_main := Selecting, r_turn := Recovering (Qc_TurnID c)\<rparr>
      else if Qc_State c = ''cancelling'' \<and> Qc_TurnID c = [] then
        r\<lparr>r_main := Selecting, r_finished := Some (''Cancelled before the runtime turn started.'', Some Canceled)\<rparr>
      else r\<lparr>r_main := Selecting, r_turn := CheckIdle\<rparr>)"

text \<open>The outcome of a turn becomes a state and a text to publish (lines 141 to 160).\<close>

definition error_text :: "turn_error \<Rightarrow> string" where
  "error_text e = (case e of TurnFailed m \<Rightarrow> m | Canceled \<Rightarrow> ''context canceled'' | TurnUnknown \<Rightarrow> ''runtime turn could not be reconciled; inspect the runtime before closing the interrupted command'')"

definition receive_outcome :: "string \<Rightarrow> string \<times> turn_error option \<Rightarrow> bridge_run \<Rightarrow> bridge_run" where
  "receive_outcome key out r0 =
     (let r = r0\<lparr>r_finished := None\<rparr>; (reply, e) = out in
      if r_ctx_done r then return_with (Some ContextEnded) r
      else if e = Some TurnUnknown then return_with (Some UnknownTurn) r
      else let (state, reply) = (case e of Some e \<Rightarrow> (''failed'', ''I couldn'' @ [CHR 0x27] @ ''t complete that turn: '' @ error_text e) | None \<Rightarrow> (''completed'', reply));
               (state, reply) = (if r_cancelled r \<or> e = Some Canceled then (''cancelled'', ''Agent command cancelled.'') else (state, reply)) in
        r\<lparr>r_main := Publishing state (limitMessage reply 4000) key 0\<rparr>)"

fun main_step :: "event \<Rightarrow> bridge_run \<Rightarrow> bridge_run option" where
  "main_step (Renewed x) r =
     (if r_main r \<noteq> Renewing then None
      else let r = calls_add (CallRenew []) r in
        Some (case x of None \<Rightarrow> return_with (Some CallFailed) r | Some None \<Rightarrow> return_with (Some NoCommand) r | Some (Some c) \<Rightarrow> begin_command c r))"
| "main_step (Interrupted ok) r =
     (if r_main r = Interrupting then
        let r = calls_add (CallInterrupt (Qc_TurnID (r_command r)) ok) r in
        Some (if ok then r\<lparr>r_main := Selecting, r_turn := Recovering (Qc_TurnID (r_command r))\<rparr> else return_with (Some CallFailed) r)
      else if r_main r = Cancelling then
        let r = calls_add (CallInterrupt (r_turnID r) ok) r in
        Some (if ok then r\<lparr>r_main := Selecting, r_cancelled := True, r_stopped := True\<rparr> else return_with (Some CallFailed) r)
      else None)"
| "main_step SelectDone r = (if r_main r = Selecting \<and> r_ctx_done r then Some (return_with (Some ContextEnded) r) else None)"
| "main_step SelectStarted r =
     (if r_main r \<noteq> Selecting then None
      else case r_started r of None \<Rightarrow> None | Some i \<Rightarrow> Some (r\<lparr>r_turnID := i, r_started := None\<rparr>))"
| "main_step (Tick x) r =
     (if r_main r \<noteq> Selecting then None
      else let r = calls_add (CallRenew []) r in
        Some (case x of
          None \<Rightarrow> return_with (Some LeaseLost) r
        | Some None \<Rightarrow> r
        | Some (Some c) \<Rightarrow>
            if Qc_State c = ''cancelling'' \<and> \<not> r_cancelled r then
              if r_turnID r \<noteq> [] then r\<lparr>r_main := Cancelling\<rparr> else r\<lparr>r_cancelled := True, r_stopped := True\<rparr>
            else r))"
| "main_step (SelectFinished key) r =
     (if r_main r \<noteq> Selecting then None
      else case r_finished r of None \<Rightarrow> None | Some out \<Rightarrow> Some (receive_outcome key out r))"
| "main_step (Published ok) r =
     (case r_main r of
        Publishing state result key attempt \<Rightarrow>
          let r = calls_add (CallComplete state result key) r in
          Some (if ok then return_with None r else r\<lparr>r_main := PublishPause state result key attempt\<rparr>)
      | _ \<Rightarrow> None)"
| "main_step Waited r =
     (case r_main r of
        PublishPause state result key attempt \<Rightarrow>
          Some (if attempt + 1 < 3 then r\<lparr>r_main := Publishing state result key (attempt + 1)\<rparr> else return_with (Some NotPublished) r)
      | _ \<Rightarrow> None)"
| "main_step PublishDone r =
     (case r_main r of
        PublishPause state result key attempt \<Rightarrow> if r_ctx_done r then Some (return_with (Some ContextEnded) r) else None
      | _ \<Rightarrow> None)"
| "main_step _ r = None"

text \<open>The goroutine.  Its context ends with that of the caller and when the main thread stops it.\<close>

definition turn_ctx_done :: "bridge_run \<Rightarrow> bool" where
  "turn_ctx_done r \<longleftrightarrow> r_stopped r \<or> r_ctx_done r"

definition recovered :: "string \<Rightarrow> string \<Rightarrow> raw_turn list option \<Rightarrow> bridge_run \<Rightarrow> bridge_run" where
  "recovered threadID turnID turns r =
     (case turns of
        None \<Rightarrow> send_outcome ([], Some TurnUnknown) r
      | Some ts \<Rightarrow>
          (case List.find (\<lambda>(i, _, _). i = turnID) ts of
             None \<Rightarrow> send_outcome ([], Some TurnUnknown) r
           | Some (_, status, full) \<Rightarrow>
               if status = ''inProgress'' then r\<lparr>r_turn := RecoverPause turnID\<rparr>
               else (case completedReply (map_option (Pair threadID) full) threadID turnID of (reply, _, e) \<Rightarrow> send_outcome (reply, e) r)))"

definition idle_status :: "string \<Rightarrow> string \<Rightarrow> bridge_run \<Rightarrow> bridge_run" where
  "idle_status words status r =
     (if status = ''idle'' then r\<lparr>r_turn := StartTurn\<rparr>
      else if status = ''active'' then r\<lparr>r_turn := WaitIdle\<rparr>
      else send_outcome ([], Some (TurnFailed (words @ status))) r)"

fun turn_step :: "bridge_config \<Rightarrow> event \<Rightarrow> bridge_run \<Rightarrow> bridge_run option" where
  "turn_step cfg (TurnRead turns) r =
     (case r_turn r of Recovering i \<Rightarrow> Some (recovered (Bc_ThreadID cfg) i turns r) | _ \<Rightarrow> None)"
| "turn_step cfg TurnWaited r = (case r_turn r of RecoverPause i \<Rightarrow> Some (r\<lparr>r_turn := Recovering i\<rparr>) | _ \<Rightarrow> None)"
| "turn_step cfg TurnCanceled r =
     (if \<not> turn_ctx_done r then None
      else case r_turn r of
        RecoverPause i \<Rightarrow> Some (send_outcome ([], Some Canceled) r)
      | WaitIdle \<Rightarrow> Some (send_outcome ([], Some Canceled) r)
      | Watching i \<Rightarrow> Some (r\<lparr>r_turn := Stopping i Canceled\<rparr>)
      | _ \<Rightarrow> None)"
| "turn_step cfg (TurnStatus x) r =
     (if r_turn r \<noteq> CheckIdle then None
      else case x of
        Inl e \<Rightarrow> if e = TurnUnknown \<or> e = Canceled \<and> \<not> turn_ctx_done r then None else Some (send_outcome ([], Some e) r)
      | Inr status \<Rightarrow> Some (idle_status ''codex thread is '' status r))"
| "turn_step cfg (StatusChanged status) r = (if r_turn r = WaitIdle then Some (idle_status ''codex thread became '' status r) else None)"
| "turn_step cfg (RuntimeStopped m) r =
     (case r_turn r of
        WaitIdle \<Rightarrow> Some (send_outcome ([], Some (TurnFailed m)) r)
      | Watching i \<Rightarrow> Some (send_outcome ([], Some TurnUnknown) r)
      | _ \<Rightarrow> None)"
| "turn_step cfg StartIssued r =
     (if r_turn r \<noteq> StartTurn then None
      else if turn_ctx_done r then Some (send_outcome ([], Some TurnUnknown) r)
      else Some (calls_add (CallStart (Qc_MessageID (r_command r)) (prompt_of cfg (r_command r))) (r\<lparr>r_turn := AwaitStart\<rparr>)))"
| "turn_step cfg (StartAnswered x) r =
     (if r_turn r \<noteq> AwaitStart then None
      else case x of
        None \<Rightarrow> Some (send_outcome ([], Some TurnUnknown) r)
      | Some i \<Rightarrow> Some (if i = [] then send_outcome ([], Some TurnUnknown) r else r\<lparr>r_turn := Recording i\<rparr>))"
| "turn_step cfg (TurnRecorded ok) r =
     (case r_turn r of
        Recording i \<Rightarrow>
          let r = calls_add (CallRenew i) r in
          Some (if ok then r\<lparr>r_started := Some i, r_turn := Watching i\<rparr> else r\<lparr>r_turn := Stopping i TurnUnknown\<rparr>)
      | _ \<Rightarrow> None)"
| "turn_step cfg (TurnCompleted params) r =
     (case r_turn r of
        Watching i \<Rightarrow> (case completedReply params (Bc_ThreadID cfg) i of (reply, matched, e) \<Rightarrow> Some (if matched then send_outcome (reply, e) r else r))
      | _ \<Rightarrow> None)"
| "turn_step cfg (TurnInterrupted ok) r =
     (case r_turn r of Stopping i e \<Rightarrow> Some (send_outcome ([], Some e) (calls_add (CallInterrupt i ok) r)) | _ \<Rightarrow> None)"
| "turn_step cfg _ r = None"

definition bridge_step :: "bridge_config \<Rightarrow> event \<Rightarrow> bridge_run \<Rightarrow> bridge_run option" where
  "bridge_step cfg e r =
     (if e = ContextDone then Some (r\<lparr>r_ctx_done := True\<rparr>)
      else case main_step e r of Some r' \<Rightarrow> Some r' | None \<Rightarrow> turn_step cfg e r)"

fun bridge_steps :: "bridge_config \<Rightarrow> event list \<Rightarrow> bridge_run \<Rightarrow> bridge_run option" where
  "bridge_steps cfg [] r = Some r"
| "bridge_steps cfg (e # es) r = (case bridge_step cfg e r of None \<Rightarrow> None | Some r' \<Rightarrow> bridge_steps cfg es r')"

definition runQueuedCommand :: "bridge_config \<Rightarrow> queuedCommand \<Rightarrow> event list \<Rightarrow> bridge_run option" where
  "runQueuedCommand cfg command es = bridge_steps cfg es
     \<lparr>r_main = Renewing, r_turn = NotStarted, r_command = command, r_cancelled = False, r_turnID = [], r_started = None, r_finished = None,
      r_stopped = False, r_ctx_done = False, r_calls = []\<rparr>"

section \<open>No turn is started twice, no result without an end\<close>

text \<open>The runtime reported the end of a turn: the event of its completion, or a listing in which it is no longer in progress.\<close>

definition ended :: "string \<Rightarrow> event list \<Rightarrow> bool" where
  "ended i es \<longleftrightarrow> (\<exists>thread t. TurnCompleted (Some (thread, t)) \<in> set es \<and> Tn_ID t = i) \<or>
     (\<exists>ts status full. TurnRead (Some ts) \<in> set es \<and> (i, status, full) \<in> set ts \<and> status \<noteq> ''inProgress'')"

definition turn_starts :: "bridge_run \<Rightarrow> nat" where
  "turn_starts r = length (filter (\<lambda>c. \<exists>m p. c = CallStart m p) (r_calls r))"

text \<open>The turns of a command: the recorded one, and the one the runtime answered with.\<close>

definition turn_known :: "string \<Rightarrow> event list \<Rightarrow> bridge_run \<Rightarrow> bool" where
  "turn_known i es r \<longleftrightarrow> i \<noteq> [] \<and> (i = Qc_TurnID (r_command r) \<or> StartAnswered (Some i) \<in> set es)"

text \<open>What is known of the turns of a command: there never was one; the runtime reported the end of one; it was asked to interrupt one.  The answer to the
  interrupt that \<open>runTurn\<close> sends on its way out is not looked at.\<close>

definition untouched :: "bridge_run \<Rightarrow> bool" where
  "untouched r \<longleftrightarrow> turn_starts r = 0 \<and> Qc_TurnID (r_command r) = []"

definition turn_over :: "event list \<Rightarrow> bridge_run \<Rightarrow> bool" where
  "turn_over es r \<longleftrightarrow> (\<exists>i. turn_known i es r \<and> ended i es)"

definition interrupted :: "event list \<Rightarrow> bridge_run \<Rightarrow> bool" where
  "interrupted es r \<longleftrightarrow> (\<exists>i. turn_known i es r \<and>
     (CallInterrupt i True \<in> set (r_calls r) \<or> CallInterrupt i False \<in> set (r_calls r) \<and> TurnInterrupted False \<in> set es))"

text \<open>What an outcome of the goroutine stands for, and what a published state stands for.\<close>

fun outcome_ok :: "turn_error option \<Rightarrow> event list \<Rightarrow> bridge_run \<Rightarrow> bool" where
  "outcome_ok None es r \<longleftrightarrow> turn_over es r"
| "outcome_ok (Some (TurnFailed m)) es r \<longleftrightarrow> untouched r \<or> turn_over es r"
| "outcome_ok (Some Canceled) es r \<longleftrightarrow> untouched r \<or> turn_over es r \<or> interrupted es r"
| "outcome_ok (Some TurnUnknown) es r \<longleftrightarrow> True"

definition accounted :: "string \<Rightarrow> event list \<Rightarrow> bridge_run \<Rightarrow> bool" where
  "accounted state es r \<longleftrightarrow> state = ''completed'' \<and> turn_over es r \<or> state = ''failed'' \<and> (untouched r \<or> turn_over es r) \<or>
     state = ''cancelled'' \<and> (untouched r \<or> turn_over es r \<or> interrupted es r)"

definition publications :: "bridge_run \<Rightarrow> bridge_call list" where
  "publications r = filter (\<lambda>c. \<exists>s t k. c = CallComplete s t k) (r_calls r)"

definition returned :: "bridge_run \<Rightarrow> bool" where
  "returned r \<longleftrightarrow> (\<exists>e. r_main r = Returned e)"

fun main_ok :: "event list \<Rightarrow> bridge_run \<Rightarrow> main_phase \<Rightarrow> bool" where
  "main_ok es r Renewing \<longleftrightarrow> \<not> r_stopped r \<and> r_started r = None \<and> r_turn r = NotStarted \<and> r_finished r = None \<and> turn_starts r = 0 \<and> publications r = []"
| "main_ok es r Interrupting \<longleftrightarrow> r_started r = None \<and> r_turn r = NotStarted \<and> r_finished r = None \<and> turn_starts r = 0 \<and> Qc_TurnID (r_command r) \<noteq> [] \<and>
     r_turnID r = Qc_TurnID (r_command r) \<and> publications r = []"
| "main_ok es r (Publishing s t k n) \<longleftrightarrow> n < 3 \<and> accounted s es r \<and> r_turn r \<in> {NotStarted, Finished} \<and> r_finished r = None \<and>
     publications r = replicate n (CallComplete s t k)"
| "main_ok es r (PublishPause s t k n) \<longleftrightarrow> n < 3 \<and> accounted s es r \<and> r_turn r \<in> {NotStarted, Finished} \<and> r_finished r = None \<and>
     publications r = replicate (Suc n) (CallComplete s t k)"
| "main_ok es r (Returned e) \<longleftrightarrow> r_stopped r \<and> (\<exists>s t k n. publications r = replicate n (CallComplete s t k) \<and> n \<le> 3 \<and>
     (n \<noteq> 0 \<longrightarrow> accounted s es r \<and> r_turn r \<in> {NotStarted, Finished}))"
| "main_ok es r p \<longleftrightarrow> publications r = []"

definition recover_ok :: "string \<Rightarrow> bridge_run \<Rightarrow> bool" where
  "recover_ok i r \<longleftrightarrow> turn_starts r = 0 \<and> i = Qc_TurnID (r_command r) \<and> i \<noteq> [] \<and> r_turnID r = i \<and> r_started r = None \<and> r_finished r = None \<and>
     (r_stopped r \<and> \<not> returned r \<longrightarrow> CallInterrupt i True \<in> set (r_calls r))"

definition started_ok :: "string \<Rightarrow> event list \<Rightarrow> bridge_run \<Rightarrow> bool" where
  "started_ok i es r \<longleftrightarrow> turn_starts r = 1 \<and> turn_known i es r \<and> Qc_TurnID (r_command r) = [] \<and> r_finished r = None"

fun turn_ok :: "event list \<Rightarrow> bridge_run \<Rightarrow> turn_phase \<Rightarrow> bool" where
  "turn_ok es r NotStarted \<longleftrightarrow> turn_starts r = 0 \<and> (\<forall>reply e. r_finished r = Some (reply, e) \<longrightarrow> outcome_ok e es r)"
| "turn_ok es r (Recovering i) \<longleftrightarrow> recover_ok i r"
| "turn_ok es r (RecoverPause i) \<longleftrightarrow> recover_ok i r"
| "turn_ok es r AwaitStart \<longleftrightarrow> turn_starts r = 1 \<and> Qc_TurnID (r_command r) = [] \<and> r_finished r = None"
| "turn_ok es r (Recording i) \<longleftrightarrow> started_ok i es r"
| "turn_ok es r (Watching i) \<longleftrightarrow> started_ok i es r"
| "turn_ok es r (Stopping i e) \<longleftrightarrow> started_ok i es r \<and> e \<in> {Canceled, TurnUnknown}"
| "turn_ok es r Finished \<longleftrightarrow> turn_starts r \<le> 1 \<and> (turn_starts r = 1 \<longrightarrow> Qc_TurnID (r_command r) = []) \<and>
     (\<forall>reply e. r_finished r = Some (reply, e) \<longrightarrow> outcome_ok e es r \<or> r_ctx_done r \<or> returned r)"
| "turn_ok es r _ \<longleftrightarrow> turn_starts r = 0 \<and> Qc_TurnID (r_command r) = [] \<and> r_finished r = None"

definition bridge_inv :: "event list \<Rightarrow> bridge_run \<Rightarrow> bool" where
  "bridge_inv es r \<longleftrightarrow> main_ok es r (r_main r) \<and> turn_ok es r (r_turn r) \<and>
     (turn_starts r = 1 \<longrightarrow> Qc_State (r_command r) \<notin> {''interrupted'', ''cancelling''}) \<and>
     (r_turn r \<in> {CheckIdle, WaitIdle, StartTurn} \<longrightarrow> Qc_State (r_command r) \<notin> {''interrupted'', ''cancelling''})"

lemma ended_more: "ended i es \<Longrightarrow> ended i (es @ [e])"
  unfolding ended_def by (elim disjE exE conjE) (auto, metis)

lemma turn_known_more: "turn_known i es r \<Longrightarrow> turn_known i (es @ [e]) r"
  by (auto simp: turn_known_def)

lemma turn_over_more: "turn_over es r \<Longrightarrow> turn_over (es @ [e]) r"
  unfolding turn_over_def by (blast intro: ended_more turn_known_more)

lemma interrupted_more: "interrupted es r \<Longrightarrow> interrupted (es @ [e]) r"
  unfolding interrupted_def by (elim exE conjE) (intro exI conjI, erule turn_known_more, auto)

lemma outcome_ok_more: "outcome_ok x es r \<Longrightarrow> outcome_ok x (es @ [e]) r"
  by (cases "(x, es, r)" rule: outcome_ok.cases) (auto intro: turn_over_more interrupted_more)

lemma accounted_more: "accounted st es r \<Longrightarrow> accounted st (es @ [e]) r"
  unfolding accounted_def by (blast intro: turn_over_more interrupted_more)

lemma starts_calls_add [simp]: "turn_starts (calls_add c r) = turn_starts r + (case c of CallStart m p \<Rightarrow> 1 | _ \<Rightarrow> 0)"
  by (cases c) (simp_all add: turn_starts_def calls_add_def)

lemma publications_calls_add [simp]: "publications (calls_add c r) = publications r @ (case c of CallComplete s t k \<Rightarrow> [c] | _ \<Rightarrow> [])"
  by (cases c) (simp_all add: publications_def calls_add_def)

lemma calls_add_simps [simp]:
  "r_main (calls_add c r) = r_main r" "r_turn (calls_add c r) = r_turn r" "r_command (calls_add c r) = r_command r" "r_cancelled (calls_add c r) = r_cancelled r"
  "r_turnID (calls_add c r) = r_turnID r" "r_started (calls_add c r) = r_started r" "r_finished (calls_add c r) = r_finished r" "r_stopped (calls_add c r) = r_stopped r"
  "r_ctx_done (calls_add c r) = r_ctx_done r" "r_calls (calls_add c r) = r_calls r @ [c]"
  by (simp_all add: calls_add_def)

lemma calls_unchanged [simp]:
  "turn_starts (r_main_update f r) = turn_starts r" "turn_starts (r_turn_update f1 r) = turn_starts r" "turn_starts (r_cancelled_update f2 r) = turn_starts r" "turn_starts (r_turnID_update f3 r) = turn_starts r"
  "turn_starts (r_started_update f4 r) = turn_starts r" "turn_starts (r_finished_update f5 r) = turn_starts r" "turn_starts (r_stopped_update f6 r) = turn_starts r" "turn_starts (r_ctx_done_update f7 r) = turn_starts r"
  "turn_starts (r_command_update f8 r) = turn_starts r"
  "publications (r_main_update f r) = publications r" "publications (r_turn_update f1 r) = publications r" "publications (r_cancelled_update f2 r) = publications r"
  "publications (r_turnID_update f3 r) = publications r" "publications (r_started_update f4 r) = publications r" "publications (r_finished_update f5 r) = publications r"
  "publications (r_stopped_update f6 r) = publications r" "publications (r_ctx_done_update f7 r) = publications r" "publications (r_command_update f8 r) = publications r"
  by (simp_all add: turn_starts_def publications_def)

lemma turn_known_unchanged [simp]:
  "turn_known i es (r_main_update f r) = turn_known i es r" "turn_known i es (r_turn_update f1 r) = turn_known i es r" "turn_known i es (r_cancelled_update f2 r) = turn_known i es r"
  "turn_known i es (r_turnID_update f3 r) = turn_known i es r" "turn_known i es (r_started_update f4 r) = turn_known i es r" "turn_known i es (r_finished_update f5 r) = turn_known i es r"
  "turn_known i es (r_stopped_update f6 r) = turn_known i es r" "turn_known i es (r_ctx_done_update f7 r) = turn_known i es r" "turn_known i es (calls_add c r) = turn_known i es r"
  by (simp_all add: turn_known_def)

lemma accounted_unchanged [simp]:
  "accounted st es (r_main_update f r) = accounted st es r" "accounted st es (r_turn_update f1 r) = accounted st es r" "accounted st es (r_cancelled_update f2 r) = accounted st es r" "accounted st es (r_turnID_update f3 r) = accounted st es r"
  "accounted st es (r_started_update f4 r) = accounted st es r" "accounted st es (r_finished_update f5 r) = accounted st es r" "accounted st es (r_stopped_update f6 r) = accounted st es r" "accounted st es (r_ctx_done_update f7 r) = accounted st es r"
  by (simp_all add: accounted_def untouched_def turn_over_def interrupted_def)

lemma outcome_ok_unchanged [simp]:
  "outcome_ok x es (r_main_update f r) = outcome_ok x es r" "outcome_ok x es (r_turn_update f1 r) = outcome_ok x es r" "outcome_ok x es (r_cancelled_update f2 r) = outcome_ok x es r" "outcome_ok x es (r_turnID_update f3 r) = outcome_ok x es r"
  "outcome_ok x es (r_started_update f4 r) = outcome_ok x es r" "outcome_ok x es (r_finished_update f5 r) = outcome_ok x es r" "outcome_ok x es (r_stopped_update f6 r) = outcome_ok x es r" "outcome_ok x es (r_ctx_done_update f7 r) = outcome_ok x es r"
  by (cases x; auto simp: untouched_def turn_over_def interrupted_def elim!: outcome_ok.elims intro: turn_error.exhaust)+

lemma known_calls_add:
  "\<forall>m p. c \<noteq> CallStart m p \<Longrightarrow> untouched r \<Longrightarrow> untouched (calls_add c r)" "turn_over es r \<Longrightarrow> turn_over es (calls_add c r)"
  "interrupted es r \<Longrightarrow> interrupted es (calls_add c r)"
  by (cases c; auto simp: untouched_def) (auto simp: turn_over_def interrupted_def)

lemma accounted_calls_add: "accounted st es r \<Longrightarrow> (\<forall>m p. c \<noteq> CallStart m p) \<Longrightarrow> accounted st es (calls_add c r)"
  unfolding accounted_def by (blast intro: known_calls_add)

lemma outcome_ok_calls_add: "outcome_ok x es r \<Longrightarrow> (\<forall>m p. c \<noteq> CallStart m p) \<Longrightarrow> outcome_ok x es (calls_add c r)"
  by (cases "(x, es, r)" rule: outcome_ok.cases) (auto intro: known_calls_add)

lemma main_ok_more: "main_ok es r p \<Longrightarrow> main_ok (es @ [e]) r p"
proof (cases p)
  case (Returned x)
  assume "main_ok es r p"
  with Returned show ?thesis by simp (blast intro: accounted_more)
qed (auto intro: accounted_more)

lemma turn_ok_more: "turn_ok es r p \<Longrightarrow> turn_ok (es @ [e]) r p"
  by (cases p) (auto simp: started_ok_def intro: outcome_ok_more turn_known_more)

lemma bridge_inv_more: "bridge_inv es r \<Longrightarrow> bridge_inv (es @ [e]) r"
  by (simp add: bridge_inv_def main_ok_more turn_ok_more)

lemma turn_ok_calls: "turn_ok es r p \<Longrightarrow> \<forall>m p. c \<noteq> CallStart m p \<Longrightarrow> turn_ok es (calls_add c r) p"
  by (cases p) (auto simp: recover_ok_def started_ok_def returned_def outcome_ok_calls_add split: bridge_call.splits)

lemma turn_ok_return: "turn_ok es r p \<Longrightarrow> turn_ok es (return_with e r) p"
  by (cases p) (auto simp: recover_ok_def started_ok_def returned_def return_with_def)

definition published :: "event list \<Rightarrow> bridge_run \<Rightarrow> bool" where
  "published es r \<longleftrightarrow> (\<exists>s t k n. publications r = replicate n (CallComplete s t k) \<and> n \<le> 3 \<and> (n \<noteq> 0 \<longrightarrow> accounted s es r \<and> r_turn r \<in> {NotStarted, Finished}))"

lemma publishedI: "publications r = replicate n (CallComplete s t k) \<Longrightarrow> n \<le> 3 \<Longrightarrow> accounted s es r \<Longrightarrow> r_turn r \<in> {NotStarted, Finished} \<Longrightarrow> published es r"
  unfolding published_def by blast

lemma published_none: "publications r = [] \<Longrightarrow> published es r"
  unfolding published_def by (rule exI, rule exI, rule exI, rule exI [of _ 0]) simp

lemma main_ok_published: "main_ok es r p \<Longrightarrow> published es r"
proof (cases p)
  case (PublishPause s t k n)
  assume "main_ok es r p"
  with PublishPause show ?thesis by (intro publishedI [of r "Suc n" s t k]) auto
next
  case (Publishing s t k n)
  assume "main_ok es r p"
  with Publishing show ?thesis by (intro publishedI [of r n s t k]) auto
qed (auto intro: published_none simp: published_def)

lemma main_ok_returned: "main_ok es r (Returned e) \<longleftrightarrow> r_stopped r \<and> published es r"
  by (simp add: published_def)

lemma published_unchanged [simp]:
  "published es (r_main_update f r) = published es r" "published es (r_stopped_update f6 r) = published es r" "published es (r_finished_update f5 r) = published es r"
  by (simp_all add: published_def)

lemma bridge_inv_return: "bridge_inv es r \<Longrightarrow> bridge_inv es (return_with e r)"
  using main_ok_published [of es r "r_main r"] turn_ok_return [of es r "r_turn r" e]
  by (simp add: bridge_inv_def return_with_def main_ok_returned del: main_ok.simps(5))

lemma main_ok_call: "main_ok es r p \<Longrightarrow> c = CallRenew i \<or> c = CallInterrupt i ok \<Longrightarrow> main_ok es (calls_add c r) p"
proof (cases p)
  case (Returned x)
  assume "main_ok es r p" and c: "c = CallRenew i \<or> c = CallInterrupt i ok"
  then have "accounted s es r \<Longrightarrow> accounted s es (calls_add c r)" for s by (auto intro: accounted_calls_add)
  with \<open>main_ok es r p\<close> c Returned show ?thesis by (auto simp del: replicate_eq_replicate; blast)
qed (auto simp: accounted_calls_add)

lemma bridge_inv_call: "bridge_inv es r \<Longrightarrow> c = CallRenew i \<or> c = CallInterrupt i ok \<Longrightarrow> bridge_inv es (calls_add c r)"
  using main_ok_call [of es r "r_main r" c i ok] turn_ok_calls [of es r "r_turn r" c]
  by (auto simp: bridge_inv_def)

lemma begin_inv:
  assumes "bridge_inv es r" "r_main r = Renewing"
  shows "bridge_inv es (begin_command c r)"
proof -
  let ?r = "r\<lparr>r_command := c, r_cancelled := initial_cancel c, r_turnID := Qc_TurnID c\<rparr>"
  have f: "\<not> r_stopped r" "r_started r = None" "r_turn r = NotStarted" "r_finished r = None" "turn_starts r = 0" "publications r = []"
    using assms by (auto simp: bridge_inv_def)
  consider "Qc_TurnID c = []" "Qc_State c = ''interrupted''" | "Qc_TurnID c \<noteq> []" "initial_cancel c" | "Qc_TurnID c \<noteq> []" "\<not> initial_cancel c"
    | "Qc_TurnID c = []" "Qc_State c = ''cancelling''" | "Qc_TurnID c = []" "Qc_State c \<noteq> ''cancelling''" "Qc_State c \<noteq> ''interrupted''" by blast
  then show ?thesis
  proof cases
    case 1
    have "bridge_inv es ?r" using f assms(2) by (simp add: bridge_inv_def)
    from bridge_inv_return [OF this] 1 show ?thesis by (simp add: begin_command_def)
  qed (use f in \<open>simp_all add: begin_command_def bridge_inv_def recover_ok_def untouched_def\<close>)
qed

lemma turn_ok_phase: "turn_ok es r p \<Longrightarrow> \<not> returned r \<Longrightarrow> turn_ok es (r\<lparr>r_main := m\<rparr>) p"
  by (cases p) (auto simp: recover_ok_def started_ok_def)

lemma turn_ok_stop: "turn_ok es r p \<Longrightarrow> r_turnID r = [] \<Longrightarrow> turn_ok es (r\<lparr>r_cancelled := True, r_stopped := True\<rparr>) p"
  by (cases p) (auto simp: recover_ok_def started_ok_def returned_def)

lemma turn_ok_received: "turn_ok es r p \<Longrightarrow> turn_ok es (r\<lparr>r_finished := None\<rparr>) p"
  by (cases p) (auto simp: recover_ok_def started_ok_def returned_def)

text \<open>An outcome is received from a goroutine that has ended, and stands for what is known of the turn.\<close>

lemma turn_ok_outcome:
  "turn_ok es r p \<Longrightarrow> r_turn r = p \<Longrightarrow> r_finished r = Some (reply, e) \<Longrightarrow> \<not> returned r \<Longrightarrow> \<not> r_ctx_done r \<Longrightarrow>
   outcome_ok e es r \<and> p \<in> {NotStarted, Finished}"
  by (cases p) (auto simp: recover_ok_def started_ok_def)

lemma receive_inv:
  assumes inv: "bridge_inv es r" and main: "r_main r = Selecting" and out: "r_finished r = Some out"
  shows "bridge_inv es (receive_outcome key out r)"
proof -
  obtain reply e where o: "out = (reply, e)" by (cases out)
  have r: "bridge_inv es (r\<lparr>r_finished := None\<rparr>)"
    using inv main turn_ok_received [of es r "r_turn r"] by (simp add: bridge_inv_def)
  show ?thesis
  proof (cases "r_ctx_done r \<or> e = Some TurnUnknown")
    case True
    with bridge_inv_return [OF r] show ?thesis by (auto simp: receive_outcome_def o Let_def)
  next
    case False
    have nr: "\<not> returned r" by (simp add: main returned_def)
    from False turn_ok_outcome [of es r "r_turn r" reply e] inv out nr
    have res: "outcome_ok e es r" "r_turn r \<in> {NotStarted, Finished}" by (auto simp: bridge_inv_def o)
    from r have t: "turn_ok es (r\<lparr>r_finished := None, r_main := m\<rparr>) (r_turn r)" for m
      using turn_ok_phase [of es "r\<lparr>r_finished := None\<rparr>" "r_turn r" m] nr by (simp add: bridge_inv_def returned_def)
    have pub: "bridge_inv es (r\<lparr>r_finished := None, r_main := Publishing s v key 0\<rparr>)" if "accounted s es r" for s v
      using inv main res t that by (simp add: bridge_inv_def)
    from False res(1) have "accounted ''cancelled'' es r" "e = None \<Longrightarrow> accounted ''completed'' es r" "\<exists>m. e = Some (TurnFailed m) \<Longrightarrow> accounted ''failed'' es r"
      by (cases "(e, es, r)" rule: outcome_ok.cases; auto simp: accounted_def)+
    with False pub show ?thesis by (cases "(e, es, r)" rule: outcome_ok.cases) (auto simp: receive_outcome_def o Let_def)
  qed
qed

lemma publish_inv:
  assumes inv: "bridge_inv es r" and main: "r_main r = Publishing s t k n"
  shows "bridge_inv es ((calls_add (CallComplete s t k) r)\<lparr>r_main := PublishPause s t k n\<rparr>)"
proof -
  have "accounted s es (calls_add (CallComplete s t k) r)" using inv main by (intro accounted_calls_add) (auto simp: bridge_inv_def)
  moreover have "publications (calls_add (CallComplete s t k) r) = replicate (Suc n) (CallComplete s t k)"
    using inv main by (simp add: bridge_inv_def replicate_append_same)
  moreover have "turn_ok es (calls_add (CallComplete s t k) r) (r_turn r)" using inv by (intro turn_ok_calls) (auto simp: bridge_inv_def)
  ultimately show ?thesis
    using inv main turn_ok_phase [of es "calls_add (CallComplete s t k) r" "r_turn r" "PublishPause s t k n"]
    by (auto simp: bridge_inv_def returned_def)
qed

lemma main_step_inv:
  assumes inv: "bridge_inv es r" and step: "main_step e r = Some r'"
  shows "bridge_inv es r'"
proof (cases e)
  case (Renewed x)
  with step have "r_main r = Renewing" by (auto split: if_splits)
  with Renewed step bridge_inv_return [OF bridge_inv_call [OF inv]] begin_inv [OF bridge_inv_call [OF inv]] show ?thesis
    by (auto simp: Let_def split: option.splits)
next
  case (Interrupted ok)
  show ?thesis
  proof (cases ok)
    case True
    from inv Interrupted step show ?thesis
      by (cases "r_turn r") (auto simp: True Let_def bridge_inv_def recover_ok_def started_ok_def outcome_ok_calls_add returned_def split: if_splits)
  next
    case False
    with Interrupted step bridge_inv_return [OF bridge_inv_call [OF inv]] show ?thesis by (auto simp: Let_def split: if_splits)
  qed
next
  case SelectDone
  with step bridge_inv_return [OF inv] show ?thesis by (auto split: if_splits)
next
  case SelectStarted
  with inv step show ?thesis
    by (cases "r_turn r") (auto simp: bridge_inv_def recover_ok_def started_ok_def returned_def split: if_splits option.splits)
next
  case (Tick x)
  have call: "bridge_inv es (calls_add (CallRenew []) r)" by (rule bridge_inv_call [OF inv]) simp
  from Tick step have main: "r_main r = Selecting" by (auto split: if_splits)
  have "bridge_inv es ((calls_add (CallRenew []) r)\<lparr>r_main := Cancelling\<rparr>)"
    using call main turn_ok_phase [of es "calls_add (CallRenew []) r" "r_turn r" Cancelling] by (simp add: bridge_inv_def returned_def)
  moreover have "r_turnID r = [] \<Longrightarrow> bridge_inv es ((calls_add (CallRenew []) r)\<lparr>r_cancelled := True, r_stopped := True\<rparr>)"
    using call main turn_ok_stop [of es "calls_add (CallRenew []) r" "r_turn r"] by (simp add: bridge_inv_def)
  ultimately show ?thesis using Tick step main call bridge_inv_return [OF call] by (auto simp: Let_def split: if_splits option.splits)
next
  case (SelectFinished key)
  with step receive_inv [OF inv] show ?thesis by (auto split: if_splits option.splits)
next
  case (Published ok)
  with step obtain s t k n where main: "r_main r = Publishing s t k n" by (auto split: main_phase.splits)
  note p = publish_inv [OF inv main]
  have "return_with None (calls_add (CallComplete s t k) r) = return_with None ((calls_add (CallComplete s t k) r)\<lparr>r_main := PublishPause s t k n\<rparr>)"
    by (simp add: return_with_def)
  with bridge_inv_return [OF p, of None] p Published step main show ?thesis by (auto simp: Let_def split: if_splits)
next
  case Waited
  with step obtain s t k n where main: "r_main r = PublishPause s t k n" by (auto split: main_phase.splits)
  have "n + 1 < 3 \<Longrightarrow> bridge_inv es (r\<lparr>r_main := Publishing s t k (n + 1)\<rparr>)"
    using inv main turn_ok_phase [of es r "r_turn r" "Publishing s t k (n + 1)"] by (simp add: bridge_inv_def returned_def)
  with Waited step main bridge_inv_return [OF inv] show ?thesis by (auto split: if_splits)
next
  case PublishDone
  with step bridge_inv_return [OF inv] show ?thesis by (auto split: main_phase.splits if_splits)
qed (use step in simp_all)

lemma send_outcome_simps [simp]:
  "r_turn (send_outcome out r) = Finished" "r_main (send_outcome out r) = r_main r" "r_stopped (send_outcome out r) = r_stopped r" "r_command (send_outcome out r) = r_command r"
  "turn_starts (send_outcome out r) = turn_starts r" "publications (send_outcome out r) = publications r"
  by (simp_all add: send_outcome_def)

text \<open>While the goroutine runs, nothing is published, and its steps leave the main thread alone.\<close>

lemma main_ok_turn:
  assumes "main_ok es r (r_main r)" "r_turn r \<notin> {NotStarted, Finished}" "r_main r' = r_main r" "r_stopped r' = r_stopped r" "publications r' = publications r"
  shows "main_ok es' r' (r_main r')"
proof (cases "r_main r")
  case (Returned e)
  with assms have "publications r' = []" "r_stopped r'" by (auto simp: published_def)
  with published_none [of r' es'] Returned assms(3) show ?thesis by (simp add: main_ok_returned del: main_ok.simps(5))
qed (use assms in auto)

lemma outcome_unknown: "turn_ok es r p \<Longrightarrow> p \<noteq> NotStarted \<Longrightarrow> turn_ok es' (send_outcome ([], Some TurnUnknown) r) Finished"
  by (cases p) (auto simp: recover_ok_def started_ok_def send_outcome_def)

lemma outcome_untouched:
  "turn_starts r = 0 \<Longrightarrow> Qc_TurnID (r_command r) = [] \<Longrightarrow> turn_ok es' (send_outcome (reply, Some e) r) Finished"
  by (cases e) (auto simp: send_outcome_def untouched_def)

lemma outcome_over: "turn_ok es r p \<Longrightarrow> p \<noteq> NotStarted \<Longrightarrow> turn_known i es' r \<Longrightarrow> ended i es' \<Longrightarrow> turn_ok es' (send_outcome (reply, e) r) Finished"
  by (cases p; cases "(e, es, r)" rule: outcome_ok.cases) (auto simp: recover_ok_def started_ok_def send_outcome_def turn_over_def turn_known_def)

lemma outcome_interrupted: "turn_ok es r p \<Longrightarrow> p \<noteq> NotStarted \<Longrightarrow> interrupted es' r \<Longrightarrow> turn_ok es' (send_outcome (reply, Some Canceled) r) Finished"
  by (cases p) (auto simp: recover_ok_def started_ok_def send_outcome_def interrupted_def turn_known_def)

lemma outcome_moot: "turn_ok es r p \<Longrightarrow> p \<noteq> NotStarted \<Longrightarrow> r_ctx_done r \<or> returned r \<Longrightarrow> turn_ok es' (send_outcome out r) Finished"
  by (cases p) (auto simp: recover_ok_def started_ok_def send_outcome_def returned_def)

lemma recovered_ok:
  assumes t: "turn_ok es r (Recovering i)"
  shows "turn_ok (es @ [TurnRead x]) (recovered thread i x r) (r_turn (recovered thread i x r))"
proof -
  have known: "turn_known i es' r" for es' using t by (auto simp: recover_ok_def turn_known_def)
  show ?thesis
  proof (cases x)
    case None
    with outcome_unknown [OF t] show ?thesis by (simp add: recovered_def del: turn_ok.simps(8))
  next
    case (Some ts)
    show ?thesis
    proof (cases "List.find (\<lambda>(j, _, _). j = i) ts")
      case None
      with Some outcome_unknown [OF t] show ?thesis by (simp add: recovered_def del: turn_ok.simps(8))
    next
      case (Some y)
      obtain status full where y: "y = (i, status, full)" "(i, status, full) \<in> set ts"
        using find_SomeD [OF Some] by (cases y) auto
      have "status \<noteq> ''inProgress'' \<Longrightarrow> ended i (es @ [TurnRead x])"
        using y(2) \<open>x = _\<close> unfolding ended_def by (intro disjI2 exI conjI) auto
      then have "status \<noteq> ''inProgress'' \<Longrightarrow> turn_ok (es @ [TurnRead x]) (send_outcome out r) Finished" for out
        using outcome_over [OF t _ known, of "es @ [TurnRead x]" "fst out" "snd out"] by simp
      with y Some \<open>x = _\<close> t show ?thesis
        by (cases "status = ''inProgress''") (auto simp: recovered_def recover_ok_def returned_def split: prod.splits simp del: turn_ok.simps(8))
    qed
  qed
qed

lemma idle_ok: "turn_ok es r p \<Longrightarrow> p \<in> {CheckIdle, WaitIdle} \<Longrightarrow> turn_ok es' (idle_status words status r) (r_turn (idle_status words status r))"
  using outcome_untouched [of r es' "[]" "TurnFailed (words @ status)"] by (auto simp: idle_status_def send_outcome_def)

lemma turn_step_frame:
  assumes "turn_step cfg e r = Some r'" "r_turn r = StartTurn \<longrightarrow> e \<noteq> StartIssued"
  shows "r_main r' = r_main r" "r_stopped r' = r_stopped r" "publications r' = publications r" "turn_starts r' = turn_starts r" "r_command r' = r_command r"
    "r_turn r \<notin> {NotStarted, Finished}"
  using assms
  by (cases e; auto simp: recovered_def idle_status_def send_outcome_def Let_def split: if_splits turn_phase.splits option.splits sum.splits prod.splits)+

lemma started_known: "turn_ok es r (Watching i) \<Longrightarrow> turn_known i (es @ [e]) r"
  by (simp add: started_ok_def turn_known_more)

lemma completed_matches: "completedReply params thread i = (reply, True, e) \<Longrightarrow> \<exists>t. params = Some (thread, t) \<and> Tn_ID t = i"
  by (auto simp: completedReply_def split: option.splits if_splits prod.splits)

lemma cancel_ok:
  assumes t: "turn_ok es r (RecoverPause i)" and "turn_ctx_done r"
  shows "turn_ok (es @ [e]) (send_outcome (reply, Some Canceled) r) Finished"
proof (cases "r_ctx_done r \<or> returned r")
  case True
  with outcome_moot [OF t] show ?thesis by blast
next
  case False
  with assms have "interrupted (es @ [e]) r" by (auto simp: recover_ok_def turn_ctx_done_def turn_known_def interrupted_def)
  with outcome_interrupted [OF t] show ?thesis by blast
qed

lemma interrupt_ok:
  assumes t: "turn_ok es r (Stopping i e)"
  shows "turn_ok (es @ [TurnInterrupted ok]) (send_outcome (reply, Some e) (calls_add (CallInterrupt i ok) r)) Finished"
proof -
  have c: "turn_ok es (calls_add (CallInterrupt i ok) r) (Stopping i e)" using t by (intro turn_ok_calls) auto
  have "interrupted (es @ [TurnInterrupted ok]) (calls_add (CallInterrupt i ok) r)"
    using t turn_known_more [of i es r "TurnInterrupted ok"] by (cases ok) (auto simp: started_ok_def interrupted_def)
  with c t outcome_interrupted [OF c] outcome_unknown [OF c] show ?thesis by (auto simp: send_outcome_def)
qed

lemma turn_step_ok:
  assumes t: "turn_ok es r (r_turn r)" and step: "turn_step cfg e r = Some r'"
  shows "turn_ok (es @ [e]) r' (r_turn r')"
proof (cases e)
  case (TurnRead x)
  with step obtain i where "r_turn r = Recovering i" "r' = recovered (Bc_ThreadID cfg) i x r" by (auto split: turn_phase.splits)
  with recovered_ok [of es r i x] t TurnRead show ?thesis by simp
next
  case TurnWaited
  with step t show ?thesis by (auto simp: recover_ok_def returned_def split: turn_phase.splits)
next
  case TurnCanceled
  with step t cancel_ok [of es r _ e] outcome_untouched [of r "es @ [e]"] show ?thesis
    by (auto simp: started_ok_def turn_known_more simp del: turn_ok.simps(2,3,8) split: turn_phase.splits if_splits)
next
  case (TurnStatus x)
  with step have p: "r_turn r = CheckIdle" by (auto split: if_splits)
  with TurnStatus step t idle_ok [of es r CheckIdle "es @ [e]"] outcome_untouched [of r "es @ [e]"] show ?thesis
    by (auto simp del: turn_ok.simps(8) split: sum.splits if_splits)
next
  case (StatusChanged status)
  with step t idle_ok [OF t] show ?thesis by (auto split: if_splits)
next
  case (RuntimeStopped m)
  with step t outcome_unknown [OF t, of "es @ [e]"] outcome_untouched [of r "es @ [e]"] show ?thesis
    by (auto simp del: turn_ok.simps(8) split: turn_phase.splits)
next
  case StartIssued
  with step t outcome_unknown [OF t, of "es @ [e]"] show ?thesis by (auto simp del: turn_ok.simps(8) split: if_splits)
next
  case (StartAnswered x)
  with step t outcome_unknown [OF t, of "es @ [e]"] show ?thesis
    by (auto simp: started_ok_def turn_known_def simp del: turn_ok.simps(8) split: if_splits option.splits)
next
  case (TurnRecorded ok)
  with step t show ?thesis by (auto simp: Let_def started_ok_def turn_known_more split: turn_phase.splits if_splits)
next
  case (TurnCompleted params)
  with step obtain i where p: "r_turn r = Watching i" by (auto split: turn_phase.splits)
  obtain reply m err where c: "completedReply params (Bc_ThreadID cfg) i = (reply, m, err)" using prod_cases3 by blast
  show ?thesis
  proof (cases m)
    case True
    then have "ended i (es @ [e])" using completed_matches [of params "Bc_ThreadID cfg" i reply err] c TurnCompleted by (auto simp: ended_def)
    with True outcome_over [OF t _ started_known] TurnCompleted step p t c show ?thesis by (auto simp del: turn_ok.simps(6,8))
  next
    case False
    with TurnCompleted step p t c turn_ok_more [OF t] show ?thesis by auto
  qed
next
  case (TurnInterrupted ok)
  with step t interrupt_ok [of es r _ _ ok] show ?thesis by (auto simp del: turn_ok.simps(7,8) split: turn_phase.splits)
qed (use step in simp_all)

lemma turn_step_publications: "turn_step cfg e r = Some r' \<Longrightarrow> r_main r' = r_main r \<and> r_stopped r' = r_stopped r \<and> publications r' = publications r \<and> r_command r' = r_command r \<and>
    r_turn r \<notin> {NotStarted, Finished}"
  by (cases e) (auto simp: recovered_def idle_status_def Let_def split: if_splits turn_phase.splits option.splits sum.splits prod.splits)

lemma turn_step_starts: "turn_step cfg e r = Some r' \<Longrightarrow> turn_starts r' = turn_starts r \<or> r_turn r = StartTurn \<and> turn_starts r' = Suc (turn_starts r)"
  by (cases e) (auto simp: recovered_def idle_status_def Let_def split: if_splits turn_phase.splits option.splits sum.splits prod.splits)

lemma turn_step_waits: "turn_step cfg e r = Some r' \<Longrightarrow> r_turn r' \<in> {CheckIdle, WaitIdle, StartTurn} \<Longrightarrow> r_turn r \<in> {CheckIdle, WaitIdle, StartTurn}"
  by (cases e) (auto simp: recovered_def idle_status_def Let_def split: if_splits turn_phase.splits option.splits sum.splits prod.splits)

lemma turn_ok_ctx_done: "turn_ok es r p \<Longrightarrow> turn_ok es (r\<lparr>r_ctx_done := True\<rparr>) p"
  by (cases p) (auto simp: recover_ok_def started_ok_def returned_def)

lemma main_ok_ctx_done: "main_ok es r p \<Longrightarrow> main_ok es (r\<lparr>r_ctx_done := True\<rparr>) p"
  by (cases p) auto

lemma bridge_step_inv:
  assumes inv: "bridge_inv es r" and step: "bridge_step cfg e r = Some r'"
  shows "bridge_inv (es @ [e]) r'"
proof (cases "e = ContextDone")
  case True
  with step inv have "bridge_inv es r'" by (auto simp: bridge_step_def bridge_inv_def turn_ok_ctx_done main_ok_ctx_done)
  then show ?thesis by (rule bridge_inv_more)
next
  case False
  show ?thesis
  proof (cases "main_step e r")
    case (Some x)
    with False step have "main_step e r = Some r'" by (simp add: bridge_step_def)
    then show ?thesis by (intro bridge_inv_more main_step_inv [OF inv])
  next
    case None
    with False step have turn: "turn_step cfg e r = Some r'" by (simp add: bridge_step_def)
    note frame = turn_step_publications [OF turn] turn_step_starts [OF turn] turn_step_waits [OF turn]
    have "turn_ok (es @ [e]) r' (r_turn r')" using inv by (intro turn_step_ok [OF _ turn]) (simp add: bridge_inv_def)
    moreover have "main_ok (es @ [e]) r' (r_main r')" 
      using inv [unfolded bridge_inv_def] frame(1) by (elim conjE) (rule main_ok_turn [of es r])
    moreover have "r_turn r = StartTurn \<Longrightarrow> turn_starts r = 0" using inv by (auto simp: bridge_inv_def)
    ultimately show ?thesis using inv frame unfolding bridge_inv_def by auto
  qed
qed

lemma bridge_steps_inv: "bridge_steps cfg es' r = Some r' \<Longrightarrow> bridge_inv es r \<Longrightarrow> bridge_inv (es @ es') r'"
proof (induction es' arbitrary: es r)
  case (Cons e es')
  then show ?case using bridge_step_inv [of es r cfg e] by (fastforce split: option.splits)
qed simp

lemma turn_ok_starts: "turn_ok es r p \<Longrightarrow> turn_starts r \<le> 1 \<and> (turn_starts r = 1 \<longrightarrow> Qc_TurnID (r_command r) = [])"
  by (cases p) (auto simp: recover_ok_def started_ok_def)

text \<open>C36: one run of the bridge.  Whatever the server and the runtime answer, and however the two threads interleave, a run of \<open>runQueuedCommand\<close> starts at most one turn, and none
  when the renewed command is interrupted, is being cancelled or already has a turn.  It publishes its result at most three times, with the same state, text and key each time.  It
  publishes completed only when the runtime reported the end of the turn; failed only when that happened or no turn was ever started; cancelled only in these cases or when the turn was
  interrupted.  The runtime accepted the interrupt, except where \<open>runTurn\<close> itself sends it on a cancelled context and ignores a failure.\<close>

theorem one_turn_one_result:
  assumes "runQueuedCommand cfg command es = Some r"
  shows "turn_starts r \<le> 1 \<and>
    (turn_starts r = 1 \<longrightarrow> Qc_TurnID (r_command r) = [] \<and> Qc_State (r_command r) \<notin> {''interrupted'', ''cancelling''}) \<and>
    (\<exists>state result key n. publications r = replicate n (CallComplete state result key) \<and> n \<le> 3 \<and> (n \<noteq> 0 \<longrightarrow> accounted state es r))"
proof -
  have "bridge_inv ([] @ es) r"
    using assms unfolding runQueuedCommand_def by (rule bridge_steps_inv) (simp add: bridge_inv_def turn_starts_def publications_def)
  then have inv: "bridge_inv es r" by simp
  then have "published es r" unfolding bridge_inv_def by (blast intro: main_ok_published)
  then have "\<exists>state result key n. publications r = replicate n (CallComplete state result key) \<and> n \<le> 3 \<and> (n \<noteq> 0 \<longrightarrow> accounted state es r)"
    unfolding published_def by blast
  with turn_ok_starts [of es r "r_turn r"] inv show ?thesis unfolding bridge_inv_def by blast
qed

definition queued_demo :: queuedCommand where
  "queued_demo = \<lparr>Qc_CancelRequested = False, Qc_ID = ''c1'', Qc_MessageID = ''m1'', Qc_Author = ''ada'', Qc_Text = ''build'', Qc_State = ''running'', Qc_TurnID = []\<rparr>"

definition demo_turn :: turn where
  "demo_turn = \<lparr>Tn_ID = ''t1'', Tn_Status = ''completed'', Tn_Error = None, Tn_Items = [\<lparr>It_Type = ''agentMessage'', It_Text = '' done '', It_Phase = []\<rparr>]\<rparr>"

text \<open>A turn runs to its end, and its result is published at the second attempt.\<close>

definition demo_events :: "event list" where
  "demo_events = [Renewed (Some (Some queued_demo)), TurnStatus (Inr ''idle''), StartIssued, StartAnswered (Some ''t1''), TurnRecorded True, SelectStarted, Tick (Some None),
     TurnCompleted (Some (''other'', demo_turn)), TurnCompleted (Some (''thread'', demo_turn)), SelectFinished ''key'', Published False, Waited, Published True]"

theorem one_turn_one_result_witness:
  "\<exists>r. runQueuedCommand \<lparr>Bc_Channel = ''ops'', Bc_ThreadID = ''thread''\<rparr> queued_demo demo_events = Some r \<and> r_main r = Returned None \<and>
     publications r = replicate 2 (CallComplete ''completed'' ''done'' ''key'') \<and> turn_starts r = 1 \<and> turn_over demo_events r"
proof -
  define x where "x = runQueuedCommand \<lparr>Bc_Channel = ''ops'', Bc_ThreadID = ''thread''\<rparr> queued_demo demo_events"
  have x: "map_option r_main x = Some (Returned None)" "map_option r_calls x = Some [CallRenew [], CallStart ''m1'' (prompt_of \<lparr>Bc_Channel = ''ops'', Bc_ThreadID = ''thread''\<rparr> queued_demo),
      CallRenew ''t1'', CallRenew [], CallComplete ''completed'' ''done'' ''key'', CallComplete ''completed'' ''done'' ''key'']"
    unfolding x_def by code_simp+
  then obtain r where r: "x = Some r" by (cases x) auto
  with x have p: "publications r = replicate 2 (CallComplete ''completed'' ''done'' ''key'')" "turn_starts r = 1"
    by (simp_all add: publications_def turn_starts_def numeral_2_eq_2)
  with one_turn_one_result [OF r [unfolded x_def]] have "\<exists>state result key n. replicate 2 (CallComplete ''completed'' ''done'' ''key'') = replicate n (CallComplete state result key) \<and> accounted state demo_events r"
    by (metis replicate_empty zero_neq_numeral)
  then have "turn_over demo_events r" by (auto simp: replicate_eq_replicate accounted_def)
  with r p x show ?thesis unfolding x_def by auto
qed

text \<open>The exception is real.  When the cancellation is seen before the main thread has learned of the new turn, only \<open>runTurn\<close> interrupts it; if the runtime
  refuses, the command is published as cancelled all the same, while the turn runs on.\<close>

lemma refused_interrupt_published:
  "map_option r_calls (runQueuedCommand \<lparr>Bc_Channel = ''ops'', Bc_ThreadID = ''thread''\<rparr> queued_demo
     [Renewed (Some (Some queued_demo)), TurnStatus (Inr ''idle''), StartIssued, StartAnswered (Some ''t1''), TurnRecorded True,
      Tick (Some (Some (queued_demo\<lparr>Qc_State := ''cancelling''\<rparr>))), TurnCanceled, TurnInterrupted False, SelectFinished ''key'', Published True]) =
   Some [CallRenew [], CallStart ''m1'' (prompt_of \<lparr>Bc_Channel = ''ops'', Bc_ThreadID = ''thread''\<rparr> queued_demo), CallRenew ''t1'', CallRenew [],
      CallInterrupt ''t1'' False, CallComplete ''cancelled'' ''Agent command cancelled.'' ''key'']"
  by code_simp

section \<open>The polling mode\<close>

record pendingReply =
  Pr_MessageID :: string
  Pr_Cursor :: string
  Pr_Text :: string

record bridgeState =
  Bs_Initialized :: bool
  Bs_Channel :: string
  Bs_ThreadID :: string
  Bs_Cursor :: string
  Bs_Pending :: "pendingReply option"

record feed_message =
  Fm_ID :: string
  Fm_Author :: string
  Fm_Text :: string
  Fm_Cursor :: string

record feed_page =
  Pg_Messages :: "feed_message list"
  Pg_NextCursor :: string
  Pg_HasMore :: bool

record poll_config =
  Pc_Channel :: string
  Pc_ThreadID :: string
  Pc_StatePath :: string
  Pc_ReplayExisting :: bool
  Pc_Once :: bool

text \<open>The world answers each external action: a page of the feed or an error, the reply of a turn or the text of its error, whether the state file was written, whether the
  server accepted a reply.  When the answers run out the process was killed there.  The state file survives; the log has the replies that were sent, with their
  message, text and key, and whether they were accepted.\<close>

datatype answer = Page "feed_page option" | Turn "string + string" | Save bool | Publish bool | Connected bool

record feed_world =
  fw_file :: "bridgeState option"
  fw_answers :: "answer list"
  fw_sent :: "(string \<times> string \<times> string \<times> bool) list"

text \<open>How a function ends: it returns, with an error or without, or the process is killed.\<close>

datatype ending = Fine | Error | Killed

definition saveState :: "bridgeState \<Rightarrow> feed_world \<Rightarrow> ending \<times> feed_world" where
  "saveState s w =
     (case fw_answers w of
        Save ok # as \<Rightarrow> if ok then (Fine, w\<lparr>fw_file := Some s, fw_answers := as\<rparr>) else (Error, w\<lparr>fw_answers := as\<rparr>)
      | _ \<Rightarrow> (Killed, w))"

definition PublishReply :: "string \<Rightarrow> string \<Rightarrow> string \<Rightarrow> feed_world \<Rightarrow> ending \<times> feed_world" where
  "PublishReply parentID words key w =
     (case fw_answers w of
        Publish ok # as \<Rightarrow> (if ok then Fine else Error, w\<lparr>fw_answers := as, fw_sent := fw_sent w @ [(parentID, words, key, ok)]\<rparr>)
      | _ \<Rightarrow> (Killed, w))"

definition publishPending :: "bridgeState \<Rightarrow> feed_world \<Rightarrow> ending \<times> bridgeState \<times> feed_world" where
  "publishPending s w =
     (case Bs_Pending s of
        None \<Rightarrow> (Fine, s, w)
      | Some p \<Rightarrow>
          (case PublishReply (Pr_MessageID p) (Pr_Text p) (''codex-reply-'' @ Pr_MessageID p) w of
             (Fine, w') \<Rightarrow>
               let s' = s\<lparr>Bs_Cursor := Pr_Cursor p, Bs_Pending := None\<rparr> in
               (case saveState s' w' of (r, w'') \<Rightarrow> (r, s', w''))
           | (r, w') \<Rightarrow> (r, s, w')))"

fun processPage :: "feed_message list \<Rightarrow> bridgeState \<Rightarrow> feed_world \<Rightarrow> ending \<times> bridgeState \<times> feed_world" where
  "processPage [] s w = (Fine, s, w)"
| "processPage (m # ms) s w =
     (case fw_answers w of
        Turn x # as \<Rightarrow>
          let w1 = w\<lparr>fw_answers := as\<rparr>;
              reply = limitMessage (case x of Inr t \<Rightarrow> t | Inl e \<Rightarrow> ''I couldn'' @ [CHR 0x27] @ ''t complete that turn: '' @ e) 4000 in
          if Fm_Cursor m = [] then (Error, s, w1)
          else let s1 = s\<lparr>Bs_Pending := Some \<lparr>Pr_MessageID = Fm_ID m, Pr_Cursor = Fm_Cursor m, Pr_Text = reply\<rparr>\<rparr> in
            (case saveState s1 w1 of
               (Fine, w2) \<Rightarrow>
                 (case publishPending s1 w2 of
                    (Fine, s2, w3) \<Rightarrow> processPage ms s2 w3
                  | r \<Rightarrow> r)
             | (r, w2) \<Rightarrow> (r, s1, w2))
      | _ \<Rightarrow> (Killed, s, w))"

text \<open>The loops of \<open>poll\<close> and \<open>Run\<close> use an answer in each round, so that the number of the answers and one more bounds their rounds.\<close>

fun poll :: "nat \<Rightarrow> bridgeState \<Rightarrow> feed_world \<Rightarrow> ending \<times> bridgeState \<times> feed_world" where
  "poll 0 s w = (Killed, s, w)"
| "poll (Suc n) s w =
     (case fw_answers w of
        Page None # as \<Rightarrow> (Error, s, w\<lparr>fw_answers := as\<rparr>)
      | Page (Some page) # as \<Rightarrow>
          (case processPage (Pg_Messages page) s (w\<lparr>fw_answers := as\<rparr>) of
             (Fine, s', w') \<Rightarrow> if Pg_HasMore page then poll n s' w' else (Fine, s', w')
           | r \<Rightarrow> r)
      | _ \<Rightarrow> (Killed, s, w))"

fun poll_loop :: "nat \<Rightarrow> poll_config \<Rightarrow> bridgeState \<Rightarrow> feed_world \<Rightarrow> ending \<times> bridgeState \<times> feed_world" where
  "poll_loop 0 cfg s w = (Killed, s, w)"
| "poll_loop (Suc n) cfg s w =
     (case poll (Suc (length (fw_answers w))) s w of
        (Killed, s', w') \<Rightarrow> (Killed, s', w')
      | (r, s', w') \<Rightarrow> if Pc_Once cfg then (r, s', w') else poll_loop n cfg s' w')"

definition first_page :: "poll_config \<Rightarrow> bridgeState \<Rightarrow> feed_world \<Rightarrow> ending \<times> bridgeState \<times> feed_world" where
  "first_page cfg s w =
     (case fw_answers w of
        Page None # as \<Rightarrow> (Error, s, w\<lparr>fw_answers := as\<rparr>)
      | Page (Some page) # as \<Rightarrow>
          let s = s\<lparr>Bs_Initialized := True\<rparr>; w = w\<lparr>fw_answers := as\<rparr> in
          if \<not> Pc_ReplayExisting cfg then let s = s\<lparr>Bs_Cursor := Pg_NextCursor page\<rparr> in (case saveState s w of (r, w') \<Rightarrow> (r, s, w'))
          else processPage (Pg_Messages page) s w
      | _ \<Rightarrow> (Killed, s, w))"

definition empty_state :: bridgeState where
  "empty_state = \<lparr>Bs_Initialized = False, Bs_Channel = [], Bs_ThreadID = [], Bs_Cursor = [], Bs_Pending = None\<rparr>"

definition Run :: "poll_config \<Rightarrow> feed_world \<Rightarrow> ending \<times> feed_world" where
  "Run cfg w0 =
     (let s = (case fw_file w0 of None \<Rightarrow> empty_state | Some s \<Rightarrow> s) in
      if TrimSpace (Pc_Channel cfg) = [] \<or> TrimSpace (Pc_ThreadID cfg) = [] \<or> TrimSpace (Pc_StatePath cfg) = [] then (Error, w0)
      else if Bs_Initialized s \<and> (Bs_Channel s \<noteq> Pc_Channel cfg \<or> Bs_ThreadID s \<noteq> Pc_ThreadID cfg) then (Error, w0)
      else case fw_answers w0 of
        Connected ok # as \<Rightarrow>
          let w = w0\<lparr>fw_answers := as\<rparr>; s = s\<lparr>Bs_Channel := Pc_Channel cfg, Bs_ThreadID := Pc_ThreadID cfg\<rparr> in
          if \<not> ok then (Error, w)
          else (case publishPending s w of
            (Fine, s1, w1) \<Rightarrow>
              (case (if Bs_Initialized s1 then (Fine, s1, w1) else first_page cfg s1 w1) of
                 (Fine, s2, w2) \<Rightarrow>
                   if \<not> Bs_Initialized s1 \<and> Pc_Once cfg then (Fine, w2)
                   else (case poll_loop (Suc (length (fw_answers w2))) cfg s2 w2 of (r, _, w3) \<Rightarrow> (r, w3))
               | (r, _, w2) \<Rightarrow> (r, w2))
          | (r, _, w1) \<Rightarrow> (r, w1))
      | _ \<Rightarrow> (Killed, w0))"

text \<open>The messages the feed offers, and the cursors that are reached: where the bridge started, or the cursor of a message whose reply the server accepted.\<close>

definition offered :: "answer list \<Rightarrow> (string \<times> string) set" where
  "offered as = {(Fm_ID m, Fm_Cursor m) | m page. Page (Some page) \<in> set as \<and> m \<in> set (Pg_Messages page)}"

definition reached :: "(string \<times> string) set \<Rightarrow> string set \<Rightarrow> feed_world \<Rightarrow> string \<Rightarrow> bool" where
  "reached offers froms w c \<longleftrightarrow> c \<in> froms \<or> (\<exists>i t k. (i, c) \<in> offers \<and> (i, t, k, True) \<in> set (fw_sent w))"

definition feed_inv :: "(string \<times> string) set \<Rightarrow> string set \<Rightarrow> bridgeState \<Rightarrow> feed_world \<Rightarrow> bool" where
  "feed_inv offers froms s w \<longleftrightarrow> reached offers froms w (Bs_Cursor s) \<and> (\<forall>p. Bs_Pending s = Some p \<longrightarrow> (Pr_MessageID p, Pr_Cursor p) \<in> offers) \<and>
     (\<forall>f. fw_file w = Some f \<longrightarrow> reached offers froms w (Bs_Cursor f)) \<and> offered (fw_answers w) \<subseteq> offers"

lemma offered_Cons: "offered (a # as) = (case a of Page (Some page) \<Rightarrow> (\<lambda>m. (Fm_ID m, Fm_Cursor m)) ` set (Pg_Messages page) | _ \<Rightarrow> {}) \<union> offered as"
  by (auto simp: offered_def split: answer.splits option.splits)

lemma feed_inv_answers: "feed_inv offers froms s w \<Longrightarrow> fw_answers w = a # as \<Longrightarrow> feed_inv offers froms s (w\<lparr>fw_answers := as\<rparr>)"
  by (auto simp: feed_inv_def offered_Cons reached_def)

lemma saveState_inv: "feed_inv offers froms s w \<Longrightarrow> saveState s w = (r, w') \<Longrightarrow> feed_inv offers froms s w'"
  by (auto simp: saveState_def feed_inv_def reached_def offered_Cons split: list.splits answer.splits if_splits)

lemma PublishReply_inv:
  "feed_inv offers froms s w \<Longrightarrow> PublishReply i t k w = (r, w') \<Longrightarrow> feed_inv offers froms s w' \<and> (r = Fine \<longrightarrow> (i, t, k, True) \<in> set (fw_sent w'))"
  by (auto simp: PublishReply_def feed_inv_def reached_def offered_Cons split: list.splits answer.splits if_splits)

lemma publishPending_inv:
  assumes inv: "feed_inv offers froms s w" and run: "publishPending s w = (r, s', w')"
  shows "feed_inv offers froms s' w'"
proof (cases "Bs_Pending s")
  case None
  with inv run show ?thesis by (simp add: publishPending_def)
next
  case (Some p)
  obtain q w1 where p: "PublishReply (Pr_MessageID p) (Pr_Text p) (''codex-reply-'' @ Pr_MessageID p) w = (q, w1)" by fastforce
  note pub = PublishReply_inv [OF inv p]
  show ?thesis
  proof (cases "q = Fine")
    case True
    let ?s = "s\<lparr>Bs_Cursor := Pr_Cursor p, Bs_Pending := None\<rparr>"
    have "feed_inv offers froms ?s w1" using pub True Some inv by (auto simp: feed_inv_def reached_def)
    from saveState_inv [OF this] run True Some p show ?thesis by (auto simp: publishPending_def Let_def split: prod.splits)
  next
    case False
    with pub run Some p show ?thesis by (cases q) (auto simp: publishPending_def)
  qed
qed

lemma processPage_inv:
  "feed_inv offers froms s w \<Longrightarrow> (\<lambda>m. (Fm_ID m, Fm_Cursor m)) ` set ms \<subseteq> offers \<Longrightarrow> processPage ms s w = (r, s', w') \<Longrightarrow> feed_inv offers froms s' w'"
proof (induction ms arbitrary: s w)
  case (Cons m ms)
  show ?case
  proof (cases "\<exists>x as. fw_answers w = Turn x # as")
    case False
    with Cons.prems show ?thesis by (auto split: list.splits answer.splits)
  next
    case True
    then obtain x as where as: "fw_answers w = Turn x # as" by blast
    define s1 where "s1 = s\<lparr>Bs_Pending := Some \<lparr>Pr_MessageID = Fm_ID m, Pr_Cursor = Fm_Cursor m,
      Pr_Text = limitMessage (case x of Inr t \<Rightarrow> t | Inl e \<Rightarrow> ''I couldn'' @ [CHR 0x27] @ ''t complete that turn: '' @ e) 4000\<rparr>\<rparr>"
    have w1: "feed_inv offers froms s (w\<lparr>fw_answers := as\<rparr>)" by (rule feed_inv_answers [OF Cons.prems(1) as])
    then have s1: "feed_inv offers froms s1 (w\<lparr>fw_answers := as\<rparr>)" using Cons.prems(2) by (auto simp: feed_inv_def s1_def)
    obtain q w2 where q: "saveState s1 (w\<lparr>fw_answers := as\<rparr>) = (q, w2)" by fastforce
    note w2 = saveState_inv [OF s1 q]
    obtain p s2 w3 where p: "publishPending s1 w2 = (p, s2, w3)" using prod_cases3 by blast
    note w3 = publishPending_inv [OF w2 p]
    have rest: "processPage ms s2 w3 = (r, s', w') \<Longrightarrow> ?thesis" using Cons.IH [OF w3] Cons.prems(2) by auto
    from Cons.prems(3) w1 w2 w3 rest show ?thesis
      unfolding processPage.simps as by (simp add: s1_def [symmetric] q p Let_def split: if_splits ending.splits)
  qed
qed simp

lemma poll_inv: "feed_inv offers froms s w \<Longrightarrow> poll n s w = (r, s', w') \<Longrightarrow> feed_inv offers froms s' w'"
proof (induction n arbitrary: s w)
  case (Suc n)
  show ?case
  proof (cases "\<exists>page as. fw_answers w = Page (Some page) # as")
    case False
    with Suc.prems show ?thesis by (auto dest: feed_inv_answers split: list.splits answer.splits option.splits)
  next
    case True
    then obtain page as where as: "fw_answers w = Page (Some page) # as" by blast
    obtain q s1 w1 where q: "processPage (Pg_Messages page) s (w\<lparr>fw_answers := as\<rparr>) = (q, s1, w1)" using prod_cases3 by blast
    have "(\<lambda>m. (Fm_ID m, Fm_Cursor m)) ` set (Pg_Messages page) \<subseteq> offers" using Suc.prems(1) as by (simp add: feed_inv_def offered_Cons)
    note w1 = processPage_inv [OF feed_inv_answers [OF Suc.prems(1) as] this q]
    from Suc.prems(2) Suc.IH [OF w1] w1 show ?thesis by (auto simp: as q split: ending.splits if_splits)
  qed
qed simp

lemma poll_loop_inv: "feed_inv offers froms s w \<Longrightarrow> poll_loop n cfg s w = (r, s', w') \<Longrightarrow> feed_inv offers froms s' w'"
proof (induction n arbitrary: s w)
  case (Suc n)
  obtain q s1 w1 where q: "poll (Suc (length (fw_answers w))) s w = (q, s1, w1)" using prod_cases3 by blast
  note w1 = poll_inv [OF Suc.prems(1) q]
  from Suc.prems(2) Suc.IH [OF w1] w1 show ?case unfolding poll_loop.simps q by (auto split: ending.splits if_splits)
qed simp

lemma first_page_inv:
  assumes inv: "feed_inv offers froms s w" and run: "first_page cfg s w = (r, s', w')"
    and "Pc_ReplayExisting cfg \<or> (\<forall>page as. fw_answers w = Page (Some page) # as \<longrightarrow> Pg_NextCursor page \<in> froms)"
  shows "feed_inv offers froms s' w'"
proof (cases "\<exists>page as. fw_answers w = Page (Some page) # as")
  case False
  with inv run show ?thesis by (auto simp: first_page_def dest: feed_inv_answers split: list.splits answer.splits option.splits)
next
  case True
  then obtain page as where as: "fw_answers w = Page (Some page) # as" by blast
  have "(\<lambda>m. (Fm_ID m, Fm_Cursor m)) ` set (Pg_Messages page) \<subseteq> offers" using inv as by (simp add: feed_inv_def offered_Cons)
  moreover have "feed_inv offers froms (s\<lparr>Bs_Initialized := True\<rparr>) (w\<lparr>fw_answers := as\<rparr>)" using feed_inv_answers [OF inv as] by (simp add: feed_inv_def)
  moreover have "\<not> Pc_ReplayExisting cfg \<Longrightarrow> feed_inv offers froms (s\<lparr>Bs_Initialized := True, Bs_Cursor := Pg_NextCursor page\<rparr>) (w\<lparr>fw_answers := as\<rparr>)"
    using feed_inv_answers [OF inv as] assms(3) by (auto simp: feed_inv_def reached_def as)
  ultimately show ?thesis using run by (auto simp: first_page_def as Let_def dest: processPage_inv saveState_inv split: if_splits prod.splits)
qed

text \<open>Publishing a pending reply leaves the pages of the feed as they are.\<close>

fun is_page :: "answer \<Rightarrow> bool" where
  "is_page (Page x) \<longleftrightarrow> True"
| "is_page _ \<longleftrightarrow> False"

lemma publishPending_pages: "publishPending s w = (r, s', w') \<Longrightarrow> filter is_page (fw_answers w') = filter is_page (fw_answers w)"
  by (auto simp: publishPending_def PublishReply_def saveState_def Let_def split: option.splits prod.splits list.splits answer.splits if_splits ending.splits)

definition file_state :: "feed_world \<Rightarrow> bridgeState" where
  "file_state w = (case fw_file w of None \<Rightarrow> empty_state | Some s \<Rightarrow> s)"

text \<open>What the feed may still offer: the messages of its pages, and the one whose reply is pending in the state file.\<close>

definition feed_offers :: "feed_world \<Rightarrow> (string \<times> string) set" where
  "feed_offers w = offered (fw_answers w) \<union> (case Bs_Pending (file_state w) of None \<Rightarrow> {} | Some p \<Rightarrow> {(Pr_MessageID p, Pr_Cursor p)})"

text \<open>Where a run starts: at the cursor of the state file, or, when it is the first and existing messages are not replayed, at the end of the first page.\<close>

definition feed_froms :: "poll_config \<Rightarrow> feed_world \<Rightarrow> string set" where
  "feed_froms cfg w = {Bs_Cursor (file_state w)} \<union>
     (if Bs_Initialized (file_state w) \<or> Pc_ReplayExisting cfg then {} else case filter is_page (fw_answers w) of Page (Some page) # _ \<Rightarrow> {Pg_NextCursor page} | _ \<Rightarrow> {})"

text \<open>C37: the polling bridge.  However a run ends, by an error or killed at any point, the cursor in the state file is where the run started, or the cursor of a message whose reply
  the server has accepted: no message is passed over without a reply.\<close>

theorem cursor_follows_replies:
  assumes "Run cfg w = (r, w')" and "fw_file w' = Some s"
  shows "reached (feed_offers w) (feed_froms cfg w) w' (Bs_Cursor s)"
proof -
  let ?O = "feed_offers w" let ?F = "feed_froms cfg w"
  let ?s = "(file_state w)\<lparr>Bs_Channel := Pc_Channel cfg, Bs_ThreadID := Pc_ThreadID cfg\<rparr>"
  have inv: "feed_inv ?O ?F ?s w"
    by (auto simp: feed_inv_def reached_def feed_offers_def feed_froms_def file_state_def empty_state_def split: option.splits)
  have "\<exists>s'. feed_inv ?O ?F s' w'"
  proof (cases "\<exists>as. fw_answers w = Connected True # as")
    case False
    with assms(1) inv show ?thesis by (auto simp: Run_def Let_def dest: feed_inv_answers split: if_splits list.splits answer.splits)
  next
    case True
    then obtain as where as: "fw_answers w = Connected True # as" by blast
    note w0 = feed_inv_answers [OF inv as]
    obtain q s1 w1 where q: "publishPending ?s (w\<lparr>fw_answers := as\<rparr>) = (q, s1, w1)" using prod_cases3 by blast
    note w1 = publishPending_inv [OF w0 q]
    have init: "Bs_Initialized s1 = Bs_Initialized (file_state w)"
      using q by (auto simp: publishPending_def Let_def split: option.splits prod.splits ending.splits)
    have begins: "\<not> Bs_Initialized s1 \<Longrightarrow> Pc_ReplayExisting cfg \<or> (\<forall>page bs. fw_answers w1 = Page (Some page) # bs \<longrightarrow> Pg_NextCursor page \<in> ?F)"
      using publishPending_pages [OF q, symmetric] by (auto simp: feed_froms_def init as)
    obtain p s2 w2 where p: "(if Bs_Initialized s1 then (Fine, s1, w1) else first_page cfg s1 w1) = (p, s2, w2)" using prod_cases3 by blast
    have w2: "feed_inv ?O ?F s2 w2" using p w1 first_page_inv [OF w1 _ begins] by (auto split: if_splits)
    obtain l s3 w3 where l: "poll_loop (Suc (length (fw_answers w2))) cfg s2 w2 = (l, s3, w3)" using prod_cases3 by blast
    note w3 = poll_loop_inv [OF w2 l]
    from assms(1) inv w1 w2 w3 show ?thesis
      unfolding Run_def Let_def file_state_def [symmetric] as
      by (auto simp: q p l simp del: poll_loop.simps split: if_splits ending.splits)
  qed
  with assms(2) show ?thesis by (auto simp: feed_inv_def)
qed

definition polled :: "feed_world" where
  "polled = \<lparr>fw_file = Some \<lparr>Bs_Initialized = True, Bs_Channel = ''ops'', Bs_ThreadID = ''thread'', Bs_Cursor = ''0'', Bs_Pending = None\<rparr>,
     fw_answers = [Connected True, Page (Some \<lparr>Pg_Messages = [\<lparr>Fm_ID = ''m1'', Fm_Author = ''ada'', Fm_Text = ''build'', Fm_Cursor = ''1''\<rparr>], Pg_NextCursor = ''1'', Pg_HasMore = False\<rparr>),
       Turn (Inr ''done''), Save True, Publish False,
       Page (Some \<lparr>Pg_Messages = [\<lparr>Fm_ID = ''m1'', Fm_Author = ''ada'', Fm_Text = ''build'', Fm_Cursor = ''1''\<rparr>], Pg_NextCursor = ''1'', Pg_HasMore = False\<rparr>),
       Turn (Inr ''done again''), Save True, Publish True, Save True], fw_sent = []\<rparr>"

definition poll_demo :: poll_config where
  "poll_demo = \<lparr>Pc_Channel = ''ops'', Pc_ThreadID = ''thread'', Pc_StatePath = ''s.json'', Pc_ReplayExisting = False, Pc_Once = False\<rparr>"

text \<open>When a reply is not accepted, or its acceptance is not heard of, the next round does not send it again: it runs another turn for the message and sends its reply under the same key.\<close>

lemma reply_text_changes:
  "fw_sent (snd (Run poll_demo polled)) = [(''m1'', ''done'', ''codex-reply-m1'', False), (''m1'', ''done again'', ''codex-reply-m1'', True)]"
  by code_simp

theorem cursor_follows_replies_witness:
  "map_option Bs_Cursor (fw_file (snd (Run poll_demo polled))) = Some ''1'' \<and> reached (feed_offers polled) (feed_froms poll_demo polled) (snd (Run poll_demo polled)) ''1''"
proof -
  have f: "map_option Bs_Cursor (fw_file (snd (Run poll_demo polled))) = Some ''1''" by code_simp
  then obtain s where s: "fw_file (snd (Run poll_demo polled)) = Some s" "Bs_Cursor s = ''1''" by (cases "fw_file (snd (Run poll_demo polled))") auto
  with f cursor_follows_replies [OF prod.collapse [symmetric] s(1)] show ?thesis by simp
qed

section \<open>The bridge and the queue\<close>

lemma length_strip: "length (strip_prefixes n ps s) \<le> length s"
proof (induction n arbitrary: s)
  case (Suc n)
  then show ?case by (auto split: option.splits intro: le_trans [OF Suc.IH])
qed simp

lemma length_TrimSpace: "length (TrimSpace s) \<le> length s"
  unfolding TrimSpace_def TrimLeftSpace_def Let_def length_rev by (metis length_rev length_strip order_trans)

lemma cut_valid_le: "cut_valid s n \<le> n"
  by (induction n) (auto simp: le_Suc_eq)

text \<open>A result that the bridge publishes is within the limit that \<open>CompleteAgentCommand\<close> has for it.\<close>

lemma limitMessage_bound: "length suffix_text \<le> maximum \<Longrightarrow> length (limitMessage value maximum) \<le> maximum"
  using length_TrimSpace [of "take (cut_valid (TrimSpace value) (maximum - length suffix_text)) (TrimSpace value)"] cut_valid_le [of "TrimSpace value" "maximum - length suffix_text"]
  by (auto simp: limitMessage_def Let_def)

lemma published_result_fits: "length (TrimSpace (limitMessage value 4000)) \<le> 4000"
proof -
  have "length suffix_text \<le> 4000" by (simp add: suffix_text_def)
  from limitMessage_bound [OF this] length_TrimSpace show ?thesis by (rule le_trans [rotated])
qed

text \<open>The command as the tool \<open>commands.claim.v1\<close> returns it.\<close>

definition queued_of :: "AgentCommand \<Rightarrow> queuedCommand" where
  "queued_of c = \<lparr>Qc_CancelRequested = Cmd_CancelRequested c, Qc_ID = Cmd_ID c, Qc_MessageID = Cmd_MessageID c, Qc_Author = Cmd_Author c, Qc_Text = Cmd_Text c,
     Qc_State = Cmd_State c, Qc_TurnID = Cmd_TurnID c\<rparr>"

text \<open>At the very millisecond at which a lease ends, \<open>ClaimAgentCommand\<close> leases the command again without marking it as interrupted (the condition there is \<open>lease_until < now\<close>), so that
  a second bridge starts a second turn for it; a millisecond later it is interrupted.\<close>

lemma lease_boundary:
  "map_sum id (map_option (\<lambda>c. r_turn (begin_command (queued_of c) \<lparr>r_main = Renewing, r_turn = NotStarted, r_command = queued_of c, r_cancelled = False, r_turnID = [],
       r_started = None, r_finished = None, r_stopped = False, r_ctx_done = False, r_calls = []\<rparr>)))
     (fst (ClaimAgentCommand demo_agent ''ops'' ''bridge-2'' (61 * Second) (up demo_claimed))) = Inr (Some CheckIdle)"
  "map_sum id (map_option Cmd_State) (fst (ClaimAgentCommand demo_agent ''ops'' ''bridge-2'' (61 * Second + 1000000) (up demo_claimed))) = Inr (Some ''interrupted'')"
  by code_simp+

end
