(* ===== verification/Spec2Isabelle.thy ===== *)
theory Spec2Isabelle
  imports ReplicationModel PostgresSql Migration SignIn Replication Monitors Agents Commands Bots ToolCalls Bridge
begin

text \<open>
  Verification of the Tintwire server.

  Tintwire receives notifications through webhooks, from Mattermost bots and from agents, keeps them with their lifecycle in a SQL database, shows them to readers in
  channels with messages and a merged timeline, lets operators act on them, queues commands for agents, and replicates its notifications between nodes.  The
  program is written in Go; the core of it is the package \<open>internal/store\<close>, whose operations are sequences of SQL statements inside and outside of transactions.
  This library models these operations one by one, the convergence model of \<open>internal/replication\<close>, the parts of \<open>internal/server\<close> that keep state of
  their own, and the bridge \<open>internal/agentbridge\<close> that connects the queue to a runtime.

  \<^bold>\<open>How the code is modelled\<close>

  \<^item> \<open>Prelude\<close>: an operation of the store is a function on a world that holds the database and a schedule of engine faults.  Every statement, every \<open>BeginTx\<close> and every
    \<open>Commit\<close> takes the next entry of the schedule and fails with \<open>ErrDatabase\<close> when it says so; a transaction that fails restores the database.  Theorems that do not fix
    the schedule hold for every failure at every point.  \<open>sat m d Q\<close> says that \<open>Q\<close> holds of the result and the database after \<open>m\<close> from \<open>d\<close>, under every schedule; \<open>keeps I m\<close>
    that \<open>m\<close> preserves \<open>I\<close>.  The rules \<open>sat_intro\<close> and \<open>keeps_intro\<close> carry the proofs of the components.  A clock reading is an argument, a \<open>time.Time\<close> is its nanoseconds,
    random bytes are arguments, \<open>int64\<close> columns are integers, identifiers with a random part are made by \<open>newID\<close> from 64-bit words.
  \<^item> \<open>Schema\<close>: a row of each table as a record, the database as a record of lists of rows in the order of insertion, and the constraints of each table (\<open>chk_users\<close> and so on:
    uniqueness, foreign keys, checks) as the condition under which an \<open>INSERT\<close> is refused.
  \<^item> Interfaces are locales: \<open>sql_table\<close> (what a statement does to a table; interpreted for users, channels, commands, notifications, schedules and sessions in \<open>Schema\<close>),
    \<open>lasting\<close> and \<open>lasting_always\<close> (a condition that the operations of a component keep lasts through every history of them; interpreted for sessions, administrators,
    revoked webhooks, the log, retired agents, reservations of actions, closed bot tokens and answered tool calls), \<open>replicated_merge\<close> (a merge that is
    commutative, associative and idempotent makes two nodes that exchange snapshots agree; interpreted in \<open>Replication\<close> for the merge of notifications).

  \<^bold>\<open>The theories, the code they model, and what they show\<close>

  \<^item> \<open>ReplicationModel\<close> (\<open>internal/replication/model.go\<close>): operations, \<open>Apply\<close>, \<open>Cursor\<close>, \<open>Snapshot\<close>, \<open>Merge\<close>.  Nodes that accept the same operations in any order agree; the
    exchange of snapshots makes two nodes equal; which merges are accepted; the loop of the cursor ends, at 64 bits.
  \<^item> \<open>PostgresSql\<close> (\<open>postgres_driver.go\<close>): the rewriting of statements.  Parameters are numbered in their order and texts, names and comments are left alone; the loop over
    positions that renames scalar functions is a recursion on the rest of the text.
  \<^item> \<open>Migration\<close> (\<open>Open\<close> and \<open>migrate\<close> of \<open>store.go\<close>, with the scripts of \<open>workflows.go\<close>, \<open>incidents.go\<close>, \<open>agent_presence.go\<close>): all statements of all versions on a model of the schema.
    However often a start is interrupted, the next one on a healthy engine completes the schema.
  \<^item> \<open>Access\<close>: the authorisation checks that the operations share.  \<open>Accounts\<close> (\<open>user_admin.go\<close>, users and sessions of \<open>store.go\<close>) and \<open>SignIn\<close> (OpenID Connect in \<open>store.go\<close>): no session of a
    disabled user, an administrator remains, a desktop handoff is exchanged once, the search for a user name ends.
  \<^item> \<open>Webhooks\<close> (\<open>store.go\<close>): channels, webhooks, policies, import.  A revoked token stays revoked; a dry run of an import tells what the import does, down to the message of a conflict.
  \<^item> \<open>Json\<close>: the part of \<open>encoding/json\<close> that the store uses, with the round trip of encoder and decoder.  \<open>OpLog\<close> (\<open>replication.go\<close>, \<open>control_replication.go\<close>): the log of local operations with its
    sequence numbers and hybrid clock, pruning, peers and metrics.  Sequence numbers are not used twice.
  \<^item> \<open>Notifications\<close> (\<open>store.go\<close>, \<open>incidents.go\<close>): ingestion, external keys, states, events, incidents.  Local operations move states along the lifecycle; an accepted payload lies where its webhook allows;
    a known external key updates.  \<open>Replication\<close> (\<open>replication.go\<close>, \<open>replication_snapshot.go\<close>): ranges, effects, quarantine, snapshots.  A logged creation adds the same row at another node; a range is
    applied once; an exchange of snapshots makes two nodes agree.
  \<^item> \<open>Inbox\<close> (\<open>store.go\<close>, \<open>timeline.go\<close>, \<open>incidents.go\<close>, \<open>notification_image.go\<close>): the query over notifications, unread counts, read marks, settings, push subscriptions.  A search finds exactly the values that
    contain its text; the unread total is the sum over the channels; marking everything as read leaves nothing unread.  \<open>Timeline\<close> (\<open>timeline.go\<close>): messages, threads and the pages of
    the merged timeline, equal to the pages of one sorted list; a repeated submission stores nothing.
  \<^item> \<open>Workflows\<close> (\<open>workflows.go\<close>, \<open>saved_views.go\<close>): quiet hours, schedules with leases, saved views, digests.  However the statements of several nodes interleave, a schedule has one
    holder at a time.  \<open>Monitors\<close> (\<open>monitors.go\<close>, \<open>delivery.go\<close>, \<open>desktop_alerts.go\<close>): a check of the monitors gives
    each the state its deadline asks for.
  \<^item> \<open>AgentQueue\<close> (\<open>agent_queue.go\<close>): the durable queue of commands.  At most one live lease in a channel, as long as messages arrive in the order of their times (without that it fails, \<open>late_arrival_breaks_exclusion\<close>); claims take the head; completions need a lease; finished commands stay; a claim
    makes progress.  \<open>Agents\<close> (\<open>agents.go\<close>, \<open>agent_presence.go\<close>, \<open>playground.go\<close>): agents, credentials, runs, invocations, presence.  \<open>Commands\<close> (\<open>store.go\<close>, \<open>slash_channel.go\<close>): actions and slash commands.
    \<open>Bots\<close> (\<open>mattermost_bot.go\<close>, \<open>store.go\<close>): bots, posts, reactions, approvals.
  \<^item> \<open>ToolCalls\<close> (\<open>mcp.go\<close> and \<open>auth.go\<close> of \<open>internal/server\<close>): the rate limiter, the lock on failed sign-ins, and \<open>mcpMutate\<close>, which wraps the operations of \<open>Agents\<close> around every mutating tool.
    Rates are bounded; a call that succeeded on a healthy engine is not applied again (when its completion is lost, it is: \<open>completion_lost\<close>).  The result of a tool is a map
    of values, as in most tools; a result that is a struct would be encoded in the order of its fields.
  \<^item> \<open>Bridge\<close> (\<open>internal/agentbridge\<close>): \<open>runQueuedCommand\<close> and its goroutine as a transition system over the answers of the server and the runtime, and the polling mode with its state file and with
    kills at any point.  In one run at most one turn for a command, and a result only with what is known of the turn; a second run may follow when the lease ends
    (\<open>lease_boundary\<close>), and a refused interrupt can be passed over (\<open>refused_interrupt_published\<close>).  The saved cursor never passes a message without an accepted reply.

  The components meet where the code makes them: \<open>Timeline\<close> enqueues commands of \<open>AgentQueue\<close>, \<open>Notifications\<close> and \<open>Replication\<close> append to \<open>OpLog\<close>, \<open>Workflows\<close> pages through the query of \<open>Inbox\<close>, \<open>Bots\<close>
  creates webhooks and messages, \<open>ToolCalls\<close> uses the invocations of \<open>Agents\<close>, and \<open>Bridge\<close> consumes the commands of \<open>AgentQueue\<close> (\<open>lease_boundary\<close>).

  \<^bold>\<open>Bounds\<close>

  \<^item> The decoder of \<open>Json\<close> is given \<open>2 * length s + 2\<close> calls; \<open>cost_length\<close> and \<open>Unmarshal_Marshal\<close> show that this suffices for what the encoder writes.  The nesting limit 10000 is that of the library.
  \<^item> The name search of \<open>FindOrCreateOIDCUser\<close> has fuel; one more than there are users suffices (\<open>free_username_ends\<close>).  The pages of a digest are bounded by the notifications and one more
    (\<open>digest_counts\<close>), the walk over a timeline likewise (\<open>timeline_complete\<close>).  The loops of the polling bridge use an answer in each round and are bounded by the answers.
  \<^item> Sequence numbers of the log and the cursors are natural numbers where the code has \<open>uint64\<close>, those of \<open>ReplicationModel\<close> words of 64 bits; \<open>LIKE\<close> is modelled for texts without NUL and patterns below the engine's length limit.

  \<^bold>\<open>Parameters\<close>

  SHA-256, bcrypt, the time zone database, \<open>json_extract\<close> of the engine, random bytes and clocks are arguments of the definitions.  Hypotheses on them are those of their documentation, and
  witnesses instantiate them.

  \<^bold>\<open>Not modelled\<close>

  \<^item> The HTTP handlers of \<open>internal/server\<close> except the parts named above, \<open>internal/replicationhttp\<close> and the programs under \<open>cmd\<close>: decoding of requests, routing, outgoing HTTP and web push on \<open>net/http\<close> and
    third-party packages.
  \<^item> \<open>internal/controlraft\<close> and the snapshots of \<open>control_replication.go\<close>: the Raft library is not part of the repository, and the snapshots copy tables whose columns are read from the database at run time.
  \<^item> The schema and the copy for PostgreSQL (\<open>postgres.go\<close>, \<open>postgres_migrate.go\<close>), backups, process handling and transport of the bridge, \<open>runQueue\<close>, and the heartbeat of its presence.
  \<^item> Interleavings of statements of different operations outside of transactions: an operation runs to its end before the next.  The exception are the claims of
    schedules, whose statements interleave in \<open>cluster_exec\<close>.
  \<^item> The JSON transport of a snapshot between two nodes (\<open>internal/replicationhttp\<close>): the snapshot that one node builds is handed to the other.
\<close>

end
